(* ===== verification/Js_Prelude.thy ===== *)
theory Js_Prelude
  imports Complex_Main "HOL-Library.Sublist" "HOL-Library.List_Lexorder" "HOL-Library.Char_ord"
begin

text \<open>
  What every component shares: the JavaScript strings, arrays and values the TypeScript
  sources compute with, and the generic lemmas about them.

  A JavaScript string is a \<^typ>\<open>string\<close>, one \<^typ>\<open>char\<close> per code unit, so the alphabet of
  the model is the code units 0 to 255 (Latin-1), where \<open>toLowerCase\<close> is written out exactly
  (\<open>lower_char\<close>).  The one character beyond it that the modelled code writes into a
  result, U+2026 (the ellipsis), is represented by the control code 0x85 that Windows-1252 gives
  it.  A JavaScript number is a \<^typ>\<open>rat\<close>, or an \<^typ>\<open>int\<close> or \<^typ>\<open>nat\<close> where the code only
  counts; rounding of doubles is not modelled.  An object is an association list in key order.
\<close>

named_theorems js_simps \<open>unfolding of the string and array operations\<close>

section \<open>Characters and case\<close>

definition lower_char :: "char \<Rightarrow> char" where
  "lower_char c =
     (let n = (of_char c :: nat) in
      if 65 \<le> n \<and> n \<le> 90 \<or> 192 \<le> n \<and> n \<le> 222 \<and> n \<noteq> 215 then char_of (n + 32) else c)"

definition to_lower :: "string \<Rightarrow> string" where
  "to_lower = map lower_char"

definition ascii_lower_char :: "char \<Rightarrow> char" where
  "ascii_lower_char c = (let n = (of_char c :: nat) in if 65 \<le> n \<and> n \<le> 90 then char_of (n + 32) else c)"

definition ascii_upper_char :: "char \<Rightarrow> char" where
  "ascii_upper_char c = (let n = (of_char c :: nat) in if 97 \<le> n \<and> n \<le> 122 then char_of (n - 32) else c)"

definition is_digit :: "char \<Rightarrow> bool" where
  "is_digit c = (CHR ''0'' \<le> c \<and> c \<le> CHR ''9'')"

definition is_az :: "char \<Rightarrow> bool" where
  "is_az c = (CHR ''a'' \<le> c \<and> c \<le> CHR ''z'')"

definition is_AZ :: "char \<Rightarrow> bool" where
  "is_AZ c = (CHR ''A'' \<le> c \<and> c \<le> CHR ''Z'')"

section \<open>Strings as lists\<close>

text \<open>\<open>s.startsWith(p)\<close> is \<^term>\<open>prefix p s\<close>, \<open>s.endsWith(p)\<close> is \<^term>\<open>suffix p s\<close> and
  \<open>s.includes(p)\<close> is \<^term>\<open>sublist p s\<close>; all three are executable in the library.\<close>

definition slice :: "nat \<Rightarrow> nat \<Rightarrow> 'a list \<Rightarrow> 'a list" where
  "slice i j xs = take (j - i) (drop i xs)"

text \<open>\<open>s.charAt(i)\<close>: the empty string past the end, here \<^const>\<open>None\<close>.\<close>

definition char_at :: "'a list \<Rightarrow> nat \<Rightarrow> 'a option" where
  "char_at s i = (if i < length s then Some (s ! i) else None)"

text \<open>\<open>s.indexOf(p)\<close>: where \<open>p\<close> first occurs, \<^const>\<open>None\<close> for -1.\<close>

fun index_of :: "'a list \<Rightarrow> 'a list \<Rightarrow> nat option" where
  "index_of p [] = (if p = [] then Some 0 else None)"
| "index_of p (c # s) = (if prefix p (c # s) then Some 0 else map_option Suc (index_of p s))"

text \<open>\<open>s.split(c)\<close> on one separator character: always at least one piece.\<close>

fun split_on :: "'a \<Rightarrow> 'a list \<Rightarrow> 'a list list" where
  "split_on c [] = [ [] ]"
| "split_on c (x # xs) =
     (if x = c then [] # split_on c xs
      else (case split_on c xs of [] \<Rightarrow> [ [x] ] | w # ws \<Rightarrow> (x # w) # ws))"

fun join_with :: "'a list \<Rightarrow> 'a list list \<Rightarrow> 'a list" where
  "join_with sep [] = []"
| "join_with sep [x] = x"
| "join_with sep (x # y # ys) = x @ sep @ join_with sep (y # ys)"

text \<open>\<open>s.trim()\<close>.\<close>

definition is_trim_space :: "char \<Rightarrow> bool" where
  "is_trim_space c \<longleftrightarrow> c \<in> {CHR 0x09, CHR 0x0A, CHR 0x0B, CHR 0x0C, CHR 0x0D, CHR 0x20, CHR 0xA0}"

definition trim :: "string \<Rightarrow> string" where
  "trim s = rev (dropWhile is_trim_space (rev (dropWhile is_trim_space s)))"

definition optional_char :: "char \<Rightarrow> string \<Rightarrow> string" where
  "optional_char c s = (case s of d # r \<Rightarrow> if d = c then r else s | [] \<Rightarrow> [])"

definition after_prefix :: "string \<Rightarrow> string \<Rightarrow> string option" where
  "after_prefix p s = (if prefix p s then Some (drop (length p) s) else None)"

text \<open>The first of several attempts that gives a value.\<close>

definition or_else :: "'a option \<Rightarrow> 'a option \<Rightarrow> 'a option" where
  "or_else a b = (case a of None \<Rightarrow> b | Some x \<Rightarrow> Some x)"

lemma or_else_simps [simp]: "or_else None b = b" "or_else (Some x) b = Some x"
  by (simp_all add: or_else_def)

definition first_some :: "('a \<Rightarrow> 'b option) \<Rightarrow> 'a list \<Rightarrow> 'b option" where
  "first_some f xs = foldr (\<lambda>x r. or_else (f x) r) xs None"

lemma first_some_simps [simp]: "first_some f [] = None" "first_some f (x # xs) = or_else (f x) (first_some f xs)"
  by (simp_all add: first_some_def)

section \<open>Arrays\<close>

text \<open>\<open>[...new Set(xs)]\<close>: the first occurrence of each element, in order.\<close>

definition uniq :: "'a list \<Rightarrow> 'a list" where
  "uniq xs = rev (remdups (rev xs))"

text \<open>\<open>xs.slice().sort().filter((p, i, all) => i === 0 || all[i - 1] !== p)\<close>\<close>

definition sort_dedup :: "'a::linorder list \<Rightarrow> 'a list" where
  "sort_dedup xs = remdups_adj (sort xs)"

text \<open>\<open>xs.slice(Math.max(0, xs.length - n))\<close>: the last \<open>n\<close> elements.\<close>

definition last_n :: "nat \<Rightarrow> 'a list \<Rightarrow> 'a list" where
  "last_n n xs = drop (length xs - n) xs"

section \<open>Numbers as text, and results that can fail\<close>

text \<open>\<open>`${n}`\<close> for a natural number.\<close>

fun nat_str :: "nat \<Rightarrow> string" where
  "nat_str n = (if n < 10 then [char_of (48 + n)] else nat_str (n div 10) @ [char_of (48 + n mod 10)])"

declare nat_str.simps [simp del]

text \<open>The number a text of decimal digits denotes.\<close>

definition digits_value :: "string \<Rightarrow> nat" where
  "digits_value s = foldl (\<lambda>n c. n * 10 + (of_char c - 48)) 0 s"

text \<open>A computation that throws is an \<^const>\<open>Inl\<close>; the rest of the body runs on an \<^const>\<open>Inr\<close>.\<close>

definition try_then :: "'err + 'a \<Rightarrow> ('a \<Rightarrow> 'err + 'c) \<Rightarrow> 'err + 'c" where
  "try_then r f = (case r of Inl e \<Rightarrow> Inl e | Inr x \<Rightarrow> f x)"

lemma try_then_simps [simp]: "try_then (Inl e) f = Inl e" "try_then (Inr x) f = f x"
  by (simp_all add: try_then_def)

lemma try_then_Inr: "try_then r f = Inr y \<longleftrightarrow> (\<exists>x. r = Inr x \<and> f x = Inr y)"
  by (cases r) simp_all

lemma try_then_Inl: "try_then r f = Inl e \<longleftrightarrow> r = Inl e \<or> (\<exists>x. r = Inr x \<and> f x = Inl e)"
  by (cases r) simp_all

text \<open>\<open>JSON.stringify\<close> of a string.\<close>

definition hex_digit :: "nat \<Rightarrow> char" where
  "hex_digit n = char_of (if n < 10 then 48 + n else 87 + n)"

definition json_char :: "char \<Rightarrow> string" where
  "json_char c =
     (let n = (of_char c :: nat) in
      if c = CHR 0x22 then [CHR 0x5C, CHR 0x22]
      else if c = CHR 0x5C then [CHR 0x5C, CHR 0x5C]
      else if n = 8 then [CHR 0x5C, CHR ''b'']
      else if n = 9 then [CHR 0x5C, CHR ''t'']
      else if n = 10 then [CHR 0x5C, CHR ''n'']
      else if n = 12 then [CHR 0x5C, CHR ''f'']
      else if n = 13 then [CHR 0x5C, CHR ''r'']
      else if n < 32 then CHR 0x5C # ''u00'' @ [hex_digit (n div 16), hex_digit (n mod 16)]
      else [c])"

definition json_quote :: "string \<Rightarrow> string" where
  "json_quote s = [CHR 0x22] @ concat (map json_char s) @ [CHR 0x22]"

section \<open>JSON values\<close>

datatype json =
    JNull
  | JBool bool
  | JNum rat
  | JStr string
  | JArr "json list"
  | JObj "(string \<times> json) list"

fun json_field :: "json \<Rightarrow> string \<Rightarrow> json option" where
  "json_field (JObj kvs) k = map_of kvs k"
| "json_field _ k = None"

fun json_strings :: "json \<Rightarrow> string list" where
  "json_strings (JArr xs) = List.map_filter (\<lambda>v. case v of JStr s \<Rightarrow> Some s | _ \<Rightarrow> None) xs"
| "json_strings _ = []"

text \<open>\<open>JSON.stringify\<close>, and \<open>s.includes_str(m)\<close>.\<close>

fun stringify :: "(rat \<Rightarrow> string) \<Rightarrow> json \<Rightarrow> string" where
  "stringify numStr JNull = ''null''"
| "stringify numStr (JBool b) = (if b then ''true'' else ''false'')"
| "stringify numStr (JNum r) = numStr r"
| "stringify numStr (JStr s) = json_quote s"
| "stringify numStr (JArr xs) = ''['' @ join_with '','' (map (stringify numStr) xs) @ '']''"
| "stringify numStr (JObj kvs) = ''{'' @ join_with '','' (map (\<lambda>(k, v). json_quote k @ '':'' @ stringify numStr v) kvs) @ ''}''"

definition includes_str :: "string \<Rightarrow> string \<Rightarrow> bool" where
  "includes_str s m \<longleftrightarrow> index_of m s \<noteq> None"

text \<open>\<open>toolInput ?? {}\<close>.\<close>

definition or_object :: "json option \<Rightarrow> json" where
  "or_object v = (case v of None \<Rightarrow> JObj [] | Some JNull \<Rightarrow> JObj [] | Some w \<Rightarrow> w)"

section \<open>Lemmas\<close>

lemma hex_digit_graph: "n < 16 \<Longrightarrow> hex_digit n \<noteq> CHR 0x0A \<and> hex_digit n \<noteq> CHR 0x0D"
proof -
  have "list_all (\<lambda>n. hex_digit n \<noteq> CHR 0x0A \<and> hex_digit n \<noteq> CHR 0x0D) [0..<16]" by code_simp
  then show "n < 16 \<Longrightarrow> ?thesis" by (simp add: list_all_iff)
qed

lemma json_char_one_line: "CHR 0x0A \<notin> set (json_char c) \<and> CHR 0x0D \<notin> set (json_char c)"
proof -

  have "c \<noteq> CHR 0x0A \<and> c \<noteq> CHR 0x0D" if "(of_char c :: nat) \<noteq> 10" "(of_char c :: nat) \<noteq> 13" using that by auto
  moreover have "of_char c div 16 < (16::nat)" if "of_char c < (32::nat)" using that by auto
  moreover have "of_char c mod 16 < (16::nat)" by simp
  ultimately show ?thesis
    using hex_digit_graph [of "of_char c div 16"] hex_digit_graph [of "of_char c mod 16"]
    by (auto simp: json_char_def Let_def)
qed

text \<open>A quoted string stays on its line.\<close>

lemma json_quote_one_line [simp]: "CHR 0x0A \<notin> set (json_quote s)" "CHR 0x0D \<notin> set (json_quote s)"
  using json_char_one_line by (auto simp: json_quote_def)

lemma length_to_lower [simp]: "length (to_lower s) = length s"
  by (simp add: to_lower_def)

lemma set_uniq [simp]: "set (uniq xs) = set xs"
  by (simp add: uniq_def)

lemma distinct_uniq [simp]: "distinct (uniq xs)"
  by (simp add: uniq_def)

lemma set_sort_dedup [simp]: "set (sort_dedup xs) = set xs"
  by (simp add: sort_dedup_def)

lemma sorted_sort_dedup [simp]: "sorted (sort_dedup xs)"
  by (simp add: sort_dedup_def sorted_remdups_adj)

lemma sorted_remdups_adj_distinct: "sorted xs \<Longrightarrow> distinct (remdups_adj xs)"
  by (induction xs rule: remdups_adj.induct) (auto simp: le_less)

lemma distinct_sort_dedup [simp]: "distinct (sort_dedup xs)"
  by (simp add: sort_dedup_def sorted_remdups_adj_distinct)

lemma length_last_n [simp]: "length (last_n n xs) = min n (length xs)"
  by (simp add: last_n_def)

lemma set_last_n_subset: "set (last_n n xs) \<subseteq> set xs"
  by (simp add: last_n_def set_drop_subset)

lemma last_n_all: "length xs \<le> n \<Longrightarrow> last_n n xs = xs"
  by (simp add: last_n_def)

lemma last_n_append_last_n: "last_n n (last_n n xs @ ys) = last_n n (xs @ ys)"
  by (cases "length xs \<le> n") (auto simp: last_n_def add.commute)

lemma split_on_nonempty [simp]: "split_on c s \<noteq> []"
  by (induction s) (auto split: list.splits)

lemma join_split_on: "join_with [c] (split_on c s) = s"
proof (induction s)
  case (Cons x s)
  obtain w ws where "split_on c s = w # ws"
    by (cases "split_on c s") auto
  with Cons show ?case
    by (cases ws) auto
qed simp

lemma split_on_append: "split_on c (s @ c # r) = split_on c s @ split_on c r"
  by (induction s) (auto split: list.splits)

lemma split_on_no_sep: "c \<notin> set s \<Longrightarrow> split_on c s = [s]"
  by (induction s) auto

lemma split_on_join:
  "xs \<noteq> [] \<Longrightarrow> \<forall>x\<in>set xs. c \<notin> set x \<Longrightarrow> split_on c (join_with [c] xs) = xs"
  by (induction "[c]" xs rule: join_with.induct) (auto simp: split_on_no_sep split_on_append)

lemma split_on_pieces: "w \<in> set (split_on c s) \<Longrightarrow> c \<notin> set w"
  by (induction s arbitrary: w) (auto split: list.splits if_splits)

lemma join_with_append:
  "xs \<noteq> [] \<Longrightarrow> ys \<noteq> [] \<Longrightarrow> join_with sep (xs @ ys) = join_with sep xs @ sep @ join_with sep ys"
proof (induction sep xs rule: join_with.induct)
  case (2 sep x)
  then show ?case by (cases ys) auto
qed auto

lemma split_on_eq_append:
  assumes "split_on c t = split_on c s @ ws" and "ws \<noteq> []"
  shows "t = s @ c # join_with [c] ws"
proof -
  have "t = join_with [c] (split_on c s @ ws)"
    using join_split_on [of c t] assms(1) by simp
  with assms(2) show ?thesis by (simp add: join_with_append join_split_on)
qed

lemma prefix_split_on_iff:
  "prefix (split_on c s) (split_on c t) \<longleftrightarrow> t = s \<or> (\<exists>r. t = s @ c # r)"
proof
  assume "prefix (split_on c s) (split_on c t)"
  then obtain ws where ws: "split_on c t = split_on c s @ ws"
    by (auto simp: prefix_def)
  show "t = s \<or> (\<exists>r. t = s @ c # r)"
  proof (cases "ws = []")
    case True
    with ws have "split_on c t = split_on c s" by simp
    then have "t = s" by (metis join_split_on)
    then show ?thesis ..
  next
    case False
    with ws show ?thesis by (auto dest: split_on_eq_append)
  qed
qed (auto simp: split_on_append)

lemma take_append_sep_iff: "take (length s + 1) t = s @ [c] \<longleftrightarrow> (\<exists>r. t = s @ c # r)"
proof
  assume "take (length s + 1) t = s @ [c]"
  then have "t = (s @ [c]) @ drop (length s + 1) t"
    by (metis append_take_drop_id)
  then show "\<exists>r. t = s @ c # r" by auto
qed auto

lemma index_of_Some: "index_of p s = Some i \<Longrightarrow> take (length p) (drop i s) = p \<and> i + length p \<le> length s"
proof (induction p s arbitrary: i rule: index_of.induct)
  case (2 p c s)
  then show ?case
    by (cases p) (auto split: if_splits simp: prefix_def)
qed (auto split: if_splits)

lemma index_of_None: "index_of p s = None \<longleftrightarrow> \<not> sublist p s"
  by (induction p s rule: index_of.induct) (auto simp: sublist_Cons_right)

section \<open>Numbers in keys\<close>

lemma nat_str_not_nil: "nat_str n \<noteq> ''''"
  by (subst nat_str.simps) simp

lemma nat_str_digits: "set (nat_str n) \<subseteq> char_of ` {48..57::nat}"
proof (induction n rule: nat_str.induct)
  case (1 n)
  have "char_of (48 + n mod 10) \<in> char_of ` {48..57::nat}" by (intro imageI) simp
  with 1 show ?case by (subst nat_str.simps) auto
qed

lemma digit_inj: "a < 10 \<Longrightarrow> b < 10 \<Longrightarrow> char_of (48 + a) = (char_of (48 + b) :: char) \<Longrightarrow> a = (b::nat)"
  using of_char_of [where 'a = nat, of "48 + a"] of_char_of [where 'a = nat, of "48 + b"] by simp

lemma nat_str_inj: "nat_str m = nat_str n \<Longrightarrow> m = n"
proof (induction m arbitrary: n rule: less_induct)
  case (less m)
  show ?case
  proof (cases "m < 10 \<or> n < 10")
    case True
    with less.prems show ?thesis
      by (cases "m < 10"; cases "n < 10") (auto simp: nat_str.simps [of m] nat_str.simps [of n] nat_str_not_nil nat_str_not_nil [symmetric] digit_inj)
  next
    case False
    with less.prems have "nat_str (m div 10) @ [char_of (48 + m mod 10)] = nat_str (n div 10) @ [char_of (48 + n mod 10)]"
      by (simp add: nat_str.simps [of m] nat_str.simps [of n])
    then have "nat_str (m div 10) = nat_str (n div 10)" and r: "m mod 10 = n mod 10"
      by (auto dest: digit_inj [rotated 2])
    moreover have "m div 10 < m" using False by simp
    ultimately have "m div 10 = n div 10" using less.IH by blast
    with r show ?thesis by (metis mult_div_mod_eq)
  qed
qed


lemma sep_eq: "c \<notin> set a \<Longrightarrow> c \<notin> set b \<Longrightarrow> a @ c # r = b @ c # r' \<longleftrightarrow> a = b \<and> r = r'"
proof (induction a arbitrary: b)
  case Nil
  then show ?case by (cases b) auto
next
  case (Cons x a)
  then show ?case by (cases b) auto
qed

lemma colon_nat_str: "CHR '':'' \<notin> set (nat_str n)"
proof
  assume "CHR '':'' \<in> set (nat_str n)"
  then obtain m :: nat where "m \<in> {48..57}" "CHR '':'' = char_of m" using nat_str_digits by blast
  then have "of_char (CHR '':'') = (m :: nat)" by (simp add: of_char_of)
  with \<open>m \<in> {48..57}\<close> show False by simp
qed

lemma digits_value_nat_str [simp]: "digits_value (nat_str n) = n"
  by (induction n rule: nat_str.induct)
    (subst nat_str.simps, auto simp: digits_value_def)

lemma is_digit_char_of: "(n::nat) < 10 \<Longrightarrow> is_digit (char_of (48 + n))"
  by (simp add: is_digit_def less_eq_char_def of_char_of)

lemma digits_nat_str [simp]: "list_all is_digit (nat_str n)"
  by (induction n rule: nat_str.induct)
    (subst nat_str.simps, simp add: is_digit_char_of)

lemma includes_iff: "includes_str s m \<longleftrightarrow> sublist m s"
  by (simp add: includes_str_def index_of_None)

end
