(* ===== verification/Lanes.thy ===== *)
theory Lanes
  imports Js_Prelude
begin

text \<open>
  Reversibility lanes (\<open>packages/shared-types/src/lanes.ts\<close>): the class of every action
  token, the tokens a set of SOPs and the workspace hold for a person, and the hold rules a
  held token compiles to.  A lane class is a datatype; where the source compares the class
  names written in a SOP (\<open>closed_lanes:\<close>) it is compared by its name.
\<close>

section \<open>Classes and tokens\<close>

datatype LaneClass = Irreversible | Reversible_wide | Reversible_contained

fun lane_name :: "LaneClass \<Rightarrow> string" where
  "lane_name Irreversible = ''irreversible''"
| "lane_name Reversible_wide = ''reversible_wide''"
| "lane_name Reversible_contained = ''reversible_contained''"

definition TOKEN_CLASS :: "(string \<times> LaneClass) list" where
  "TOKEN_CLASS =
   [ (''action:deploy'', Reversible_wide),
     (''action:publish'', Irreversible),
     (''action:release'', Reversible_wide),
     (''action:db_write'', Reversible_wide),
     (''action:secret_read'', Reversible_contained),
     (''action:http_post'', Reversible_wide),
     (''action:pii_export'', Reversible_contained),
     (''action:run_tests'', Reversible_contained),
     (''action:migrate'', Reversible_wide),
     (''action:prod_write'', Reversible_wide),
     (''action:destroy'', Irreversible),
     (''action:force_push'', Irreversible),
     (''action:payment'', Irreversible)]"

definition LANE_PHRASES :: "(string \<times> string list) list" where
  "LANE_PHRASES =
   [ (''action:deploy'',
      [''git push'', ''kubectl apply'', ''kubectl rollout'', ''helm upgrade'',
       ''helm install'', ''terraform apply'', ''docker push'', ''serverless deploy'',
       ''fly deploy'', ''vercel deploy'', ''gcloud run deploy'', ''aws deploy'',
       ''aws s3 sync'', ''eb deploy'']),
     (''action:publish'',
      [''npm publish'', ''pnpm publish'', ''yarn publish'', ''cargo publish'',
       ''twine upload'', ''poetry publish'', ''gem push'', ''docker manifest push'']),
     (''action:release'',
      [''gh release create'', ''git tag'', ''npm version'', ''cargo release'',
       ''goreleaser release'', ''semantic-release'']),
     (''action:db_write'',
      [''insert into'', ''update '', ''delete from'', ''drop table'', ''drop database'',
       ''drop schema'', ''truncate '', ''alter table'']),
     (''action:http_post'',
      [''curl -x post'', ''curl --request post'', ''curl -d '', ''curl --data'',
       ''wget --post'', ''http post'']),
     (''action:run_tests'',
      [''npm test'', ''npm run test'', ''pnpm test'', ''pnpm run test'', ''yarn test'',
       ''cargo test'', ''go test'', ''pytest'', ''python -m pytest'', ''vitest'', ''jest'',
       ''mocha'', ''rspec'', ''phpunit'', ''make test'', ''gradle test'', ''mvn test'',
       ''dotnet test'', ''bazel test'', ''tox'']),
     (''action:migrate'',
      [''prisma migrate deploy'', ''prisma db push'', ''alembic upgrade'',
       ''alembic downgrade'', ''rails db:migrate'', ''rake db:migrate'', ''manage.py migrate'',
       ''flyway migrate'', ''liquibase update'', ''knex migrate:latest'',
       ''sequelize db:migrate'']),
     (''action:prod_write'',
      [''--prod'', ''rails_env=production'', ''node_env=production'', ''--context prod'',
       ''--namespace production'', ''-n production'', ''--environment production'',
       ''--stage prod'']),
     (''action:destroy'',
      [''terraform destroy'', ''kubectl delete'', ''helm uninstall'', ''helm delete'',
       ''drop table'', ''drop database'', ''drop schema'', ''truncate '', ''aws s3 rb'',
       ''aws s3 rm'']),
     (''action:force_push'',
      [''git push --force'', ''git push -f'']),
     (''action:payment'',
      [''api.stripe.com/v1/charges'', ''api.stripe.com/v1/payment_intents'',
       ''api.stripe.com/v1/transfers'', ''api.stripe.com/v1/payouts'',
       ''api.stripe.com/v1/refunds'', ''stripe charges create'',
       ''stripe payment_intents create'', ''stripe transfers create'',
       ''stripe payouts create'', ''api-m.paypal.com/v2/payments'',
       ''api.paypal.com/v1/payments''])]"

definition tokenLane :: "string \<Rightarrow> LaneClass option" where
  "tokenLane token = map_of TOKEN_CLASS token"

definition tokensOfClass :: "LaneClass \<Rightarrow> string list" where
  "tokensOfClass cls = filter (\<lambda>t. tokenLane t = Some cls) (map fst TOKEN_CLASS)"

text \<open>The strength order of the decide log's \<open>lane\<close>: irreversible is the strongest.\<close>

fun lane_rank :: "LaneClass \<Rightarrow> nat" where
  "lane_rank Reversible_contained = 0"
| "lane_rank Reversible_wide = 1"
| "lane_rank Irreversible = 2"

instantiation LaneClass :: linorder
begin

definition less_eq_LaneClass :: "LaneClass \<Rightarrow> LaneClass \<Rightarrow> bool" where
  "less_eq_LaneClass a b \<longleftrightarrow> lane_rank a \<le> lane_rank b"

definition less_LaneClass :: "LaneClass \<Rightarrow> LaneClass \<Rightarrow> bool" where
  "less_LaneClass a b \<longleftrightarrow> lane_rank a < lane_rank b"

instance
proof
  fix a b :: LaneClass
  show "a \<le> b \<Longrightarrow> b \<le> a \<Longrightarrow> a = b"
    by (cases a; cases b) (simp_all add: less_eq_LaneClass_def)
qed (auto simp: less_eq_LaneClass_def less_LaneClass_def)

end

text \<open>The loop of \<open>laneOf\<close>, with its early return and its running best.\<close>

fun laneOf_loop :: "LaneClass option \<Rightarrow> string list \<Rightarrow> LaneClass option" where
  "laneOf_loop best [] = best"
| "laneOf_loop best (t # ts) =
     (case tokenLane t of
        Some Irreversible \<Rightarrow> Some Irreversible
      | Some Reversible_wide \<Rightarrow> laneOf_loop (Some Reversible_wide) ts
      | Some Reversible_contained \<Rightarrow>
          laneOf_loop (if best = None then Some Reversible_contained else best) ts
      | None \<Rightarrow> laneOf_loop best ts)"

definition laneOf :: "string list \<Rightarrow> LaneClass option" where
  "laneOf tokens = laneOf_loop None tokens"

section \<open>The tokens held for review\<close>

record LaneSop =
  closedLanes :: "string list"
  openActions :: "string list"
  riskTier :: "string option"

definition high_tier :: "LaneSop \<Rightarrow> bool" where
  "high_tier sop =
     (let tier = map ascii_upper_char (case riskTier sop of None \<Rightarrow> '''' | Some r \<Rightarrow> r)
      in tier = ''HIGH'' \<or> tier = ''CRITICAL'')"

definition sop_classes :: "LaneSop \<Rightarrow> string list" where
  "sop_classes sop =
     (if high_tier sop then closedLanes sop @ [''reversible_wide''] else closedLanes sop)"

text \<open>One turn of the loop over the SOPs: the tokens it adds to \<open>held\<close>.\<close>

definition sop_held :: "LaneSop \<Rightarrow> string list" where
  "sop_held sop =
     (if closedLanes sop = [] then []
      else map fst (filter (\<lambda>(token, c).
             c \<noteq> Reversible_contained \<and> lane_name c \<in> set (sop_classes sop)
             \<and> token \<notin> set (openActions sop)) TOKEN_CLASS))"

definition workspace_held :: "string list option \<Rightarrow> string list" where
  "workspace_held lanes =
     map fst (filter (\<lambda>(token, c).
       c \<noteq> Reversible_contained
       \<and> lane_name c \<in> set (case lanes of None \<Rightarrow> [] | Some ls \<Rightarrow> ls)) TOKEN_CLASS)"

definition laneHoldTokens :: "LaneSop list \<Rightarrow> string list option \<Rightarrow> string list" where
  "laneHoldTokens sops workspaceLanes =
     (let held = fold (\<lambda>sop h. h @ sop_held sop) sops [] @ workspace_held workspaceLanes
      in filter (\<lambda>t. t \<in> set held) (map fst TOKEN_CLASS))"

definition laneHoldRuleId :: "string \<Rightarrow> string" where
  "laneHoldRuleId token =
     ''sop.lane.'' @ (case tokenLane token of None \<Rightarrow> ''unknown'' | Some c \<Rightarrow> lane_name c)
     @ ''.'' @ token"

definition revertHoldRuleId :: "string \<Rightarrow> string" where
  "revertHoldRuleId subject = ''revert.'' @ subject"

section \<open>The hold rules a token compiles to\<close>

datatype HoldSubject = Phrase | Action

record HoldPatternSpec =
  hp_subject :: HoldSubject
  hp_source :: string
  hp_ignoreCase :: bool

definition regex_special :: string where
  "regex_special = ''.*+?^'' @ [CHR 0x24] @ ''{}()|[]'' @ [CHR 0x5C]"

definition regex_escape :: "string \<Rightarrow> string" where
  "regex_escape s = concat (map (\<lambda>c. if c \<in> set regex_special then [CHR 0x5C, c] else [c]) s)"

text \<open>\<open>phrase!\<close> in the source is not checked: \<^const>\<open>None\<close> stands for the null it would
  put in the list.\<close>

definition laneHoldPatterns :: "string \<Rightarrow> HoldPatternSpec option list" where
  "laneHoldPatterns token =
     (let action = \<lparr>hp_subject = Action, hp_source = '' ('' @ regex_escape token @ '') '', hp_ignoreCase = True\<rparr>;
          phrases = (case map_of LANE_PHRASES token of None \<Rightarrow> [] | Some ps \<Rightarrow> ps);
          phrase = (if phrases \<noteq> []
                    then Some \<lparr>hp_subject = Phrase, hp_source = join_with ''|'' phrases, hp_ignoreCase = True\<rparr>
                    else None)
      in if token = ''action:force_push'' then [Some action, phrase]
         else if token = ''action:destroy'' then [phrase, Some action]
         else if phrase \<noteq> None then [phrase] else [Some action])"

section \<open>Lemmas\<close>

lemma distinct_tokens [simp]: "distinct (map fst TOKEN_CLASS)"
  by (simp add: TOKEN_CLASS_def)

lemma tokenLane_iff: "tokenLane t = Some c \<longleftrightarrow> (t, c) \<in> set TOKEN_CLASS"
  using distinct_tokens by (simp add: tokenLane_def map_of_eq_Some_iff)

lemma tokenLane_in_table: "tokenLane t = Some c \<Longrightarrow> t \<in> fst ` set TOKEN_CLASS"
  by (force simp: tokenLane_iff)

lemma lane_name_inj [simp]: "lane_name a = lane_name b \<longleftrightarrow> a = b"
  by (cases a; cases b) simp_all

lemma set_fold_append: "set (fold (\<lambda>x h. h @ f x) xs h0) = set h0 \<union> (\<Union>x\<in>set xs. set (f x))"
  by (induction xs arbitrary: h0) auto

lemma set_sop_held:
  "t \<in> set (sop_held sop) \<longleftrightarrow>
     closedLanes sop \<noteq> [] \<and> t \<notin> set (openActions sop)
     \<and> (\<exists>c. tokenLane t = Some c \<and> c \<noteq> Reversible_contained \<and> lane_name c \<in> set (sop_classes sop))"
  by (auto simp: sop_held_def tokenLane_iff image_iff)

lemma set_workspace_held:
  "t \<in> set (workspace_held ws) \<longleftrightarrow>
     (\<exists>c. tokenLane t = Some c \<and> c \<noteq> Reversible_contained
        \<and> (\<exists>ls. ws = Some ls \<and> lane_name c \<in> set ls))"
  by (auto simp: workspace_held_def tokenLane_iff image_iff split: option.splits)

lemma set_laneHoldTokens:
  "set (laneHoldTokens sops ws) = (\<Union>sop\<in>set sops. set (sop_held sop)) \<union> set (workspace_held ws)"
  by (auto simp: laneHoldTokens_def Let_def set_fold_append set_sop_held set_workspace_held
      dest: tokenLane_in_table)

lemma sop_classes_iff:
  "lane_name c \<in> set (sop_classes sop) \<longleftrightarrow>
     lane_name c \<in> set (closedLanes sop)
     \<or> c = Reversible_wide \<and> high_tier sop"
  by (cases c) (auto simp: sop_classes_def)

lemma lane_le_simps [simp]:
  "Reversible_contained \<le> c" "c \<le> Irreversible"
  by (cases c; simp add: less_eq_LaneClass_def)+

lemma Max_insert_le: "finite A \<Longrightarrow> x \<le> y \<Longrightarrow> y \<in> A \<Longrightarrow> Max (insert x A) = Max (A :: 'a::linorder set)"
  by (subst Max_insert) (auto simp: max_def intro: order_trans Max_ge antisym)

lemma laneOf_loop_Max:
  "best \<noteq> Some Irreversible \<Longrightarrow>
   laneOf_loop best ts =
     (let cs = (case best of None \<Rightarrow> [] | Some b \<Rightarrow> [b]) @ List.map_filter tokenLane ts
      in if cs = [] then None else Some (Max (set cs)))"
proof (induction ts arbitrary: best)
  case Nil
  then show ?case by (cases best) (simp_all add: List.map_filter_simps)
next
  case (Cons t ts)
  let ?S = "set (List.map_filter tokenLane ts)"
  show ?case
  proof (cases "tokenLane t")
    case None
    with Cons show ?thesis by (simp add: List.map_filter_simps)
  next
    case (Some c)
    note c = this
    show ?thesis
    proof (cases c)
      case Irreversible
      have "Max (insert Irreversible A) = Irreversible" if "finite A" for A
        using that by (intro Max_eqI) auto
      with Some Irreversible show ?thesis
        by (cases best) (simp_all add: List.map_filter_simps insert_commute)
    next
      case Reversible_wide
      have "Max (insert b (insert Reversible_wide ?S)) = Max (insert Reversible_wide ?S)"
        if "b \<noteq> Irreversible" for b
        by (rule Max_insert_le [where y = Reversible_wide])
          (use that in \<open>cases b; simp add: less_eq_LaneClass_def\<close>)+
      with Cons Reversible_wide Some show ?thesis
        by (cases best) (simp_all add: List.map_filter_simps)
    next
      case Reversible_contained
      have "Max (insert Reversible_contained (insert b ?S)) = Max (insert b ?S)" for b
        by (rule Max_insert_le [where y = b]) auto
      with Cons Reversible_contained Some show ?thesis
        by (cases best) (simp_all add: List.map_filter_simps insert_commute)
    qed
  qed
qed

section \<open>Properties\<close>

text \<open>The tokens held for review are exactly the closable tokens whose class the
  workspace closes, or a SOP closes (by name, or \<open>reversible_wide\<close> by its HIGH or CRITICAL
  tier) and does not itself reopen; each once, in the order of the token table.\<close>

theorem laneHoldTokens_spec:
  "laneHoldTokens sops ws =
     filter (\<lambda>t. \<exists>c. tokenLane t = Some c \<and> c \<noteq> Reversible_contained
               \<and> ((\<exists>ls. ws = Some ls \<and> lane_name c \<in> set ls)
                  \<or> list_ex (\<lambda>sop. closedLanes sop \<noteq> [] \<and> t \<notin> set (openActions sop)
                       \<and> (lane_name c \<in> set (closedLanes sop)
                          \<or> c = Reversible_wide \<and> high_tier sop)) sops))
       (map fst TOKEN_CLASS)"
  unfolding laneHoldTokens_def Let_def
  by (rule filter_cong [OF refl])
    (auto simp: set_fold_append set_sop_held set_workspace_held sop_classes_iff list_ex_iff)

text \<open>The lane recorded for a call is the strongest class among its tokens, and none
  exactly when no token has a class.\<close>

theorem laneOf_strongest:
  "laneOf ts =
     (let cs = List.map_filter tokenLane ts in if cs = [] then None else Some (Max (set cs)))"
  by (simp add: laneOf_def laneOf_loop_Max)

text \<open>Every action token compiles to at least one hold rule and to no null: a phrase rule
  first, except that \<open>force_push\<close> and the two tokens without phrases lead with the action
  rule; \<open>destroy\<close> and \<open>force_push\<close> have both.\<close>

theorem laneHoldPatterns_complete:
  "map (\<lambda>(t, c). (t, map (map_option hp_subject) (laneHoldPatterns t))) TOKEN_CLASS =
     map (\<lambda>(t, c). (t,
       if t = ''action:force_push'' then [Some Action, Some Phrase]
       else if t = ''action:destroy'' then [Some Phrase, Some Action]
       else if t \<in> {''action:secret_read'', ''action:pii_export''} then [Some Action]
       else [Some Phrase])) TOKEN_CLASS"
  by (simp add: TOKEN_CLASS_def laneHoldPatterns_def LANE_PHRASES_def)

end
