(* ===== verification/ApiKeyScopes.thy ===== *)
theory ApiKeyScopes
  imports Js_Prelude
begin

text \<open>
  API key scopes (\<open>packages/shared-types/src/apiKeyScopes.ts\<close>): the registry of scopes, what
  a set of granted scopes covers, how stored scopes are read, and the compaction and
  intersection that a child key's reach is computed with.  A scope is its string; the order of
  the registry is the order of \<open>API_SCOPE_NAMES\<close>.
\<close>

section \<open>The registry\<close>

definition API_SCOPE_AREAS :: "string list" where
  "API_SCOPE_AREAS =
     [''traces'', ''usage'', ''findings'', ''sops'', ''policies'', ''compliance'', ''inventory'',
      ''settings'', ''members'', ''keys'', ''billing'', ''siem'', ''integrations'']"

definition GATEWAY_USE_SCOPE :: string where
  "GATEWAY_USE_SCOPE = ''gateway:use''"

definition ALL_SCOPES :: string where
  "ALL_SCOPES = ''*''"

definition API_SCOPE_NAMES :: "string list" where
  "API_SCOPE_NAMES =
     ALL_SCOPES # GATEWAY_USE_SCOPE
     # concat (map (\<lambda>area. [area @ '':read'', area @ '':write'']) API_SCOPE_AREAS)"

definition isApiKeyScope :: "string \<Rightarrow> bool" where
  "isApiKeyScope scope \<longleftrightarrow> scope \<in> set API_SCOPE_NAMES"

definition unknownApiKeyScopes :: "string list \<Rightarrow> string list" where
  "unknownApiKeyScopes scopes = filter (\<lambda>s. \<not> isApiKeyScope s) scopes"

section \<open>What scopes grant\<close>

text \<open>\<open>`${s.slice(0, -':read'.length)}:write`\<close>\<close>

definition write_of :: "string \<Rightarrow> string" where
  "write_of s = take (length s - length '':read'') s @ '':write''"

definition scopeGrants :: "string list \<Rightarrow> string \<Rightarrow> bool" where
  "scopeGrants granted required =
     (if ALL_SCOPES \<in> set granted then True
      else if required \<in> set granted then True
      else if suffix '':read'' required then write_of required \<in> set granted
      else False)"

definition scopesGrantAny :: "string list \<Rightarrow> string list \<Rightarrow> bool" where
  "scopesGrantAny granted anyOf = list_ex (scopeGrants granted) anyOf"

definition compactScopes :: "string list \<Rightarrow> string list" where
  "compactScopes scopes =
     (if ALL_SCOPES \<in> set scopes then [ALL_SCOPES]
      else filter (\<lambda>s. s \<noteq> ALL_SCOPES \<and> s \<in> set scopes
                    \<and> \<not> (suffix '':read'' s \<and> write_of s \<in> set scopes)) API_SCOPE_NAMES)"

definition intersectScopes :: "string list \<Rightarrow> string list \<Rightarrow> string list" where
  "intersectScopes a b =
     (if ALL_SCOPES \<in> set a \<and> ALL_SCOPES \<in> set b then [ALL_SCOPES]
      else compactScopes
             (filter (\<lambda>s. s \<noteq> ALL_SCOPES \<and> scopeGrants a s \<and> scopeGrants b s) API_SCOPE_NAMES))"

record EffectiveScopes =
  eff_scopes :: "string list"
  eff_ignored :: "string list"

text \<open>\<open>stored\<close> is the column's value: anything but an array (a missing one included) reads as
  the default \<open>*\<close>.\<close>

definition effectiveApiKeyScopes :: "json \<Rightarrow> EffectiveScopes" where
  "effectiveApiKeyScopes stored =
     (case stored of
        JArr _ \<Rightarrow>
          (let strings = json_strings stored;
               known = filter isApiKeyScope strings
           in \<lparr>eff_scopes = compactScopes known, eff_ignored = filter (\<lambda>s. \<not> isApiKeyScope s) strings\<rparr>)
      | _ \<Rightarrow> \<lparr>eff_scopes = [ALL_SCOPES], eff_ignored = []\<rparr>)"

section \<open>Lemmas\<close>

lemma scope_cases:
  assumes "s \<in> set API_SCOPE_NAMES"
  obtains "s = ALL_SCOPES" | "s = GATEWAY_USE_SCOPE"
    | area where "area \<in> set API_SCOPE_AREAS" and "s = area @ '':read''"
    | area where "area \<in> set API_SCOPE_AREAS" and "s = area @ '':write''"
  using assms by (auto simp: API_SCOPE_NAMES_def)

lemma read_in_names: "area \<in> set API_SCOPE_AREAS \<Longrightarrow> area @ '':read'' \<in> set API_SCOPE_NAMES"
  and write_in_names [simp]: "area \<in> set API_SCOPE_AREAS \<Longrightarrow> area @ '':write'' \<in> set API_SCOPE_NAMES"
  by (auto simp: API_SCOPE_NAMES_def)

lemma suffix_last: "suffix xs ys \<Longrightarrow> xs \<noteq> [] \<Longrightarrow> last ys = last xs"
  by (auto simp: suffix_def)

lemma suffix_read_simps [simp]:
  "suffix '':read'' (area @ '':read'')"
  "\<not> suffix '':read'' (area @ '':write'')"
  "\<not> suffix '':read'' ALL_SCOPES"
  "\<not> suffix '':read'' GATEWAY_USE_SCOPE"
  by (auto simp: suffix_def ALL_SCOPES_def GATEWAY_USE_SCOPE_def dest: suffix_last arg_cong[where f = last] arg_cong[where f = length])

lemma write_of_read [simp]: "write_of (area @ '':read'') = area @ '':write''"
  by (simp add: write_of_def)

lemma area_scope_not_all [simp]: "area @ '':read'' \<noteq> ALL_SCOPES" "area @ '':write'' \<noteq> ALL_SCOPES"
  by (auto simp: ALL_SCOPES_def dest: arg_cong[where f = length])

lemma gateway_not_all [simp]: "GATEWAY_USE_SCOPE \<noteq> ALL_SCOPES"
  by (simp add: ALL_SCOPES_def GATEWAY_USE_SCOPE_def)

lemma all_in_names [simp]: "ALL_SCOPES \<in> set API_SCOPE_NAMES" "GATEWAY_USE_SCOPE \<in> set API_SCOPE_NAMES"
  by (simp_all add: API_SCOPE_NAMES_def)

lemma scopeGrants_iff:
  "scopeGrants g r \<longleftrightarrow> ALL_SCOPES \<in> set g \<or> r \<in> set g \<or> suffix '':read'' r \<and> write_of r \<in> set g"
  by (simp add: scopeGrants_def)

lemma all_in_compactScopes: "ALL_SCOPES \<in> set (compactScopes s) \<longleftrightarrow> ALL_SCOPES \<in> set s"
  by (simp add: compactScopes_def)

lemma scopeGrants_compactScopes:
  assumes "r \<in> set API_SCOPE_NAMES"
  shows "scopeGrants (compactScopes s) r = scopeGrants s r"
  using assms by (cases rule: scope_cases) (auto simp: scopeGrants_iff compactScopes_def read_in_names)

lemma scopeGrants_intersectScopes:
  assumes "r \<in> set API_SCOPE_NAMES"
  shows "scopeGrants (intersectScopes a b) r \<longleftrightarrow> scopeGrants a r \<and> scopeGrants b r"
proof (cases "ALL_SCOPES \<in> set a \<and> ALL_SCOPES \<in> set b")
  case True
  then show ?thesis by (simp add: intersectScopes_def scopeGrants_def)
next
  case False
  let ?F = "filter (\<lambda>s. s \<noteq> ALL_SCOPES \<and> scopeGrants a s \<and> scopeGrants b s) API_SCOPE_NAMES"
  have "scopeGrants (intersectScopes a b) r = scopeGrants ?F r"
    unfolding intersectScopes_def if_not_P [OF False] by (rule scopeGrants_compactScopes [OF assms])
  also from assms False have "\<dots> \<longleftrightarrow> scopeGrants a r \<and> scopeGrants b r"
    by (cases rule: scope_cases) (auto simp: scopeGrants_iff read_in_names)
  finally show ?thesis .
qed

lemma compactScopes_subset_names: "set (compactScopes s) \<subseteq> set API_SCOPE_NAMES"
  by (auto simp: compactScopes_def)

section \<open>Properties\<close>

text \<open>Compacting a key's scopes changes nothing it may do: every registered scope is granted
  by the compact list exactly when the original list grants it.\<close>

theorem compactScopes_grants:
  "filter (scopeGrants (compactScopes s)) API_SCOPE_NAMES = filter (scopeGrants s) API_SCOPE_NAMES"
  by (rule filter_cong [OF refl]) (rule scopeGrants_compactScopes)

text \<open>The compact list is the smallest one: every list that grants the same registered
  scopes contains it.\<close>

theorem compactScopes_minimal:
  assumes "filter (scopeGrants t) API_SCOPE_NAMES = filter (scopeGrants s) API_SCOPE_NAMES"
  shows "set (compactScopes s) \<subseteq> set t"
proof
  fix c
  assume c: "c \<in> set (compactScopes s)"
  have same: "scopeGrants t r = scopeGrants s r" if "r \<in> set API_SCOPE_NAMES" for r
    using arg_cong [OF assms, where f = set] that by auto
  from c have "c \<in> set API_SCOPE_NAMES"
    using compactScopes_subset_names by blast
  then show "c \<in> set t"
    by (cases rule: scope_cases)
      (use c same [OF all_in_names(1)] same [OF all_in_names(2)] same [OF write_in_names]
         same [OF read_in_names] in
        \<open>auto simp: compactScopes_def scopeGrants_iff split: if_splits\<close>)
qed

theorem compactScopes_minimal_witness:
  "set (compactScopes [''keys:read'', ''keys:write'']) \<subseteq> set [''keys:write'']"
  by (rule compactScopes_minimal)
    (simp add: API_SCOPE_NAMES_def API_SCOPE_AREAS_def scopeGrants_def ALL_SCOPES_def
      GATEWAY_USE_SCOPE_def write_of_def suffix_def)

text \<open>A child key's scopes are its reach under its parent: the intersection grants a
  registered scope exactly when both lists grant it, so it can only narrow.\<close>

theorem intersectScopes_grants:
  "filter (scopeGrants (intersectScopes a b)) API_SCOPE_NAMES =
     filter (\<lambda>r. scopeGrants a r \<and> scopeGrants b r) API_SCOPE_NAMES"
  by (rule filter_cong [OF refl]) (rule scopeGrants_intersectScopes)

text \<open>A stored array whose strings are all outside the registry grants nothing, and every
  string it holds is reported as ignored; only a missing column falls back to \<open>*\<close>.\<close>

theorem effectiveApiKeyScopes_unknown:
  assumes "list_all (\<lambda>s. \<not> isApiKeyScope s) (json_strings (JArr vs))"
  shows "eff_scopes (effectiveApiKeyScopes (JArr vs)) = []
         \<and> eff_ignored (effectiveApiKeyScopes (JArr vs)) = json_strings (JArr vs)
         \<and> eff_scopes (effectiveApiKeyScopes JNull) = [ALL_SCOPES]
         \<and> \<not> scopeGrants (eff_scopes (effectiveApiKeyScopes (JArr vs))) r"
proof -
  have "filter isApiKeyScope (json_strings (JArr vs)) = []"
    "filter (\<lambda>s. \<not> isApiKeyScope s) (json_strings (JArr vs)) = json_strings (JArr vs)"
    using assms by (auto simp: list_all_iff filter_empty_conv intro!: filter_True)
  then show ?thesis
    by (simp add: effectiveApiKeyScopes_def compactScopes_def scopeGrants_iff Let_def filter_empty_conv
        del: json_strings.simps)
qed

theorem effectiveApiKeyScopes_unknown_witness:
  "eff_scopes (effectiveApiKeyScopes (JArr [JStr ''read''])) = []
   \<and> \<not> scopeGrants (eff_scopes (effectiveApiKeyScopes (JArr [JStr ''read'']))) ''keys:read''"
proof -
  have "list_all (\<lambda>s. \<not> isApiKeyScope s) (json_strings (JArr [JStr ''read'']))"
    by (simp add: isApiKeyScope_def API_SCOPE_NAMES_def API_SCOPE_AREAS_def ALL_SCOPES_def
        GATEWAY_USE_SCOPE_def List.map_filter_simps)
  from effectiveApiKeyScopes_unknown [OF this] show ?thesis by blast
qed

end
