(* ===== verification/ScopeMatch.thy ===== *)
theory ScopeMatch
  imports Js_Prelude
begin

text \<open>
  Scope and plan semantics (\<open>packages/shared-types/src/scopeMatch.ts\<close>): when a path is inside
  a scope, which scope and plan are in force for a role under the org ceiling, how far a run is
  off its plan, which paths one call changes, and how a gate makes a target relative to its
  workspace root.
\<close>

section \<open>Tool and key lists\<close>

definition NARROWED_TO_NOTHING :: string where
  "NARROWED_TO_NOTHING = ''<none: workspace list disjoint from org ceiling>''"

definition PLAN_DEVIATION_TOLERANCE :: rat where
  "PLAN_DEVIATION_TOLERANCE = 2 / 5"

definition SCOPE_WRITE_TOOLS :: "string list" where
  "SCOPE_WRITE_TOOLS = [''write'', ''write_file'', ''writefile'', ''create_file'', ''createfile'']"

definition SCOPE_EDIT_TOOLS :: "string list" where
  "SCOPE_EDIT_TOOLS = [''edit'', ''edit_file'', ''editfile'', ''multiedit'', ''apply_patch'', ''str_replace'', ''notebookedit'']"

definition SCOPE_DELETE_TOOLS :: "string list" where
  "SCOPE_DELETE_TOOLS = [''delete_file'', ''deletefile'', ''remove_file'', ''rm_file'']"

definition SCOPE_MOVE_TOOLS :: "string list" where
  "SCOPE_MOVE_TOOLS = [''move_file'', ''movefile'', ''rename_file'', ''rename'']"

definition SCOPE_EDITOR_TOOLS :: "string list" where
  "SCOPE_EDITOR_TOOLS = [''str_replace_editor'', ''text_editor'', ''texteditor'', ''str_replace_based_edit_tool'']"

definition SCOPE_PATH_KEYS :: "string list" where
  "SCOPE_PATH_KEYS = [''file_path'', ''filepath'', ''path'', ''filename'', ''target_file'', ''notebook_path'']"

definition SCOPE_COMMAND_KEYS :: "string list" where
  "SCOPE_COMMAND_KEYS = [''command'', ''cmd'', ''script'']"

definition SCOPE_SHELL_TOOLS :: "string list" where
  "SCOPE_SHELL_TOOLS = [''bash'', ''shell'', ''run_command'', ''runcommand'', ''execute_command'', ''run_shell_command'', ''terminal'', ''execute'', ''exec'']"

definition SCOPE_MOVE_FROM_KEYS :: "string list" where
  "SCOPE_MOVE_FROM_KEYS = [''source'', ''source_path'', ''from'', ''old_path'']"

definition SCOPE_MOVE_TO_KEYS :: "string list" where
  "SCOPE_MOVE_TO_KEYS = [''destination'', ''destination_path'', ''to'', ''new_path'']"

definition PLAN_EXEMPT_TOOLS :: "string list" where
  "PLAN_EXEMPT_TOOLS = [''read'', ''readfile'', ''view'', ''cat'', ''open_file'', ''glob'', ''grep'', ''ls'', ''list_dir'', ''search'', ''todowrite'', ''read_file'', ''list_directory'']"

section \<open>Helpers\<close>

definition scopeAsciiLower :: "string \<Rightarrow> string" where
  "scopeAsciiLower = map ascii_lower_char"

text \<open>\<open>s.slice(-n)\<close>: the last \<open>n\<close> code units, all of them for \<open>n = 0\<close> or past the start.\<close>

definition slice_neg :: "nat \<Rightarrow> string \<Rightarrow> string" where
  "slice_neg n s = (if n = 0 then s else last_n n s)"

definition scopeToolIs :: "string \<Rightarrow> string list \<Rightarrow> bool" where
  "scopeToolIs name grp =
     (let lower = to_lower name
      in list_ex (\<lambda>t. lower = t \<or> slice_neg (length t) lower = t) grp)"

fun scopeKeyed :: "json \<Rightarrow> string list \<Rightarrow> string option" where
  "scopeKeyed (JObj kvs) [] = None"
| "scopeKeyed (JObj kvs) (k # ks) =
     (case map_of kvs k of
        Some (JStr v) \<Rightarrow> (if v \<noteq> '''' then Some v else scopeKeyed (JObj kvs) ks)
      | _ \<Rightarrow> scopeKeyed (JObj kvs) ks)"
| "scopeKeyed _ ks = None"

text \<open>The UTF-8 length of one code unit; in the model's alphabet it is one or two bytes (the
  three- and four-byte branches need code units beyond it).\<close>

definition unit_bytes :: "char \<Rightarrow> nat" where
  "unit_bytes c = (if (of_char c :: nat) < 0x80 then 1 else 2)"

definition ellipsis :: string where
  "ellipsis = [CHR 0x85]"

fun scopeClip_from :: "nat \<Rightarrow> string \<Rightarrow> string" where
  "scopeClip_from bytes [] = []"
| "scopeClip_from bytes (c # cs) =
     (if bytes + unit_bytes c > 512 then ellipsis else c # scopeClip_from (bytes + unit_bytes c) cs)"

definition scopeClip :: "string \<Rightarrow> string" where
  "scopeClip s = scopeClip_from 0 s"

section \<open>Scope membership\<close>

fun strip_dot_slash :: "string \<Rightarrow> string" where
  "strip_dot_slash (a # b # s) =
     (if a = CHR ''.'' \<and> b = CHR ''/'' then strip_dot_slash s else a # b # s)"
| "strip_dot_slash s = s"

definition scope_norm :: "string \<Rightarrow> string" where
  "scope_norm s =
     (let t = strip_dot_slash s;
          t = dropWhile (\<lambda>c. c = CHR ''/'') t;
          t = rev (dropWhile (\<lambda>c. c = CHR ''/'') (rev t))
      in scopeAsciiLower t)"

definition covers :: "string \<Rightarrow> string \<Rightarrow> bool" where
  "covers s t \<longleftrightarrow> s = '''' \<or> t = s \<or> take (length s + 1) t = s @ ''/''"

definition isWithinScope :: "string \<Rightarrow> string list \<Rightarrow> bool" where
  "isWithinScope target scopes =
     (let t = scope_norm target in list_ex (\<lambda>raw. covers (scope_norm raw) t) scopes)"

section \<open>The scope and the plan in force\<close>

datatype SopScope = Workspace | Org

record ScopeSop =
  ss_scope :: SopScope
  ss_roles :: "string list"
  ss_scopePaths :: "string list"

definition sopAppliesToRole :: "string list \<Rightarrow> string \<Rightarrow> bool" where
  "sopAppliesToRole rs role =
     (if rs = [] then True else if role = '''' then False else scopeAsciiLower role \<in> set rs)"

definition paths_of :: "SopScope \<Rightarrow> ScopeSop list \<Rightarrow> string \<Rightarrow> string list" where
  "paths_of sc sops role =
     concat (map ss_scopePaths (filter (\<lambda>s. sopAppliesToRole (ss_roles s) role \<and> ss_scope s = sc) sops))"

definition collectScopePaths :: "ScopeSop list \<Rightarrow> string \<Rightarrow> string list" where
  "collectScopePaths sops role =
     (let workspace = paths_of Workspace sops role; org = paths_of Org sops role;
          out = (if org = [] then workspace
                 else if workspace = [] then org
                 else let o' = filter (\<lambda>w. isWithinScope w org) workspace
                      in if o' = [] then [NARROWED_TO_NOTHING] else o')
      in sort_dedup out)"

record PlanSop =
  ps_scope :: SopScope
  ps_roles :: "string list"
  ps_planSteps :: "string list"

definition steps_of :: "SopScope \<Rightarrow> PlanSop list \<Rightarrow> string \<Rightarrow> string list" where
  "steps_of sc sops role =
     concat (map ps_planSteps (filter (\<lambda>s. sopAppliesToRole (ps_roles s) role \<and> ps_scope s = sc) sops))"

definition collectPlanSteps :: "PlanSop list \<Rightarrow> string \<Rightarrow> string list" where
  "collectPlanSteps sops role =
     (let workspace = steps_of Workspace sops role; org = steps_of Org sops role in
      if org = [] then workspace
      else if workspace = [] then org
      else let allowed = map scopeAsciiLower org;
               out = filter (\<lambda>w. scopeAsciiLower w \<in> set allowed) workspace
           in if out \<noteq> [] then out else [NARROWED_TO_NOTHING])"

record PlanOff =
  offPlan :: "string list"
  offRatio :: rat

definition planOffSteps :: "string list \<Rightarrow> string list \<Rightarrow> rat \<Rightarrow> PlanOff" where
  "planOffSteps seq steps tolerance =
     (if steps = [] \<or> seq = [] then \<lparr>offPlan = [], offRatio = 0\<rparr>
      else
        let plan = map scopeAsciiLower steps;
            off = filter (\<lambda>t. scopeAsciiLower t \<notin> set plan) seq
        in if off = [] then \<lparr>offPlan = [], offRatio = 0\<rparr>
           else let r = of_nat (length off) / of_nat (length seq)
                in if r \<le> tolerance then \<lparr>offPlan = [], offRatio = r\<rparr>
                   else \<lparr>offPlan = sort_dedup off, offRatio = min 1 r\<rparr>)"

section \<open>The mutations of one call\<close>

datatype ChangeOp = Write | Edit | Delete | Move

record ChangeTarget =
  ct_op :: ChangeOp
  ct_target :: string

definition move_targets :: "string option \<Rightarrow> string option \<Rightarrow> ChangeTarget list" where
  "move_targets from to =
     (case from of None \<Rightarrow> [] | Some p \<Rightarrow> [\<lparr>ct_op = Move, ct_target = scopeClip p\<rparr>])
     @ (case to of None \<Rightarrow> [] | Some p \<Rightarrow> [\<lparr>ct_op = Move, ct_target = scopeClip p\<rparr>])"

definition change_op :: "string \<Rightarrow> json \<Rightarrow> ChangeOp option" where
  "change_op tool input =
     (if scopeToolIs tool SCOPE_EDITOR_TOOLS then
        let command = (case json_field input ''command'' of Some (JStr c) \<Rightarrow> scopeAsciiLower c | _ \<Rightarrow> '''')
        in if command = ''view'' then None else if command = ''create'' then Some Write else Some Edit
      else if scopeToolIs tool SCOPE_WRITE_TOOLS then Some Write
      else if scopeToolIs tool SCOPE_EDIT_TOOLS then Some Edit
      else if scopeToolIs tool SCOPE_DELETE_TOOLS then Some Delete
      else None)"

definition path_targets :: "string \<Rightarrow> json \<Rightarrow> ChangeTarget list" where
  "path_targets tool input =
     (case change_op tool input of
        None \<Rightarrow> []
      | Some k \<Rightarrow>
          (case scopeKeyed input SCOPE_PATH_KEYS of
             None \<Rightarrow> []
           | Some p \<Rightarrow> [\<lparr>ct_op = k, ct_target = scopeClip p\<rparr>]))"

definition changeTargets :: "string \<Rightarrow> json \<Rightarrow> ChangeTarget list" where
  "changeTargets tool input =
     (let from = scopeKeyed input SCOPE_MOVE_FROM_KEYS; to = scopeKeyed input SCOPE_MOVE_TO_KEYS in
      if scopeToolIs tool SCOPE_MOVE_TOOLS \<and> (from \<noteq> None \<or> to \<noteq> None) then move_targets from to
      else path_targets tool input)"

section \<open>Diffs\<close>

definition trim_spaces :: "string \<Rightarrow> string" where
  "trim_spaces p = rev (dropWhile (\<lambda>c. c = CHR '' '') (rev (dropWhile (\<lambda>c. c = CHR '' '') p)))"

definition scopeDiffPath :: "string \<Rightarrow> string \<Rightarrow> string option" where
  "scopeDiffPath raw pre =
     (let p = takeWhile (\<lambda>c. c \<noteq> CHR 0x09) raw;
          p = trim_spaces p;
          p = (if 2 \<le> length p \<and> hd p = CHR 0x22 \<and> last p = CHR 0x22
               then slice 1 (length p - 1) p else p)
      in if p = ''/dev/null'' \<or> p = '''' then None
         else let p = (if pre \<noteq> '''' \<and> take (length pre) p = pre then drop (length pre) p else p)
              in if p = '''' then None else Some p)"

definition add_path :: "string option \<Rightarrow> string list \<Rightarrow> string list" where
  "add_path p out = (case p of None \<Rightarrow> out | Some p \<Rightarrow> if p \<in> set out then out else out @ [p])"

definition strip_cr :: "string \<Rightarrow> string" where
  "strip_cr raw = (if raw \<noteq> [] \<and> last raw = CHR 0x0D then butlast raw else raw)"

definition diff_git_paths :: "string \<Rightarrow> string list \<Rightarrow> string list" where
  "diff_git_paths rest out =
     (if take 2 rest \<noteq> ''a/'' then out
      else case index_of '' b/'' rest of
        None \<Rightarrow> out
      | Some first \<Rightarrow>
          if index_of '' b/'' (drop (first + 1) rest) = None then
            add_path (scopeDiffPath (drop (first + 1) rest) ''b/'')
              (add_path (scopeDiffPath (take first rest) ''a/'') out)
          else if (length rest - 5) mod 2 = 0 then
            let n = (length rest - 5) div 2; a = slice 2 (2 + n) rest
            in if slice (2 + n) (5 + n) rest = '' b/'' \<and> drop (5 + n) rest = a
               then add_path (scopeDiffPath a '''') out else out
          else out)"

definition diff_line_paths :: "string \<Rightarrow> string list \<Rightarrow> string list" where
  "diff_line_paths raw out =
     (let line = strip_cr raw in
      if take 11 line = ''diff --git '' then diff_git_paths (drop 11 line) out
      else if take 4 line = ''--- '' then add_path (scopeDiffPath (drop 4 line) ''a/'') out
      else if take 4 line = ''+++ '' then add_path (scopeDiffPath (drop 4 line) ''b/'') out
      else if take 12 line = ''rename from '' then add_path (scopeDiffPath (drop 12 line) '''') out
      else if take 10 line = ''rename to '' then add_path (scopeDiffPath (drop 10 line) '''') out
      else out)"

definition diffChangedPaths :: "string \<Rightarrow> string list" where
  "diffChangedPaths diff = fold diff_line_paths (split_on (CHR 0x0A) diff) []"

section \<open>Paths relative to the workspace root\<close>

fun norm_segs :: "string list \<Rightarrow> string list \<Rightarrow> string list" where
  "norm_segs parts [] = parts"
| "norm_segs parts (seg # segs) =
     (if seg = '''' \<or> seg = ''.'' then norm_segs parts segs
      else if seg = ''..'' then norm_segs (butlast parts) segs
      else norm_segs (parts @ [seg]) segs)"

definition path_parts :: "string \<Rightarrow> string list" where
  "path_parts p = norm_segs [] (split_on (CHR ''/'') p)"

definition scopeNormalisePath :: "string \<Rightarrow> string" where
  "scopeNormalisePath p = ''/'' @ join_with ''/'' (path_parts p)"

definition scopeRelativePath :: "string \<Rightarrow> string \<Rightarrow> string \<Rightarrow> string option" where
  "scopeRelativePath target cwd rt =
     (if target = '''' \<or> char_at target 0 = Some (CHR ''~'')
         \<or> char_at cwd 0 \<noteq> Some (CHR ''/'') \<or> char_at rt 0 \<noteq> Some (CHR ''/'') then None
      else
        let abs = scopeNormalisePath
                    (if char_at target 0 = Some (CHR ''/'') then target else cwd @ ''/'' @ target);
            base = scopeNormalisePath rt
        in if abs = base then Some ''''
           else let head = (if base = ''/'' then ''/'' else base @ ''/'')
                in if take (length head) abs = head then Some (drop (length head) abs) else None)"

definition isPlanExemptTool :: "string \<Rightarrow> bool" where
  "isPlanExemptTool tool =
     (let lower = to_lower tool
      in list_ex (\<lambda>t. lower = t \<or> slice_neg (length t + 2) lower = ''__'' @ t) PLAN_EXEMPT_TOOLS)"

section \<open>Lemmas\<close>

lemma covers_iff: "covers s t \<longleftrightarrow> s = '''' \<or> t = s \<or> (\<exists>r. t = s @ CHR ''/'' # r)"
  by (simp only: covers_def take_append_sep_iff)

lemma covers_segments:
  "covers s t \<longleftrightarrow> s = '''' \<or> prefix (split_on (CHR ''/'') s) (split_on (CHR ''/'') t)"
  by (simp add: covers_iff prefix_split_on_iff)

lemma covers_trans: "covers a b \<Longrightarrow> covers b c \<Longrightarrow> covers a c"
  unfolding covers_iff by auto

lemma isWithinScope_iff:
  "isWithinScope t scopes \<longleftrightarrow> (\<exists>raw\<in>set scopes. covers (scope_norm raw) (scope_norm t))"
  by (auto simp: isWithinScope_def Let_def list_ex_iff)

lemma isWithinScope_trans:
  "isWithinScope t ws \<Longrightarrow> \<forall>w\<in>set ws. isWithinScope w org \<Longrightarrow> isWithinScope t org"
  unfolding isWithinScope_iff by (blast intro: covers_trans)

lemma set_collectScopePaths:
  "set (collectScopePaths sops role) =
     (let workspace = set (paths_of Workspace sops role); org = paths_of Org sops role;
          inside = {w \<in> workspace. isWithinScope w org}
      in if org = [] then workspace else if workspace = {} then set org
         else if inside = {} then {NARROWED_TO_NOTHING} else inside)"
  by (auto simp: collectScopePaths_def Let_def filter_empty_conv)

text \<open>Segments and normalised paths.\<close>

definition plain_seg :: "string \<Rightarrow> bool" where
  "plain_seg s \<longleftrightarrow> s \<noteq> '''' \<and> s \<noteq> ''.'' \<and> s \<noteq> ''..'' \<and> CHR ''/'' \<notin> set s"

lemma norm_segs_plain:
  "\<forall>s\<in>set parts. plain_seg s \<Longrightarrow> \<forall>s\<in>set segs. CHR ''/'' \<notin> set s \<Longrightarrow>
   \<forall>s\<in>set (norm_segs parts segs). plain_seg s"
proof (induction parts segs rule: norm_segs.induct)
  case (2 parts seg segs)
  have segs: "\<forall>s\<in>set segs. CHR ''/'' \<notin> set s"
    using "2.prems"(2) by (meson list.set_intros(2))
  have parts: "\<forall>s\<in>set (butlast parts). plain_seg s"
    using "2.prems"(1) by (blast dest: in_set_butlastD)
  have seg: "\<forall>s\<in>set (parts @ [seg]). plain_seg s" if "seg \<noteq> ''''" "seg \<noteq> ''.''" "seg \<noteq> ''..''"
    using that "2.prems" by (simp add: plain_seg_def)
  consider "seg = '''' \<or> seg = ''.''" | "seg = ''..''" | "seg \<noteq> ''''" "seg \<noteq> ''.''" "seg \<noteq> ''..''"
    by blast
  then show ?case
  proof cases
    case 1
    then show ?thesis unfolding norm_segs.simps if_P [OF 1] using "2.IH"(1) "2.prems"(1) segs by blast
  next
    case 2
    then show ?thesis using "2.IH"(2) parts segs by force
  next
    case 3
    then show ?thesis using "2.IH"(3) seg segs by force
  qed
qed simp

lemma path_parts_plain: "s \<in> set (path_parts p) \<Longrightarrow> plain_seg s"
  unfolding path_parts_def using norm_segs_plain [of "[]"] split_on_pieces by force

lemma norm_segs_of_plain: "\<forall>s\<in>set segs. plain_seg s \<Longrightarrow> norm_segs parts segs = parts @ segs"
  by (induction segs arbitrary: parts) (auto simp: plain_seg_def)

lemma split_on_joined_plain:
  "\<forall>s\<in>set xs. plain_seg s \<Longrightarrow>
   split_on (CHR ''/'') (join_with ''/'' xs) = (if xs = [] then [''''] else xs)"
  by (simp add: split_on_join plain_seg_def)

lemma path_parts_normalised: "path_parts (scopeNormalisePath p) = path_parts p"
proof -
  have "split_on (CHR ''/'') (scopeNormalisePath p)
          = '''' # (if path_parts p = [] then [''''] else path_parts p)"
    by (simp add: scopeNormalisePath_def split_on_joined_plain path_parts_plain)
  then show ?thesis
    by (simp add: path_parts_def [of "scopeNormalisePath p"] norm_segs_of_plain path_parts_plain)
qed

lemma join_plain_inj:
  assumes "\<forall>s\<in>set xs. plain_seg s" "\<forall>s\<in>set ys. plain_seg s" "join_with ''/'' xs = join_with ''/'' ys"
  shows "xs = ys"
proof -
  have "(if xs = [] then [''''] else xs) = (if ys = [] then [''''] else ys)"
    using assms by (metis split_on_joined_plain)
  moreover have "xs \<noteq> ['''']" "ys \<noteq> ['''']"
    using assms(1,2) by (force simp: plain_seg_def)+
  ultimately show ?thesis by (metis (full_types))
qed

lemma join_plain_prefix:
  assumes "\<forall>s\<in>set xs. plain_seg s" "\<forall>s\<in>set ys. plain_seg s" "ys \<noteq> []"
    and "join_with ''/'' xs = join_with ''/'' ys @ CHR ''/'' # r"
  shows "xs = ys @ split_on (CHR ''/'') r"
proof -
  have "(if xs = [] then [''''] else xs) = ys @ split_on (CHR ''/'') r"
    using arg_cong [OF assms(4), where f = "split_on (CHR ''/'')"] assms(1-3)
    by (simp add: split_on_append split_on_joined_plain)
  moreover have "ys @ split_on (CHR ''/'') r \<noteq> ['''']"
    using assms(2,3) by (cases ys) (auto simp: plain_seg_def)
  ultimately show ?thesis by (auto split: if_splits)
qed

text \<open>The two paths \<^const>\<open>scopeRelativePath\<close> compares.\<close>

definition absolute_target :: "string \<Rightarrow> string \<Rightarrow> string" where
  "absolute_target tgt cwd =
     (if char_at tgt 0 = Some (CHR ''/'') then tgt else cwd @ ''/'' @ tgt)"

lemma scopeRelativePath_parts:
  assumes "scopeRelativePath tgt cwd rt = Some rel"
  shows "\<exists>segs. path_parts (absolute_target tgt cwd) = path_parts rt @ segs
                \<and> rel = join_with ''/'' segs"
proof -
  let ?A = "path_parts (absolute_target tgt cwd)" and ?B = "path_parts rt"
  have plain: "\<forall>s\<in>set ?A. plain_seg s" "\<forall>s\<in>set ?B. plain_seg s"
    by (auto intro: path_parts_plain)
  let ?abs = "scopeNormalisePath (absolute_target tgt cwd)" and ?base = "scopeNormalisePath rt"
  let ?head = "if ?base = ''/'' then ''/'' else ?base @ ''/''"
  from assms have split: "?abs = ?base \<and> rel = ''''
      \<or> take (length ?head) ?abs = ?head \<and> rel = drop (length ?head) ?abs"
    unfolding scopeRelativePath_def Let_def absolute_target_def [symmetric]
    by (auto split: if_splits)
  then show ?thesis
  proof
    assume "?abs = ?base \<and> rel = ''''"
    then have "?A = ?B" "rel = ''''"
      using join_plain_inj [OF plain] by (auto simp: scopeNormalisePath_def)
    then show ?thesis by (intro exI [of _ "[]"]) simp
  next
    assume h: "take (length ?head) ?abs = ?head \<and> rel = drop (length ?head) ?abs"
    show ?thesis
    proof (cases "?B = []")
      case True
      then have "?base = ''/''" by (simp add: scopeNormalisePath_def)
      with h True show ?thesis by (auto simp: scopeNormalisePath_def)
    next
      case False
      have "?base \<noteq> ''/''"
        using join_plain_inj [of "?B" "[]"] plain False by (auto simp: scopeNormalisePath_def)
      with h have "take (length ?base + 1) ?abs = ?base @ ''/''" "rel = drop (length ?base + 1) ?abs"
        by auto
      moreover from this(1) obtain r where "?abs = ?base @ CHR ''/'' # r"
        unfolding take_append_sep_iff by blast
      ultimately have "rel = r" and "join_with ''/'' ?A = join_with ''/'' ?B @ CHR ''/'' # r"
        by (auto simp: scopeNormalisePath_def)
      with join_plain_prefix [OF plain False] show ?thesis
        by (intro exI [of _ "split_on (CHR ''/'') r"]) (simp add: join_split_on)
    qed
  qed
qed

lemma scopeClip_from_bytes:
  "b \<le> 512 \<Longrightarrow> b + sum_list (map unit_bytes (scopeClip_from b s)) \<le> 514"
  by (induction b s rule: scopeClip_from.induct) (auto simp: ellipsis_def unit_bytes_def)

lemma scopeClip_from_id:
  "b + sum_list (map unit_bytes s) \<le> 512 \<Longrightarrow> scopeClip_from b s = s"
  by (induction b s rule: scopeClip_from.induct) auto

lemma add_path_props: "set (add_path p out) = set out \<union> set_option p"
  "distinct out \<Longrightarrow> distinct (add_path p out)"
  by (auto simp: add_path_def split: option.splits)

lemma scopeDiffPath_nonempty: "scopeDiffPath raw pre \<noteq> Some ''''"
  by (auto simp: scopeDiffPath_def Let_def)

lemma diff_line_paths_inv:
  "distinct out \<and> '''' \<notin> set out \<Longrightarrow>
   distinct (diff_line_paths raw out) \<and> '''' \<notin> set (diff_line_paths raw out)
   \<and> set out \<subseteq> set (diff_line_paths raw out)"
  using scopeDiffPath_nonempty
  by (auto simp: diff_line_paths_def diff_git_paths_def Let_def add_path_props split: option.splits)

lemma fold_diff_line_paths_inv:
  "distinct out \<and> '''' \<notin> set out \<Longrightarrow>
   distinct (fold diff_line_paths ls out) \<and> '''' \<notin> set (fold diff_line_paths ls out)
   \<and> set out \<subseteq> set (fold diff_line_paths ls out)"
proof (induction ls arbitrary: out)
  case (Cons l ls)
  from diff_line_paths_inv [OF Cons.prems] Cons.IH [of "diff_line_paths l out"] show ?case by auto
qed simp

lemma add_path_mono: "x \<in> set out \<Longrightarrow> x \<in> set (add_path p out)"
  by (simp add: add_path_props)

lemma fold_diff_line_paths_mono: "x \<in> set out \<Longrightarrow> x \<in> set (fold diff_line_paths ls out)"
proof (induction ls arbitrary: out)
  case (Cons l ls)
  have "x \<in> set (diff_line_paths l out)"
    using Cons.prems by (auto simp: diff_line_paths_def diff_git_paths_def Let_def add_path_mono split: option.splits)
  with Cons.IH show ?case by simp
qed simp

lemma diff_line_plus:
  assumes "x \<noteq> ''''" "CHR 0x09 \<notin> set x" "last x \<notin> {CHR '' '', CHR 0x0D}"
  shows "diff_line_paths (''+++ b/'' @ x) out = add_path (Some x) out"
proof -
  have cr: "strip_cr (''+++ b/'' @ x) = ''+++ b/'' @ x"
    using assms by (simp add: strip_cr_def)
  have trim: "trim_spaces (''b/'' @ x) = ''b/'' @ x"
    using assms by (cases x rule: rev_cases) (auto simp: trim_spaces_def)
  have tab: "takeWhile (\<lambda>c. c \<noteq> CHR 0x09) (''b/'' @ x) = ''b/'' @ x"
    using assms by (intro takeWhile_eq_all_conv [THEN iffD2]) auto
  have "scopeDiffPath (''b/'' @ x) ''b/'' = Some x"
    unfolding scopeDiffPath_def tab Let_def trim using assms(1) by simp
  then show ?thesis
    unfolding diff_line_paths_def cr Let_def by simp
qed

section \<open>Properties\<close>

text \<open>A path is inside a scope exactly when the scope normalises to the empty path or its
  segments begin the path's segments: whole segments, never a name's prefix.\<close>

theorem isWithinScope_segments:
  "isWithinScope tgt scopes =
     list_ex (\<lambda>raw. scope_norm raw = ''''
                \<or> prefix (split_on (CHR ''/'') (scope_norm raw)) (split_on (CHR ''/'') (scope_norm tgt)))
       scopes"
  by (simp add: isWithinScope_def Let_def covers_segments)

text \<open>C39: The org ceiling holds: when an org SOP declares a scope for the role, every path the
  scope in force covers is covered by the org's scope too (or only by the marker that stands for
  an empty intersection).  A workspace SOP can narrow the org's scope and never widen it.\<close>

theorem collectScopePaths_ceiling:
  assumes "isWithinScope tgt (collectScopePaths sops role)"
    and "paths_of Org sops role \<noteq> []"
    and "\<not> isWithinScope tgt [NARROWED_TO_NOTHING]"
  shows "isWithinScope tgt (paths_of Org sops role)"
proof -
  let ?org = "paths_of Org sops role" and ?ws = "paths_of Workspace sops role"
  let ?inside = "{w \<in> set ?ws. isWithinScope w ?org}"
  have "?ws = [] \<or> set (collectScopePaths sops role) = ?inside"
  proof (rule ccontr)
    assume "\<not> ?thesis"
    then have "set (collectScopePaths sops role) = {NARROWED_TO_NOTHING}"
      using assms(2) by (auto simp: set_collectScopePaths Let_def split: if_splits)
    with assms(1,3) show False by (simp add: isWithinScope_iff)
  qed
  then show ?thesis
  proof
    assume "?ws = []"
    with assms(1,2) show ?thesis by (simp add: isWithinScope_iff set_collectScopePaths)
  next
    assume "set (collectScopePaths sops role) = ?inside"
    then have "\<forall>w\<in>set (collectScopePaths sops role). isWithinScope w ?org" by simp
    with assms(1) show ?thesis by (rule isWithinScope_trans)
  qed
qed

theorem collectScopePaths_ceiling_witness:
  "isWithinScope ''packages/a/x.ts''
     (paths_of Org [\<lparr>ss_scope = Org, ss_roles = [], ss_scopePaths = [''packages'']\<rparr>,
                    \<lparr>ss_scope = Workspace, ss_roles = [], ss_scopePaths = [''packages/a'']\<rparr>] '''')"
proof (rule collectScopePaths_ceiling)
  let ?sops = "[\<lparr>ss_scope = Org, ss_roles = [], ss_scopePaths = [''packages'']\<rparr>,
                \<lparr>ss_scope = Workspace, ss_roles = [], ss_scopePaths = [''packages/a'']\<rparr>]"
  show "isWithinScope ''packages/a/x.ts'' (collectScopePaths ?sops '''')" by code_simp
  show "paths_of Org ?sops '''' \<noteq> []" by code_simp
  show "\<not> isWithinScope ''packages/a/x.ts'' [NARROWED_TO_NOTHING]" by code_simp
qed

text \<open>C38: A target a gate finds inside its workspace root is there: its resolved path is the
  resolved root followed by plain segments (none empty, \<open>.\<close> or \<open>..\<close>), and the relative path
  is those segments.  No \<open>..\<close> in the target or in \<open>cwd\<close> climbs out of the root.\<close>

theorem scopeRelativePath_contained:
  assumes "scopeRelativePath tgt cwd rt = Some rel"
  shows "\<exists>segs. path_parts (absolute_target tgt cwd) = path_parts rt @ segs
                \<and> rel = join_with ''/'' segs \<and> list_all plain_seg segs"
proof -
  obtain segs where segs: "path_parts (absolute_target tgt cwd) = path_parts rt @ segs"
    "rel = join_with ''/'' segs"
    using scopeRelativePath_parts [OF assms] by blast
  have "set segs \<subseteq> set (path_parts (absolute_target tgt cwd))"
    by (simp add: segs(1))
  then have "list_all plain_seg segs"
    by (auto simp: list_all_iff intro: path_parts_plain)
  with segs show ?thesis by blast
qed

theorem scopeRelativePath_contained_witness:
  "\<exists>segs. path_parts (absolute_target ''../b/./x.ts'' ''/w/a'') = path_parts ''/w'' @ segs
          \<and> ''b/x.ts'' = join_with ''/'' segs \<and> list_all plain_seg segs"
proof (rule scopeRelativePath_contained)
  show "scopeRelativePath ''../b/./x.ts'' ''/w/a'' ''/w'' = Some ''b/x.ts''" by code_simp
qed

text \<open>Every file a diff's \<open>+++ b/\<close> header names is among the changed paths, each path is
  listed once and none is empty, so a change cannot drop out of the scope check.\<close>

theorem diffChangedPaths_complete:
  assumes "''+++ b/'' @ x \<in> set (split_on (CHR 0x0A) diff)"
    and "x \<noteq> ''''" "CHR 0x09 \<notin> set x" "last x \<notin> {CHR '' '', CHR 0x0D}"
  shows "x \<in> set (diffChangedPaths diff) \<and> distinct (diffChangedPaths diff)
         \<and> '''' \<notin> set (diffChangedPaths diff)"
proof -
  obtain us vs where "split_on (CHR 0x0A) diff = us @ (''+++ b/'' @ x) # vs"
    using split_list [OF assms(1)] by blast
  then have "diffChangedPaths diff
      = fold diff_line_paths vs (add_path (Some x) (fold diff_line_paths us []))"
    by (simp only: diffChangedPaths_def fold_append fold.simps o_apply id_apply
        diff_line_plus [OF assms(2-4)])
  moreover have "x \<in> set (fold diff_line_paths vs (add_path (Some x) (fold diff_line_paths us [])))"
    by (rule fold_diff_line_paths_mono) (simp add: add_path_props)
  ultimately have "x \<in> set (diffChangedPaths diff)" by simp
  moreover have "distinct (diffChangedPaths diff) \<and> '''' \<notin> set (diffChangedPaths diff)"
    using fold_diff_line_paths_inv [of "[]"] by (simp add: diffChangedPaths_def)
  ultimately show ?thesis by blast
qed

theorem diffChangedPaths_complete_witness:
  "''src/a.ts'' \<in> set (diffChangedPaths (''--- /dev/null'' @ [CHR 0x0A] @ ''+++ b/src/a.ts''))"
proof -
  have "''+++ b/'' @ ''src/a.ts'' \<in> set (split_on (CHR 0x0A) (''--- /dev/null'' @ [CHR 0x0A] @ ''+++ b/src/a.ts''))"
    by simp
  from diffChangedPaths_complete [OF this] show ?thesis by simp
qed

text \<open>Enforced (tolerance 0), a plan check lists exactly the steps of the run that no plan step
  names, ignoring ASCII case, sorted and once each; with no plan or no run it lists none.\<close>

theorem planOffSteps_enforced:
  "set (offPlan (planOffSteps seq steps 0)) =
     {t \<in> set seq. steps \<noteq> [] \<and> scopeAsciiLower t \<notin> scopeAsciiLower ` set steps}
   \<and> sorted (offPlan (planOffSteps seq steps 0)) \<and> distinct (offPlan (planOffSteps seq steps 0))
   \<and> 0 \<le> offRatio (planOffSteps seq steps tol) \<and> offRatio (planOffSteps seq steps tol) \<le> 1"
proof -
  define off where "off = filter (\<lambda>t. scopeAsciiLower t \<notin> set (map scopeAsciiLower steps)) seq"
  define r :: rat where "r = of_nat (length off) / of_nat (length seq)"
  have r: "0 \<le> r" "r \<le> 1"
    by (simp_all add: r_def off_def divide_le_eq_1)
  have pos: "\<not> r \<le> 0" if "off \<noteq> []"
  proof -
    have "seq \<noteq> []" using that by (auto simp: off_def)
    with that show ?thesis by (simp add: r_def not_le)
  qed
  have set_off: "set off = {t \<in> set seq. scopeAsciiLower t \<notin> scopeAsciiLower ` set steps}"
    by (auto simp: off_def)
  have unfold: "planOffSteps seq steps tl = (if steps = [] \<or> seq = [] then \<lparr>offPlan = [], offRatio = 0\<rparr>
      else if off = [] then \<lparr>offPlan = [], offRatio = 0\<rparr>
      else if r \<le> tl then \<lparr>offPlan = [], offRatio = r\<rparr>
      else \<lparr>offPlan = sort_dedup off, offRatio = min 1 r\<rparr>)" for tl
    by (simp add: planOffSteps_def Let_def off_def r_def)
  show ?thesis
    unfolding unfold using r pos set_off by (cases "off = []") auto
qed

end
