(* ===== verification/FileWrites.thy ===== *)
theory FileWrites
  imports ScopeMatch Phrases
begin

text \<open>
  \<open>isFileWriteCall\<close> of \<open>packages/shared-types/src/scopeMatch.ts\<close>: whether a call changed files,
  which makes an earlier passing test run stale.  It stands apart because it joins the change
  targets of \<open>ScopeMatch\<close> with the phrase matcher of \<open>Phrases\<close>.
\<close>

definition FILE_WRITE_SHELL_PHRASES :: "string list" where
  "FILE_WRITE_SHELL_PHRASES =
     [''sed -i'', ''perl -i'', ''perl -pi'', ''git apply'', ''git am'', ''git checkout'', ''git switch'',
      ''git restore'', ''git reset'', ''git merge'', ''git pull'', ''git rebase'', ''git cherry-pick'',
      ''git revert'', ''git stash pop'', ''git stash apply'', ''patch -p'']"

definition isFileWriteCall :: "string \<Rightarrow> json \<Rightarrow> bool" where
  "isFileWriteCall tool input =
     (if changeTargets tool input \<noteq> [] then True
      else if \<not> scopeToolIs tool SCOPE_SHELL_TOOLS then False
      else (case scopeKeyed input SCOPE_COMMAND_KEYS of
              None \<Rightarrow> False
            | Some command \<Rightarrow>
                let words = phraseText command
                in list_ex (\<lambda>p. hasPhrase words p False) FILE_WRITE_SHELL_PHRASES))"

text \<open>No phrase of the list is a single word, so each is matched word by word.\<close>

lemma write_phrase_words:
  "p \<in> set FILE_WRITE_SHELL_PHRASES \<Longrightarrow>
   split_on (CHR '' '') (to_lower p) = split_on (CHR '' '') p \<and> length (split_on (CHR '' '') p) \<noteq> 1
   \<and> last (split_on (CHR '' '') p) \<noteq> '''' \<and> '''' \<notin> set (split_on (CHR '' '') p)"
proof -
  have "list_all (\<lambda>p. split_on (CHR '' '') (to_lower p) = split_on (CHR '' '') p \<and> length (split_on (CHR '' '') p) \<noteq> 1
      \<and> last (split_on (CHR '' '') p) \<noteq> '''' \<and> \<not> List.member (split_on (CHR '' '') p) '''') FILE_WRITE_SHELL_PHRASES"
    by code_simp
  then show "p \<in> set FILE_WRITE_SHELL_PHRASES \<Longrightarrow> ?thesis"
    by (simp add: list_all_iff)
qed

lemma hasPhrase_write_phrase:
  assumes "p \<in> set FILE_WRITE_SHELL_PHRASES"
  shows "hasPhrase (phraseText command) p False \<longleftrightarrow>
     (\<exists>q < length (pt_words (phraseText command)). phrase_at (phraseText command) False False (split_on (CHR '' '') p) q)"
  using write_phrase_words [OF assms]
  by (simp add: hasPhrase_joined_ok [OF phraseText_joined] Let_def)

text \<open>A call counts as a file write exactly when it is a mutation tool naming a target, or a
  shell tool whose command holds, word by word, one of the listed writing phrases.\<close>

theorem isFileWriteCall_iff:
  "isFileWriteCall tool input \<longleftrightarrow>
     (\<exists>t. t \<in> set (changeTargets tool input)) \<or>
     (scopeToolIs tool SCOPE_SHELL_TOOLS \<and>
      (\<exists>command p q. scopeKeyed input SCOPE_COMMAND_KEYS = Some command \<and> p \<in> set FILE_WRITE_SHELL_PHRASES
         \<and> q < length (pt_words (phraseText command))
         \<and> phrase_at (phraseText command) False False (split_on (CHR '' '') p) q))"
proof -
  have "list_ex (\<lambda>p. hasPhrase (phraseText command) p False) FILE_WRITE_SHELL_PHRASES \<longleftrightarrow>
      (\<exists>p q. p \<in> set FILE_WRITE_SHELL_PHRASES \<and> q < length (pt_words (phraseText command))
         \<and> phrase_at (phraseText command) False False (split_on (CHR '' '') p) q)" for command
    unfolding list_ex_iff using hasPhrase_write_phrase by blast
  then show ?thesis
    by (cases "changeTargets tool input") (auto simp: isFileWriteCall_def Let_def split: option.split)
qed

end
