(* ===== verification/ShellParse.thy ===== *)
theory ShellParse
  imports Js_Prelude
begin

text \<open>
  The shell parser of \<open>packages/shared-types/src/shellParse.ts\<close> (with a byte-identical copy in
  \<open>packages/gate-js\<close>): a text as pipelines of simple commands, or \<^const>\<open>None\<close> (the source's
  \<open>null\<close>) when it is not understood; \<open>dropCarriedText\<close>, which removes the text no command
  consumes; and the \<open>allow_commands:\<close> list.

  The local variables of \<open>parseShell\<close> are the record \<open>shell\<close>; one turn of its loop is
  \<open>shell_step\<close>, which returns the next index or \<^const>\<open>None\<close> for \<open>return null\<close>.
\<close>

section \<open>The parser\<close>

definition SHELL_CONTROL_WORDS :: "string list" where
  "SHELL_CONTROL_WORDS =
     [''if'', ''then'', ''else'', ''elif'', ''fi'', ''for'', ''while'', ''until'', ''do'', ''done'',
      ''case'', ''esac'', ''select'', ''function'', ''coproc'', ''alias'']"

record SimpleCommand =
  cmd_argv :: "string list"
  cmd_literal :: bool
  cmd_start :: nat
  cmd_end :: nat

definition is_name_char :: "char \<Rightarrow> bool" where
  "is_name_char c \<longleftrightarrow> is_AZ c \<or> is_az c \<or> is_digit c \<or> c = CHR ''_''"

definition shellIsAssignment :: "string \<Rightarrow> nat \<Rightarrow> bool" where
  "shellIsAssignment text i =
     (let rest = drop i text; n = length (takeWhile is_name_char rest)
      in 0 < n \<and> \<not> is_digit (hd rest) \<and> char_at rest n = Some (CHR ''=''))"

record shell =
  sh_pipelines :: "SimpleCommand list list"
  sh_pipeline :: "SimpleCommand list"
  sh_command :: "SimpleCommand option"
  sh_word :: "string list option"
  sh_pipeOpen :: bool

definition startWord :: "nat \<Rightarrow> shell \<Rightarrow> shell" where
  "startWord pos st =
     st\<lparr>sh_word := (case sh_word st of None \<Rightarrow> Some [] | w \<Rightarrow> w),
        sh_command := (case sh_command st of
            None \<Rightarrow> Some \<lparr>cmd_argv = [], cmd_literal = True, cmd_start = pos, cmd_end = pos\<rparr>
          | c \<Rightarrow> c)\<rparr>"

definition endWord :: "nat \<Rightarrow> shell \<Rightarrow> shell" where
  "endWord pos st =
     (case (sh_word st, sh_command st) of
        (Some w, Some c) \<Rightarrow>
          st\<lparr>sh_command := Some (c\<lparr>cmd_argv := cmd_argv c @ [concat w], cmd_end := pos\<rparr>), sh_word := None\<rparr>
      | _ \<Rightarrow> st\<lparr>sh_word := None\<rparr>)"

text \<open>\<open>word!.push(x)\<close> and \<open>command!.literal = false\<close>\<close>

definition pushWord :: "string \<Rightarrow> shell \<Rightarrow> shell" where
  "pushWord x st = st\<lparr>sh_word := map_option (\<lambda>w. w @ [x]) (sh_word st)\<rparr>"

definition notLiteral :: "shell \<Rightarrow> shell" where
  "notLiteral st = st\<lparr>sh_command := map_option (\<lambda>c. c\<lparr>cmd_literal := False\<rparr>) (sh_command st)\<rparr>"

text \<open>The loop over a double-quoted stretch, from the character after the opening quote; it
  returns the index of the closing one.\<close>

function dquote :: "string \<Rightarrow> nat \<Rightarrow> shell \<Rightarrow> (nat \<times> shell) option" where
  "dquote text i st =
     (if length text \<le> i then None
      else if text ! i = CHR 0x22 then Some (i, st)
      else if text ! i = CHR 0x60 then None
      else if text ! i = CHR ''$'' \<and> char_at text (i + 1) = Some (CHR ''('') then None
      else
        let q = text ! i; st = (if q = CHR ''$'' then notLiteral st else st) in
        if q = CHR 0x5C then
          (if length text \<le> i + 1 then None
           else
             let nxt = text ! (i + 1);
                 st = (if nxt \<in> {CHR ''$'', CHR 0x22, CHR 0x5C, CHR 0x60, CHR 0x0A} then st
                       else pushWord [CHR 0x5C] st);
                 st = (if nxt \<noteq> CHR 0x0A then pushWord [nxt] st else st)
             in dquote text (i + 2) st)
        else dquote text (i + 1) (pushWord [q] st))"
  by pat_completeness auto
termination
  by (relation "measure (\<lambda>(text, i, st). length text - i)") auto

declare dquote.simps [simp del]

text \<open>An operator: the command on its left joins the pipeline, and unless the operator is a pipe
  the pipeline is closed.\<close>

definition shell_operator :: "string \<Rightarrow> nat \<Rightarrow> shell \<Rightarrow> (nat \<times> shell) option" where
  "shell_operator text i st =
     (let c = text ! i; st = endWord i st;
          doubled = ((c = CHR ''&'' \<or> c = CHR ''|'') \<and> char_at text (i + 1) = Some c)
      in case sh_command st of
           None \<Rightarrow> if c = CHR 0x0A then Some (i + 1, st) else None
         | Some cmd \<Rightarrow>
             if hd (cmd_argv cmd) \<in> set SHELL_CONTROL_WORDS then None
             else
               let st = st\<lparr>sh_pipeline := sh_pipeline st @ [cmd], sh_command := None,
                           sh_pipeOpen := (c = CHR ''|'' \<and> \<not> doubled)\<rparr>;
                   i = (if sh_pipeOpen st \<and> char_at text (i + 1) = Some (CHR ''&'') then i + 1 else i);
                   st = (if sh_pipeOpen st then st
                         else st\<lparr>sh_pipelines := sh_pipelines st @ [sh_pipeline st], sh_pipeline := []\<rparr>)
               in Some (i + (if doubled then 2 else 1), st))"

definition shell_step :: "string \<Rightarrow> nat \<Rightarrow> shell \<Rightarrow> (nat \<times> shell) option" where
  "shell_step text i st =
     (let c = text ! i in
      if c = CHR '' '' \<or> c = CHR 0x09 then Some (i + 1, endWord i st)
      else if c = CHR 0x5C \<and> char_at text (i + 1) = Some (CHR 0x0A) then Some (i + 2, st)
      else if c = CHR 0x5C then
        (if length text \<le> i + 1 then None
         else Some (i + 2, pushWord [text ! (i + 1)] (startWord i st)))
      else if c = CHR 0x27 then
        (case index_of [CHR 0x27] (drop (i + 1) text) of
           None \<Rightarrow> None
         | Some k \<Rightarrow> Some (i + 1 + k + 1, pushWord (slice (i + 1) (i + 1 + k) text) (startWord i st)))
      else if c = CHR 0x22 then
        map_option (\<lambda>(j, st). (j + 1, st)) (dquote text (i + 1) (startWord i st))
      else if c = CHR ''#'' \<and> sh_word st = None then
        Some (i + length (takeWhile (\<lambda>d. d \<noteq> CHR 0x0A) (drop i text)), st)
      else if c \<in> {CHR ''<'', CHR ''>'', CHR ''('', CHR '')'', CHR ''{'', CHR ''}'', CHR 0x60} then None
      else if c \<in> {CHR 0x0A, CHR '';'', CHR ''&'', CHR ''|''} then shell_operator text i st
      else
        let st = (if c \<in> {CHR ''$'', CHR ''*'', CHR ''?'', CHR ''['', CHR ''~''}
                     \<or> sh_word st = None \<and> shellIsAssignment text i
                  then notLiteral (startWord i st) else st)
        in Some (i + 1, pushWord [c] (startWord i st)))"

lemma dquote_later: "dquote text i st = Some (j, st') \<Longrightarrow> i \<le> j \<and> j < length text"
proof (induction "length text - i" arbitrary: i st rule: less_induct)
  case less
  have IH: "dquote text k st = Some (j, st') \<Longrightarrow> i < k \<Longrightarrow> k \<le> length text \<Longrightarrow> i \<le> j \<and> j < length text" for k st
    using less.hyps [of k st] by (simp add: diff_less_mono2 order.strict_trans2)
  from less.prems show ?case
    unfolding dquote.simps [of "text" i] Let_def
    by (auto split: if_splits dest: IH)
qed

lemma shell_step_later: "shell_step text i st = Some (j, st') \<Longrightarrow> i < length text \<Longrightarrow> i < j"
  by (auto simp: shell_step_def shell_operator_def Let_def Cons_nth_drop_Suc [symmetric]
      split: if_splits option.splits dest!: dquote_later)

function shell_loop :: "string \<Rightarrow> nat \<Rightarrow> shell \<Rightarrow> shell option" where
  "shell_loop text i st =
     (if i < length text
      then (case shell_step text i st of None \<Rightarrow> None | Some (j, st') \<Rightarrow> shell_loop text j st')
      else Some st)"
  by pat_completeness auto
termination
  by (relation "measure (\<lambda>(text, i, st). length text - i)") (auto dest: shell_step_later)

declare shell_loop.simps [simp del]

definition shell_init :: shell where
  "shell_init = \<lparr>sh_pipelines = [], sh_pipeline = [], sh_command = None, sh_word = None, sh_pipeOpen = False\<rparr>"

definition shell_finish :: "nat \<Rightarrow> shell \<Rightarrow> SimpleCommand list list option" where
  "shell_finish n st =
     (let st = endWord n st in
      case sh_command st of
        Some cmd \<Rightarrow>
          if hd (cmd_argv cmd) \<in> set SHELL_CONTROL_WORDS then None
          else Some (sh_pipelines st @ [sh_pipeline st @ [cmd]])
      | None \<Rightarrow>
          if sh_pipeOpen st then None
          else Some (if sh_pipeline st = [] then sh_pipelines st else sh_pipelines st @ [sh_pipeline st]))"

definition parseShell :: "string \<Rightarrow> SimpleCommand list list option" where
  "parseShell text = Option.bind (shell_loop text 0 shell_init) (shell_finish (length text))"

section \<open>Carried text and the allow list\<close>

definition carries :: "SimpleCommand \<Rightarrow> bool" where
  "carries cmd =
     (let a0 = char_at (cmd_argv cmd) 0; a1 = char_at (cmd_argv cmd) 1
      in a0 = Some ''echo'' \<or> a0 = Some ''printf'' \<and> a1 \<noteq> Some ''-v''
         \<or> a0 = Some ''git'' \<and> a1 = Some ''commit'')"

fun drop_carried :: "string \<Rightarrow> SimpleCommand list list \<Rightarrow> string \<Rightarrow> nat \<Rightarrow> string" where
  "drop_carried text [] out kept = out @ drop kept text"
| "drop_carried text (pipeline # ps) out kept =
     (if length pipeline \<noteq> 1 then drop_carried text ps out kept
      else
        let only = pipeline ! 0 in
        if carries only then drop_carried text ps (out @ slice kept (cmd_start only) text) (cmd_end only)
        else drop_carried text ps out kept)"

definition dropCarriedText :: "string \<Rightarrow> string" where
  "dropCarriedText text =
     (case parseShell text of None \<Rightarrow> text | Some pipelines \<Rightarrow> drop_carried text pipelines '''' 0)"

record AllowEntry =
  ae_argv :: "string list"
  ae_open :: bool

definition has_glob :: "string \<Rightarrow> bool" where
  "has_glob w \<longleftrightarrow> list_ex (\<lambda>c. c \<in> {CHR ''$'', CHR ''*'', CHR ''?'', CHR ''['', CHR ''~''}) w"

definition allowEntry :: "string \<Rightarrow> AllowEntry option" where
  "allowEntry entry =
     (let opened = suffix '' *'' entry in
      case parseShell (if opened then take (length entry - 2) entry else entry) of
        Some [ [only] ] \<Rightarrow>
          if \<not> cmd_literal only \<or> list_ex has_glob (cmd_argv only) then None
          else Some \<lparr>ae_argv = cmd_argv only, ae_open = opened\<rparr>
      | _ \<Rightarrow> None)"

definition isAllowEntry :: "string \<Rightarrow> bool" where
  "isAllowEntry entry \<longleftrightarrow> allowEntry entry \<noteq> None"

definition entry_allows :: "AllowEntry \<Rightarrow> SimpleCommand \<Rightarrow> bool" where
  "entry_allows e c =
     (let n = length (ae_argv e) in
      if (if ae_open e then length (cmd_argv c) < n else \<not> cmd_literal c \<or> length (cmd_argv c) \<noteq> n)
      then False
      else list_all (\<lambda>i. char_at (cmd_argv c) i = Some (ae_argv e ! i)) [0..<n])"

definition commandsOutsideAllow :: "string \<Rightarrow> string list \<Rightarrow> string list" where
  "commandsOutsideAllow text allow =
     (let entries = map allowEntry allow in
      case parseShell text of
        None \<Rightarrow> [text]
      | Some parsed \<Rightarrow>
          if list_ex (\<lambda>e. e = None) entries then [text]
          else
            map (\<lambda>c. slice (cmd_start c) (cmd_end c) text)
              (filter (\<lambda>c. \<not> list_ex (\<lambda>e. case e of None \<Rightarrow> False | Some e \<Rightarrow> entry_allows e c) entries)
                 (concat parsed)))"

section \<open>Where the commands stand\<close>

text \<open>Commands one after the other, from \<open>lo\<close> on and ending by \<open>hi\<close>.\<close>

primrec in_order :: "nat \<Rightarrow> SimpleCommand list \<Rightarrow> nat \<Rightarrow> bool" where
  "in_order lo [] hi \<longleftrightarrow> lo \<le> hi"
| "in_order lo (c # cs) hi \<longleftrightarrow> lo \<le> cmd_start c \<and> cmd_start c < cmd_end c \<and> in_order (cmd_end c) cs hi"

lemma in_order_append: "in_order lo (xs @ ys) hi \<longleftrightarrow> (\<exists>m. in_order lo xs m \<and> in_order m ys hi)"
proof (induction xs arbitrary: lo)
  case Nil
  have "in_order m ys hi \<Longrightarrow> lo \<le> m \<Longrightarrow> in_order lo ys hi" for m
    by (cases ys) auto
  then show ?case by auto
qed auto

lemma in_order_mono: "in_order lo xs hi \<Longrightarrow> hi \<le> hi' \<Longrightarrow> in_order lo xs hi'"
  by (induction xs arbitrary: lo) auto

lemma in_order_le: "in_order lo xs hi \<Longrightarrow> lo \<le> hi"
  by (induction xs arbitrary: lo) force+

lemma in_order_lo: "in_order lo xs hi \<Longrightarrow> lo' \<le> lo \<Longrightarrow> in_order lo' xs hi"
  by (cases xs) auto

definition good_command :: "SimpleCommand \<Rightarrow> bool" where
  "good_command c \<longleftrightarrow> cmd_argv c \<noteq> [] \<and> hd (cmd_argv c) \<notin> set SHELL_CONTROL_WORDS"

text \<open>The commands read so far, and the one being read at index \<open>i\<close>.\<close>

definition sh_done :: "shell \<Rightarrow> SimpleCommand list" where
  "sh_done st = concat (sh_pipelines st) @ sh_pipeline st"

definition open_command :: "nat \<Rightarrow> shell \<Rightarrow> bool" where
  "open_command i st \<longleftrightarrow>
     (case sh_command st of
        None \<Rightarrow> sh_word st = None \<and> in_order 0 (sh_done st) i
      | Some c \<Rightarrow> in_order 0 (sh_done st) (cmd_start c) \<and> cmd_start c < i
          \<and> (if cmd_argv c = [] then sh_word st \<noteq> None else cmd_start c < cmd_end c \<and> cmd_end c \<le> i))"

definition sh_inv :: "nat \<Rightarrow> shell \<Rightarrow> bool" where
  "sh_inv i st \<longleftrightarrow> open_command i st \<and> list_all good_command (sh_done st)
     \<and> [] \<notin> set (sh_pipelines st)"

lemma sh_inv_later: "sh_inv i st \<Longrightarrow> i \<le> j \<Longrightarrow> sh_inv j st"
  by (auto simp: sh_inv_def open_command_def intro: in_order_mono split: option.splits)

lemma sh_done_ops [simp]:
  "sh_done (startWord i st) = sh_done st" "sh_done (endWord i st) = sh_done st"
  "sh_done (pushWord x st) = sh_done st" "sh_done (notLiteral st) = sh_done st"
  "sh_pipelines (startWord i st) = sh_pipelines st" "sh_pipelines (endWord i st) = sh_pipelines st"
  "sh_pipelines (pushWord x st) = sh_pipelines st" "sh_pipelines (notLiteral st) = sh_pipelines st"
  "sh_pipeline (endWord i st) = sh_pipeline st"
  by (simp_all add: sh_done_def startWord_def endWord_def pushWord_def notLiteral_def
      split: option.splits)

text \<open>Starting a word at \<open>i\<close> keeps the invariant for any later index; the other operations keep it
  where they are.\<close>

lemma startWord_inv: "sh_inv i st \<Longrightarrow> i < j \<Longrightarrow> sh_inv j (startWord i st)"
  by (auto simp: sh_inv_def open_command_def startWord_def sh_done_def split: option.splits if_splits
      intro: in_order_mono)

lemma startWord_word [simp]: "sh_word (startWord i st) \<noteq> None"
  by (auto simp: startWord_def split: option.splits)

lemma endWord_inv: "sh_inv i st \<Longrightarrow> sh_inv i (endWord i st)"
  by (auto simp: sh_inv_def open_command_def endWord_def sh_done_def split: option.splits if_splits)

lemma endWord_word [simp]: "sh_word (endWord i st) = None"
  by (auto simp: endWord_def split: option.splits)

lemma pushWord_inv: "sh_inv i st \<Longrightarrow> sh_inv i (pushWord x st)"
  by (auto simp: sh_inv_def open_command_def pushWord_def sh_done_def split: option.splits if_splits)

lemma notLiteral_inv: "sh_inv i st \<Longrightarrow> sh_inv i (notLiteral st)"
  by (auto simp: sh_inv_def open_command_def notLiteral_def sh_done_def split: option.splits if_splits)

lemma dquote_inv: "dquote text i st = Some (j, st') \<Longrightarrow> sh_inv k st \<Longrightarrow> sh_inv k st'"
proof (induction "length text - i" arbitrary: i st rule: less_induct)
  case less
  have IH: "dquote text m st = Some (j, st') \<Longrightarrow> i < m \<Longrightarrow> i < length text \<Longrightarrow> sh_inv k st \<Longrightarrow> sh_inv k st'" for m st
    by (erule less.hyps [rotated]) auto
  from less.prems show ?case
    unfolding dquote.simps [of "text" i] Let_def
    by (auto split: if_splits dest!: IH simp: pushWord_inv notLiteral_inv)
qed

text \<open>A finished word leaves a command with arguments, which ends by \<open>i\<close>.\<close>

lemma endWord_command:
  "sh_inv i st \<Longrightarrow> sh_command (endWord i st) = Some c \<Longrightarrow>
   cmd_argv c \<noteq> [] \<and> in_order 0 (sh_done st @ [c]) i"
  by (auto simp: sh_inv_def open_command_def endWord_def in_order_append split: option.splits if_splits)

lemma endWord_no_command:
  "sh_inv i st \<Longrightarrow> sh_command (endWord i st) = None \<Longrightarrow> in_order 0 (sh_done st) i"
  by (auto simp: sh_inv_def open_command_def endWord_def split: option.splits if_splits)

lemma shell_operator_inv:
  assumes "shell_operator text i st = Some (j, st')" "sh_inv i st"
  shows "sh_inv j st'"
proof (cases "sh_command (endWord i st)")
  case None
  with assms show ?thesis
    by (auto simp: shell_operator_def Let_def split: if_splits intro: sh_inv_later [OF endWord_inv])
next
  case (Some c)
  note end_facts = endWord_command [OF assms(2) Some] endWord_inv [OF assms(2)]
  from assms(1) Some have good: "hd (cmd_argv c) \<notin> set SHELL_CONTROL_WORDS" and j: "i \<le> j"
    by (auto simp: shell_operator_def Let_def split: if_splits)
  from assms(1) Some have st': "sh_command st' = None \<and> sh_word st' = None \<and> sh_done st' = sh_done st @ [c]
      \<and> [] \<notin> set (sh_pipelines st')"
    using end_facts(2)
    by (auto simp: shell_operator_def sh_done_def sh_inv_def Let_def split: if_splits)
  show ?thesis
    using end_facts good j st' by (auto simp: sh_inv_def open_command_def good_command_def intro: in_order_mono)
qed

lemma shell_step_inv:
  assumes "shell_step text i st = Some (j, st')" "sh_inv i st" "i < length text"
  shows "sh_inv j st'"
proof -
  have later: "i < j" using shell_step_later [OF assms(1,3)] .
  have push: "sh_inv m (pushWord x (startWord i st))" if "i < m" for m x
    by (intro pushWord_inv startWord_inv assms(2) that)
  have lit: "sh_inv m (pushWord x (startWord i (notLiteral (startWord i st))))" if "i < m" for m x
    using that assms(2) by (intro pushWord_inv)
      (auto simp: sh_inv_def open_command_def startWord_def notLiteral_def sh_done_def split: option.splits if_splits
        intro: in_order_mono)
  have dq: "sh_inv (Suc m) s" if "dquote text (Suc i) (startWord i st) = Some (m, s)" for m s
    using dquote_inv [OF that, of "Suc m"] startWord_inv [OF assms(2), of "Suc m"] dquote_later [OF that] by simp
  have keep: "sh_inv j st" using sh_inv_later [OF assms(2)] later by simp
  show ?thesis
    using assms(1) later keep
    unfolding shell_step_def Let_def
    by (auto simp: push lit dq sh_inv_later [OF endWord_inv [OF assms(2)]]
        shell_operator_inv [OF _ assms(2)] split: if_splits option.splits)
qed

lemma char_at_Some: "char_at s i = Some c \<Longrightarrow> i < length s"
  by (simp add: char_at_def split: if_splits)

lemma shell_step_bound:
  "shell_step text i st = Some (j, st') \<Longrightarrow> i < length text \<Longrightarrow> j \<le> length text"
proof -
  assume step: "shell_step text i st = Some (j, st')" and i: "i < length text"
  have tw: "i + length (takeWhile P (drop i text)) \<le> length text" for P
    using length_takeWhile_le [of P "drop i text"] i by simp
  have ix: "Suc (Suc (i + k)) \<le> length text" if "index_of [CHR 0x27] (drop (Suc i) text) = Some k" for k
    using index_of_Some [OF that] i by auto
  show ?thesis
    using step i tw ix
    unfolding shell_step_def shell_operator_def Let_def
    by (auto split: if_splits option.splits dest!: char_at_Some dest: dquote_later)
qed

lemma shell_loop_inv:
  "shell_loop text i st = Some st' \<Longrightarrow> sh_inv i st \<Longrightarrow> i \<le> length text \<Longrightarrow> sh_inv (length text) st'"
proof (induction "length text - i" arbitrary: i st rule: less_induct)
  case less
  show ?case
  proof (cases "i < length text")
    case True
    with less.prems(1) obtain j s where step: "shell_step text i st = Some (j, s)"
      and loop: "shell_loop text j s = Some st'"
      by (subst (asm) shell_loop.simps) (auto split: option.splits)
    show ?thesis
      using less.hyps [OF _ loop shell_step_inv [OF step less.prems(2) True] shell_step_bound [OF step True]]
        shell_step_later [OF step True] True by simp
  next
    case False
    with less.prems show ?thesis by (simp add: shell_loop.simps [of "text" i])
  qed
qed

text \<open>What a parse promises: every pipeline has a command, every command has a first word that is
  no control word, and the commands stand in the text in order and apart.\<close>

lemma parseShell_wf:
  assumes "parseShell text = Some ps"
  shows "[] \<notin> set ps \<and> list_all good_command (concat ps) \<and> in_order 0 (concat ps) (length text)"
proof -
  from assms obtain st where loop: "shell_loop text 0 shell_init = Some st"
    and fin: "shell_finish (length text) st = Some ps"
    by (auto simp: parseShell_def bind_eq_Some_conv)
  have "sh_inv 0 shell_init" by (simp add: sh_inv_def open_command_def shell_init_def sh_done_def)
  from shell_loop_inv [OF loop this] have inv: "sh_inv (length text) st" by simp
  show ?thesis
  proof (cases "sh_command (endWord (length text) st)")
    case None
    with fin inv endWord_no_command [OF inv None] show ?thesis
      by (auto simp: shell_finish_def sh_inv_def sh_done_def Let_def split: if_splits)
  next
    case (Some c)
    with fin inv endWord_command [OF inv Some] show ?thesis
      by (auto simp: shell_finish_def sh_inv_def sh_done_def good_command_def Let_def split: if_splits)
  qed
qed

section \<open>What is dropped\<close>

lemma drop_carried_out: "drop_carried text ps out k = out @ drop_carried text ps '''' k"
proof (induction ps arbitrary: out k)
  case (Cons pl ps)
  show ?case
    using Cons.IH [of out k] Cons.IH [of "out @ slice k (cmd_start (pl ! 0)) text" "cmd_end (pl ! 0)"]
      Cons.IH [of "slice k (cmd_start (pl ! 0)) text" "cmd_end (pl ! 0)"]
    by (simp add: Let_def)
qed simp

lemma slice_sub_slice: "k \<le> a \<Longrightarrow> b \<le> c \<Longrightarrow> sublist (slice a b s) (slice k c s)"
proof -
  assume "k \<le> a" "b \<le> c"
  then have "slice a b s = take (b - a) (drop (a - k) (slice k c s))"
    by (auto simp: slice_def drop_take min_def)
  then show ?thesis by (metis sublist_drop sublist_order.order.trans sublist_take)
qed

lemma slice_sub_drop: "k \<le> a \<Longrightarrow> sublist (slice a b s) (drop k s)"
  using slice_sub_slice [of k a b "max b (length s)" s] by (simp add: slice_def)

lemma carried_gap:
  "in_order lo (concat ps) n \<Longrightarrow> k \<le> a \<Longrightarrow> b \<le> lo \<Longrightarrow> sublist (slice a b text) (drop_carried text ps '''' k)"
proof (induction ps arbitrary: lo)
  case Nil
  then show ?case by (simp add: slice_sub_drop)
next
  case (Cons pl ps)
  from Cons.prems(1) obtain m where m: "in_order lo pl m" "in_order m (concat ps) n"
    by (auto simp: in_order_append)
  show ?case
  proof (cases "length pl = 1 \<and> carries (pl ! 0)")
    case True
    then obtain c where pl: "pl = [c]" by (cases pl) auto
    with m(1) Cons.prems(3) have "b \<le> cmd_start c" by simp
    then have "sublist (slice a b text) (slice k (cmd_start c) text)"
      using Cons.prems(2) by (simp add: slice_sub_slice)
    then show ?thesis
      using True pl drop_carried_out [of "text" ps "slice k (cmd_start c) text"]
      by (auto simp: sublist_append)
  next
    case False
    then show ?thesis
      using Cons.IH [OF m(2) Cons.prems(2)] in_order_le [OF m(1)] Cons.prems(3)
      by (auto simp: Let_def)
  qed
qed

lemma in_order_mem: "in_order lo xs hi \<Longrightarrow> c \<in> set xs \<Longrightarrow> lo \<le> cmd_start c \<and> cmd_end c \<le> hi"
proof (induction xs arbitrary: lo)
  case (Cons x xs)
  then show ?case
    using in_order_le [of "cmd_end x" xs hi] by fastforce
qed simp

lemma carried_keeps:
  assumes "in_order lo (concat ps) n" "k \<le> lo" "pl \<in> set ps" "c \<in> set pl" "\<not> (length pl = 1 \<and> carries c)"
  shows "sublist (slice (cmd_start c) (cmd_end c) text) (drop_carried text ps '''' k)"
  using assms
proof (induction ps arbitrary: lo k)
  case (Cons p ps)
  from Cons.prems(1) obtain m where m: "in_order lo p m" "in_order m (concat ps) n"
    by (auto simp: in_order_append)
  note le = in_order_le [OF m(1)]
  show ?case
  proof (cases "length p = 1 \<and> carries (p ! 0)")
    case True
    then obtain d where p: "p = [d]" by (cases p) auto
    with True Cons.prems(3-5) have "pl \<in> set ps" by auto
    moreover have "cmd_end d \<le> m" using m(1) p by simp
    ultimately have "sublist (slice (cmd_start c) (cmd_end c) text) (drop_carried text ps '''' (cmd_end d))"
      using Cons.IH [OF m(2)] Cons.prems(4,5) by blast
    then show ?thesis
      using True p drop_carried_out [of "text" ps "slice k (cmd_start d) text" "cmd_end d"]
      by (auto simp: sublist_append)
  next
    case False
    then have step: "drop_carried text (p # ps) '''' k = drop_carried text ps '''' k"
      by (auto simp: Let_def)
    show ?thesis
    proof (cases "pl = p")
      case True
      then show ?thesis
        unfolding step using carried_gap [OF m(2)] in_order_mem [OF m(1)] Cons.prems(2,4) by (meson order.trans)
    next
      case False
      then show ?thesis
        unfolding step using Cons.IH [OF m(2)] Cons.prems(2-5) le by auto
    qed
  qed
qed simp

definition carried_lengths :: "SimpleCommand list list \<Rightarrow> nat list" where
  "carried_lengths ps = map (\<lambda>pl. cmd_end (pl ! 0) - cmd_start (pl ! 0)) (filter (\<lambda>pl. length pl = 1 \<and> carries (pl ! 0)) ps)"

lemma carried_length:
  "in_order lo (concat ps) (length text) \<Longrightarrow> k \<le> lo \<Longrightarrow>
   length (drop_carried text ps '''' k) + k + sum_list (carried_lengths ps) = length text"
proof (induction ps arbitrary: lo k)
  case Nil
  then show ?case by (simp add: carried_lengths_def)
next
  case (Cons p ps)
  from Cons.prems(1) obtain m where m: "in_order lo p m" "in_order m (concat ps) (length text)"
    by (auto simp: in_order_append)
  show ?case
  proof (cases "length p = 1 \<and> carries (p ! 0)")
    case True
    then obtain d where p: "p = [d]" by (cases p) auto
    have d: "cmd_start d < cmd_end d" "cmd_end d \<le> m" "k \<le> cmd_start d"
      using m(1) p Cons.prems(2) by auto
    have "length (slice k (cmd_start d) text) = cmd_start d - k"
      using d in_order_le [OF m(2)] by (simp add: slice_def)
    then show ?thesis
      using True p d Cons.IH [OF m(2) d(2)] drop_carried_out [of "text" ps "slice k (cmd_start d) text" "cmd_end d"]
      by (simp add: carried_lengths_def)
  next
    case False
    then show ?thesis
      using Cons.IH [OF m(2)] Cons.prems(2) in_order_le [OF m(1)]
      by (auto simp: carried_lengths_def Let_def)
  qed
qed

section \<open>Quoted words are read back\<close>

definition shell_quote :: "string \<Rightarrow> string" where
  "shell_quote w = [CHR 0x27] @ w @ [CHR 0x27]"

text \<open>Between two words, with \<open>args\<close> read so far.\<close>

definition ready :: "string list \<Rightarrow> shell \<Rightarrow> bool" where
  "ready args st \<longleftrightarrow> sh_word st = None \<and> sh_pipelines st = [] \<and> sh_pipeline st = [] \<and> \<not> sh_pipeOpen st
     \<and> (case sh_command st of None \<Rightarrow> args = []
        | Some c \<Rightarrow> args \<noteq> [] \<and> cmd_argv c = args \<and> cmd_literal c)"

lemma ready_word: "ready args st \<Longrightarrow> ready (args @ [w]) (endWord n (pushWord w (startWord i st)))"
  by (auto simp: ready_def endWord_def pushWord_def startWord_def split: option.splits)

lemma ready_finish:
  "ready args (endWord n st) \<Longrightarrow> args \<noteq> [] \<Longrightarrow> hd args \<notin> set SHELL_CONTROL_WORDS \<Longrightarrow>
   \<exists>c. shell_finish n st = Some [ [c] ] \<and> cmd_argv c = args \<and> cmd_literal c"
  by (auto simp: ready_def shell_finish_def Let_def split: option.splits)

lemma index_of_char: "c \<notin> set w \<Longrightarrow> index_of [c] (w @ c # rest) = Some (length w)"
  by (induction w) auto

lemma shell_step_quote:
  assumes "CHR 0x27 \<notin> set w"
  shows "shell_step (pre @ shell_quote w @ rest) (length pre) st
       = Some (length pre + length w + 2, pushWord w (startWord (length pre) st))"
  using assms by (simp add: shell_step_def shell_quote_def nth_append index_of_char slice_def)

lemma shell_loop_step:
  "i < length text \<Longrightarrow> shell_step text i st = Some (j, st') \<Longrightarrow> shell_loop text i st = shell_loop text j st'"
  by (simp add: shell_loop.simps [of "text" i])

lemma shell_loop_end: "shell_loop text (length text) st = Some st"
  by (simp add: shell_loop.simps)

lemma shell_loop_quoted:
  assumes "ready args st" "ws \<noteq> []" "\<forall>w \<in> set ws. CHR 0x27 \<notin> set w" "hd (args @ ws) \<notin> set SHELL_CONTROL_WORDS"
    and "s = pre @ join_with '' '' (map shell_quote ws)"
  shows "\<exists>c. Option.bind (shell_loop s (length pre) st) (shell_finish (length s)) = Some [ [c] ]
           \<and> cmd_argv c = args @ ws \<and> cmd_literal c"
  using assms
proof (induction ws arbitrary: args st pre)
  case (Cons w ws)
  let ?st1 = "pushWord w (startWord (length pre) st)"
  let ?i = "length pre + length w + 2"
  have w: "CHR 0x27 \<notin> set w" using Cons.prems(3) by simp
  show ?case
  proof (cases "ws = []")
    case True
    then have s: "s = pre @ shell_quote w @ ''''" and len: "length s = ?i"
      using Cons.prems(5) by (simp_all add: shell_quote_def)
    have "shell_loop s (length pre) st = shell_loop s ?i ?st1"
      unfolding s by (rule shell_loop_step) (use shell_step_quote [OF w, of pre "''''" st] in \<open>auto simp: shell_quote_def\<close>)
    then have "shell_loop s (length pre) st = Some ?st1"
      using shell_loop_end [of s] len by simp
    then show ?thesis
      using ready_finish [OF ready_word [OF Cons.prems(1)]] Cons.prems(4) True by simp
  next
    case False
    then obtain v vs where ws: "ws = v # vs" by (cases ws) auto
    let ?rest = "join_with '' '' (map shell_quote ws)"
    have s: "s = pre @ shell_quote w @ ('' '' @ ?rest)"
      using Cons.prems(5) ws by simp
    have s2: "s = (pre @ shell_quote w @ '' '') @ ?rest" unfolding s by simp
    have "shell_loop s (length pre) st = shell_loop s ?i ?st1"
      by (rule shell_loop_step)
        (use shell_step_quote [OF w, of pre "'' '' @ ?rest" st] in \<open>auto simp: s shell_quote_def\<close>)
    also have "\<dots> = shell_loop s (Suc ?i) (endWord ?i ?st1)"
      by (rule shell_loop_step) (auto simp: s shell_quote_def shell_step_def nth_append)
    also have "Suc ?i = length (pre @ shell_quote w @ '' '')" by (simp add: shell_quote_def)
    finally have loop: "shell_loop s (length pre) st
        = shell_loop s (length (pre @ shell_quote w @ '' '')) (endWord ?i ?st1)" .
    show ?thesis
      using Cons.IH [OF ready_word [OF Cons.prems(1)] False _ _ s2] Cons.prems(3,4) loop by simp
  qed
qed simp

section \<open>Properties\<close>

text \<open>In a text that parses, every pipeline holds a command, every command has a first word,
  which is no shell control word, and the commands stand in the text in order, without overlap
  and inside it.\<close>

theorem parseShell_wellformed:
  "parseShell text = Some ps \<Longrightarrow>
   [] \<notin> set ps \<and> list_all good_command (concat ps) \<and> in_order 0 (concat ps) (length text)"
  by (rule parseShell_wf)

theorem parseShell_wellformed_witness:
  "\<exists>ps. parseShell ''git add . && git push | cat'' = Some ps \<and> length ps = 2 \<and> in_order 0 (concat ps) (length ''git add . && git push | cat'')"
proof -
  have "map_option length (parseShell ''git add . && git push | cat'') = Some 2" by code_simp
  then show ?thesis using parseShell_wellformed [of "''git add . && git push | cat''"] by (auto simp del: list.size)
qed

text \<open>Single-quoted words joined by spaces parse back to exactly those words, as one literal
  command, whatever the words hold.\<close>

theorem parseShell_quoted:
  assumes "ws \<noteq> []" "\<forall>w \<in> set ws. CHR 0x27 \<notin> set w" "hd ws \<notin> set SHELL_CONTROL_WORDS"
  shows "\<exists>c. parseShell (join_with '' '' (map shell_quote ws)) = Some [ [c] ] \<and> cmd_argv c = ws \<and> cmd_literal c"
  using shell_loop_quoted [of "[]" shell_init ws "join_with '' '' (map shell_quote ws)" "''''"] assms
  by (simp add: parseShell_def ready_def shell_init_def)

theorem parseShell_quoted_witness:
  "\<exists>c. parseShell (join_with '' '' (map shell_quote [''echo'', ''a; b'', ''$x''])) = Some [ [c] ]
       \<and> cmd_argv c = [''echo'', ''a; b'', ''$x''] \<and> cmd_literal c"
  by (rule parseShell_quoted) (simp_all add: SHELL_CONTROL_WORDS_def)

text \<open>Dropping carried text removes exactly the carried commands: the result is shorter by
  their lengths, and every other command of the text is still in it, word for word.  So no command
  can hide behind a lone \<open>echo\<close>, \<open>printf\<close> or \<open>git commit\<close>.\<close>

theorem dropCarriedText_keeps:
  assumes "parseShell text = Some ps"
  shows "length (dropCarriedText text) + sum_list (carried_lengths ps) = length text
    \<and> (\<forall>pl \<in> set ps. \<forall>c \<in> set pl. \<not> (length pl = 1 \<and> carries c) \<longrightarrow>
         sublist (slice (cmd_start c) (cmd_end c) text) (dropCarriedText text))"
  using parseShell_wf [OF assms] carried_length [of 0 ps "text" 0] carried_keeps [of 0 ps "length text" 0]
  by (simp add: dropCarriedText_def assms)

theorem dropCarriedText_keeps_witness:
  "dropCarriedText ''echo git push; git push'' = ''; git push''
   \<and> length (dropCarriedText ''echo git push; git push'') + 13 = 23"
proof -
  have "map_option carried_lengths (parseShell ''echo git push; git push'') = Some [13]"
    and "dropCarriedText ''echo git push; git push'' = ''; git push''" by code_simp+
  then show ?thesis using dropCarriedText_keeps [of "''echo git push; git push''"] by auto
qed

text \<open>A command an entry of the list allows: the entry's words exactly, all literal, or at
  least the words of an open entry \<open>... *\<close>.\<close>

definition covered_by :: "string list \<Rightarrow> SimpleCommand \<Rightarrow> bool" where
  "covered_by allow c \<longleftrightarrow>
     (\<exists>entry \<in> set allow. \<exists>e. allowEntry entry = Some e \<and>
        (if ae_open e then prefix (ae_argv e) (cmd_argv c) else cmd_literal c \<and> cmd_argv c = ae_argv e))"

lemma char_at_prefix: "list_all (\<lambda>i. char_at ys i = Some (xs ! i)) [0..<length xs] \<longleftrightarrow> prefix xs ys"
proof
  assume "list_all (\<lambda>i. char_at ys i = Some (xs ! i)) [0..<length xs]"
  then have at: "i < length ys \<and> ys ! i = xs ! i" if "i < length xs" for i
    using that by (simp add: list_all_iff char_at_def split: if_splits)
  then have "length xs \<le> length ys" using at [of "length ys"] by (meson less_irrefl not_le)
  with at have "take (length xs) ys = xs" by (intro nth_equalityI) auto
  then show "prefix xs ys" by (metis take_is_prefix)
qed (auto simp: list_all_iff char_at_def prefix_def nth_append)

lemma entry_allows_iff:
  "entry_allows e c \<longleftrightarrow>
     (if ae_open e then prefix (ae_argv e) (cmd_argv c) else cmd_literal c \<and> cmd_argv c = ae_argv e)"
proof -
  have "prefix xs ys \<Longrightarrow> \<not> length ys < length xs" "length ys = length xs \<Longrightarrow> prefix xs ys \<longleftrightarrow> ys = xs" for xs ys :: "string list"
    by (auto simp: prefix_def)
  then show ?thesis
    unfolding entry_allows_def Let_def char_at_prefix by auto
qed

lemma covered_by_code:
  "list_ex (\<lambda>e. case e of None \<Rightarrow> False | Some e \<Rightarrow> entry_allows e c) (map allowEntry allow) = covered_by allow c"
  by (auto simp: covered_by_def entry_allows_iff list_ex_iff split: option.splits)

lemma unreadable_entry:
  "list_ex (\<lambda>e. e = None) (map allowEntry allow) \<longleftrightarrow> \<not> list_all isAllowEntry allow"
  by (force simp: list_ex_iff list_all_iff isAllowEntry_def)

lemma commandsOutsideAllow_Nil:
  "commandsOutsideAllow text allow = [] \<longleftrightarrow>
     (\<exists>ps. parseShell text = Some ps \<and> list_all isAllowEntry allow \<and> list_all (covered_by allow) (concat ps))"
  unfolding commandsOutsideAllow_def Let_def covered_by_code unreadable_entry
  by (auto simp: filter_empty_conv list_all_iff split: option.splits)

text \<open>C37: The allow list fails closed.  No command is reported exactly when the text parses, every
  entry of the list can be read, and every command of the text is allowed by an entry.\<close>

theorem commandsOutsideAllow_empty:
  "commandsOutsideAllow text allow = [] \<longleftrightarrow>
     (\<exists>ps. parseShell text = Some ps \<and> list_all isAllowEntry allow \<and> list_all (covered_by allow) (concat ps))"
  by (rule commandsOutsideAllow_Nil)

text \<open>What \<open>commandsOutsideAllow\<close> reports are the commands no entry allows, in order and each
  as written in the text; when there is no verdict it reports the whole text.\<close>

theorem commandsOutsideAllow_reports:
  "commandsOutsideAllow text allow =
     (case parseShell text of
        Some ps \<Rightarrow>
          if list_all isAllowEntry allow
          then [slice (cmd_start c) (cmd_end c) text. c \<leftarrow> concat ps, \<not> covered_by allow c]
          else [text]
      | None \<Rightarrow> [text])"
proof -
  have "map f (filter P xs) = concat (map (\<lambda>x. if P x then [f x] else []) xs)" for f :: "SimpleCommand \<Rightarrow> string" and P xs
    by (induction xs) auto
  then show ?thesis
    unfolding commandsOutsideAllow_def Let_def covered_by_code unreadable_entry
    by (simp split: option.split)
qed

end
