(* ===== verification/JsRegex.thy ===== *)
theory JsRegex
  imports Js_Prelude
begin

text \<open>
  The part of JavaScript's regular expressions the scanners of the sources use (no captures, no
  lookaround, no lazy quantifier), as a backtracking matcher: \<open>ends\<close> lists where a match from a
  position can end, in the order the engine tries them, so that its head is the match \<open>exec\<close>
  reports.  An iteration of a quantifier past its minimum must consume something, as in the
  standard, so an unbounded quantifier is tried at most \<open>length\<close> times.
\<close>

section \<open>Patterns\<close>

datatype regexp =
    Eps
  | Cls "char \<Rightarrow> bool"
  | Seq regexp regexp
  | Alt regexp regexp
  | Rep nat nat regexp
  | Many nat regexp
  | WordBound
  | AtStart
  | AtEnd

definition is_word :: "char \<Rightarrow> bool" where
  "is_word c \<longleftrightarrow> is_az c \<or> is_AZ c \<or> is_digit c \<or> c = CHR ''_''"

text \<open>\<open>Rep m k r\<close> is \<open>r{m,m+k}\<close> and \<open>Many m r\<close> is \<open>r{m,}\<close>, both greedy.\<close>

fun iterate :: "(nat \<Rightarrow> nat list) \<Rightarrow> nat \<Rightarrow> nat \<Rightarrow> nat \<Rightarrow> nat list" where
  "iterate f (Suc m) k i = concat (map (iterate f m k) (f i))"
| "iterate f 0 (Suc k) i = concat (map (\<lambda>j. if j = i then [] else iterate f 0 k j) (f i)) @ [i]"
| "iterate f 0 0 i = [i]"

definition word_at :: "string \<Rightarrow> nat \<Rightarrow> bool" where
  "word_at s i \<longleftrightarrow> (case char_at s i of None \<Rightarrow> False | Some c \<Rightarrow> is_word c)"

definition at_bound :: "string \<Rightarrow> nat \<Rightarrow> bool" where
  "at_bound s i \<longleftrightarrow> (0 < i \<and> word_at s (i - 1)) \<noteq> word_at s i"

primrec ends :: "regexp \<Rightarrow> string \<Rightarrow> nat \<Rightarrow> nat list" where
  "ends Eps s i = [i]"
| "ends (Cls p) s i = (case char_at s i of None \<Rightarrow> [] | Some c \<Rightarrow> if p c then [i + 1] else [])"
| "ends (Seq a b) s i = concat (map (ends b s) (ends a s i))"
| "ends (Alt a b) s i = ends a s i @ ends b s i"
| "ends (Rep m k r) s i = iterate (ends r s) m k i"
| "ends (Many m r) s i = iterate (ends r s) m (length s) i"
| "ends WordBound s i = (if at_bound s i then [i] else [])"
| "ends AtStart s i = (if i = 0 then [i] else [])"
| "ends AtEnd s i = (if i = length s then [i] else [])"

text \<open>\<open>re.exec(s)\<close> from \<open>lastIndex = pos\<close>: where the first match starts and ends.\<close>

definition exec_from :: "regexp \<Rightarrow> string \<Rightarrow> nat \<Rightarrow> (nat \<times> nat) option" where
  "exec_from re s pos =
     map_option (\<lambda>i. (i, hd (ends re s i))) (List.find (\<lambda>i. ends re s i \<noteq> []) [pos..<length s + 1])"

text \<open>\<open>re.test(s)\<close>\<close>

definition re_test :: "regexp \<Rightarrow> string \<Rightarrow> bool" where
  "re_test re s \<longleftrightarrow> list_ex (\<lambda>i. ends re s i \<noteq> []) [0..<length s + 1]"

section \<open>Writing patterns\<close>

fun seqs :: "regexp list \<Rightarrow> regexp" where
  "seqs [] = Eps"
| "seqs [r] = r"
| "seqs (r # q # rs) = Seq r (seqs (q # rs))"

fun alts :: "regexp list \<Rightarrow> regexp" where
  "alts [] = Cls (\<lambda>_. False)"
| "alts [r] = r"
| "alts (r # q # rs) = Alt r (alts (q # rs))"

definition lit :: "string \<Rightarrow> regexp" where
  "lit p = seqs (map (\<lambda>c. Cls (\<lambda>d. d = c)) p)"

text \<open>A literal, and a class given by its lower-case letters, under the \<open>i\<close> flag.\<close>

definition lit_i :: "string \<Rightarrow> regexp" where
  "lit_i p = seqs (map (\<lambda>c. Cls (\<lambda>d. ascii_lower_char d = ascii_lower_char c)) p)"

definition words_i :: "string list \<Rightarrow> regexp" where
  "words_i ws = alts (map lit_i ws)"

definition opt :: "regexp \<Rightarrow> regexp" where
  "opt r = Rep 0 1 r"

definition cls_of :: "string \<Rightarrow> regexp" where
  "cls_of cs = Cls (\<lambda>c. c \<in> set cs)"

definition none_of :: "string \<Rightarrow> regexp" where
  "none_of cs = Cls (\<lambda>c. c \<notin> set cs)"

definition spaces :: regexp where "spaces = Many 1 (Cls is_trim_space)"
definition maybe_spaces :: regexp where "maybe_spaces = Many 0 (Cls is_trim_space)"

section \<open>Replacing\<close>

lemma find_Some_set: "List.find P xs = Some x \<Longrightarrow> x \<in> set xs \<and> P x"
  by (induction xs) (auto split: if_splits)

lemma exec_from_start: "exec_from re s pos = Some (i, j) \<Longrightarrow> pos \<le> i \<and> i \<le> length s \<and> ends re s i \<noteq> [] \<and> j = hd (ends re s i)"
  by (auto simp: exec_from_def simp del: upt_Suc dest!: find_Some_set)

text \<open>\<open>s.replace(re, by)\<close> with the \<open>g\<close> flag, from \<open>pos\<close>: an empty match moves on by one.\<close>

function replace_from :: "regexp \<Rightarrow> string \<Rightarrow> string \<Rightarrow> nat \<Rightarrow> string" where
  "replace_from re by' s pos =
     (case exec_from re s pos of
        None \<Rightarrow> drop pos s
      | Some (i, j) \<Rightarrow>
          if length s \<le> i then drop pos s @ by'
          else if j \<le> i then slice pos i s @ by' @ [s ! i] @ replace_from re by' s (i + 1)
          else slice pos i s @ by' @ replace_from re by' s j)"
  by pat_completeness auto

termination
proof (relation "measure (\<lambda>(re, by', s, pos). length s - pos)")
  fix re :: regexp and by' s :: string and pos x i j
  assume "exec_from re s pos = Some x" "(i, j) = x" "\<not> length s \<le> i" "j \<le> i"
  then show "((re, by', s, i + 1), re, by', s, pos) \<in> measure (\<lambda>(re, by', s, pos). length s - pos)"
    using exec_from_start [of re s pos i j] by auto
next
  fix re :: regexp and by' s :: string and pos x i j
  assume "exec_from re s pos = Some x" "(i, j) = x" "\<not> length s \<le> i" "\<not> j \<le> i"
  then show "((re, by', s, j), re, by', s, pos) \<in> measure (\<lambda>(re, by', s, pos). length s - pos)"
    using exec_from_start [of re s pos i j] by auto
qed simp

declare replace_from.simps [simp del]

definition replace_all :: "regexp \<Rightarrow> string \<Rightarrow> string \<Rightarrow> string" where
  "replace_all re by' s = replace_from re by' s 0"

section \<open>Lemmas\<close>

lemma iterate_range:
  "(\<And>i j. i \<le> n \<Longrightarrow> j \<in> set (f i) \<Longrightarrow> i \<le> j \<and> j \<le> n) \<Longrightarrow> i \<le> n \<Longrightarrow> j \<in> set (iterate f m k i) \<Longrightarrow> i \<le> j \<and> j \<le> n"
proof (induction f m k i arbitrary: j rule: iterate.induct)
  case (1 f m k i)
  from "1.prems"(3) obtain x where x: "x \<in> set (f i)" "j \<in> set (iterate f m k x)" by auto
  with "1.prems"(1,2) have "i \<le> x" "x \<le> n" by blast+
  with "1.IH" [OF x(1) "1.prems"(1) \<open>x \<le> n\<close> x(2)] show ?case by simp
next
  case (2 f k i)
  show ?case
  proof (cases "j = i")
    case False
    with "2.prems"(3) obtain x where x: "x \<in> set (f i)" "x \<noteq> i" "j \<in> set (iterate f 0 k x)" by (auto split: if_splits)
    with "2.prems"(1,2) have "i \<le> x" "x \<le> n" by blast+
    with "2.IH" [OF x(1,2) "2.prems"(1) \<open>x \<le> n\<close> x(3)] show ?thesis by simp
  qed (use "2.prems"(2) in simp)
next
  case (3 f i)
  from "3.prems"(2,3) show ?case by simp
qed

text \<open>A match ends inside the text, at or after its start.\<close>

lemma ends_range: "i \<le> length s \<Longrightarrow> j \<in> set (ends re s i) \<Longrightarrow> i \<le> j \<and> j \<le> length s"
proof (induction re arbitrary: i j)
  case (Seq a b)
  from Seq.prems(2) obtain x where x: "x \<in> set (ends a s i)" "j \<in> set (ends b s x)" by auto
  from Seq.IH(1) [OF Seq.prems(1) x(1)] Seq.IH(2) [OF _ x(2)] show ?case by linarith
next
  case (Alt a b)
  from Alt.prems(2) consider "j \<in> set (ends a s i)" | "j \<in> set (ends b s i)" by auto
  then show ?case using Alt.IH(1) [OF Alt.prems(1)] Alt.IH(2) [OF Alt.prems(1)] by cases blast+
next
  case (Rep m k r)
  from Rep.prems(2) have "j \<in> set (iterate (ends r s) m k i)" by simp
  then show ?case by (rule iterate_range [OF _ Rep.prems(1), rotated]) (rule Rep.IH)
next
  case (Many m r)
  from Many.prems(2) have "j \<in> set (iterate (ends r s) m (length s) i)" by simp
  then show ?case by (rule iterate_range [OF _ Many.prems(1), rotated]) (rule Many.IH)
qed (auto simp: char_at_def split: if_splits)

lemma exec_from_range:
  assumes "exec_from re s pos = Some (i, j)"
  shows "pos \<le> i \<and> i \<le> j \<and> j \<le> length s"
proof -
  from exec_from_start [OF assms] have "pos \<le> i" "i \<le> length s" "j \<in> set (ends re s i)" by auto
  with ends_range [of i s j re] show ?thesis by simp
qed

lemma exec_from_None: "exec_from re s pos = None \<longleftrightarrow> (\<forall>i. pos \<le> i \<and> i \<le> length s \<longrightarrow> ends re s i = [])"
  by (auto simp: exec_from_def find_None_iff simp del: upt_Suc)

lemma re_test_iff: "re_test re s \<longleftrightarrow> (\<exists>i\<le>length s. ends re s i \<noteq> [])"
  by (auto simp: re_test_def list_ex_iff less_Suc_eq_le simp del: upt_Suc)

lemma re_test_exec: "re_test re s \<longleftrightarrow> exec_from re s 0 \<noteq> None"
  by (auto simp: re_test_iff exec_from_None)

lemma ends_lit: "ends (lit p) s i = (if i \<le> length s \<and> prefix p (drop i s) \<or> p = [] then [i + length p] else [])"
proof (induction p arbitrary: i)
  case Nil
  then show ?case by (simp add: lit_def)
next
  case (Cons c p)
  have step: "ends (lit (c # p)) s i = concat (map (ends (lit p) s) (ends (Cls (\<lambda>d. d = c)) s i))"
    by (cases p) (auto simp: lit_def split: option.split)
  show ?case
  proof (cases "i < length s")
    case True
    then have "drop i s = s ! i # drop (Suc i) s" by (simp add: Cons_nth_drop_Suc)
    with True show ?thesis unfolding step by (auto simp: char_at_def Cons.IH)
  qed (auto simp: step char_at_def)
qed

text \<open>A literal occurs where \<open>includes\<close> finds it.\<close>

lemma re_test_lit: "re_test (lit p) s \<longleftrightarrow> sublist p s"
proof -
  have "re_test (lit p) s \<longleftrightarrow> (\<exists>i\<le>length s. prefix p (drop i s))"
    by (auto simp: re_test_iff ends_lit)
  also have "\<dots> \<longleftrightarrow> sublist p s"
  proof
    assume "sublist p s"
    then obtain a b where "s = a @ p @ b" by (auto simp: sublist_def)
    then show "\<exists>i\<le>length s. prefix p (drop i s)" by (intro exI [of _ "length a"]) (simp add: prefix_def)
  next
    assume "\<exists>i\<le>length s. prefix p (drop i s)"
    then obtain i b where "drop i s = p @ b" by (auto simp: prefix_def)
    then have "s = take i s @ p @ b" by (metis append_take_drop_id)
    then show "sublist p s" by (metis sublist_appendI)
  qed
  finally show ?thesis .
qed

text \<open>How much a match consumes at least.\<close>

primrec min_len :: "regexp \<Rightarrow> nat" where
  "min_len Eps = 0"
| "min_len (Cls p) = 1"
| "min_len (Seq a b) = min_len a + min_len b"
| "min_len (Alt a b) = min (min_len a) (min_len b)"
| "min_len (Rep m k r) = m * min_len r"
| "min_len (Many m r) = m * min_len r"
| "min_len WordBound = 0"
| "min_len AtStart = 0"
| "min_len AtEnd = 0"

lemma iterate_min: "(\<And>i j. j \<in> set (f i) \<Longrightarrow> i + l \<le> j) \<Longrightarrow> j \<in> set (iterate f m k i) \<Longrightarrow> i + m * l \<le> j"
proof (induction f m k i arbitrary: j rule: iterate.induct)
  case (1 f m k i)
  from "1.prems"(2) obtain x where x: "x \<in> set (f i)" "j \<in> set (iterate f m k x)" by auto
  from "1.IH" [OF x(1) "1.prems"(1) x(2)] "1.prems"(1) [OF x(1)] show ?case by simp
next
  case (2 f k i)
  show ?case
  proof (cases "j = i")
    case False
    with "2.prems"(2) obtain x where x: "x \<in> set (f i)" "x \<noteq> i" "j \<in> set (iterate f 0 k x)" by (auto split: if_splits)
    from "2.IH" [OF x(1,2) "2.prems"(1) x(3)] "2.prems"(1) [OF x(1)] show ?thesis by simp
  qed simp
next
  case (3 f i)
  from "3.prems"(2) show ?case by simp
qed

lemma ends_min: "j \<in> set (ends re s i) \<Longrightarrow> i + min_len re \<le> j"
proof (induction re arbitrary: i j)
  case (Seq a b)
  from Seq.prems obtain x where x: "x \<in> set (ends a s i)" "j \<in> set (ends b s x)" by auto
  from Seq.IH(1) [OF x(1)] Seq.IH(2) [OF x(2)] show ?case by simp
next
  case (Alt a b)
  from Alt.prems consider "j \<in> set (ends a s i)" | "j \<in> set (ends b s i)" by auto
  then show ?case using Alt.IH(1) [of j i] Alt.IH(2) [of j i] by cases auto
next
  case (Rep m k r)
  from Rep.prems have "j \<in> set (iterate (ends r s) m k i)" by simp
  with iterate_min [of "ends r s" "min_len r", OF Rep.IH] show ?case by simp
next
  case (Many m r)
  from Many.prems have "j \<in> set (iterate (ends r s) m (length s) i)" by simp
  with iterate_min [of "ends r s" "min_len r", OF Many.IH] show ?case by simp
qed (auto simp: char_at_def split: if_splits)

lemma exec_from_min: "exec_from re s pos = Some (i, j) \<Longrightarrow> i + min_len re \<le> j"
  using exec_from_start [of re s pos i j] ends_min [of j re s i] by simp

end
