(* ===== verification/SequenceRules.thy ===== *)
theory SequenceRules
  imports JsRegex
begin

text \<open>
  Sequence rules, \<open>packages/shared-types/src/sequence.ts\<close> (with a byte-identical copy in
  \<open>packages/gate-js\<close>): a gate rule \<open>A.*B\<close> read as "find A, then find B after it".

  The regular expressions of the steps are JavaScript's: \<open>exec\<close> on a step, from \<open>lastIndex\<close>, is a
  parameter of the model, with what the code relies on as the locale \<open>step_engine\<close>; the
  interpretation \<open>class_steps\<close> gives the laws for the matcher of \<open>JsRegex\<close> on steps of fixed width.
\<close>

section \<open>Splitting a rule\<close>

record seq_scan =
  sq_alternatives :: "string list list"
  sq_steps :: "string list"
  sq_current :: string
  sq_depth :: int
  sq_inClass :: bool

definition drop_empty :: "string list \<Rightarrow> string list" where
  "drop_empty steps = filter (\<lambda>step. step \<noteq> '''') steps"

text \<open>The characters taken with an opening bracket: itself, a \<open>^\<close> after it, and a \<open>]\<close> after those.\<close>

definition class_open :: "string \<Rightarrow> nat" where
  "class_open s =
     (let n = (if char_at s 1 = Some (CHR ''^'') then 2 else 1)
      in if char_at s n = Some (CHR '']'') then n + 1 else n)"

text \<open>The loop over the characters left.\<close>

function seq_loop :: "string \<Rightarrow> seq_scan \<Rightarrow> seq_scan" where
  "seq_loop [] st = st"
| "seq_loop (c # s) st =
     (if c = CHR 0x5C then seq_loop (drop 1 s) (st\<lparr>sq_current := sq_current st @ c # take 1 s\<rparr>)
      else if sq_inClass st then
        seq_loop s (st\<lparr>sq_current := sq_current st @ [c], sq_inClass := (c \<noteq> CHR '']'')\<rparr>)
      else if c = CHR ''['' then
        seq_loop (drop (class_open (c # s)) (c # s))
          (st\<lparr>sq_inClass := True, sq_current := sq_current st @ take (class_open (c # s)) (c # s)\<rparr>)
      else
        let st = (if c = CHR ''('' then st\<lparr>sq_depth := sq_depth st + 1\<rparr> else st);
            st = (if c = CHR '')'' then st\<lparr>sq_depth := sq_depth st - 1\<rparr> else st)
        in if sq_depth st = 0 \<and> c = CHR ''|'' then
             seq_loop s (st\<lparr>sq_alternatives := sq_alternatives st @ [drop_empty (sq_steps st @ [sq_current st])],
                            sq_steps := [], sq_current := ''''\<rparr>)
           else if sq_depth st = 0 \<and> c = CHR ''.'' \<and> char_at s 0 = Some (CHR ''*'') then
             seq_loop (drop 1 s) (st\<lparr>sq_steps := sq_steps st @ [sq_current st], sq_current := ''''\<rparr>)
           else seq_loop s (st\<lparr>sq_current := sq_current st @ [c]\<rparr>))"
  by pat_completeness auto
termination
  by (relation "measure (\<lambda>(s, st). length s)") (auto simp: class_open_def Let_def)

definition sequenceAlternatives :: "string \<Rightarrow> string list list" where
  "sequenceAlternatives source =
     (let st = seq_loop source \<lparr>sq_alternatives = [], sq_steps = [], sq_current = '''', sq_depth = 0, sq_inClass = False\<rparr>
      in sq_alternatives st @ [drop_empty (sq_steps st @ [sq_current st])])"

section \<open>Running a rule\<close>

text \<open>\<open>exec step text pos\<close> stands for \<open>step.lastIndex = pos; step.exec(text)\<close>: where the match
  starts and how long it is.\<close>

fun run_steps :: "('r \<Rightarrow> string \<Rightarrow> nat \<Rightarrow> (nat \<times> nat) option) \<Rightarrow> string \<Rightarrow> nat \<Rightarrow> 'r list \<Rightarrow> bool" where
  "run_steps exec subj pos [] = True"
| "run_steps exec subj pos (step # steps) =
     (case exec step subj pos of
        None \<Rightarrow> False
      | Some (index, len) \<Rightarrow> run_steps exec subj (index + len) steps)"

definition compileSequence :: "(string \<Rightarrow> bool \<Rightarrow> 'r) \<Rightarrow> string \<Rightarrow> bool \<Rightarrow> 'r list list" where
  "compileSequence regexp source ignoreCase =
     map (map (\<lambda>step. regexp step ignoreCase)) (sequenceAlternatives source)"

definition sequenceMatch :: "('r \<Rightarrow> string \<Rightarrow> nat \<Rightarrow> (nat \<times> nat) option) \<Rightarrow> 'r list list \<Rightarrow> string \<Rightarrow> bool" where
  "sequenceMatch exec alternatives subj = list_ex (run_steps exec subj 0) alternatives"

section \<open>The engine's laws\<close>

text \<open>\<open>occurs r subj i j\<close>: the step matches the stretch from \<open>i\<close> to \<open>j\<close>.  A search finds a match at or
  after its position, finds one when there is one, and the first match also ends first (the
  condition the source states for the steps of the rule tables).\<close>

locale step_engine =
  fixes exec :: "'r \<Rightarrow> string \<Rightarrow> nat \<Rightarrow> (nat \<times> nat) option"
    and occurs :: "'r \<Rightarrow> string \<Rightarrow> nat \<Rightarrow> nat \<Rightarrow> bool"
  assumes found: "exec r subj pos = Some (i, n) \<Longrightarrow> pos \<le> i \<and> occurs r subj i (i + n)"
    and finds: "occurs r subj i j \<Longrightarrow> pos \<le> i \<Longrightarrow> \<exists>i' n. exec r subj pos = Some (i', n) \<and> i' + n \<le> j"

text \<open>The steps occur in the text one after the other, from \<open>pos\<close> on.\<close>

primrec occur_in_order :: "('r \<Rightarrow> string \<Rightarrow> nat \<Rightarrow> nat \<Rightarrow> bool) \<Rightarrow> string \<Rightarrow> nat \<Rightarrow> 'r list \<Rightarrow> bool" where
  "occur_in_order occurs subj pos [] = True"
| "occur_in_order occurs subj pos (r # rs) =
     (\<exists>i j. pos \<le> i \<and> occurs r subj i j \<and> occur_in_order occurs subj j rs)"

context step_engine
begin

lemma occur_earlier: "occur_in_order occurs subj j rs \<Longrightarrow> k \<le> j \<Longrightarrow> occur_in_order occurs subj k rs"
  by (cases rs) (auto intro: order.trans)

lemma run_steps_iff: "run_steps exec subj pos rs \<longleftrightarrow> occur_in_order occurs subj pos rs"
proof (induction rs arbitrary: pos)
  case (Cons r rs)
  show ?case
  proof
    assume "run_steps exec subj pos (r # rs)"
    then show "occur_in_order occurs subj pos (r # rs)"
      using Cons.IH found by (fastforce split: option.splits)
  next
    assume "occur_in_order occurs subj pos (r # rs)"
    then obtain i j where ij: "pos \<le> i" "occurs r subj i j" "occur_in_order occurs subj j rs" by auto
    from finds [OF ij(2,1)] obtain i' n where "exec r subj pos = Some (i', n)" "i' + n \<le> j" by blast
    with occur_earlier [OF ij(3)] Cons.IH show "run_steps exec subj pos (r # rs)" by simp
  qed
qed simp

lemma sequenceMatch_iff:
  "sequenceMatch exec alternatives subj \<longleftrightarrow> (\<exists>steps \<in> set alternatives. occur_in_order occurs subj 0 steps)"
  by (simp add: sequenceMatch_def list_ex_iff run_steps_iff)

end

text \<open>Steps that are a fixed number of characters, as most steps of the rule tables are: a word, in either case or its own,
  or a run of character classes.  \<open>exec\<close> is the search of \<open>JsRegex\<close>.\<close>

type_synonym class_step = "(char \<Rightarrow> bool) list"

definition step_regexp :: "class_step \<Rightarrow> regexp" where
  "step_regexp cs = seqs (map Cls cs)"

definition class_exec :: "class_step \<Rightarrow> string \<Rightarrow> nat \<Rightarrow> (nat \<times> nat) option" where
  "class_exec cs subj pos = map_option (\<lambda>(i, j). (i, j - i)) (exec_from (step_regexp cs) subj pos)"

definition class_at :: "class_step \<Rightarrow> string \<Rightarrow> nat \<Rightarrow> nat \<Rightarrow> bool" where
  "class_at cs subj i j \<longleftrightarrow> i \<le> length subj \<and> j \<in> set (ends (step_regexp cs) subj i)"

definition word_step :: "string \<Rightarrow> bool \<Rightarrow> class_step" where
  "word_step w ignoreCase = map (\<lambda>c d. if ignoreCase then ascii_lower_char d = ascii_lower_char c else d = c) w"

lemma ends_step: "ends (step_regexp cs) subj i \<in> {[], [i + length cs]}"
proof (induction cs arbitrary: i)
  case (Cons c cs)
  have "ends (step_regexp (c # cs)) subj i = concat (map (ends (step_regexp cs) subj) (ends (Cls c) subj i))"
    by (cases cs) (auto simp: step_regexp_def split: option.split)
  with Cons.IH [of "i + 1"] show ?case by (auto split: option.split)
qed (simp add: step_regexp_def)

lemma class_at_end: "class_at cs subj i j \<Longrightarrow> j = i + length cs \<and> ends (step_regexp cs) subj i = [j] \<and> i \<le> length subj"
  using ends_step [of cs subj i] by (auto simp: class_at_def)

interpretation class_steps: step_engine class_exec class_at
proof
  fix r subj pos i n
  assume "class_exec r subj pos = Some (i, n)"
  then obtain j where j: "exec_from (step_regexp r) subj pos = Some (i, j)" "n = j - i" by (auto simp: class_exec_def)
  from exec_from_start [OF j(1)] have start: "pos \<le> i" "i \<le> length subj" "j \<in> set (ends (step_regexp r) subj i)" by auto
  with ends_range [of i subj j "step_regexp r"] j(2) show "pos \<le> i \<and> class_at r subj i (i + n)"
    by (simp add: class_at_def)
next
  fix r subj i j pos
  assume at: "class_at r subj i j" and pos: "pos \<le> i"
  note here = class_at_end [OF at]
  from here pos have "exec_from (step_regexp r) subj pos \<noteq> None" by (auto simp: exec_from_None)
  then obtain i' j' where found: "exec_from (step_regexp r) subj pos = Some (i', j')" by auto
  from exec_from_start [OF found] ends_step [of r subj i'] have j': "j' = i' + length r" by auto
  have "i' \<le> i"
  proof (rule ccontr)
    assume "\<not> i' \<le> i"
    with here pos found show False
      by (auto simp: exec_from_def find_Some_iff simp del: upt_Suc dest!: spec [of _ "i - pos"])
  qed
  with found j' here show "\<exists>i' n. class_exec r subj pos = Some (i', n) \<and> i' + n \<le> j"
    by (auto simp: class_exec_def)
qed

section \<open>Writing a rule and splitting it again\<close>

definition plain_char :: "char \<Rightarrow> bool" where
  "plain_char c \<longleftrightarrow> c \<notin> {CHR 0x5C, CHR ''['', CHR ''('', CHR '')'', CHR ''|'', CHR ''.''}"

definition plain_step :: "string \<Rightarrow> bool" where
  "plain_step s \<longleftrightarrow> s \<noteq> '''' \<and> list_all plain_char s"

definition sequence_source :: "string list list \<Rightarrow> string" where
  "sequence_source alternatives = join_with ''|'' (map (join_with ''.*'') alternatives)"

lemma seq_loop_plain:
  "list_all plain_char w \<Longrightarrow> \<not> sq_inClass st \<Longrightarrow> sq_depth st = 0 \<Longrightarrow>
   seq_loop (w @ rest) st = seq_loop rest (st\<lparr>sq_current := sq_current st @ w\<rparr>)"
  by (induction w arbitrary: st) (auto simp: plain_char_def Let_def)

lemma seq_loop_steps:
  assumes "steps \<noteq> []" "list_all plain_step steps" "\<not> sq_inClass st" "sq_depth st = 0" "sq_current st = ''''"
  shows "seq_loop (join_with ''.*'' steps @ rest) st
       = seq_loop rest (st\<lparr>sq_steps := sq_steps st @ butlast steps, sq_current := last steps\<rparr>)"
  using assms
proof (induction "''.*''" steps arbitrary: st rule: join_with.induct)
  case (2 x)
  then show ?case by (simp add: plain_step_def seq_loop_plain)
next
  case (3 x y ys)
  let ?st = "st\<lparr>sq_steps := sq_steps st @ [x], sq_current := ''''\<rparr>"
  have x: "list_all plain_char x" using "3.prems"(2) by (simp add: plain_step_def)
  have "seq_loop (join_with ''.*'' (x # y # ys) @ rest) st = seq_loop (join_with ''.*'' (y # ys) @ rest) ?st"
    using seq_loop_plain [OF x "3.prems"(3,4), of "''.*'' @ join_with ''.*'' (y # ys) @ rest"] "3.prems"(3-5)
    by (simp add: Let_def char_at_def)
  also have "\<dots> = seq_loop rest (?st\<lparr>sq_steps := sq_steps ?st @ butlast (y # ys), sq_current := last (y # ys)\<rparr>)"
    by (rule "3.hyps") (use "3.prems" in auto)
  finally show ?case by simp
qed simp

lemma drop_empty_plain: "list_all plain_step steps \<Longrightarrow> drop_empty steps = steps"
  by (induction steps) (auto simp: drop_empty_def plain_step_def)

lemma seq_loop_alternatives:
  assumes "branches \<noteq> []" "\<forall>a \<in> set branches. a \<noteq> [] \<and> list_all plain_step a"
    and "\<not> sq_inClass st" "sq_depth st = 0" "sq_current st = ''''" "sq_steps st = []"
  shows "seq_loop (sequence_source branches) st =
     st\<lparr>sq_alternatives := sq_alternatives st @ butlast branches, sq_steps := butlast (last branches), sq_current := last (last branches)\<rparr>"
  using assms
proof (induction branches arbitrary: st rule: induct_list012)
  case (2 a)
  then show ?case
    using seq_loop_steps [of a st "''''"] by (simp add: sequence_source_def)
next
  case (3 a b branches)
  let ?st = "st\<lparr>sq_alternatives := sq_alternatives st @ [a], sq_steps := [], sq_current := ''''\<rparr>"
  have "seq_loop (sequence_source (a # b # branches)) st = seq_loop (sequence_source (b # branches)) ?st"
    using seq_loop_steps [of a st "''|'' @ sequence_source (b # branches)"] "3.prems"
    by (simp add: sequence_source_def Let_def drop_empty_plain)
  also have "\<dots> = ?st\<lparr>sq_alternatives := sq_alternatives ?st @ butlast (b # branches),
      sq_steps := butlast (last (b # branches)), sq_current := last (last (b # branches))\<rparr>"
    by (rule "3.IH"(2)) (use "3.prems" in auto)
  finally show ?case by simp
qed simp

section \<open>Properties\<close>

text \<open>A rule written from plain steps splits back into exactly those steps: the splitter
  inverts joining steps by \<open>.*\<close> and alternatives by \<open>|\<close>.\<close>

theorem sequenceAlternatives_roundtrip:
  assumes "branches \<noteq> []" "\<forall>a \<in> set branches. a \<noteq> [] \<and> list_all plain_step a"
  shows "sequenceAlternatives (sequence_source branches) = branches"
proof -
  have "last branches \<noteq> [] \<and> list_all plain_step (last branches)" using assms by simp
  then show ?thesis
    using seq_loop_alternatives [OF assms] assms(1) by (simp add: sequenceAlternatives_def drop_empty_plain)
qed

theorem sequenceAlternatives_roundtrip_witness:
  "sequenceAlternatives '' git .*reset +--hard| rm .*-rf'' = [ ['' git '', ''reset +--hard''], ['' rm '', ''-rf''] ]"
  using sequenceAlternatives_roundtrip [of "[ ['' git '', ''reset +--hard''], ['' rm '', ''-rf''] ]"]
  by (simp add: plain_step_def plain_char_def sequence_source_def)

text \<open>On a regex engine whose search is complete and whose first match also ends first, a
  sequence rule matches a text exactly when the steps of one of its alternatives occur in the text
  in order, without overlap, although each step is searched for only once.\<close>

theorem sequenceMatch_complete:
  assumes "step_engine exec occurs"
  shows "sequenceMatch exec (compileSequence regexp source ignoreCase) subj \<longleftrightarrow>
     (\<exists>steps \<in> set (sequenceAlternatives source). occur_in_order occurs subj 0 (map (\<lambda>s. regexp s ignoreCase) steps))"
  by (simp add: step_engine.sequenceMatch_iff [OF assms] compileSequence_def)

theorem sequenceMatch_complete_witness:
  "sequenceMatch class_exec (compileSequence word_step ''git .*--HARD'' True) ''git reset --hard''
   \<and> (\<exists>steps \<in> set (sequenceAlternatives ''git .*--HARD'').
        occur_in_order class_at ''git reset --hard'' 0 (map (\<lambda>w. word_step w True) steps))"
proof -
  have "sequenceMatch class_exec (compileSequence word_step ''git .*--HARD'' True) ''git reset --hard''" by code_simp
  then show ?thesis
    using sequenceMatch_complete [OF class_steps.step_engine_axioms, of word_step "''git .*--HARD''" True "''git reset --hard''"] by simp
qed

end
