(* ===== verification/DecideWhen.thy ===== *)
theory DecideWhen
  imports Js_Prelude
begin

text \<open>
  The \<open>when\<close> expressions of a decide rule, \<open>packages/shared-types/src/decide.ts\<close>: the tokenizer, the
  recursive-descent parser, the canonical form, and the value of an expression in Kleene's
  three-valued logic (T refuses, F allows, U escalates).

  A \<open>WhenError\<close> is an \<^const>\<open>Inl\<close>.  The mutually recursive parser has fuel; \<open>parse_or_fuel\<close>
  shows that four units a token are enough, so \<open>parseWhen\<close> never runs out.
\<close>

section \<open>Expressions and tokens\<close>

datatype DecideExpr =
    EYes string
  | EEq string string
  | ENot DecideExpr
  | EAnd DecideExpr DecideExpr
  | EOr DecideExpr DecideExpr

datatype Tok = TName string | TKw string | TOpen | TClose | TComma | TEq | TNe | TEnd

datatype WhenError = WhenError string nat | OutOfFuel

type_synonym toks = "(Tok \<times> nat) list"

definition KEYWORDS :: "string list" where
  "KEYWORDS = [''AND'', ''OR'', ''NOT'', ''IN'']"

definition isWordChar :: "char \<Rightarrow> bool" where
  "isWordChar c \<longleftrightarrow> is_az c \<or> is_AZ c \<or> is_digit c \<or> c = CHR ''_''"

text \<open>\<open>/^[a-z][a-z0-9_]*$/\<close>\<close>

definition is_lower_name :: "string \<Rightarrow> bool" where
  "is_lower_name w \<longleftrightarrow> w \<noteq> '''' \<and> is_az (hd w) \<and> list_all (\<lambda>c. is_az c \<or> is_digit c \<or> c = CHR ''_'') (tl w)"

text \<open>The tokens of the characters left, at column \<open>col\<close>.\<close>

function tokenize_from :: "nat \<Rightarrow> string \<Rightarrow> WhenError + toks" where
  "tokenize_from col [] = Inr [(TEnd, col)]"
| "tokenize_from col (c # cs) =
     (if c = CHR '' '' \<or> c = CHR 0x09 \<or> c = CHR 0x0A \<or> c = CHR 0x0D then tokenize_from (col + 1) cs
      else if c = CHR ''('' \<or> c = CHR '')'' \<or> c = CHR '','' then
        try_then (tokenize_from (col + 1) cs) (\<lambda>ts.
          Inr ((if c = CHR ''('' then TOpen else if c = CHR '')'' then TClose else TComma, col) # ts))
      else if (c = CHR ''='' \<or> c = CHR ''!'') \<and> char_at cs 0 = Some (CHR ''='') then
        try_then (tokenize_from (col + 2) (tl cs)) (\<lambda>ts. Inr ((if c = CHR ''='' then TEq else TNe, col) # ts))
      else if isWordChar c then
        (let w = takeWhile isWordChar (c # cs); rest = dropWhile isWordChar (c # cs) in
         if w \<in> set KEYWORDS then try_then (tokenize_from (col + length w) rest) (\<lambda>ts. Inr ((TKw w, col) # ts))
         else if is_lower_name w then try_then (tokenize_from (col + length w) rest) (\<lambda>ts. Inr ((TName w, col) # ts))
         else Inl (WhenError (''unknown word '' @ w) col))
      else Inl (WhenError (''unexpected character '' @ [c]) col))"
  by pat_completeness auto
termination
  by (relation "measure (\<lambda>(col, cs). length cs)")
    (auto simp: le_imp_less_Suc length_dropWhile_le intro: le_less_trans [OF length_dropWhile_le])

declare tokenize_from.simps [simp del]

definition tokenize :: "string \<Rightarrow> WhenError + toks" where
  "tokenize src = tokenize_from 1 src"

section \<open>The parser\<close>

fun next_tok :: "toks \<Rightarrow> WhenError + (Tok \<times> nat) \<times> toks" where
  "next_tok [] = Inl OutOfFuel"
| "next_tok (t # ts) = Inr (t, ts)"

definition peek_is :: "Tok \<Rightarrow> toks \<Rightarrow> bool" where
  "peek_is t ts \<longleftrightarrow> (case ts of [] \<Rightarrow> False | (u, _) # _ \<Rightarrow> u = t)"

definition tok_name :: "Tok \<Rightarrow> string option" where
  "tok_name t = (case t of TName v \<Rightarrow> Some v | _ \<Rightarrow> None)"

definition parse_option :: "toks \<Rightarrow> WhenError + string \<times> toks" where
  "parse_option ts =
     try_then (next_tok ts) (\<lambda>((t, col), ts).
       case tok_name t of Some v \<Rightarrow> Inr (v, ts) | None \<Rightarrow> Inl (WhenError ''expected an option'' col))"

text \<open>The options of \<open>IN (...)\<close> after the first: \<open>e\<close> is the expression so far.\<close>

function in_loop :: "string \<Rightarrow> DecideExpr \<Rightarrow> toks \<Rightarrow> WhenError + DecideExpr \<times> toks" where
  "in_loop q e ts =
     (case ts of
        [] \<Rightarrow> Inl OutOfFuel
      | t # ts \<Rightarrow>
          if fst t = TClose then Inr (e, ts)
          else if fst t \<noteq> TComma then Inl (WhenError ''expected , or )'' (snd t))
          else (case ts of
                  [] \<Rightarrow> Inl OutOfFuel
                | t # ts \<Rightarrow>
                    (case tok_name (fst t) of
                       None \<Rightarrow> Inl (WhenError ''expected an option'' (snd t))
                     | Some v \<Rightarrow> in_loop q (EOr e (EEq q v)) ts)))"
  by pat_completeness auto
termination
  by (relation "measure (\<lambda>(q, e, ts). length ts)") auto

declare in_loop.simps [simp del]

function parse_or :: "nat \<Rightarrow> toks \<Rightarrow> WhenError + DecideExpr \<times> toks"
and or_loop :: "nat \<Rightarrow> DecideExpr \<Rightarrow> toks \<Rightarrow> WhenError + DecideExpr \<times> toks"
and parse_and :: "nat \<Rightarrow> toks \<Rightarrow> WhenError + DecideExpr \<times> toks"
and and_loop :: "nat \<Rightarrow> DecideExpr \<Rightarrow> toks \<Rightarrow> WhenError + DecideExpr \<times> toks"
and parse_unary :: "nat \<Rightarrow> toks \<Rightarrow> WhenError + DecideExpr \<times> toks"
and parse_atom :: "nat \<Rightarrow> toks \<Rightarrow> WhenError + DecideExpr \<times> toks" where
  "parse_or 0 ts = Inl OutOfFuel"
| "parse_or (Suc n) ts = try_then (parse_and n ts) (\<lambda>(a, ts). or_loop n a ts)"
| "or_loop 0 a ts = Inl OutOfFuel"
| "or_loop (Suc n) a ts =
     (if peek_is (TKw ''OR'') ts
      then try_then (parse_and n (tl ts)) (\<lambda>(b, ts). or_loop n (EOr a b) ts)
      else Inr (a, ts))"
| "parse_and 0 ts = Inl OutOfFuel"
| "parse_and (Suc n) ts = try_then (parse_unary n ts) (\<lambda>(a, ts). and_loop n a ts)"
| "and_loop 0 a ts = Inl OutOfFuel"
| "and_loop (Suc n) a ts =
     (if peek_is (TKw ''AND'') ts
      then try_then (parse_unary n (tl ts)) (\<lambda>(b, ts). and_loop n (EAnd a b) ts)
      else Inr (a, ts))"
| "parse_unary 0 ts = Inl OutOfFuel"
| "parse_unary (Suc n) ts =
     (if peek_is (TKw ''NOT'') ts
      then try_then (parse_unary n (tl ts)) (\<lambda>(a, ts). Inr (ENot a, ts))
      else parse_atom n ts)"
| "parse_atom 0 ts = Inl OutOfFuel"
| "parse_atom (Suc n) ts =
     try_then (next_tok ts) (\<lambda>((t, col), ts).
       case t of
         TOpen \<Rightarrow>
           try_then (parse_or n ts) (\<lambda>(e, ts).
             try_then (next_tok ts) (\<lambda>((t, col), ts).
               if t = TClose then Inr (e, ts) else Inl (WhenError ''expected )'' col)))
       | TName q \<Rightarrow>
           if peek_is TEq ts then try_then (parse_option (tl ts)) (\<lambda>(v, ts). Inr (EEq q v, ts))
           else if peek_is TNe ts then try_then (parse_option (tl ts)) (\<lambda>(v, ts). Inr (ENot (EEq q v), ts))
           else if peek_is (TKw ''IN'') ts then
             try_then (next_tok (tl ts)) (\<lambda>((t, col), ts).
               if t \<noteq> TOpen then Inl (WhenError ''expected ('' col)
               else try_then (parse_option ts) (\<lambda>(v, ts). in_loop q (EEq q v) ts))
           else Inr (EYes q, ts)
       | _ \<Rightarrow> Inl (WhenError ''expected a question name, NOT or ('' col))"
  by pat_completeness auto
termination
  by (relation "measure (case_sum (case_sum fst (case_sum fst fst)) (case_sum fst (case_sum fst fst)))") auto

definition parseWhen :: "string \<Rightarrow> WhenError + DecideExpr" where
  "parseWhen src =
     try_then (tokenize src) (\<lambda>ts.
       try_then (parse_or (4 * length ts + 4) ts) (\<lambda>(e, ts).
         try_then (next_tok ts) (\<lambda>((t, col), _).
           if t = TEnd then Inr e else Inl (WhenError ''expected AND, OR or the end'' col))))"

section \<open>The canonical form and the atoms\<close>

primrec canonicalWhen :: "DecideExpr \<Rightarrow> string" where
  "canonicalWhen (EYes q) = q"
| "canonicalWhen (EEq q v) = ''('' @ q @ '' == '' @ v @ '')''"
| "canonicalWhen (ENot a) = ''(NOT '' @ canonicalWhen a @ '')''"
| "canonicalWhen (EAnd a b) = ''('' @ canonicalWhen a @ '' AND '' @ canonicalWhen b @ '')''"
| "canonicalWhen (EOr a b) = ''('' @ canonicalWhen a @ '' OR '' @ canonicalWhen b @ '')''"

datatype atom = AYes string | AEq string string

primrec atomsOf :: "DecideExpr \<Rightarrow> atom list" where
  "atomsOf (EYes q) = [AYes q]"
| "atomsOf (EEq q v) = [AEq q v]"
| "atomsOf (ENot a) = atomsOf a"
| "atomsOf (EAnd a b) = atomsOf a @ atomsOf b"
| "atomsOf (EOr a b) = atomsOf a @ atomsOf b"

section \<open>Kleene's three values\<close>

datatype Tri = T | F | U

definition kAnd :: "Tri \<Rightarrow> Tri \<Rightarrow> Tri" where
  "kAnd a b = (if a = F \<or> b = F then F else if a = T \<and> b = T then T else U)"

definition kOr :: "Tri \<Rightarrow> Tri \<Rightarrow> Tri" where
  "kOr a b = (if a = T \<or> b = T then T else if a = F \<and> b = F then F else U)"

definition kNot :: "Tri \<Rightarrow> Tri" where
  "kNot a = (if a = T then F else if a = F then T else U)"

text \<open>The atoms a \<open>when\<close> is evaluated over.  A missing atom is U.\<close>

record DecideAtoms =
  at_yes :: "(string \<times> Tri) list"
  at_eq :: "(string \<times> (string \<times> Tri) list) list"

definition atom_value :: "DecideAtoms \<Rightarrow> atom \<Rightarrow> Tri" where
  "atom_value atoms a =
     (case a of
        AYes q \<Rightarrow> (case map_of (at_yes atoms) q of None \<Rightarrow> U | Some v \<Rightarrow> v)
      | AEq q v \<Rightarrow> (case Option.bind (map_of (at_eq atoms) q) (\<lambda>m. map_of m v) of None \<Rightarrow> U | Some v \<Rightarrow> v))"

primrec evalWhen :: "DecideExpr \<Rightarrow> DecideAtoms \<Rightarrow> Tri" where
  "evalWhen (EYes q) atoms = atom_value atoms (AYes q)"
| "evalWhen (EEq q v) atoms = atom_value atoms (AEq q v)"
| "evalWhen (ENot a) atoms = kNot (evalWhen a atoms)"
| "evalWhen (EAnd a b) atoms = kAnd (evalWhen a atoms) (evalWhen b atoms)"
| "evalWhen (EOr a b) atoms = kOr (evalWhen a atoms) (evalWhen b atoms)"

section \<open>The fuel is enough\<close>

text \<open>A token list that the tokenizer can return ends with the end token.  A result keeps that, and
  leaves fewer tokens than \<open>len\<close>.\<close>

definition ended :: "toks \<Rightarrow> bool" where
  "ended ts \<longleftrightarrow> ts \<noteq> [] \<and> fst (last ts) = TEnd"

definition parsed_ok :: "nat \<Rightarrow> WhenError + 'a \<times> toks \<Rightarrow> bool" where
  "parsed_ok len r \<longleftrightarrow> (case r of Inl e \<Rightarrow> e \<noteq> OutOfFuel | Inr (_, ts) \<Rightarrow> ended ts \<and> length ts < len)"

lemma ended_tl: "ended (t # ts) \<Longrightarrow> fst t \<noteq> TEnd \<Longrightarrow> ended ts"
  by (auto simp: ended_def split: if_splits)

lemma ended_peek_tl: "ended ts \<Longrightarrow> peek_is t ts \<Longrightarrow> t \<noteq> TEnd \<Longrightarrow> ended (tl ts) \<and> length (tl ts) < length ts"
  by (cases ts) (auto simp: peek_is_def ended_def split: if_splits)

lemma parsed_ok_mono: "parsed_ok len r \<Longrightarrow> len \<le> len' \<Longrightarrow> parsed_ok len' r"
  by (auto simp: parsed_ok_def split: sum.splits)

lemma parsed_ok_then:
  "parsed_ok len r \<Longrightarrow> (\<And>x ts. ended ts \<Longrightarrow> length ts < len \<Longrightarrow> parsed_ok len' (f (x, ts))) \<Longrightarrow> parsed_ok len' (try_then r f)"
  by (cases r) (auto simp: parsed_ok_def)

lemma parsed_ok_simps [simp]:
  "parsed_ok len (Inl e) \<longleftrightarrow> e \<noteq> OutOfFuel"
  "parsed_ok len (Inr (x, ts)) \<longleftrightarrow> ended ts \<and> length ts < len"
  by (simp_all add: parsed_ok_def)

lemma tok_name_Some [simp]: "tok_name t = Some v \<longleftrightarrow> t = TName v"
  by (cases t) (auto simp: tok_name_def)

lemma tok_name_TName [simp]: "tok_name (TName v) = Some v"
  by simp

lemma parse_option_ok: "ended ts \<Longrightarrow> parsed_ok (length ts) (parse_option ts)"
  by (cases ts) (auto simp: parse_option_def ended_def split: option.splits if_splits)

lemma in_loop_ok: "ended ts \<Longrightarrow> parsed_ok (length ts) (in_loop q e ts)"
proof (induction "length ts" arbitrary: e ts rule: less_induct)
  case less
  show ?case
  proof (cases ts)
    case Nil
    with less.prems show ?thesis by (simp add: ended_def)
  next
    case (Cons t us)
    show ?thesis
    proof (cases us)
      case Nil
      with less.prems Cons show ?thesis by (subst in_loop.simps) (auto simp: ended_def)
    next
      case (Cons u vs)
      have "parsed_ok (length ts) (in_loop q e' vs)" if "fst u \<noteq> TEnd" for e'
      proof -
        have "ended vs" using less.prems \<open>ts = t # us\<close> Cons that by (auto simp: ended_def split: if_splits)
        with less.hyps [of vs e'] \<open>ts = t # us\<close> Cons show ?thesis
          by (auto intro: parsed_ok_mono)
      qed
      with less.prems \<open>ts = t # us\<close> Cons show ?thesis
        by (subst in_loop.simps) (auto simp: ended_def split: option.split if_splits)
    qed
  qed
qed

lemma parse_ok:
  "(4 * length ts + 4 \<le> n \<longrightarrow> ended ts \<longrightarrow> parsed_ok (length ts) (parse_or n ts))
   \<and> (4 * length ts + 1 \<le> n \<longrightarrow> ended ts \<longrightarrow> parsed_ok (Suc (length ts)) (or_loop n a ts))
   \<and> (4 * length ts + 3 \<le> n \<longrightarrow> ended ts \<longrightarrow> parsed_ok (length ts) (parse_and n ts))
   \<and> (4 * length ts + 1 \<le> n \<longrightarrow> ended ts \<longrightarrow> parsed_ok (Suc (length ts)) (and_loop n a ts))
   \<and> (4 * length ts + 2 \<le> n \<longrightarrow> ended ts \<longrightarrow> parsed_ok (length ts) (parse_unary n ts))
   \<and> (4 * length ts + 1 \<le> n \<longrightarrow> ended ts \<longrightarrow> parsed_ok (length ts) (parse_atom n ts))"
proof (induction n arbitrary: ts a)
  case 0
  then show ?case by simp
next
  case (Suc n)
  have IH: "4 * length ts + 4 \<le> n \<Longrightarrow> ended ts \<Longrightarrow> parsed_ok (length ts) (parse_or n ts)"
    "4 * length ts + 1 \<le> n \<Longrightarrow> ended ts \<Longrightarrow> parsed_ok (Suc (length ts)) (or_loop n a ts)"
    "4 * length ts + 3 \<le> n \<Longrightarrow> ended ts \<Longrightarrow> parsed_ok (length ts) (parse_and n ts)"
    "4 * length ts + 1 \<le> n \<Longrightarrow> ended ts \<Longrightarrow> parsed_ok (Suc (length ts)) (and_loop n a ts)"
    "4 * length ts + 2 \<le> n \<Longrightarrow> ended ts \<Longrightarrow> parsed_ok (length ts) (parse_unary n ts)"
    "4 * length ts + 1 \<le> n \<Longrightarrow> ended ts \<Longrightarrow> parsed_ok (length ts) (parse_atom n ts)" for ts a
    using Suc.IH by blast+
  have or_: "parsed_ok (length ts) (parse_or (Suc n) ts)" if "4 * length ts + 4 \<le> Suc n" "ended ts"
    using that by (auto intro!: parsed_ok_then [OF IH(3)] parsed_ok_mono [OF IH(2)])
  have or_l: "parsed_ok (Suc (length ts)) (or_loop (Suc n) a ts)" if "4 * length ts + 1 \<le> Suc n" "ended ts"
    using that ended_peek_tl [of ts "TKw ''OR''"]
    by (auto intro!: parsed_ok_then [OF IH(3)] parsed_ok_mono [OF IH(2)])
  have and_: "parsed_ok (length ts) (parse_and (Suc n) ts)" if "4 * length ts + 3 \<le> Suc n" "ended ts"
    using that by (auto intro!: parsed_ok_then [OF IH(5)] parsed_ok_mono [OF IH(4)])
  have and_l: "parsed_ok (Suc (length ts)) (and_loop (Suc n) a ts)" if "4 * length ts + 1 \<le> Suc n" "ended ts"
    using that ended_peek_tl [of ts "TKw ''AND''"]
    by (auto intro!: parsed_ok_then [OF IH(5)] parsed_ok_mono [OF IH(4)])
  have un: "parsed_ok (length ts) (parse_unary (Suc n) ts)" if "4 * length ts + 2 \<le> Suc n" "ended ts"
    using that ended_peek_tl [of ts "TKw ''NOT''"] IH(6) [of ts]
    by (auto intro!: parsed_ok_then [OF IH(5)])
  have at: "parsed_ok (length ts) (parse_atom (Suc n) ts)" if fuel: "4 * length ts + 1 \<le> Suc n" and e: "ended ts"
  proof -
    obtain t col us where ts: "ts = (t, col) # us" using e by (cases ts) (auto simp: ended_def)
    have us: "ended us" if "t \<noteq> TEnd" using that e by (auto simp: ts intro: ended_tl)
    have opened: "parsed_ok (length ts) (try_then (parse_or n us) (\<lambda>(e, ts).
             try_then (next_tok ts) (\<lambda>((t, col), ts).
               if t = TClose then Inr (e, ts) else Inl (WhenError ''expected )'' col))))" if "t = TOpen"
    proof (rule parsed_ok_then [OF IH(1)])
      show "4 * length us + 4 \<le> n" using fuel by (simp add: ts)
      show "ended us" using us that by simp
      fix x and vs :: toks
      assume "ended vs" "length vs < length us"
      then show "parsed_ok (length ts) (case (x, vs) of (e, ts) \<Rightarrow> try_then (next_tok ts) (\<lambda>((t, col), ts).
               if t = TClose then Inr (e, ts) else Inl (WhenError ''expected )'' col)))"
        by (cases vs) (auto simp: ts ended_def split: if_splits)
    qed
    have opt: "parsed_ok (length ts) (try_then (parse_option (tl us)) (\<lambda>(v, ts). Inr (f v, ts)))"
      if "t \<noteq> TEnd" "peek_is u us" "u \<noteq> TEnd" for u and f :: "string \<Rightarrow> DecideExpr"
      using ended_peek_tl [OF us that(2)] that
      by (auto intro!: parsed_ok_then [OF parse_option_ok] simp: ts)
    have inl: "parsed_ok (length ts) (try_then (next_tok (tl us)) (\<lambda>((t, col), ts).
               if t \<noteq> TOpen then Inl (WhenError ''expected ('' col)
               else try_then (parse_option ts) (\<lambda>(v, ts). in_loop q (EEq q v) ts)))"
      if "t \<noteq> TEnd" "peek_is (TKw ''IN'') us" for q
    proof -
      have e: "ended (tl us)" "length (tl us) < length us" using ended_peek_tl [OF us that(2)] that by auto
      obtain u ucol vs where vs: "tl us = (u, ucol) # vs" using e(1) by (cases "tl us") (auto simp: ended_def)
      have "ended vs" if "u = TOpen" using e(1) that by (auto simp: vs intro: ended_tl)
      with e(2) show ?thesis
        by (auto simp: vs ts intro!: parsed_ok_then [OF parse_option_ok] parsed_ok_mono [OF in_loop_ok])
    qed
    show ?thesis
      using us opened opt inl
      by (auto simp: ts split: Tok.split)
  qed
  show ?case using or_ or_l and_ and_l un at by simp
qed

lemma ended_Cons: "ended ts \<Longrightarrow> ended (t # ts)"
  by (auto simp: ended_def)

lemma tokenize_ended:
  "case tokenize_from col s of Inl e \<Rightarrow> e \<noteq> OutOfFuel | Inr ts \<Rightarrow> ended ts"
proof (induction "length s" arbitrary: col s rule: less_induct)
  case less
  show ?case
  proof (cases s)
    case Nil
    then show ?thesis by (simp add: tokenize_from.simps ended_def)
  next
    case (Cons c cs)
    have step: "case try_then (tokenize_from k us) (\<lambda>ts. Inr (t # ts)) of Inl e \<Rightarrow> e \<noteq> OutOfFuel | Inr ts \<Rightarrow> ended ts"
      if "length us < length s" for k us t
      using less.hyps [OF that, of k] by (cases "tokenize_from k us") (auto intro: ended_Cons)
    have "length (tl cs) < length s" "length cs < length s"
      "isWordChar c \<Longrightarrow> length (dropWhile isWordChar s) < length s"
      using Cons by (auto intro: le_less_trans [OF length_dropWhile_le])
    then show ?thesis
      using less.hyps [of cs] step Cons
      by (subst Cons, subst tokenize_from.simps)
        (simp only: Let_def split: if_split, simp add: Let_def)
  qed
qed

lemma parse_or_fuel:
  "tokenize src = Inr ts \<Longrightarrow> parse_or (4 * length ts + 4) ts \<noteq> Inl OutOfFuel"
  using tokenize_ended [of 1 src] parse_ok [of ts "4 * length ts + 4"]
  by (auto simp: tokenize_def)

section \<open>Reading the canonical form\<close>

primrec toks_of :: "DecideExpr \<Rightarrow> Tok list" where
  "toks_of (EYes q) = [TName q]"
| "toks_of (EEq q v) = [TOpen, TName q, TEq, TName v, TClose]"
| "toks_of (ENot a) = [TOpen, TKw ''NOT''] @ toks_of a @ [TClose]"
| "toks_of (EAnd a b) = TOpen # toks_of a @ [TKw ''AND''] @ toks_of b @ [TClose]"
| "toks_of (EOr a b) = TOpen # toks_of a @ [TKw ''OR''] @ toks_of b @ [TClose]"

text \<open>What may follow a name for the name to be an atom by itself.\<close>

definition after_atom :: "toks \<Rightarrow> bool" where
  "after_atom ts \<longleftrightarrow> \<not> peek_is TEq ts \<and> \<not> peek_is TNe ts \<and> \<not> peek_is (TKw ''IN'') ts"

lemma peek_is_Cons [simp]: "peek_is t ((u, col) # ts) \<longleftrightarrow> u = t"
  by (simp add: peek_is_def)

lemma toks_of_head: "map fst ts = toks_of e \<Longrightarrow> \<not> peek_is (TKw w) (ts @ rest)"
  by (cases e; cases ts) (auto simp: peek_is_def)

text \<open>From one level of the parser to the next: \<open>reads parse k ts r\<close> says that more than \<open>k\<close>
  units of fuel read \<open>ts\<close> with result \<open>r\<close>.\<close>

definition reads :: "(nat \<Rightarrow> toks \<Rightarrow> WhenError + 'a) \<Rightarrow> nat \<Rightarrow> toks \<Rightarrow> 'a \<Rightarrow> bool" where
  "reads parse k ts r \<longleftrightarrow> (\<forall>n > k. parse n ts = Inr r)"

lemma reads_mono: "reads parse k ts r \<Longrightarrow> k \<le> k' \<Longrightarrow> reads parse k' ts r"
  by (auto simp: reads_def)

lemma reads_unary:
  "reads parse_atom k ts r \<Longrightarrow> \<not> peek_is (TKw ''NOT'') ts \<Longrightarrow> reads parse_unary (Suc k) ts r"
  by (auto simp: reads_def Suc_less_eq2)

lemma reads_not:
  "reads parse_unary k ts (a, rest) \<Longrightarrow> reads parse_unary (Suc k) ((TKw ''NOT'', col) # ts) (ENot a, rest)"
  by (auto simp: reads_def Suc_less_eq2)

lemma reads_and_one:
  "reads parse_unary k ts (a, rest) \<Longrightarrow> 0 < k \<Longrightarrow> \<not> peek_is (TKw ''AND'') rest \<Longrightarrow> reads parse_and (Suc k) ts (a, rest)"
  by (auto simp: reads_def Suc_less_eq2 less_Suc_eq_0_disj gr0_conv_Suc)

lemma reads_and_two:
  assumes "reads parse_unary k ts (a, (TKw ''AND'', col) # us)" "reads parse_unary k' us (b, rest)"
    "\<not> peek_is (TKw ''AND'') rest"
  shows "reads parse_and (Suc (Suc (max k k'))) ts (EAnd a b, rest)"
  unfolding reads_def
proof (intro allI impI)
  fix n assume "Suc (Suc (max k k')) < n"
  define m where "m = n - 3"
  have n: "n = Suc (Suc (Suc m))" and m: "max k k' \<le> m"
    using \<open>Suc (Suc (max k k')) < n\<close> unfolding m_def by linarith+
  have "parse_unary (Suc (Suc m)) ts = Inr (a, (TKw ''AND'', col) # us)" "parse_unary (Suc m) us = Inr (b, rest)"
    using assms(1,2) m by (auto simp: reads_def simp del: parse_unary.simps)
  then show "parse_and n ts = Inr (EAnd a b, rest)"
    using assms(3) by (simp add: n del: parse_unary.simps)
qed

lemma reads_or_one:
  "reads parse_and k ts (a, rest) \<Longrightarrow> 0 < k \<Longrightarrow> \<not> peek_is (TKw ''OR'') rest \<Longrightarrow> reads parse_or (Suc k) ts (a, rest)"
  by (auto simp: reads_def Suc_less_eq2 less_Suc_eq_0_disj gr0_conv_Suc)

lemma reads_or_two:
  assumes "reads parse_and k ts (a, (TKw ''OR'', col) # us)" "reads parse_and k' us (b, rest)"
    "\<not> peek_is (TKw ''OR'') rest"
  shows "reads parse_or (Suc (Suc (max k k'))) ts (EOr a b, rest)"
  unfolding reads_def
proof (intro allI impI)
  fix n assume "Suc (Suc (max k k')) < n"
  define m where "m = n - 3"
  have n: "n = Suc (Suc (Suc m))" and m: "max k k' \<le> m"
    using \<open>Suc (Suc (max k k')) < n\<close> unfolding m_def by linarith+
  have "parse_and (Suc (Suc m)) ts = Inr (a, (TKw ''OR'', col) # us)" "parse_and (Suc m) us = Inr (b, rest)"
    using assms(1,2) m by (auto simp: reads_def simp del: parse_and.simps)
  then show "parse_or n ts = Inr (EOr a b, rest)"
    using assms(3) by (simp add: n del: parse_and.simps)
qed

lemma reads_parens:
  "reads parse_or k ts (e, (TClose, col') # rest) \<Longrightarrow> reads parse_atom (Suc k) ((TOpen, col) # ts) (e, rest)"
  by (auto simp: reads_def Suc_less_eq2)

lemma map_fst_Cons: "map fst ts = x # xs \<Longrightarrow> \<exists>c us. ts = (x, c) # us \<and> map fst us = xs"
proof -
  assume m: "map fst ts = x # xs"
  then obtain p us where ts: "ts = p # us" by (cases ts) simp_all
  with m have "p = (x, snd p)" "map fst us = xs" by (simp_all add: prod_eq_iff)
  with ts show ?thesis by metis
qed

lemma split_infix:
  assumes "map fst ts = x # as @ y # bs @ [z]"
  shows "\<exists>c1 c2 c3 us vs. ts = (x, c1) # us @ (y, c2) # vs @ [(z, c3)] \<and> map fst us = as \<and> map fst vs = bs"
proof -
  from assms obtain c1 t1 where t1: "ts = (x, c1) # t1" "map fst t1 = as @ y # bs @ [z]"
    using map_fst_Cons [OF assms] by blast
  from t1(2) obtain us t2
    where us: "t1 = us @ t2" "map fst us = as" "map fst t2 = y # bs @ [z]" by (metis map_eq_append_conv)
  from us(3) obtain c2 t3 where t3: "t2 = (y, c2) # t3" "map fst t3 = bs @ [z]"
    using map_fst_Cons [OF us(3)] by blast
  from t3(2) obtain vs t4
    where vs: "t3 = vs @ t4" "map fst vs = bs" "map fst t4 = [z]" by (metis map_eq_append_conv)
  from vs(3) obtain c3 where "t4 = [(z, c3)]" using map_fst_Cons [OF vs(3)] by auto
  with t1 us t3 vs show ?thesis by blast
qed

lemma reads_eq:
  "reads parse_atom 0 ((TName q, c2) # (TEq, c3) # (TName v, c4) # rest) (EEq q v, rest)"
  by (auto simp: reads_def parse_option_def gr0_conv_Suc)

lemma reads_unary_parens:
  assumes "reads parse_unary k ts (e, (TClose, col') # rest)" "0 < k"
  shows "reads parse_atom (k + 3) ((TOpen, col) # ts) (e, rest)"
  using reads_parens [OF reads_or_one [OF reads_and_one [OF assms]]] by (simp add: numeral_3_eq_3)

text \<open>\<open>toks_of\<close> of an expression is read as an atom, whatever follows it, with four units a token.\<close>

lemma reads_toks:
  "map fst ts = toks_of e \<Longrightarrow> after_atom rest \<Longrightarrow> reads parse_atom (4 * length ts) (ts @ rest) (e, rest)"
proof (induction e arbitrary: ts rest)
  case (EYes q)
  then have "reads parse_atom 0 (ts @ rest) (EYes q, rest)"
    by (auto simp: reads_def after_atom_def gr0_conv_Suc)
  then show ?case by (rule reads_mono) simp
next
  case (EEq q v)
  then obtain c1 c2 c3 c4 c5 where ts: "ts = [(TOpen, c1), (TName q, c2), (TEq, c3), (TName v, c4), (TClose, c5)]"
    by (auto simp: map_eq_Cons_conv)
  have "reads parse_atom (Suc 0 + 3) ((TOpen, c1) # (TName q, c2) # (TEq, c3) # (TName v, c4) # (TClose, c5) # rest) (EEq q v, rest)"
    by (rule reads_unary_parens [OF reads_unary [OF reads_eq]]) simp_all
  then show ?case by (auto simp: ts elim: reads_mono)
next
  case (ENot a)
  then obtain c1 c2 c3 us where ts: "ts = (TOpen, c1) # (TKw ''NOT'', c2) # us @ [(TClose, c3)]" "map fst us = toks_of a"
    by (auto simp: map_eq_Cons_conv map_eq_append_conv)
  have "reads parse_atom (4 * length us) (us @ (TClose, c3) # rest) (a, (TClose, c3) # rest)"
    by (rule ENot.IH [OF ts(2)]) (simp add: after_atom_def)
  note r = reads_unary_parens [OF reads_not [OF reads_unary [OF this toks_of_head [OF ts(2)]]]]
  show ?case by (auto simp: ts intro!: reads_mono [OF r])
next
  case (EAnd a b)
  then obtain c1 c2 c3 us vs where
    ts: "ts = (TOpen, c1) # us @ (TKw ''AND'', c2) # vs @ [(TClose, c3)]" "map fst us = toks_of a" "map fst vs = toks_of b"
    using split_infix [of ts TOpen "toks_of a" "TKw ''AND''" "toks_of b" TClose] by auto
  have a: "reads parse_atom (4 * length us) (us @ (TKw ''AND'', c2) # vs @ (TClose, c3) # rest) (a, (TKw ''AND'', c2) # vs @ (TClose, c3) # rest)"
    by (rule EAnd.IH(1) [OF ts(2)]) (simp add: after_atom_def)
  have b: "reads parse_atom (4 * length vs) (vs @ (TClose, c3) # rest) (b, (TClose, c3) # rest)"
    by (rule EAnd.IH(2) [OF ts(3)]) (simp add: after_atom_def)
  from reads_and_two [OF reads_unary [OF a toks_of_head [OF ts(2)]] reads_unary [OF b toks_of_head [OF ts(3)]]]
  have "reads parse_and (Suc (Suc (max (Suc (4 * length us)) (Suc (4 * length vs)))))
      (us @ (TKw ''AND'', c2) # vs @ (TClose, c3) # rest) (EAnd a b, (TClose, c3) # rest)" by simp
  note r = reads_parens [OF reads_or_one [OF this]]
  show ?case by (auto simp: ts intro!: reads_mono [OF r])
next
  case (EOr a b)
  then obtain c1 c2 c3 us vs where
    ts: "ts = (TOpen, c1) # us @ (TKw ''OR'', c2) # vs @ [(TClose, c3)]" "map fst us = toks_of a" "map fst vs = toks_of b"
    using split_infix [of ts TOpen "toks_of a" "TKw ''OR''" "toks_of b" TClose] by auto
  have a: "reads parse_atom (4 * length us) (us @ (TKw ''OR'', c2) # vs @ (TClose, c3) # rest) (a, (TKw ''OR'', c2) # vs @ (TClose, c3) # rest)"
    by (rule EOr.IH(1) [OF ts(2)]) (simp add: after_atom_def)
  have b: "reads parse_atom (4 * length vs) (vs @ (TClose, c3) # rest) (b, (TClose, c3) # rest)"
    by (rule EOr.IH(2) [OF ts(3)]) (simp add: after_atom_def)
  from reads_or_two [OF reads_and_one [OF reads_unary [OF a toks_of_head [OF ts(2)]]]
      reads_and_one [OF reads_unary [OF b toks_of_head [OF ts(3)]]]]
  have "reads parse_or (Suc (Suc (max (Suc (Suc (4 * length us))) (Suc (Suc (4 * length vs))))))
      (us @ (TKw ''OR'', c2) # vs @ (TClose, c3) # rest) (EOr a b, (TClose, c3) # rest)" by simp
  note r = reads_parens [OF this]
  show ?case by (auto simp: ts intro!: reads_mono [OF r])
qed

text \<open>The tokenizer on the canonical form.\<close>

definition no_word_start :: "string \<Rightarrow> bool" where
  "no_word_start s \<longleftrightarrow> (case s of [] \<Rightarrow> True | c # _ \<Rightarrow> \<not> isWordChar c)"

lemma tokenize_punct:
  "tokenize_from (Suc col) s = Inr us \<Longrightarrow> tokenize_from col (CHR ''('' # s) = Inr ((TOpen, col) # us)"
  "tokenize_from (Suc col) s = Inr us \<Longrightarrow> tokenize_from col (CHR '')'' # s) = Inr ((TClose, col) # us)"
  "tokenize_from (Suc col) s = Inr us \<Longrightarrow> tokenize_from col (CHR '' '' # s) = Inr us"
  "tokenize_from (Suc (Suc col)) s = Inr us \<Longrightarrow> tokenize_from col (CHR ''='' # CHR ''='' # s) = Inr ((TEq, col) # us)"
  by (simp_all add: tokenize_from.simps char_at_def)

lemma tokenize_word:
  assumes "list_all isWordChar w" "w \<noteq> ''''" "no_word_start s" "tokenize_from (col + length w) s = Inr us"
  shows "w \<in> set KEYWORDS \<Longrightarrow> tokenize_from col (w @ s) = Inr ((TKw w, col) # us)"
    and "w \<notin> set KEYWORDS \<Longrightarrow> is_lower_name w \<Longrightarrow> tokenize_from col (w @ s) = Inr ((TName w, col) # us)"
proof -
  obtain c cs where w: "w = c # cs" using assms(2) by (cases w) auto
  have c: "isWordChar c" using assms(1) w by simp
  then have nc: "c \<notin> {CHR '' '', CHR 0x09, CHR 0x0A, CHR 0x0D, CHR ''('', CHR '')'', CHR '','', CHR ''='', CHR ''!''}"
    by (auto simp: isWordChar_def is_az_def is_AZ_def is_digit_def)
  have tw: "takeWhile isWordChar (c # cs @ s) = w" "dropWhile isWordChar (c # cs @ s) = s"
    using assms(1,3) w by (auto simp: no_word_start_def list_all_iff split: list.splits)
  have eq: "tokenize_from col (w @ s) =
      (if w \<in> set KEYWORDS then try_then (tokenize_from (col + length w) s) (\<lambda>ts. Inr ((TKw w, col) # ts))
       else if is_lower_name w then try_then (tokenize_from (col + length w) s) (\<lambda>ts. Inr ((TName w, col) # ts))
       else Inl (WhenError (''unknown word '' @ w) col))"
    using nc c by (simp only: w append_Cons tokenize_from.simps Let_def tw [unfolded w]) simp
  show "w \<in> set KEYWORDS \<Longrightarrow> tokenize_from col (w @ s) = Inr ((TKw w, col) # us)"
    "w \<notin> set KEYWORDS \<Longrightarrow> is_lower_name w \<Longrightarrow> tokenize_from col (w @ s) = Inr ((TName w, col) # us)"
    by (simp_all add: eq assms(4))
qed

lemma lower_name_word: "is_lower_name w \<Longrightarrow> list_all isWordChar w \<and> w \<noteq> '''' \<and> w \<notin> set KEYWORDS"
  by (cases w) (auto simp: is_lower_name_def isWordChar_def KEYWORDS_def is_az_def list_all_iff)

lemma no_word_start_simps [simp]:
  "no_word_start (CHR '' '' # s)" "no_word_start (CHR '')'' # s)" "no_word_start []"
  by (simp_all add: no_word_start_def isWordChar_def is_az_def is_AZ_def is_digit_def)

primrec names_ok :: "DecideExpr \<Rightarrow> bool" where
  "names_ok (EYes q) \<longleftrightarrow> is_lower_name q"
| "names_ok (EEq q v) \<longleftrightarrow> is_lower_name q \<and> is_lower_name v"
| "names_ok (ENot a) \<longleftrightarrow> names_ok a"
| "names_ok (EAnd a b) \<longleftrightarrow> names_ok a \<and> names_ok b"
| "names_ok (EOr a b) \<longleftrightarrow> names_ok a \<and> names_ok b"

text \<open>\<open>tokenizes s xs\<close>: wherever it stands, \<open>s\<close> gives the tokens \<open>xs\<close> before those of what follows.\<close>

definition tokenizes :: "string \<Rightarrow> Tok list \<Rightarrow> bool" where
  "tokenizes s xs \<longleftrightarrow>
     (\<forall>col rest us. no_word_start rest \<longrightarrow> tokenize_from (col + length s) rest = Inr us \<longrightarrow>
        (\<exists>ts. tokenize_from col (s @ rest) = Inr (ts @ us) \<and> map fst ts = xs))"

lemma tokenizes_word:
  assumes "list_all isWordChar w" "w \<noteq> ''''"
  shows "w \<in> set KEYWORDS \<Longrightarrow> tokenizes w [TKw w]"
    and "w \<notin> set KEYWORDS \<Longrightarrow> is_lower_name w \<Longrightarrow> tokenizes w [TName w]"
  using tokenize_word [OF assms] by (fastforce simp: tokenizes_def)+

lemma tokenizes_name: "is_lower_name w \<Longrightarrow> tokenizes w [TName w]"
  using lower_name_word tokenizes_word(2) by blast

lemma tokenizes_keyword: "w \<in> set KEYWORDS \<Longrightarrow> tokenizes w [TKw w]"
  by (rule tokenizes_word(1)) (auto simp: KEYWORDS_def isWordChar_def is_AZ_def)

text \<open>\<open>s\<close>, then a fixed stretch \<open>p\<close> without a word character at its start, then \<open>t\<close>.\<close>

lemma tokenizes_then:
  assumes s: "tokenizes s xs" and p: "p \<noteq> ''''" "no_word_start p"
    and ptoks: "\<And>col rest us. tokenize_from (col + length p) rest = Inr us \<Longrightarrow>
          \<exists>ts. tokenize_from col (p @ rest) = Inr (ts @ us) \<and> map fst ts = ys"
    and t: "tokenizes t zs"
  shows "tokenizes (s @ p @ t) (xs @ ys @ zs)"
  unfolding tokenizes_def
proof (intro allI impI)
  fix col rest us
  assume nw: "no_word_start rest" and "tokenize_from (col + length (s @ p @ t)) rest = Inr us"
  then have "tokenize_from (col + length s + length p + length t) rest = Inr us" by (simp add: add.assoc)
  with t nw obtain ts where ts: "tokenize_from (col + length s + length p) (t @ rest) = Inr (ts @ us)" "map fst ts = zs"
    unfolding tokenizes_def by blast
  from ptoks [OF ts(1)] obtain ps where ps: "tokenize_from (col + length s) (p @ t @ rest) = Inr (ps @ ts @ us)" "map fst ps = ys"
    by blast
  have "no_word_start (p @ t @ rest)" using p by (cases p) (auto simp: no_word_start_def)
  with s ps(1) obtain ss where "tokenize_from col (s @ p @ t @ rest) = Inr (ss @ ps @ ts @ us)" "map fst ss = xs"
    unfolding tokenizes_def by blast
  with ts(2) ps(2) show "\<exists>as. tokenize_from col ((s @ p @ t) @ rest) = Inr (as @ us) \<and> map fst as = xs @ ys @ zs"
    by (intro exI [of _ "ss @ ps @ ts"]) simp
qed

lemma tokenizes_space: "tokenizes s xs \<Longrightarrow> tokenizes t zs \<Longrightarrow> tokenizes (s @ '' '' @ t) (xs @ zs)"
  using tokenizes_then [of s xs "'' ''" "[]" t zs] by (force intro: tokenize_punct)

lemma tokenizes_eqeq: "tokenizes s xs \<Longrightarrow> tokenizes t zs \<Longrightarrow> tokenizes (s @ '' == '' @ t) (xs @ TEq # zs)"
proof -
  assume st: "tokenizes s xs" "tokenizes t zs"
  have "\<exists>ts. tokenize_from col ('' == '' @ rest) = Inr (ts @ us) \<and> map fst ts = [TEq]"
    if "tokenize_from (col + length '' == '') rest = Inr us" for col rest us
    using tokenize_punct(3) [of col, OF tokenize_punct(4), OF tokenize_punct(3), of rest us] that
    by (intro exI [of _ "[(TEq, Suc col)]"]) (simp add: eval_nat_numeral)
  from tokenizes_then [OF st(1) _ _ this st(2)] show ?thesis by simp
qed

lemma tokenizes_parens:
  assumes "tokenizes s xs"
  shows "tokenizes (''('' @ s @ '')'') (TOpen # xs @ [TClose])"
  unfolding tokenizes_def
proof (intro allI impI)
  fix col rest us
  assume "tokenize_from (col + length (''('' @ s @ '')'')) rest = Inr us"
  then have "tokenize_from (Suc (Suc col + length s)) rest = Inr us" by simp
  from tokenize_punct(2) [OF this] assms
  obtain ts where "tokenize_from (Suc col) (s @ CHR '')'' # rest) = Inr (ts @ (TClose, Suc col + length s) # us)" "map fst ts = xs"
    unfolding tokenizes_def using no_word_start_simps(2) by blast
  from tokenize_punct(1) [OF this(1)] this(2)
  show "\<exists>as. tokenize_from col ((''('' @ s @ '')'') @ rest) = Inr (as @ us) \<and> map fst as = TOpen # xs @ [TClose]"
    by (intro exI [of _ "(TOpen, col) # ts @ [(TClose, Suc col + length s)]"]) simp
qed

lemma KEYWORDS_mem [simp]: "''AND'' \<in> set KEYWORDS" "''OR'' \<in> set KEYWORDS" "''NOT'' \<in> set KEYWORDS"
  by (simp_all add: KEYWORDS_def)

lemma tokenizes_canonical: "names_ok e \<Longrightarrow> tokenizes (canonicalWhen e) (toks_of e)"
proof (induction e)
  case (EEq q v)
  then show ?case
    using tokenizes_parens [OF tokenizes_eqeq [OF tokenizes_name tokenizes_name], of q v] by simp
next
  case (ENot a)
  then show ?case
    using tokenizes_parens [OF tokenizes_space [OF tokenizes_keyword [of "''NOT''"]]] by simp
next
  case (EAnd a b)
  then have "tokenizes (canonicalWhen a @ '' '' @ ''AND'' @ '' '' @ canonicalWhen b) (toks_of a @ [TKw ''AND''] @ toks_of b)"
    by (intro tokenizes_space tokenizes_keyword KEYWORDS_mem) auto
  from tokenizes_parens [OF this] show ?case by simp
next
  case (EOr a b)
  then have "tokenizes (canonicalWhen a @ '' '' @ ''OR'' @ '' '' @ canonicalWhen b) (toks_of a @ [TKw ''OR''] @ toks_of b)"
    by (intro tokenizes_space tokenizes_keyword KEYWORDS_mem) auto
  from tokenizes_parens [OF this] show ?case by simp
qed (simp add: tokenizes_name)

lemma parseWhen_canonical:
  assumes "names_ok e"
  shows "parseWhen (canonicalWhen e) = Inr e"
proof -
  let ?fin = "[(TEnd, 1 + length (canonicalWhen e))]"
  have "tokenize_from (1 + length (canonicalWhen e)) [] = Inr ?fin" by (simp add: tokenize_from.simps)
  with tokenizes_canonical [OF assms] no_word_start_simps(3) obtain ts where
    ts: "tokenize_from 1 (canonicalWhen e @ []) = Inr (ts @ ?fin)" "map fst ts = toks_of e"
    unfolding tokenizes_def by blast
  have stop: "after_atom ?fin" "\<not> peek_is (TKw w) ?fin" for w by (simp_all add: after_atom_def)
  have "reads parse_or (4 * length ts + 3) (ts @ ?fin) (e, ?fin)"
    using reads_or_one [OF reads_and_one [OF reads_unary [OF reads_toks [OF ts(2) stop(1)]
          toks_of_head [OF ts(2)]] _ stop(2)] _ stop(2)] by (simp add: numeral_3_eq_3)
  then have "parse_or (4 * length (ts @ ?fin) + 4) (ts @ ?fin) = Inr (e, ?fin)"
    by (simp add: reads_def)
  with ts(1) show ?thesis by (simp add: parseWhen_def tokenize_def)
qed

section \<open>What the parser accepts\<close>

definition named :: "toks \<Rightarrow> bool" where
  "named ts \<longleftrightarrow> list_all (\<lambda>t. case tok_name (fst t) of None \<Rightarrow> True | Some w \<Rightarrow> is_lower_name w) ts"

definition named_result :: "('a \<Rightarrow> bool) \<Rightarrow> WhenError + 'a \<times> toks \<Rightarrow> bool" where
  "named_result P r \<longleftrightarrow> (case r of Inl _ \<Rightarrow> True | Inr (x, ts) \<Rightarrow> P x \<and> named ts)"

lemma named_simps [simp]:
  "named []"
  "named (t # ts) \<longleftrightarrow> (case tok_name (fst t) of None \<Rightarrow> True | Some w \<Rightarrow> is_lower_name w) \<and> named ts"
  "named ts \<Longrightarrow> named (tl ts)"
  "named_result P (Inl e)"
  "named_result P (Inr (x, ts)) \<longleftrightarrow> P x \<and> named ts"
  by (simp_all add: named_def named_result_def) (cases ts; simp)

lemma named_then:
  "named_result P r \<Longrightarrow> (\<And>x ts. P x \<Longrightarrow> named ts \<Longrightarrow> named_result Q (f (x, ts))) \<Longrightarrow> named_result Q (try_then r f)"
  by (cases r) (auto simp: named_result_def)

lemma named_next: "named ts \<Longrightarrow> named_result (\<lambda>t. case tok_name (fst t) of None \<Rightarrow> True | Some w \<Rightarrow> is_lower_name w) (next_tok ts)"
  by (cases ts) auto

lemma named_option: "named ts \<Longrightarrow> named_result is_lower_name (parse_option ts)"
  by (cases ts) (auto simp: parse_option_def split: option.splits)

lemma named_in_loop: "named ts \<Longrightarrow> is_lower_name q \<Longrightarrow> names_ok e \<Longrightarrow> named_result names_ok (in_loop q e ts)"
proof (induction "length ts" arbitrary: e ts rule: less_induct)
  case less
  show ?case
  proof (cases ts)
    case (Cons t us)
    show ?thesis
    proof (cases us)
      case (Cons u vs)
      have "named_result names_ok (in_loop q (EOr e (EEq q v)) vs)" if "tok_name (fst u) = Some v" for v
        by (rule less.hyps) (use less.prems \<open>ts = t # us\<close> Cons that in auto)
      with less.prems \<open>ts = t # us\<close> Cons show ?thesis
        by (subst in_loop.simps) (auto split: option.split)
    qed (use less.prems Cons in \<open>subst in_loop.simps, auto\<close>)
  qed (simp add: in_loop.simps)
qed

lemma named_parse:
  "named ts \<longrightarrow>
     named_result names_ok (parse_or n ts) \<and> (names_ok a \<longrightarrow> named_result names_ok (or_loop n a ts))
   \<and> named_result names_ok (parse_and n ts) \<and> (names_ok a \<longrightarrow> named_result names_ok (and_loop n a ts))
   \<and> named_result names_ok (parse_unary n ts) \<and> named_result names_ok (parse_atom n ts)"
proof (induction n arbitrary: ts a)
  case 0
  then show ?case by simp
next
  case (Suc n)
  have IH: "named ts \<Longrightarrow> named_result names_ok (parse_or n ts)"
    "named ts \<Longrightarrow> names_ok a \<Longrightarrow> named_result names_ok (or_loop n a ts)"
    "named ts \<Longrightarrow> named_result names_ok (parse_and n ts)"
    "named ts \<Longrightarrow> names_ok a \<Longrightarrow> named_result names_ok (and_loop n a ts)"
    "named ts \<Longrightarrow> named_result names_ok (parse_unary n ts)"
    "named ts \<Longrightarrow> named_result names_ok (parse_atom n ts)" for ts a
    using Suc.IH by blast+
  have levels: "named_result names_ok (parse_or (Suc n) ts)" "names_ok a \<Longrightarrow> named_result names_ok (or_loop (Suc n) a ts)"
    "named_result names_ok (parse_and (Suc n) ts)" "names_ok a \<Longrightarrow> named_result names_ok (and_loop (Suc n) a ts)"
    "named_result names_ok (parse_unary (Suc n) ts)" if "named ts"
    using that by (auto intro!: named_then [OF IH(3)] named_then [OF IH(5)] IH(2,4,6))
  have "named_result names_ok (parse_atom (Suc n) ts)" if named: "named ts"
  proof (cases ts)
    case (Cons t us)
    obtain k col where t: "t = (k, col)" by (cases t)
    have us: "named us" using named Cons by simp
    show ?thesis
      using named us Cons t
      by (auto split: Tok.split intro!: named_then [OF IH(1)] named_then [OF named_next]
          named_then [OF named_option] named_in_loop)
  qed simp
  with levels show ?case by blast
qed

lemma tokenize_named: "case tokenize_from col s of Inl _ \<Rightarrow> True | Inr ts \<Rightarrow> named ts"
proof (induction "length s" arbitrary: col s rule: less_induct)
  case less
  show ?case
  proof (cases s)
    case Nil
    then show ?thesis by (simp add: tokenize_from.simps tok_name_def)
  next
    case (Cons c cs)
    have step: "case try_then (tokenize_from k us) (\<lambda>ts. Inr (t # ts)) of Inl _ \<Rightarrow> True | Inr ts \<Rightarrow> named ts"
      if "length us < length s" "named [t]" for k us t
      using less.hyps [OF that(1), of k] that(2) by (cases "tokenize_from k us") auto
    have "length (tl cs) < length s" "length cs < length s"
      "isWordChar c \<Longrightarrow> length (dropWhile isWordChar s) < length s"
      using Cons by (auto intro: le_less_trans [OF length_dropWhile_le])
    then show ?thesis
      using less.hyps [of cs] step Cons
      by (subst Cons, subst tokenize_from.simps)
        (simp only: Let_def split: if_split, simp add: Let_def tok_name_def)
  qed
qed

lemma parseWhen_names:
  assumes "parseWhen src = Inr e"
  shows "names_ok e"
proof -
  from assms obtain ts us where t: "tokenize_from 1 src = Inr ts" and p: "parse_or (4 * length ts + 4) ts = Inr (e, us)"
    by (auto simp: parseWhen_def tokenize_def try_then_Inr split: if_splits)
  have "named ts" using tokenize_named [of 1 src] t by simp
  with named_parse [of ts "4 * length ts + 4"] p show ?thesis by auto
qed

section \<open>The information order\<close>

text \<open>\<open>refines a b\<close>: \<open>b\<close> says at least what \<open>a\<close> says; U says nothing.\<close>

definition refines :: "Tri \<Rightarrow> Tri \<Rightarrow> bool" where
  "refines a b \<longleftrightarrow> a = U \<or> a = b"

lemma refines_ops:
  "refines a b \<Longrightarrow> refines (kNot a) (kNot b)"
  "refines a b \<Longrightarrow> refines a' b' \<Longrightarrow> refines (kAnd a a') (kAnd b b')"
  "refines a b \<Longrightarrow> refines a' b' \<Longrightarrow> refines (kOr a a') (kOr b b')"
  by (cases a; cases a'; simp add: refines_def kNot_def kAnd_def kOr_def; fail)
    (cases a; cases a'; auto simp: refines_def kNot_def kAnd_def kOr_def)+

primrec holds :: "(atom \<Rightarrow> bool) \<Rightarrow> DecideExpr \<Rightarrow> bool" where
  "holds v (EYes q) \<longleftrightarrow> v (AYes q)"
| "holds v (EEq q w) \<longleftrightarrow> v (AEq q w)"
| "holds v (ENot a) \<longleftrightarrow> \<not> holds v a"
| "holds v (EAnd a b) \<longleftrightarrow> holds v a \<and> holds v b"
| "holds v (EOr a b) \<longleftrightarrow> holds v a \<or> holds v b"

lemma evalWhen_decided:
  "\<forall>a \<in> set (atomsOf e). atom_value atoms a \<noteq> U \<Longrightarrow>
   evalWhen e atoms = (if holds (\<lambda>a. atom_value atoms a = T) e then T else F)"
  by (induction e) (auto simp: kNot_def kAnd_def kOr_def; metis Tri.exhaust)+

lemma evalWhen_refines:
  "\<forall>a \<in> set (atomsOf e). refines (atom_value atoms a) (atom_value atoms' a) \<Longrightarrow>
   refines (evalWhen e atoms) (evalWhen e atoms')"
  by (induction e) (auto intro: refines_ops)

section \<open>Properties\<close>

text \<open>C33: The parser always answers: on every text it returns an expression or an error with a
  column, and its recursion never runs out of fuel.\<close>

theorem parseWhen_answers: "parseWhen src \<noteq> Inl OutOfFuel"
proof
  assume out: "parseWhen src = Inl OutOfFuel"
  have tk: "tokenize src \<noteq> Inl OutOfFuel"
    using tokenize_ended [of 1 src] by (auto simp: tokenize_def)
  with out obtain ts where ts: "tokenize src = Inr ts"
    by (auto simp: parseWhen_def try_then_Inl)
  have "ended ts" using tokenize_ended [of 1 src] ts by (simp add: tokenize_def)
  then have "parsed_ok (length ts) (parse_or (4 * length ts + 4) ts)" using parse_ok by blast
  with out ts show False
    by (auto simp: parseWhen_def try_then_Inl ended_def parsed_ok_def neq_Nil_conv split: if_splits sum.splits)
qed

text \<open>C32: Parsing the canonical form of an expression over names gives the expression back, so the
  form the rule hash covers determines the rule's \<open>when\<close>.\<close>

theorem parseWhen_canonicalWhen:
  assumes "names_ok e"
  shows "parseWhen (canonicalWhen e) = Inr e"
  using assms by (rule parseWhen_canonical)

theorem parseWhen_canonicalWhen_witness:
  "parseWhen ''(risky AND (NOT (target == prod)))'' = Inr (EAnd (EYes ''risky'') (ENot (EEq ''target'' ''prod'')))"
  using parseWhen_canonicalWhen [of "EAnd (EYes ''risky'') (ENot (EEq ''target'' ''prod''))"]
  by (simp add: is_lower_name_def is_az_def is_digit_def)

text \<open>Whatever text the parser accepts, its canonical form is accepted and means the same, so
  two texts with one canonical form parse to the same expression.\<close>

theorem parseWhen_canonical_stable:
  "case parseWhen src of Inl _ \<Rightarrow> True | Inr e \<Rightarrow> parseWhen (canonicalWhen e) = Inr e"
  by (auto split: sum.split intro: parseWhen_canonical parseWhen_names)

text \<open>More answers never turn a verdict round.  When every atom of an expression keeps its value
  or changes only from unknown, a true or false verdict stays what it was.\<close>

theorem evalWhen_monotone:
  assumes "\<forall>a \<in> set (atomsOf e). refines (atom_value atoms a) (atom_value atoms' a)"
  shows "refines (evalWhen e atoms) (evalWhen e atoms')"
  using assms by (rule evalWhen_refines)

theorem evalWhen_monotone_witness:
  "evalWhen (EOr (EYes ''a'') (EYes ''b'')) \<lparr>at_yes = [(''a'', T)], at_eq = []\<rparr> = T
   \<and> refines T (evalWhen (EOr (EYes ''a'') (EYes ''b'')) \<lparr>at_yes = [(''a'', T), (''b'', F)], at_eq = []\<rparr>)"
  using evalWhen_monotone [of "EOr (EYes ''a'') (EYes ''b'')" "\<lparr>at_yes = [(''a'', T)], at_eq = []\<rparr>"
      "\<lparr>at_yes = [(''a'', T), (''b'', F)], at_eq = []\<rparr>"]
  by (simp add: atom_value_def refines_def kOr_def)

text \<open>With every atom decided, the three-valued value is the ordinary truth value of the
  expression; unknown never appears.\<close>

theorem evalWhen_classical:
  assumes "\<forall>a \<in> set (atomsOf e). atom_value atoms a \<noteq> U"
  shows "evalWhen e atoms = (if holds (\<lambda>a. atom_value atoms a = T) e then T else F)"
  using assms by (rule evalWhen_decided)

theorem evalWhen_classical_witness:
  "evalWhen (EAnd (EYes ''a'') (ENot (EYes ''b''))) \<lparr>at_yes = [(''a'', T), (''b'', F)], at_eq = []\<rparr> = T"
  using evalWhen_classical [of "EAnd (EYes ''a'') (ENot (EYes ''b''))" "\<lparr>at_yes = [(''a'', T), (''b'', F)], at_eq = []\<rparr>"]
  by (simp add: atom_value_def)

end
