(* ===== verification/DecideRules.thy ===== *)
theory DecideRules
  imports DecideWhen "HOL-Library.Multiset"
begin

text \<open>
  Decide rules, \<open>packages/shared-types/src/decide.ts\<close>: the shape of a rule and the eight ordered
  checks (each failure with its fixed reason), the \<open>decide:\<close> lines of an SOP, the rule hash's
  input, the bands and choice atoms, the outcome of one rule and of a call that several rules
  judge.

  A validator that returns its first failure, or nothing, is a list of options and
  \<open>first_error\<close> of it.  The untrusted value is a \<^typ>\<open>json\<close>; \<open>value as DecideRule\<close>, a cast in the
  source, reads its fields into the record \<open>DecideRule\<close>.
\<close>

section \<open>Limits and lexical classes\<close>

definition DECIDE_MAX_QUESTIONS :: nat where "DECIDE_MAX_QUESTIONS = 8"
definition DECIDE_MAX_OPTIONS :: nat where "DECIDE_MAX_OPTIONS = 8"
definition DECIDE_MAX_RULES_PER_CALL :: nat where "DECIDE_MAX_RULES_PER_CALL = 4"
definition DECIDE_MAX_WHEN_CHARS :: nat where "DECIDE_MAX_WHEN_CHARS = 256"
definition DECIDE_MIN_ASK_CHARS :: nat where "DECIDE_MIN_ASK_CHARS = 8"
definition DECIDE_MAX_ASK_CHARS :: nat where "DECIDE_MAX_ASK_CHARS = 300"
definition MAX_TOOLS :: nat where "MAX_TOOLS = 8"
definition MAX_TITLE :: nat where "MAX_TITLE = 80"

definition NONE_OF_THESE :: string where
  "NONE_OF_THESE = ''none_of_these''"

definition TOOL_TOKEN :: "string \<Rightarrow> bool" where
  "TOOL_TOKEN s \<longleftrightarrow>
     s \<noteq> '''' \<and> (is_AZ (hd s) \<or> is_az (hd s)) \<and> length s \<le> 64
     \<and> list_all (\<lambda>c. is_AZ c \<or> is_az c \<or> is_digit c \<or> c \<in> {CHR ''_'', CHR ''.'', CHR '':'', CHR ''-''}) (tl s)"

definition RULE_ID :: "string \<Rightarrow> bool" where
  "RULE_ID s \<longleftrightarrow>
     s \<noteq> '''' \<and> is_az (hd s) \<and> length s \<le> 48
     \<and> list_all (\<lambda>c. is_az c \<or> is_digit c \<or> c = CHR ''_'' \<or> c = CHR ''-'') (tl s)"

definition NAME :: "string \<Rightarrow> bool" where
  "NAME s \<longleftrightarrow> is_lower_name s \<and> length s \<le> 32"

text \<open>\<open>DECIDE_APPROVAL_RE\<close>.  A branch that ends in \<open>\w*\<close> runs to the end of its word, where the
  closing \<open>\b\<close> holds; the last branch needs a word boundary after \<open>off\<close>.\<close>

definition approval_stems :: "string list" where
  "approval_stems =
     [''approv'', ''authoris'', ''authoriz'', ''preapprov'', ''pre-approv'', ''consent'', ''permit'', ''permission'']"

definition approval_phrases :: "string list" where
  "approval_phrases = [''sign off'', ''sign-off'', ''signed off'', ''signed-off'']"

definition approval_here :: "string \<Rightarrow> bool" where
  "approval_here s \<longleftrightarrow>
     list_ex (\<lambda>w. prefix w s) approval_stems
     \<or> list_ex (\<lambda>w. prefix w s \<and> (case drop (length w) s of [] \<Rightarrow> True | c # _ \<Rightarrow> \<not> isWordChar c)) approval_phrases"

fun approval_from :: "bool \<Rightarrow> string \<Rightarrow> bool" where
  "approval_from boundary [] = False"
| "approval_from boundary (c # s) = (boundary \<and> approval_here (c # s) \<or> approval_from (\<not> isWordChar c) s)"

definition DECIDE_APPROVAL_RE :: "string \<Rightarrow> bool" where
  "DECIDE_APPROVAL_RE s = approval_from True (map ascii_lower_char s)"

section \<open>Rules\<close>

record DecideBand =
  yes_at :: rat
  no_below :: rat

definition DECIDE_DEFAULT_BAND :: DecideBand where
  "DECIDE_DEFAULT_BAND = \<lparr>yes_at = 85 / 100, no_below = 15 / 100\<rparr>"

datatype QuestionType = YesNo | Choice

record DecideQuestion =
  qn_type :: QuestionType
  qn_ask :: string
  qn_options :: "string list option"
  qn_band :: "DecideBand option"

datatype DecideOn = OnToolCall | OnResponse
datatype Escalate = EscAsk | EscReview | EscRefuse
datatype Rollout = Shadow | Enforce

record DecideRule =
  rl_id :: string
  rl_title :: "string option"
  rl_on :: DecideOn
  rl_tools :: "string list option"
  rl_questions :: "(string \<times> DecideQuestion) list"
  rl_when :: string
  rl_band :: "DecideBand option"
  rl_escalate :: "Escalate option"
  rl_rollout :: "Rollout option"
  rl_context :: "string list option"

section \<open>Shape\<close>

definition first_error :: "'a option list \<Rightarrow> 'a option" where
  "first_error es = (case dropWhile (\<lambda>e. e = None) es of [] \<Rightarrow> None | e # _ \<Rightarrow> e)"

definition fail_if :: "bool \<Rightarrow> string \<Rightarrow> string option" where
  "fail_if c message = (if c then Some message else None)"

fun isObject :: "json \<Rightarrow> bool" where
  "isObject (JObj _) = True"
| "isObject _ = False"

definition has :: "json \<Rightarrow> string \<Rightarrow> bool" where
  "has obj key \<longleftrightarrow> json_field obj key \<noteq> None"

fun obj_keys :: "json \<Rightarrow> string list" where
  "obj_keys (JObj kvs) = map fst kvs"
| "obj_keys _ = []"

definition unknownField :: "json \<Rightarrow> string list \<Rightarrow> string option" where
  "unknownField obj allowed = char_at (sort (filter (\<lambda>k. k \<notin> set allowed) (obj_keys obj))) 0"

definition RULE_FIELDS :: "string list" where
  "RULE_FIELDS =
     [''id'', ''title'', ''on'', ''tools'', ''questions'', ''when'', ''band'', ''escalate'', ''rollout'', ''context'']"

definition QUESTION_FIELDS :: "string list" where
  "QUESTION_FIELDS = [''type'', ''ask'', ''options'', ''band'']"

definition BAND_FIELDS :: "string list" where
  "BAND_FIELDS = [''yes_at'', ''no_below'']"

fun num_ok :: "json option \<Rightarrow> (rat \<Rightarrow> bool) \<Rightarrow> bool" where
  "num_ok (Some (JNum r)) P = P r"
| "num_ok _ P = False"

fun str_ok :: "json option \<Rightarrow> (string \<Rightarrow> bool) \<Rightarrow> bool" where
  "str_ok (Some (JStr s)) P = P s"
| "str_ok _ P = False"

text \<open>\<open>Array.isArray(v)\<close>, with its elements.\<close>

fun arr_items :: "json option \<Rightarrow> json list option" where
  "arr_items (Some (JArr xs)) = Some xs"
| "arr_items _ = None"

definition one_line :: "string \<Rightarrow> bool" where
  "one_line s \<longleftrightarrow> list_all (\<lambda>c. c \<notin> {CHR 0x09, CHR 0x0D, CHR 0x0A}) s"

definition bandShape :: "json \<Rightarrow> string \<Rightarrow> string option" where
  "bandShape v path =
     first_error
      [fail_if (\<not> isObject v) (path @ '' must be an object''),
       map_option (\<lambda>k. path @ '': unknown field '' @ k) (unknownField v BAND_FIELDS),
       fail_if (\<not> has v ''yes_at'') (path @ ''.yes_at is required''),
       fail_if (\<not> num_ok (json_field v ''yes_at'') (\<lambda>r. 1 / 2 < r \<and> r < 1)) (path @ ''.yes_at must be above 0.5 and below 1''),
       fail_if (\<not> has v ''no_below'') (path @ ''.no_below is required''),
       fail_if (\<not> num_ok (json_field v ''no_below'') (\<lambda>r. 0 < r)) (path @ ''.no_below must be above 0'')]"

definition optionsShape :: "json list \<Rightarrow> string \<Rightarrow> string option" where
  "optionsShape options path =
     first_error (concat (map (\<lambda>i.
       [fail_if (\<not> str_ok (Some (options ! i)) NAME) (path @ ''.options['' @ nat_str i @ ''] is not an option name''),
        fail_if (options ! i \<in> set (take i options))
          (path @ ''.options['' @ nat_str i @ ''] repeats '' @ (case options ! i of JStr s \<Rightarrow> s | _ \<Rightarrow> ''''))])
       [0..<length options]))"

definition questionShape :: "string \<Rightarrow> json \<Rightarrow> string option" where
  "questionShape name v =
     (let path = ''questions.'' @ name; ty = json_field v ''type''; options = json_field v ''options'' in
      first_error
       [fail_if (\<not> isObject v) (path @ '' must be an object''),
        map_option (\<lambda>k. path @ '': unknown field '' @ k) (unknownField v QUESTION_FIELDS),
        fail_if (\<not> has v ''type'') (path @ ''.type is required''),
        fail_if (\<not> (ty = Some (JStr ''yes_no'') \<or> ty = Some (JStr ''choice''))) (path @ ''.type must be yes_no or choice''),
        fail_if (\<not> has v ''ask'') (path @ ''.ask is required''),
        fail_if (\<not> str_ok (json_field v ''ask'')
            (\<lambda>s. DECIDE_MIN_ASK_CHARS \<le> length s \<and> length s \<le> DECIDE_MAX_ASK_CHARS \<and> one_line s))
          (path @ ''.ask must be 8 to 300 characters with no tab or newline''),
        (if ty = Some (JStr ''yes_no'')
         then fail_if (has v ''options'') (path @ ''.options applies to choice questions only'')
         else
           first_error
            [fail_if (\<not> has v ''options'') (path @ ''.options is required for a choice question''),
             fail_if (arr_items options = None) (path @ ''.options must be a list''),
             (case arr_items options of
                None \<Rightarrow> None
              | Some xs \<Rightarrow>
                  first_error
                   [fail_if (length xs < 2 \<or> DECIDE_MAX_OPTIONS < length xs) (path @ ''.options lists 2 to 8 options''),
                    optionsShape xs path])]),
        (case json_field v ''band'' of None \<Rightarrow> None | Some b \<Rightarrow> bandShape b (path @ ''.band''))])"

definition toolsShape :: "json list \<Rightarrow> string option" where
  "toolsShape tools =
     first_error
       (fail_if (length tools < 1 \<or> MAX_TOOLS < length tools) ''tools names 1 to 8 tools''
        # map (\<lambda>i. fail_if (\<not> str_ok (Some (tools ! i)) TOOL_TOKEN) (''tools['' @ nat_str i @ ''] is not a tool name''))
            [0..<length tools])"

definition questionsShape :: "json \<Rightarrow> string option" where
  "questionsShape questions =
     first_error (map (\<lambda>name.
       first_error
        [fail_if (\<not> NAME name) (''questions: '' @ name @ '' is not a question name''),
         fail_if (map ascii_upper_char name \<in> set KEYWORDS) (''questions: '' @ name @ '' is a when keyword''),
         (case json_field questions name of None \<Rightarrow> None | Some q \<Rightarrow> questionShape name q)])
       (sort (obj_keys questions)))"

definition one_of :: "json option \<Rightarrow> string list \<Rightarrow> bool" where
  "one_of v xs \<longleftrightarrow> str_ok v (\<lambda>s. s \<in> set xs)"

definition contextShape :: "json \<Rightarrow> string option" where
  "contextShape c =
     (case arr_items (Some c) of
        None \<Rightarrow> Some ''context must be a list''
      | Some xs \<Rightarrow>
          fail_if (1 < length xs \<or> length xs = 1 \<and> xs ! 0 \<noteq> JStr ''last_user_turn'') ''context may list last_user_turn, once'')"

definition ruleShape :: "json \<Rightarrow> string option" where
  "ruleShape v =
     first_error
      [fail_if (\<not> isObject v) ''a rule is a JSON object'',
       map_option (\<lambda>k. ''unknown field '' @ k) (unknownField v RULE_FIELDS),
       fail_if (\<not> has v ''id'') ''id is required'',
       fail_if (\<not> str_ok (json_field v ''id'') RULE_ID)
         ''id must be a lower-case letter, then up to 47 of a-z, 0-9, _ or -'',
       fail_if (has v ''title'' \<and>
           \<not> str_ok (json_field v ''title'') (\<lambda>s. 1 \<le> length s \<and> length s \<le> MAX_TITLE \<and> one_line s))
         ''title must be 1 to 80 characters with no tab or newline'',
       fail_if (\<not> has v ''on'') ''on is required'',
       fail_if (\<not> one_of (json_field v ''on'') [''tool_call'', ''response'']) ''on must be tool_call or response'',
       (case json_field v ''tools'' of
          None \<Rightarrow> None
        | Some t \<Rightarrow> (case arr_items (Some t) of None \<Rightarrow> Some ''tools must be a list'' | Some ts \<Rightarrow> toolsShape ts)),
       fail_if (\<not> has v ''questions'') ''questions is required'',
       (case json_field v ''questions'' of
          None \<Rightarrow> None
        | Some qs \<Rightarrow> if isObject qs then questionsShape qs else Some ''questions must be an object''),
       fail_if (\<not> has v ''when'') ''when is required'',
       fail_if (\<not> str_ok (json_field v ''when'') (\<lambda>_. True)) ''when must be a string'',
       fail_if (\<not> str_ok (json_field v ''when'') (\<lambda>s. 1 \<le> length s \<and> length s \<le> DECIDE_MAX_WHEN_CHARS))
         ''when must be 1 to 256 characters'',
       (case json_field v ''band'' of None \<Rightarrow> None | Some b \<Rightarrow> bandShape b ''band''),
       fail_if (has v ''escalate'' \<and> \<not> one_of (json_field v ''escalate'') [''ask'', ''review'', ''refuse''])
         ''escalate must be ask, review or refuse'',
       fail_if (has v ''rollout'' \<and> \<not> one_of (json_field v ''rollout'') [''shadow'', ''enforce''])
         ''rollout must be shadow or enforce'',
       (case json_field v ''context'' of None \<Rightarrow> None | Some c \<Rightarrow> contextShape c)]"

section \<open>Reading the fields\<close>

text \<open>\<open>value as DecideRule\<close>: the fields of a value whose shape has been checked.\<close>

fun str_of :: "json option \<Rightarrow> string" where
  "str_of (Some (JStr s)) = s"
| "str_of _ = ''''"

fun num_of :: "json option \<Rightarrow> rat" where
  "num_of (Some (JNum r)) = r"
| "num_of _ = 0"

definition as_band :: "json \<Rightarrow> DecideBand" where
  "as_band v = \<lparr>yes_at = num_of (json_field v ''yes_at''), no_below = num_of (json_field v ''no_below'')\<rparr>"

definition as_question :: "json \<Rightarrow> DecideQuestion" where
  "as_question v =
     \<lparr>qn_type = (if str_of (json_field v ''type'') = ''yes_no'' then YesNo else Choice),
      qn_ask = str_of (json_field v ''ask''),
      qn_options = map_option json_strings (json_field v ''options''),
      qn_band = map_option as_band (json_field v ''band'')\<rparr>"

fun obj_entries :: "json option \<Rightarrow> (string \<times> json) list" where
  "obj_entries (Some (JObj kvs)) = kvs"
| "obj_entries _ = []"

definition as_rule :: "json \<Rightarrow> DecideRule" where
  "as_rule v =
     \<lparr>rl_id = str_of (json_field v ''id''),
      rl_title = map_option (\<lambda>t. str_of (Some t)) (json_field v ''title''),
      rl_on = (if str_of (json_field v ''on'') = ''tool_call'' then OnToolCall else OnResponse),
      rl_tools = map_option json_strings (json_field v ''tools''),
      rl_questions = map (\<lambda>(k, q). (k, as_question q)) (obj_entries (json_field v ''questions'')),
      rl_when = str_of (json_field v ''when''),
      rl_band = map_option as_band (json_field v ''band''),
      rl_escalate = map_option (\<lambda>e. if e = JStr ''ask'' then EscAsk else if e = JStr ''review'' then EscReview else EscRefuse)
                      (json_field v ''escalate''),
      rl_rollout = map_option (\<lambda>r. if r = JStr ''shadow'' then Shadow else Enforce) (json_field v ''rollout''),
      rl_context = map_option json_strings (json_field v ''context'')\<rparr>"

definition question_names :: "DecideRule \<Rightarrow> string list" where
  "question_names rule = sort (map fst (rl_questions rule))"

definition decideOptions :: "DecideQuestion \<Rightarrow> string list" where
  "decideOptions q =
     filter (\<lambda>w. w \<noteq> NONE_OF_THESE) (case qn_options q of None \<Rightarrow> [] | Some os \<Rightarrow> os) @ [NONE_OF_THESE]"

definition question_band :: "DecideRule \<Rightarrow> string \<Rightarrow> DecideBand option" where
  "question_band rule name = Option.bind (map_of (rl_questions rule) name) qn_band"

definition decideQuestionBand :: "DecideRule \<Rightarrow> string \<Rightarrow> DecideBand" where
  "decideQuestionBand rule name =
     (case question_band rule name of
        Some b \<Rightarrow> b
      | None \<Rightarrow> (case rl_band rule of Some b \<Rightarrow> b | None \<Rightarrow> DECIDE_DEFAULT_BAND))"

section \<open>The eight checks\<close>

definition crossed :: "DecideBand option \<Rightarrow> bool" where
  "crossed b \<longleftrightarrow> (case b of None \<Rightarrow> False | Some b \<Rightarrow> \<not> no_below b < yes_at b)"

definition atom_error :: "DecideRule \<Rightarrow> atom \<Rightarrow> string option" where
  "atom_error rule a =
     (let name = (case a of AYes q \<Rightarrow> q | AEq q _ \<Rightarrow> q) in
      case map_of (rl_questions rule) name of
        None \<Rightarrow> Some (''decide: when: unknown question '' @ name)
      | Some q \<Rightarrow>
          (case a of
             AYes _ \<Rightarrow> fail_if (qn_type q \<noteq> YesNo) (''decide: when: '' @ name @ '' is not a yes_no question'')
           | AEq _ v \<Rightarrow>
               first_error
                [fail_if (qn_type q \<noteq> Choice) (''decide: when: '' @ name @ '' is not a choice question''),
                 fail_if (v \<notin> set (decideOptions q)) (''decide: when: unknown option '' @ v @ '' for '' @ name)]))"

definition atom_name :: "atom \<Rightarrow> string" where
  "atom_name a = (case a of AYes q \<Rightarrow> q | AEq q _ \<Rightarrow> q)"

definition checks_before_when :: "DecideRule \<Rightarrow> string option" where
  "checks_before_when rule =
     (let names = question_names rule in
      first_error
       ([fail_if ((rl_on rule = OnToolCall) \<noteq> (rl_tools rule \<noteq> None))
           ''decide: tools is required for on: tool_call and not allowed for on: response'',
         fail_if (rl_on rule \<noteq> OnToolCall \<and> rl_context rule \<noteq> None) ''decide: context applies to on: tool_call only'',
         fail_if (length names < 1 \<or> DECIDE_MAX_QUESTIONS < length names) ''decide: a rule asks 1 to 8 questions'',
         fail_if (crossed (rl_band rule)) ''decide: band: no_below must be below yes_at'']
        @ map (\<lambda>n. fail_if (crossed (question_band rule n)) (''decide: '' @ n @ '': no_below must be below yes_at'')) names))"

definition when_error_text :: "WhenError \<Rightarrow> string" where
  "when_error_text e =
     (case e of
        WhenError message column \<Rightarrow> ''decide: when: '' @ message @ '' at column '' @ nat_str column
      | OutOfFuel \<Rightarrow> '''')"

definition checks_after_when :: "DecideRule \<Rightarrow> DecideExpr \<Rightarrow> string option" where
  "checks_after_when rule expr =
     (let names = question_names rule; used = map atom_name (atomsOf expr) in
      first_error
       (map (atom_error rule) (atomsOf expr)
        @ map (\<lambda>n. fail_if (n \<notin> set used) (''decide: question '' @ n @ '' is never used in when'')) names
        @ map (\<lambda>n. fail_if (case map_of (rl_questions rule) n of None \<Rightarrow> False | Some q \<Rightarrow> DECIDE_APPROVAL_RE (qn_ask q))
              (''decide: '' @ n @ '' asks about approval; approval comes from the harness ask or the review queue, never from a question'')) names))"

definition validateDecideRule :: "json \<Rightarrow> string + DecideRule \<times> DecideExpr" where
  "validateDecideRule v =
     (case ruleShape v of
        Some shape \<Rightarrow> Inl (''decide: '' @ shape)
      | None \<Rightarrow>
          let rule = as_rule v in
          (case checks_before_when rule of
             Some reason \<Rightarrow> Inl reason
           | None \<Rightarrow>
               (case parseWhen (rl_when rule) of
                  Inl e \<Rightarrow> Inl (when_error_text e)
                | Inr expr \<Rightarrow>
                    (case checks_after_when rule expr of
                       Some reason \<Rightarrow> Inl reason
                     | None \<Rightarrow> Inr (rule, expr)))))"

section \<open>The lines of an SOP\<close>

text \<open>\<open>parseJson\<close> stands for \<open>JSON.parse\<close>, with \<^const>\<open>None\<close> where it throws.  The id of an
  unreadable line is kept when it can be read.\<close>

datatype DecideDecl = DeclRule DecideRule DecideExpr | Unreadable "string option" string

definition readable_id :: "json \<Rightarrow> string option" where
  "readable_id v =
     (case json_field v ''id'' of Some (JStr s) \<Rightarrow> if s \<noteq> '''' then Some s else None | _ \<Rightarrow> None)"

definition parseDecideLine :: "(string \<Rightarrow> json option) \<Rightarrow> string \<Rightarrow> DecideDecl" where
  "parseDecideLine parseJson raw =
     (let line = trim raw in
      if line = '''' then Unreadable None ''decide: the line is empty; write one rule per line as `decide: {json}`''
      else (case parseJson line of
              None \<Rightarrow> Unreadable None ''decide: the value is not JSON; write one rule per line as `decide: {json}`''
            | Some v \<Rightarrow>
                (case validateDecideRule v of
                   Inr (rule, expr) \<Rightarrow> DeclRule rule expr
                 | Inl reason \<Rightarrow> Unreadable (readable_id v) reason)))"

definition decl_id :: "DecideDecl \<Rightarrow> string option" where
  "decl_id d = (case d of DeclRule rule _ \<Rightarrow> Some (rl_id rule) | Unreadable i _ \<Rightarrow> i)"

fun unique_decls :: "string set \<Rightarrow> DecideDecl list \<Rightarrow> DecideDecl list" where
  "unique_decls seen [] = []"
| "unique_decls seen (d # ds) =
     (case decl_id d of
        None \<Rightarrow> d # unique_decls seen ds
      | Some i \<Rightarrow>
          if i \<in> seen then Unreadable (Some i) (''decide: id '' @ i @ '' is used twice in this SOP'') # unique_decls seen ds
          else d # unique_decls (insert i seen) ds)"

definition parseDecideLines :: "(string \<Rightarrow> json option) \<Rightarrow> string list \<Rightarrow> DecideDecl list" where
  "parseDecideLines parseJson values = unique_decls {} (map (parseDecideLine parseJson) values)"

section \<open>Identity\<close>

text \<open>JSON with the keys sorted at every level and no blanks.  \<open>numStr\<close> stands for the text
  \<open>JSON.stringify\<close> gives a number.\<close>

fun canonicalJson :: "(rat \<Rightarrow> string) \<Rightarrow> json \<Rightarrow> string" where
  "canonicalJson numStr JNull = ''null''"
| "canonicalJson numStr (JBool b) = (if b then ''true'' else ''false'')"
| "canonicalJson numStr (JNum r) = numStr r"
| "canonicalJson numStr (JStr s) = json_quote s"
| "canonicalJson numStr (JArr xs) = ''['' @ join_with '','' (map (canonicalJson numStr) xs) @ '']''"
| "canonicalJson numStr (JObj kvs) =
     ''{'' @ join_with '','' (map (\<lambda>(k, s). json_quote k @ '':'' @ s)
               (sort_key fst (map (\<lambda>(k, v). (k, canonicalJson numStr v)) kvs))) @ ''}''"

definition uniqueSorted :: "string list \<Rightarrow> string list" where
  "uniqueSorted xs = sort (uniq xs)"

definition hash_question :: "DecideRule \<Rightarrow> string \<times> DecideQuestion \<Rightarrow> string \<times> json" where
  "hash_question rule = (\<lambda>(name, q).
     (let b = decideQuestionBand rule name in
      (name, JObj ([(''type'', JStr (if qn_type q = YesNo then ''yes_no'' else ''choice'')), (''ask'', JStr (qn_ask q))]
        @ (if qn_type q = Choice then [(''options'', JArr (map JStr (decideOptions q)))] else [])
        @ [(''band'', JObj [(''yes_at'', JNum (yes_at b)), (''no_below'', JNum (no_below b))])]))))"

definition list_or_empty :: "'a list option \<Rightarrow> 'a list" where
  "list_or_empty v = (case v of None \<Rightarrow> [] | Some xs \<Rightarrow> xs)"

definition decideHashInput :: "(rat \<Rightarrow> string) \<Rightarrow> DecideRule \<Rightarrow> string option" where
  "decideHashInput numStr rule =
     (case parseWhen (rl_when rule) of
        Inl _ \<Rightarrow> None
      | Inr expr \<Rightarrow> Some (canonicalJson numStr (JObj
          [(''on'', JStr (if rl_on rule = OnToolCall then ''tool_call'' else ''response'')),
           (''tools'', JArr (map JStr (uniqueSorted (list_or_empty (rl_tools rule))))),
           (''questions'', JObj (map (hash_question rule) (rl_questions rule))),
           (''when'', JStr (canonicalWhen expr)),
           (''context'', JArr (map JStr (uniqueSorted (list_or_empty (rl_context rule)))))])))"

definition decideRuleHash :: "(rat \<Rightarrow> string) \<Rightarrow> (string \<Rightarrow> string) \<Rightarrow> DecideRule \<Rightarrow> string option" where
  "decideRuleHash numStr sha256Hex rule = map_option sha256Hex (decideHashInput numStr rule)"

section \<open>Semantics\<close>

definition bandValue :: "rat \<Rightarrow> DecideBand \<Rightarrow> Tri" where
  "bandValue p band = (if yes_at band \<le> p then T else if p < no_below band then F else U)"

definition choiceOrders :: "nat \<Rightarrow> nat list list" where
  "choiceOrders n =
     (let ids = [0..<n]; half = n div 2
      in [ids, rev ids] @ (if 3 < n then [drop half ids @ take half ids] else []))"

record ChoiceAtom =
  ch_p :: rat
  ch_spread :: rat
  ch_value :: Tri

fun list_max :: "rat list \<Rightarrow> rat" where
  "list_max [] = 0"
| "list_max [x] = x"
| "list_max (x # y # ys) = max x (list_max (y # ys))"

fun list_min :: "rat list \<Rightarrow> rat" where
  "list_min [] = 0"
| "list_min [x] = x"
| "list_min (x # y # ys) = min x (list_min (y # ys))"

definition choice_atom :: "(string \<times> rat) list list \<Rightarrow> DecideBand \<Rightarrow> string \<Rightarrow> ChoiceAtom" where
  "choice_atom perOrder band w =
     (let ps = map (\<lambda>m. case map_of m w of None \<Rightarrow> 0 | Some p \<Rightarrow> p) perOrder in
      if ps = [] then \<lparr>ch_p = 0, ch_spread = 0, ch_value = U\<rparr>
      else
        let p = sum_list ps / of_nat (length ps); spread = list_max ps - list_min ps
        in \<lparr>ch_p = p, ch_spread = spread,
            ch_value = (if yes_at band - no_below band < spread then U else bandValue p band)\<rparr>)"

definition choiceAtoms :: "string list \<Rightarrow> (string \<times> rat) list list \<Rightarrow> DecideBand \<Rightarrow> (string \<times> ChoiceAtom) list" where
  "choiceAtoms options perOrder band = map (\<lambda>w. (w, choice_atom perOrder band w)) options"

record DecideAnswerInput =
  an_p :: "rat option"
  an_perOrder :: "(string \<times> rat) list list option"

type_synonym answers = "(string \<times> DecideAnswerInput) list"

record DecideCombiner =
  cb_bias :: rat
  cb_weights :: "(string \<times> rat) list"
  cb_band :: DecideBand

text \<open>\<open>mathLog\<close> and \<open>mathExp\<close> stand for the rounded \<open>Math.log\<close> and \<open>Math.exp\<close>.\<close>

definition logit :: "(rat \<Rightarrow> rat) \<Rightarrow> rat \<Rightarrow> rat" where
  "logit mathLog p = (let q = min (max p (1 / 10 ^ 12)) (1 - 1 / 10 ^ 12) in mathLog (q / (1 - q)))"

definition combiner_p :: "DecideRule \<Rightarrow> answers \<Rightarrow> string \<Rightarrow> rat option" where
  "combiner_p rule answers name =
     (case (map_of (rl_questions rule) name, map_of answers name) of
        (Some q, Some a) \<Rightarrow>
          if qn_type q = YesNo then an_p a
          else
            (case an_perOrder a of
               None \<Rightarrow> None
             | Some orders \<Rightarrow>
                 if orders = [] then None
                 else Some (list_max (map (\<lambda>(_, c). ch_p c)
                        (choiceAtoms (decideOptions q) orders (decideQuestionBand rule name)))))
      | _ \<Rightarrow> None)"

fun combiner_sum :: "(rat \<Rightarrow> rat) \<Rightarrow> DecideRule \<Rightarrow> answers \<Rightarrow> (string \<times> rat) list \<Rightarrow> rat \<Rightarrow> rat option" where
  "combiner_sum mathLog rule answers [] x = Some x"
| "combiner_sum mathLog rule answers ((name, w) # ws) x =
     (case combiner_p rule answers name of
        None \<Rightarrow> None
      | Some p \<Rightarrow> combiner_sum mathLog rule answers ws (x + w * logit mathLog p))"

definition combinerScore ::
  "(rat \<Rightarrow> rat) \<Rightarrow> (rat \<Rightarrow> rat) \<Rightarrow> DecideRule \<Rightarrow> answers \<Rightarrow> DecideCombiner \<Rightarrow> rat option" where
  "combinerScore mathLog mathExp rule answers combiner =
     map_option (\<lambda>x. 1 / (1 + mathExp (- x)))
       (combiner_sum mathLog rule answers (sort_key fst (cb_weights combiner)) (cb_bias combiner))"

definition decideAtoms :: "DecideRule \<Rightarrow> answers \<Rightarrow> DecideAtoms" where
  "decideAtoms rule answers =
     (let value = (\<lambda>name q. case map_of answers name of
            None \<Rightarrow> U | Some a \<Rightarrow> (case an_p a of None \<Rightarrow> U | Some p \<Rightarrow> bandValue p (decideQuestionBand rule name)));
          orders = (\<lambda>name. case map_of answers name of None \<Rightarrow> [] | Some a \<Rightarrow> list_or_empty (an_perOrder a))
      in \<lparr>at_yes = [(name, value name q). (name, q) \<leftarrow> rl_questions rule, qn_type q = YesNo],
          at_eq = [(name, map (\<lambda>(w, c). (w, ch_value c))
                      (choiceAtoms (decideOptions q) (orders name) (decideQuestionBand rule name))).
                   (name, q) \<leftarrow> rl_questions rule, qn_type q = Choice]\<rparr>)"

datatype Verdict = Allow | Refuse | Escalated
datatype DecideCode = DECIDE_REFUSED | DECIDE_ESCALATED | GOVERNANCE_UNAVAILABLE
datatype Via = ViaAsk | ViaReview

record DecideRuleOutcome =
  ro_value :: Tri
  ro_outcome :: Verdict
  ro_code :: "DecideCode option"
  ro_via :: "Via option"
  ro_score :: "rat option"
  ro_atoms :: DecideAtoms

definition decideRuleOutcome ::
  "(rat \<Rightarrow> rat) \<Rightarrow> (rat \<Rightarrow> rat) \<Rightarrow> DecideRule \<Rightarrow> DecideExpr \<Rightarrow> answers \<Rightarrow> DecideCombiner option \<Rightarrow> DecideRuleOutcome" where
  "decideRuleOutcome mathLog mathExp rule expr answers combiner =
     (let atoms = decideAtoms rule answers;
          score = Option.bind combiner (combinerScore mathLog mathExp rule answers);
          v = (case combiner of
                 None \<Rightarrow> evalWhen expr atoms
               | Some c \<Rightarrow> (case score of None \<Rightarrow> U | Some s \<Rightarrow> bandValue s (cb_band c)));
          result = (\<lambda>outcome code via.
            \<lparr>ro_value = v, ro_outcome = outcome, ro_code = code, ro_via = via, ro_score = score, ro_atoms = atoms\<rparr>)
      in case v of
           T \<Rightarrow> result Refuse (Some DECIDE_REFUSED) None
         | F \<Rightarrow> result Allow None None
         | U \<Rightarrow>
             (case rl_escalate rule of
                Some EscRefuse \<Rightarrow> result Refuse (Some DECIDE_ESCALATED) None
              | Some EscReview \<Rightarrow> result Escalated (Some DECIDE_ESCALATED) (Some ViaReview)
              | _ \<Rightarrow> result Escalated (Some DECIDE_ESCALATED) (Some ViaAsk)))"

section \<open>One call, several rules\<close>

record DecideCandidate =
  dc_ref :: string
  dc_on :: DecideOn
  dc_tools :: "string list option"
  dc_effective :: Rollout

record 'c DecideSelection =
  sel_evaluate :: "'c list"
  sel_skipped :: "'c list"
  sel_unavailable :: "string option"

definition selectDecideRules :: "'a DecideCandidate_scheme list \<Rightarrow> string \<Rightarrow> ('a DecideCandidate_scheme) DecideSelection" where
  "selectDecideRules candidates tool =
     (let matched = filter (\<lambda>c. dc_on c = OnToolCall \<and> tool \<in> set (list_or_empty (dc_tools c))) candidates;
          ordered = filter (\<lambda>c. dc_effective c = Enforce) matched @ filter (\<lambda>c. dc_effective c \<noteq> Enforce) matched;
          beyond = drop DECIDE_MAX_RULES_PER_CALL ordered
      in \<lparr>sel_evaluate = take DECIDE_MAX_RULES_PER_CALL ordered,
          sel_skipped = filter (\<lambda>c. dc_effective c \<noteq> Enforce) beyond,
          sel_unavailable = (if list_ex (\<lambda>c. dc_effective c = Enforce) beyond
                             then Some (''more than 4 decide rules name '' @ tool) else None)\<rparr>)"

datatype RuleVerdict = RAllow | RRefuse | REscalate | RUnavailable

record DecideRuleResult =
  rr_ref :: string
  rr_effective :: Rollout
  rr_outcome :: RuleVerdict
  rr_code :: "DecideCode option"
  rr_via :: "Via option"

record DecideCallOutcome =
  co_outcome :: Verdict
  co_code :: "DecideCode option"
  co_ruleRef :: "string option"
  co_via :: "Via option"
  co_reason :: "string option"

definition decideCallOutcome :: "string option \<Rightarrow> DecideRuleResult list \<Rightarrow> DecideCallOutcome" where
  "decideCallOutcome unavailable results =
     (case (if unavailable = Some '''' then None else unavailable) of
        Some reason \<Rightarrow>
          \<lparr>co_outcome = Refuse, co_code = Some GOVERNANCE_UNAVAILABLE, co_ruleRef = None, co_via = None, co_reason = Some reason\<rparr>
      | None \<Rightarrow>
          let enforcing = filter (\<lambda>r. rr_effective r = Enforce) results in
          (case find (\<lambda>r. rr_outcome r = RRefuse \<or> rr_outcome r = RUnavailable) enforcing of
             Some r \<Rightarrow>
               \<lparr>co_outcome = Refuse,
                co_code = (if rr_outcome r = RUnavailable then Some GOVERNANCE_UNAVAILABLE
                           else (case rr_code r of None \<Rightarrow> Some DECIDE_REFUSED | c \<Rightarrow> c)),
                co_ruleRef = Some (rr_ref r), co_via = None, co_reason = None\<rparr>
           | None \<Rightarrow>
               (case find (\<lambda>r. rr_outcome r = REscalate) enforcing of
                  Some r \<Rightarrow>
                    \<lparr>co_outcome = Escalated, co_code = Some DECIDE_ESCALATED, co_ruleRef = Some (rr_ref r),
                     co_via = (case rr_via r of None \<Rightarrow> Some ViaAsk | v \<Rightarrow> v), co_reason = None\<rparr>
                | None \<Rightarrow>
                    \<lparr>co_outcome = Allow, co_code = None, co_ruleRef = None, co_via = None, co_reason = None\<rparr>)))"

section \<open>What a validated rule guarantees\<close>

lemma first_error_None: "first_error es = None \<longleftrightarrow> (\<forall>e \<in> set es. e = None)"
  by (induction es) (auto simp: first_error_def)

lemma fail_if_None [simp]: "fail_if c m = None \<longleftrightarrow> \<not> c"
  by (simp add: fail_if_def)

lemma num_ok_of: "num_ok v P \<Longrightarrow> P (num_of v)"
  by (cases "(v, P)" rule: num_ok.cases) auto

lemma str_ok_of: "str_ok v P \<Longrightarrow> P (str_of v)"
  by (cases "(v, P)" rule: str_ok.cases) auto

definition band_ok :: "DecideBand \<Rightarrow> bool" where
  "band_ok b \<longleftrightarrow> 0 < no_below b \<and> no_below b < yes_at b \<and> yes_at b < 1"

definition atom_ok :: "DecideRule \<Rightarrow> atom \<Rightarrow> bool" where
  "atom_ok rule a \<longleftrightarrow>
     (case a of
        AYes q \<Rightarrow> (\<exists>d. map_of (rl_questions rule) q = Some d \<and> qn_type d = YesNo)
      | AEq q v \<Rightarrow> (\<exists>d. map_of (rl_questions rule) q = Some d \<and> qn_type d = Choice \<and> v \<in> set (decideOptions d)))"

definition rule_ok :: "DecideRule \<Rightarrow> DecideExpr \<Rightarrow> bool" where
  "rule_ok rule expr \<longleftrightarrow>
     RULE_ID (rl_id rule) \<and> parseWhen (rl_when rule) = Inr expr
     \<and> (rl_on rule = OnToolCall \<longleftrightarrow> rl_tools rule \<noteq> None)
     \<and> rl_questions rule \<noteq> [] \<and> length (rl_questions rule) \<le> DECIDE_MAX_QUESTIONS
     \<and> list_all (atom_ok rule) (atomsOf expr)
     \<and> (\<forall>(name, q) \<in> set (rl_questions rule).
          name \<in> atom_name ` set (atomsOf expr) \<and> band_ok (decideQuestionBand rule name))
     \<and> (\<forall>name q. map_of (rl_questions rule) name = Some q \<longrightarrow> \<not> DECIDE_APPROVAL_RE (qn_ask q))"

lemma atom_error_None: "atom_error rule a = None \<Longrightarrow> atom_ok rule a"
  by (auto simp: atom_error_def atom_ok_def first_error_None split: atom.splits option.splits)

lemma bandShape_positive: "bandShape v path = None \<Longrightarrow> 0 < no_below (as_band v) \<and> yes_at (as_band v) < 1"
  by (auto simp: bandShape_def first_error_None as_band_def dest!: num_ok_of)

lemma ruleShape_bands:
  assumes "ruleShape v = None"
  shows "RULE_ID (rl_id (as_rule v))"
    and "rl_band (as_rule v) = Some b \<Longrightarrow> 0 < no_below b \<and> yes_at b < 1"
    and "question_band (as_rule v) n = Some b \<Longrightarrow> 0 < no_below b \<and> yes_at b < 1"
proof -
  note checks = assms [unfolded ruleShape_def first_error_None]
  show "RULE_ID (rl_id (as_rule v))"
    using checks by (auto simp: as_rule_def dest: str_ok_of)
  show "rl_band (as_rule v) = Some b \<Longrightarrow> 0 < no_below b \<and> yes_at b < 1"
    using checks by (auto simp: as_rule_def dest!: bandShape_positive)
  assume "question_band (as_rule v) n = Some b"
  then obtain d w where d: "map_of (obj_entries (json_field v ''questions'')) n = Some d"
    and w: "json_field d ''band'' = Some w" "b = as_band w"
    by (auto simp: question_band_def as_rule_def map_of_map as_question_def bind_eq_Some_conv)
  from d obtain kvs where kvs: "json_field v ''questions'' = Some (JObj kvs)"
    by (cases "json_field v ''questions''" rule: obj_entries.cases) auto
  with d have d: "map_of kvs n = Some d" by simp
  from kvs checks have "questionsShape (JObj kvs) = None" by auto
  then have "\<forall>e \<in> set kvs. (case map_of kvs (fst e) of None \<Rightarrow> None | Some x \<Rightarrow> questionShape (fst e) x) = None"
    by (simp add: questionsShape_def first_error_None)
  from bspec [OF this map_of_SomeD [OF d]] d have "questionShape n d = None" by simp
  with w show "0 < no_below b \<and> yes_at b < 1"
    by (auto simp: questionShape_def first_error_None Let_def dest: bandShape_positive)
qed

lemma question_names_set: "set (question_names rule) = fst ` set (rl_questions rule)"
  by (simp add: question_names_def)

lemma validateDecideRule_ok:
  assumes "validateDecideRule v = Inr (rule, expr)"
  shows "rule_ok rule expr"
proof -
  from assms have shape: "ruleShape v = None" and rule: "rule = as_rule v"
    and before: "checks_before_when rule = None" and parse: "parseWhen (rl_when rule) = Inr expr"
    and after: "checks_after_when rule expr = None"
    by (auto simp: validateDecideRule_def Let_def split: option.splits sum.splits)
  note before = before [unfolded checks_before_when_def Let_def first_error_None]
  note after = after [unfolded checks_after_when_def Let_def first_error_None]
  have band: "band_ok (decideQuestionBand rule name)" if "(name, q) \<in> set (rl_questions rule)" for name q
  proof -
    have "\<not> crossed (question_band rule name)"
      using before that by (force simp: question_names_set)
    moreover have "\<not> crossed (rl_band rule)" using before by simp
    ultimately show ?thesis
      using ruleShape_bands(2,3) [OF shape]
      by (auto simp: decideQuestionBand_def band_ok_def crossed_def rule DECIDE_DEFAULT_BAND_def split: option.splits)
  qed
  have after': "\<forall>a \<in> set (atomsOf expr). atom_error rule a = None"
    "\<forall>n \<in> set (question_names rule). n \<in> atom_name ` set (atomsOf expr)"
    "\<forall>n \<in> set (question_names rule). \<not> (case map_of (rl_questions rule) n of None \<Rightarrow> False | Some q \<Rightarrow> DECIDE_APPROVAL_RE (qn_ask q))"
    using after by (simp_all add: ball_Un)
  have used: "name \<in> atom_name ` set (atomsOf expr)" if "(name, q) \<in> set (rl_questions rule)" for name q
    using after'(2) that unfolding question_names_set by (metis fst_conv image_eqI)
  have approval: "\<not> DECIDE_APPROVAL_RE (qn_ask q)" if "map_of (rl_questions rule) name = Some q" for name q
  proof -
    have "name \<in> set (question_names rule)" using map_of_SomeD [OF that] by (force simp: question_names_set)
    from bspec [OF after'(3) this] that show ?thesis by simp
  qed
  have "list_all (atom_ok rule) (atomsOf expr)"
    using after'(1) by (auto simp: list_all_iff intro: atom_error_None)
  with before band used approval parse ruleShape_bands(1) [OF shape] show ?thesis
    by (auto simp: rule_ok_def rule question_names_def)
qed

section \<open>Answers and verdicts\<close>

lemma atom_value_unanswered:
  assumes "\<And>q v. map_of (at_yes atoms) q = Some v \<Longrightarrow> v = U"
    and "\<And>q m v w. map_of (at_eq atoms) q = Some m \<Longrightarrow> map_of m v = Some w \<Longrightarrow> w = U"
  shows "atom_value atoms a = U"
  using assms by (auto simp: atom_value_def bind_eq_Some_conv split: atom.splits option.splits)

lemma evalWhen_unknown: "\<forall>a \<in> set (atomsOf e). atom_value atoms a = U \<Longrightarrow> evalWhen e atoms = U"
  by (induction e) (auto simp: kNot_def kAnd_def kOr_def)

lemma map_of_filtered_name:
  "distinct (map fst qs) \<Longrightarrow> map_of qs n = Some q \<Longrightarrow> P q \<Longrightarrow>
   map_of [(name, f name d). (name, d) \<leftarrow> qs, P d] n = Some (f n q)"
  by (induction qs) (auto simp: map_of_eq_None_iff [symmetric] image_iff split: if_splits dest: map_of_SomeD)

lemma sum_list_bounds:
  fixes ps :: "rat list"
  assumes "ps \<noteq> []"
  shows "of_nat (length ps) * list_min ps \<le> sum_list ps \<and> sum_list ps \<le> of_nat (length ps) * list_max ps"
  using assms
proof (induction ps rule: list_min.induct)
  case (3 x y ys)
  define n where "n = (of_nat (length (y # ys)) :: rat)"
  define S where "S = sum_list (y # ys)"
  define L where "L = list_min (y # ys)"
  define M where "M = list_max (y # ys)"
  have IH: "n * L \<le> S" "S \<le> n * M" using "3.IH" by (auto simp: n_def S_def L_def M_def)
  have "0 \<le> n" by (simp add: n_def S_def L_def M_def)
  then have "n * min x L \<le> n * L" "n * M \<le> n * max x M" by (simp_all add: mult_left_mono)
  with IH have "(1 + n) * min x L \<le> x + S" "x + S \<le> (1 + n) * max x M"
    unfolding distrib_right mult_1_left by linarith+
  then show ?case by (simp add: n_def S_def L_def M_def)
qed auto

lemma list_max_ge: "p \<in> set ps \<Longrightarrow> p \<le> list_max ps"
  by (induction ps rule: list_max.induct) (auto simp: le_max_iff_disj)

lemma list_min_le: "p \<in> set ps \<Longrightarrow> list_min ps \<le> p"
  by (induction ps rule: list_min.induct) (auto simp: min_le_iff_disj)

lemma mean_between:
  fixes ps :: "rat list"
  assumes "ps \<noteq> []"
  shows "list_min ps \<le> sum_list ps / of_nat (length ps) \<and> sum_list ps / of_nat (length ps) \<le> list_max ps"
proof -
  have "0 < (of_nat (length ps) :: rat)" using assms by simp
  with sum_list_bounds [OF assms] show ?thesis by (simp add: pos_le_divide_eq pos_divide_le_eq mult.commute)
qed

lemma choice_atom_no_contradiction:
  assumes "m \<in> set perOrder" and p: "p = (case map_of m w of None \<Rightarrow> 0 | Some p \<Rightarrow> p)"
  shows "ch_value (choice_atom perOrder band w) = T \<Longrightarrow> no_below band \<le> p"
    and "ch_value (choice_atom perOrder band w) = F \<Longrightarrow> p < yes_at band"
proof -
  define ps where "ps = map (\<lambda>m. case map_of m w of None \<Rightarrow> 0 | Some p \<Rightarrow> p) perOrder"
  have mem: "p \<in> set ps" using assms by (auto simp: ps_def)
  then have ne: "ps \<noteq> []" by auto
  have v: "ch_value (choice_atom perOrder band w) =
      (if yes_at band - no_below band < list_max ps - list_min ps then U else bandValue (sum_list ps / of_nat (length ps)) band)"
    using ne by (simp add: choice_atom_def Let_def ps_def)
  note facts = mean_between [OF ne] list_max_ge [OF mem] list_min_le [OF mem]
  show "ch_value (choice_atom perOrder band w) = T \<Longrightarrow> no_below band \<le> p"
    using v facts by (auto simp: bandValue_def split: if_splits)
  show "ch_value (choice_atom perOrder band w) = F \<Longrightarrow> p < yes_at band"
    using v facts by (auto simp: bandValue_def split: if_splits)
qed

definition decided_answer :: "DecideRule \<Rightarrow> answers \<Rightarrow> string \<times> DecideQuestion \<Rightarrow> bool" where
  "decided_answer rule answers = (\<lambda>(name, q).
     (case map_of answers name of
        None \<Rightarrow> False
      | Some a \<Rightarrow>
          let band = decideQuestionBand rule name in
          if qn_type q = YesNo then (case an_p a of None \<Rightarrow> False | Some p \<Rightarrow> p < no_below band \<or> yes_at band \<le> p)
          else list_all (\<lambda>w. ch_value (choice_atom (list_or_empty (an_perOrder a)) band w) \<noteq> U) (decideOptions q)))"

lemma map_of_choice [simp]:
  "map_of (map (\<lambda>(w, c). (w, ch_value c)) (choiceAtoms ws orders band)) w =
     (if w \<in> set ws then Some (ch_value (choice_atom orders band w)) else None)"
  by (induction ws) (auto simp: choiceAtoms_def)

lemma atom_value_decided:
  assumes "atom_ok rule a" "distinct (map fst (rl_questions rule))"
    and "\<forall>nq \<in> set (rl_questions rule). decided_answer rule answers nq"
  shows "atom_value (decideAtoms rule answers) a \<noteq> U"
proof (cases a)
  case (AYes q)
  with assms(1) obtain d where d: "map_of (rl_questions rule) q = Some d" "qn_type d = YesNo"
    by (auto simp: atom_ok_def)
  from bspec [OF assms(3) map_of_SomeD [OF d(1)]] d(2) obtain x p where
    a: "map_of answers q = Some x" "an_p x = Some p" "p < no_below (decideQuestionBand rule q) \<or> yes_at (decideQuestionBand rule q) \<le> p"
    by (auto simp: decided_answer_def Let_def split: option.splits)
  have "atom_value (decideAtoms rule answers) a = bandValue p (decideQuestionBand rule q)"
    using AYes a map_of_filtered_name [OF assms(2) d(1), of "\<lambda>d. qn_type d = YesNo"
        "\<lambda>name _. case map_of answers name of None \<Rightarrow> U
            | Some a \<Rightarrow> (case an_p a of None \<Rightarrow> U | Some p \<Rightarrow> bandValue p (decideQuestionBand rule name))"] d(2)
    by (simp add: atom_value_def decideAtoms_def Let_def)
  with a(3) show ?thesis by (auto simp: bandValue_def)
next
  case (AEq q v)
  with assms(1) obtain d where d: "map_of (rl_questions rule) q = Some d" "qn_type d = Choice" "v \<in> set (decideOptions d)"
    by (auto simp: atom_ok_def)
  from bspec [OF assms(3) map_of_SomeD [OF d(1)]] d(2,3) obtain x where
    a: "map_of answers q = Some x" "ch_value (choice_atom (list_or_empty (an_perOrder x)) (decideQuestionBand rule q) v) \<noteq> U"
    by (auto simp: decided_answer_def Let_def list_all_iff split: option.splits)
  then show ?thesis
    using AEq d(3) map_of_filtered_name [OF assms(2) d(1), of "\<lambda>d. qn_type d = Choice"
        "\<lambda>name q. map (\<lambda>(w, c). (w, ch_value c)) (choiceAtoms (decideOptions q)
            (case map_of answers name of None \<Rightarrow> [] | Some a \<Rightarrow> list_or_empty (an_perOrder a))
            (decideQuestionBand rule name))"] d(2)
    by (simp add: atom_value_def decideAtoms_def Let_def)
qed

lemma decided_outcome:
  assumes "rule_ok rule expr" "distinct (map fst (rl_questions rule))"
    and "\<forall>nq \<in> set (rl_questions rule). decided_answer rule answers nq"
  shows "ro_value (decideRuleOutcome mathLog mathExp rule expr answers None)
       = (if holds (\<lambda>a. atom_value (decideAtoms rule answers) a = T) expr then T else F)"
proof -
  have "\<forall>a \<in> set (atomsOf expr). atom_value (decideAtoms rule answers) a \<noteq> U"
    using assms atom_value_decided by (auto simp: rule_ok_def list_all_iff)
  from evalWhen_decided [OF this] show ?thesis
    by (auto simp: decideRuleOutcome_def Let_def)
qed

lemma no_answers:
  "ro_outcome (decideRuleOutcome mathLog mathExp rule expr [] None) \<noteq> Allow"
proof -
  have "atom_value (decideAtoms rule []) a = U" for a
    by (rule atom_value_unanswered)
      (auto simp: decideAtoms_def choice_atom_def choiceAtoms_def list_or_empty_def dest!: map_of_SomeD)
  then have "evalWhen expr (decideAtoms rule []) = U" by (simp add: evalWhen_unknown)
  then show ?thesis
    by (simp add: decideRuleOutcome_def Let_def split: option.split Escalate.split)
qed

lemma outcome_by_value:
  "ro_value (decideRuleOutcome mathLog mathExp rule expr answers combiner) = v \<Longrightarrow>
   (v = T \<longrightarrow> ro_outcome (decideRuleOutcome mathLog mathExp rule expr answers combiner) = Refuse)
   \<and> (v = F \<longleftrightarrow> ro_outcome (decideRuleOutcome mathLog mathExp rule expr answers combiner) = Allow)"
  by (auto simp: decideRuleOutcome_def Let_def split: Tri.splits option.splits Escalate.splits)

section \<open>The rules of a call\<close>

lemma find_SomeD: "find P xs = Some r \<Longrightarrow> r \<in> set xs \<and> P r"
  by (induction xs) (auto split: if_splits)

lemma call_allows:
  "co_outcome (decideCallOutcome unavailable results) = Allow \<longleftrightarrow>
     (unavailable = None \<or> unavailable = Some '''') \<and> (\<forall>r \<in> set results. rr_effective r = Enforce \<longrightarrow> rr_outcome r = RAllow)"
proof (cases "unavailable = None \<or> unavailable = Some ''''")
  case True
  let ?E = "filter (\<lambda>r. rr_effective r = Enforce) results"
  have none: "(if unavailable = Some '''' then None else unavailable) = None" using True by auto
  show ?thesis
  proof (cases "find (\<lambda>r. rr_outcome r = RRefuse \<or> rr_outcome r = RUnavailable) ?E")
    case None
    then have refuse: "\<forall>r \<in> set results. rr_effective r = Enforce \<longrightarrow> rr_outcome r = RAllow \<or> rr_outcome r = REscalate"
      unfolding find_None_iff by (auto intro: RuleVerdict.exhaust)
    show ?thesis
    proof (cases "find (\<lambda>r. rr_outcome r = REscalate) ?E")
      case None': None
      then have "\<forall>r \<in> set results. rr_effective r = Enforce \<longrightarrow> rr_outcome r \<noteq> REscalate"
        unfolding find_None_iff by auto
      with refuse None None' True show ?thesis
        by (auto simp: decideCallOutcome_def none Let_def)
    next
      case (Some r)
      then have "r \<in> set results \<and> rr_effective r = Enforce \<and> rr_outcome r = REscalate"
        using find_SomeD by fastforce
      with None Some show ?thesis
        by (auto simp: decideCallOutcome_def none Let_def)
    qed
  next
    case (Some r)
    then have "r \<in> set results \<and> rr_effective r = Enforce \<and> rr_outcome r \<noteq> RAllow"
      using find_SomeD by fastforce
    with Some show ?thesis
      by (auto simp: decideCallOutcome_def none Let_def)
  qed
next
  case False
  then show ?thesis by (auto simp: decideCallOutcome_def)
qed

lemma select_matched:
  fixes candidates :: "'a DecideCandidate_scheme list" and tool :: string
  defines "sel \<equiv> selectDecideRules candidates tool"
  shows "length (sel_evaluate sel) \<le> DECIDE_MAX_RULES_PER_CALL"
    and "set (sel_evaluate sel) \<subseteq> {c \<in> set candidates. dc_on c = OnToolCall \<and> tool \<in> set (list_or_empty (dc_tools c))}"
    and "c \<in> set candidates \<Longrightarrow> dc_on c = OnToolCall \<Longrightarrow> tool \<in> set (list_or_empty (dc_tools c)) \<Longrightarrow>
      c \<in> set (sel_evaluate sel) \<or> c \<in> set (sel_skipped sel) \<or> sel_unavailable sel \<noteq> None"
    and "c \<in> set (sel_skipped sel) \<Longrightarrow> dc_effective c \<noteq> Enforce"
proof -
  define matched where "matched = filter (\<lambda>c. dc_on c = OnToolCall \<and> tool \<in> set (list_or_empty (dc_tools c))) candidates"
  define ordered where "ordered = filter (\<lambda>c. dc_effective c = Enforce) matched @ filter (\<lambda>c. dc_effective c \<noteq> Enforce) matched"
  have sel: "sel = \<lparr>sel_evaluate = take DECIDE_MAX_RULES_PER_CALL ordered,
          sel_skipped = filter (\<lambda>c. dc_effective c \<noteq> Enforce) (drop DECIDE_MAX_RULES_PER_CALL ordered),
          sel_unavailable = (if list_ex (\<lambda>c. dc_effective c = Enforce) (drop DECIDE_MAX_RULES_PER_CALL ordered)
                             then Some (''more than 4 decide rules name '' @ tool) else None)\<rparr>"
    unfolding sel_def selectDecideRules_def Let_def ordered_def matched_def ..
  have set: "set ordered = {c \<in> set candidates. dc_on c = OnToolCall \<and> tool \<in> set (list_or_empty (dc_tools c))}"
    by (auto simp: ordered_def matched_def)
  have split: "set ordered = set (take DECIDE_MAX_RULES_PER_CALL ordered) \<union> set (drop DECIDE_MAX_RULES_PER_CALL ordered)"
    by (metis append_take_drop_id set_append)
  show "length (sel_evaluate sel) \<le> DECIDE_MAX_RULES_PER_CALL" by (simp add: sel)
  show "set (sel_evaluate sel) \<subseteq> {c \<in> set candidates. dc_on c = OnToolCall \<and> tool \<in> set (list_or_empty (dc_tools c))}"
    using set split by (auto simp: sel)
  show "c \<in> set candidates \<Longrightarrow> dc_on c = OnToolCall \<Longrightarrow> tool \<in> set (list_or_empty (dc_tools c)) \<Longrightarrow>
      c \<in> set (sel_evaluate sel) \<or> c \<in> set (sel_skipped sel) \<or> sel_unavailable sel \<noteq> None"
    using set split by (fastforce simp: sel list_ex_iff)
  show "c \<in> set (sel_skipped sel) \<Longrightarrow> dc_effective c \<noteq> Enforce" by (simp add: sel)
qed

section \<open>What the hash leaves out\<close>

text \<open>Two rules with the same evidence: the same scope, tools and context as sets, the same
  expression, and the same questions with the same effective bands, in any order.\<close>

definition effective_question :: "DecideRule \<Rightarrow> string \<times> DecideQuestion \<Rightarrow> string \<times> DecideQuestion" where
  "effective_question rule = (\<lambda>(name, q). (name, q\<lparr>qn_band := Some (decideQuestionBand rule name)\<rparr>))"

definition same_evidence :: "DecideRule \<Rightarrow> DecideRule \<Rightarrow> bool" where
  "same_evidence r s \<longleftrightarrow>
     rl_on r = rl_on s
     \<and> set (list_or_empty (rl_tools r)) = set (list_or_empty (rl_tools s))
     \<and> set (list_or_empty (rl_context r)) = set (list_or_empty (rl_context s))
     \<and> parseWhen (rl_when r) = parseWhen (rl_when s)
     \<and> distinct (map fst (rl_questions r)) \<and> distinct (map fst (rl_questions s))
     \<and> effective_question r ` set (rl_questions r) = effective_question s ` set (rl_questions s)"

definition question_json :: "string \<times> DecideQuestion \<Rightarrow> string \<times> json" where
  "question_json = (\<lambda>(name, q).
     (name, JObj ([(''type'', JStr (if qn_type q = YesNo then ''yes_no'' else ''choice'')), (''ask'', JStr (qn_ask q))]
        @ (if qn_type q = Choice then [(''options'', JArr (map JStr (decideOptions q)))] else [])
        @ [(''band'', (case qn_band q of None \<Rightarrow> JNull
             | Some b \<Rightarrow> JObj [(''yes_at'', JNum (yes_at b)), (''no_below'', JNum (no_below b))]))])))"

lemma hash_question_effective: "hash_question rule nq = question_json (effective_question rule nq)"
  by (cases nq) (simp add: hash_question_def question_json_def effective_question_def decideOptions_def Let_def)

lemma uniqueSorted_set: "set xs = set ys \<Longrightarrow> uniqueSorted xs = uniqueSorted ys"
  by (rule sorted_distinct_set_unique) (simp_all add: uniqueSorted_def)

lemma sort_questions:
  assumes "distinct (map fst xs)" "distinct (map fst ys)" "set xs = set ys"
  shows "sort_key fst xs = sort_key fst ys"
proof -
  have "mset xs = mset ys"
    using assms by (simp add: set_eq_iff_mset_eq_distinct [symmetric] distinct_map)
  moreover have "inj_on fst (set xs)" using assms(1) by (simp add: distinct_map)
  ultimately show ?thesis
    using sort_key_inj_key_eq [of xs "sort_key fst ys" fst] by simp
qed

lemma hash_same_evidence:
  assumes "same_evidence r s"
  shows "decideHashInput numStr r = decideHashInput numStr s"
proof -
  let ?canon = "\<lambda>(k, v). (k, canonicalJson numStr v)"
  let ?Q = "\<lambda>r. map ?canon (map (hash_question r) (rl_questions r))"
  let ?F = "\<lambda>r expr.
          [(''on'', JStr (if rl_on r = OnToolCall then ''tool_call'' else ''response'')),
           (''tools'', JArr (map JStr (uniqueSorted (list_or_empty (rl_tools r))))),
           (''questions'', JObj (map (hash_question r) (rl_questions r))),
           (''when'', JStr (canonicalWhen expr)),
           (''context'', JArr (map JStr (uniqueSorted (list_or_empty (rl_context r)))))]"
  have fst_eq: "map fst (?Q r) = map fst (rl_questions r)" for r
    by (simp add: hash_question_def Let_def split_def comp_def)
  have set_eq: "set (?Q r) = ?canon ` question_json ` effective_question r ` set (rl_questions r)" for r
    by (simp add: image_image hash_question_effective)
  have "sort_key fst (?Q r) = sort_key fst (?Q s)"
  proof (rule sort_questions)
    show "distinct (map fst (?Q r))" "distinct (map fst (?Q s))"
      unfolding fst_eq using assms by (simp_all add: same_evidence_def)
    show "set (?Q r) = set (?Q s)"
      unfolding set_eq using assms by (simp add: same_evidence_def)
  qed
  then have questions: "canonicalJson numStr (JObj (map (hash_question r) (rl_questions r)))
      = canonicalJson numStr (JObj (map (hash_question s) (rl_questions s)))"
    by simp
  have sets: "uniqueSorted (list_or_empty (rl_tools r)) = uniqueSorted (list_or_empty (rl_tools s))"
    "uniqueSorted (list_or_empty (rl_context r)) = uniqueSorted (list_or_empty (rl_context s))"
    using assms unfolding same_evidence_def by (blast intro: uniqueSorted_set)+
  have same: "rl_on r = rl_on s" "parseWhen (rl_when r) = parseWhen (rl_when s)"
    using assms unfolding same_evidence_def by blast+
  have fields: "map ?canon (?F r e) = map ?canon (?F s e)" for e
    by (simp only: list.map prod.case questions sets same)
  have "canonicalJson numStr (JObj (?F r e)) = canonicalJson numStr (JObj (?F s e))" for e
    unfolding canonicalJson.simps(6) fields ..
  then show ?thesis
    by (simp only: decideHashInput_def same)
qed

end
