(* ===== verification/DecideProps.thy ===== *)
theory DecideProps
  imports DecideRules
begin

text \<open>
  What the decide rules of \<open>DecideRules\<close> promise: a validated rule is well formed, decided answers
  give a classical verdict, silence never allows, a call is allowed only when every enforce rule
  that matched allows it, and the rule hash covers the evidence and nothing else.
\<close>

section \<open>The declarations of an SOP\<close>

definition rule_ids :: "DecideDecl list \<Rightarrow> string list" where
  "rule_ids ds = concat (map (\<lambda>d. case d of DeclRule rule _ \<Rightarrow> [rl_id rule] | Unreadable _ _ \<Rightarrow> []) ds)"

lemma length_unique_decls: "length (unique_decls seen ds) = length ds"
  by (induction seen ds rule: unique_decls.induct) (auto split: option.split)

lemma unique_decls_ids:
  "distinct (rule_ids (unique_decls seen ds)) \<and> set (rule_ids (unique_decls seen ds)) \<inter> seen = {}"
proof (induction seen ds rule: unique_decls.induct)
  case (1 seen)
  then show ?case by (simp add: rule_ids_def)
next
  case (2 seen d ds)
  show ?case
  proof (cases d)
    case (DeclRule rule expr)
    then show ?thesis
      using 2 by (auto simp: rule_ids_def decl_id_def)
  next
    case (Unreadable i reason)
    then show ?thesis
      using 2 by (cases i) (auto simp: rule_ids_def decl_id_def)
  qed
qed

lemma unique_decls_nth:
  "i < length ds \<Longrightarrow> unique_decls seen ds ! i = DeclRule rule expr \<Longrightarrow> ds ! i = DeclRule rule expr"
proof (induction seen ds arbitrary: i rule: unique_decls.induct)
  case (2 seen d ds)
  then show ?case by (cases i) (auto split: option.splits if_splits)
qed simp

lemma parseDecideLine_rule: "parseDecideLine parseJson raw = DeclRule rule expr \<Longrightarrow> rule_ok rule expr"
  by (auto simp: parseDecideLine_def Let_def intro: validateDecideRule_ok split: if_splits option.splits sum.splits prod.splits)

section \<open>Properties\<close>

text \<open>C31: A rule the validator accepts is well formed: its expression parses, its questions number
  one to eight, every question is used and every atom names a question of its type and, for a
  choice, one of its options; every band it is judged on has 0 < no_below < yes_at < 1; tools go
  with tool calls only; and no question asks about approval.\<close>

theorem validateDecideRule_sound:
  assumes "validateDecideRule v = Inr (rule, expr)"
  shows "rule_ok rule expr"
  using assms by (rule validateDecideRule_ok)

definition sample_rule :: json where
  "sample_rule = JObj
     [(''id'', JStr ''prod-write''), (''on'', JStr ''tool_call''), (''tools'', JArr [JStr ''Bash'']),
      (''questions'', JObj [(''risky'', JObj [(''type'', JStr ''yes_no''), (''ask'', JStr ''Does it delete data?'')])]),
      (''when'', JStr ''risky'')]"

theorem validateDecideRule_sound_witness:
  "\<exists>rule. validateDecideRule sample_rule = Inr (rule, EYes ''risky'') \<and> rule_ok rule (EYes ''risky'')"
proof -
  have "map_option snd (case validateDecideRule sample_rule of Inl _ \<Rightarrow> None | Inr x \<Rightarrow> Some x) = Some (EYes ''risky'')"
    by code_simp
  then obtain rule where "validateDecideRule sample_rule = Inr (rule, EYes ''risky'')"
    by (auto split: sum.splits)
  with validateDecideRule_sound [OF this] show ?thesis by blast
qed

text \<open>A validated rule whose every question has a decided answer never escalates: it refuses when
  its expression is true of the answers and allows when it is false.\<close>

theorem decideRuleOutcome_decided:
  assumes "validateDecideRule v = Inr (rule, expr)" "distinct (map fst (rl_questions rule))"
    and "\<forall>nq \<in> set (rl_questions rule). decided_answer rule answers nq"
  shows "ro_outcome (decideRuleOutcome mathLog mathExp rule expr answers None)
       = (if holds (\<lambda>a. atom_value (decideAtoms rule answers) a = T) expr then Refuse else Allow)"
  using outcome_by_value [OF decided_outcome [OF validateDecideRule_ok [OF assms(1)] assms(2,3)]]
  by (auto split: if_splits)

theorem decideRuleOutcome_decided_witness:
  "ro_outcome (decideRuleOutcome id id (as_rule sample_rule) (EYes ''risky'') [(''risky'', \<lparr>an_p = Some (9 / 10), an_perOrder = None\<rparr>)] None) = Refuse"
proof -
  have "(case validateDecideRule sample_rule of Inl _ \<Rightarrow> None | Inr x \<Rightarrow> Some (snd x)) = Some (EYes ''risky'')"
    by code_simp
  then have v: "validateDecideRule sample_rule = Inr (as_rule sample_rule, EYes ''risky'')"
    by (auto simp: validateDecideRule_def Let_def split: sum.splits option.splits)
  have "rl_questions (as_rule sample_rule) = [(''risky'', \<lparr>qn_type = YesNo, qn_ask = ''Does it delete data?'', qn_options = None, qn_band = None\<rparr>)]"
    by (simp add: sample_rule_def as_rule_def as_question_def)
  then show ?thesis
    using decideRuleOutcome_decided [OF v, of "[(''risky'', \<lparr>an_p = Some (9 / 10), an_perOrder = None\<rparr>)]" id id]
    by (simp add: decided_answer_def decideQuestionBand_def question_band_def decideAtoms_def atom_value_def bandValue_def
        DECIDE_DEFAULT_BAND_def as_rule_def sample_rule_def split: if_splits)
qed

text \<open>Silence never allows: with no answers at all, a rule without a combiner refuses or
  escalates, whatever its expression.\<close>

theorem decideRuleOutcome_silence:
  "ro_outcome (decideRuleOutcome mathLog mathExp rule expr [] None) \<noteq> Allow"
  by (rule no_answers)

text \<open>A choice atom that is decided contradicts none of the orders it was asked in: when it is
  true no order put the option below \<open>no_below\<close>, and when it is false no order put it at or above
  \<open>yes_at\<close>.\<close>

theorem choiceAtoms_consistent:
  assumes "m \<in> set perOrder" and "p = (case map_of m w of None \<Rightarrow> 0 | Some p \<Rightarrow> p)"
  shows "(ch_value (choice_atom perOrder band w) = T \<longrightarrow> no_below band \<le> p)
       \<and> (ch_value (choice_atom perOrder band w) = F \<longrightarrow> p < yes_at band)"
  using choice_atom_no_contradiction [OF assms] by blast

theorem choiceAtoms_consistent_witness:
  "ch_value (choice_atom [ [(''prod'', 9 / 10)], [(''prod'', 95 / 100)] ] DECIDE_DEFAULT_BAND ''prod'') = T
   \<and> no_below DECIDE_DEFAULT_BAND \<le> 9 / 10"
proof -
  have "ch_value (choice_atom [ [(''prod'', 9 / 10)], [(''prod'', 95 / 100)] ] DECIDE_DEFAULT_BAND ''prod'') = T"
    by (simp add: choice_atom_def bandValue_def DECIDE_DEFAULT_BAND_def Let_def)
  with choiceAtoms_consistent [of "[(''prod'', 9 / 10)]" "[ [(''prod'', 9 / 10)], [(''prod'', 95 / 100)] ]" "9 / 10" "''prod''" DECIDE_DEFAULT_BAND]
  show ?thesis by simp
qed

text \<open>The rule hash covers the evidence and nothing else: two rules with the same scope, the same
  tools and context as sets, the same expression and the same questions with the same effective
  bands, in any order, have one hash input, whatever their ids, titles, escalations and
  rollouts.\<close>

theorem decideHashInput_evidence:
  assumes "same_evidence r s"
  shows "decideHashInput numStr r = decideHashInput numStr s"
  using assms by (rule hash_same_evidence)

theorem decideHashInput_evidence_witness:
  "decideHashInput (\<lambda>_. ''0'') (as_rule sample_rule)
   = decideHashInput (\<lambda>_. ''0'') ((as_rule sample_rule)\<lparr>rl_id := ''other'', rl_rollout := Some Enforce, rl_when := ''( risky )'', rl_tools := Some [''Bash'', ''Bash'']\<rparr>)"
proof -
  have "parseWhen ''risky'' = Inr (EYes ''risky'')" "parseWhen ''( risky )'' = Inr (EYes ''risky'')" by code_simp+
  then have "same_evidence (as_rule sample_rule)
      ((as_rule sample_rule)\<lparr>rl_id := ''other'', rl_rollout := Some Enforce, rl_when := ''( risky )'', rl_tools := Some [''Bash'', ''Bash'']\<rparr>)"
    by (simp add: same_evidence_def as_rule_def sample_rule_def list_or_empty_def effective_question_def
        decideQuestionBand_def question_band_def as_question_def map_filter_simps)
  from decideHashInput_evidence [OF this] show ?thesis .
qed

text \<open>No \<open>decide:\<close> line is dropped, the ids of the readable rules of an SOP are distinct, and every
  readable rule is well formed.\<close>

theorem parseDecideLines_sound:
  "length (parseDecideLines parseJson values) = length values
   \<and> distinct (rule_ids (parseDecideLines parseJson values))
   \<and> list_all (\<lambda>d. case d of DeclRule rule expr \<Rightarrow> rule_ok rule expr | Unreadable _ _ \<Rightarrow> True) (parseDecideLines parseJson values)"
proof -
  have "rule_ok rule expr" if "DeclRule rule expr \<in> set (parseDecideLines parseJson values)" for rule expr
  proof -
    from that obtain i where i: "i < length values" "parseDecideLines parseJson values ! i = DeclRule rule expr"
      by (auto simp: in_set_conv_nth parseDecideLines_def length_unique_decls)
    then have "map (parseDecideLine parseJson) values ! i = DeclRule rule expr"
      using unique_decls_nth [of i "map (parseDecideLine parseJson) values" "{}" rule expr]
      by (simp add: parseDecideLines_def)
    with i(1) show ?thesis by (intro parseDecideLine_rule) simp
  qed
  then show ?thesis
    using unique_decls_ids [of "{}" "map (parseDecideLine parseJson) values"]
    by (auto simp: parseDecideLines_def length_unique_decls list_all_iff split: DecideDecl.split)
qed

text \<open>C20: A call is allowed exactly when every enforce rule that matched was within the limit and each
  one's result is to allow: an unavailable engine or a surplus rule refuses, and no shadow result
  counts.\<close>

theorem decideCallOutcome_allows:
  "co_outcome (decideCallOutcome (sel_unavailable sel) results) = Allow \<longleftrightarrow>
     (sel_unavailable sel = None \<or> sel_unavailable sel = Some '''')
     \<and> list_all (\<lambda>r. rr_outcome r = RAllow) (filter (\<lambda>r. rr_effective r = Enforce) results)"
  by (auto simp: call_allows list_all_iff)

text \<open>C21: Selection asks at most four rules, all of them for the tool, and loses no enforce rule: one
  that matches is asked, or the call is unavailable.\<close>

theorem selectDecideRules_enforces:
  assumes "c \<in> set candidates" "dc_on c = OnToolCall" "tool \<in> set (list_or_empty (dc_tools c))" "dc_effective c = Enforce"
  shows "(c \<in> set (sel_evaluate (selectDecideRules candidates tool)) \<or> sel_unavailable (selectDecideRules candidates tool) \<noteq> None)
       \<and> length (sel_evaluate (selectDecideRules candidates tool)) \<le> DECIDE_MAX_RULES_PER_CALL"
  using select_matched(1) [where candidates = candidates and tool = tool]
    select_matched(3,4) [where candidates = candidates and tool = tool and c = c] assms by blast

theorem selectDecideRules_enforces_witness:
  "length (sel_evaluate (selectDecideRules [\<lparr>dc_ref = ''r'', dc_on = OnToolCall, dc_tools = Some [''Bash''], dc_effective = Enforce\<rparr>] ''Bash'')) \<le> 4"
  using selectDecideRules_enforces [of "\<lparr>dc_ref = ''r'', dc_on = OnToolCall, dc_tools = Some [''Bash''], dc_effective = Enforce\<rparr>"
      "[\<lparr>dc_ref = ''r'', dc_on = OnToolCall, dc_tools = Some [''Bash''], dc_effective = Enforce\<rparr>]" "''Bash''"]
  by (simp add: list_or_empty_def DECIDE_MAX_RULES_PER_CALL_def)

end
