(* ===== verification/DecideRecord.thy ===== *)
theory DecideRecord
  imports DecideRules
begin

text \<open>
  Decide rules in the policy snapshot, \<open>packages/shared-types/src/decideRecord.ts\<close>: the
  \<open>@format\<close> line, the \<open>@decide\<close> line of a rule and its fallback line, and the check of a pin.  A
  record is the JSON object its payload parses to; \<open>jsonParse\<close> (\<open>JSON.parse\<close>), \<open>numStr\<close> (how a
  number is written) and \<open>sha256\<close> are parameters.  Base64 and UTF-8 are written out, over the model's
  alphabet: a character below 0x80 is one byte, any other two.
\<close>

section \<open>Base64 and UTF-8\<close>

definition B64_ALPHABET :: string where
  "B64_ALPHABET = ''ABCDEFGHIJKLMNOPQRSTUVWXYZabcdefghijklmnopqrstuvwxyz0123456789+/''"

definition b64_char :: "nat \<Rightarrow> char" where
  "b64_char n = B64_ALPHABET ! n"

fun position :: "'a \<Rightarrow> 'a list \<Rightarrow> nat option" where
  "position x [] = None"
| "position x (y # ys) = (if x = y then Some 0 else map_option Suc (position x ys))"

definition b64_digit :: "char \<Rightarrow> nat option" where
  "b64_digit c = position c B64_ALPHABET"

fun b64_encode :: "nat list \<Rightarrow> string" where
  "b64_encode [] = ''''"
| "b64_encode [a] = [b64_char (a div 4), b64_char (a mod 4 * 16), CHR ''='', CHR ''='']"
| "b64_encode [a, b] = [b64_char (a div 4), b64_char (a mod 4 * 16 + b div 16), b64_char (b mod 16 * 4), CHR ''='']"
| "b64_encode (a # b # c # rest) =
     [b64_char (a div 4), b64_char (a mod 4 * 16 + b div 16), b64_char (b mod 16 * 4 + c div 64), b64_char (c mod 64)]
     @ b64_encode rest"

text \<open>What \<open>atob\<close> reads beyond this (spaces, missing padding) does not re-encode to itself, and the
  reader below refuses it.\<close>

fun b64_decode :: "string \<Rightarrow> nat list option" where
  "b64_decode [] = Some []"
| "b64_decode (p # q # r # s # rest) =
     (case (b64_digit p, b64_digit q, b64_digit r, b64_digit s) of
        (Some i, Some j, Some k, Some l) \<Rightarrow>
          map_option ((@) [i * 4 + j div 16, j mod 16 * 16 + k div 4, k mod 4 * 64 + l]) (b64_decode rest)
      | (Some i, Some j, Some k, None) \<Rightarrow>
          if s = CHR ''='' \<and> rest = [] then Some [i * 4 + j div 16, j mod 16 * 16 + k div 4] else None
      | (Some i, Some j, None, None) \<Rightarrow>
          if r = CHR ''='' \<and> s = CHR ''='' \<and> rest = [] then Some [i * 4 + j div 16] else None
      | _ \<Rightarrow> None)"
| "b64_decode _ = None"

definition utf8_char :: "char \<Rightarrow> nat list" where
  "utf8_char c = (let n = of_char c in if n < 0x80 then [n] else [0xC0 + n div 64, 0x80 + n mod 64])"

definition utf8_encode :: "string \<Rightarrow> nat list" where
  "utf8_encode s = concat (map utf8_char s)"

text \<open>The fatal decoder, on the characters the model has.\<close>

fun utf8_decode :: "nat list \<Rightarrow> string option" where
  "utf8_decode [] = Some ''''"
| "utf8_decode (a # bs) =
     (if a < 0x80 then map_option (Cons (char_of a)) (utf8_decode bs)
      else case bs of
        b # cs \<Rightarrow>
          if 0xC2 \<le> a \<and> a \<le> 0xC3 \<and> 0x80 \<le> b \<and> b < 0xC0
          then map_option (Cons (char_of ((a - 0xC0) * 64 + (b - 0x80)))) (utf8_decode cs)
          else None
      | [] \<Rightarrow> None)"

definition decideToBase64 :: "string \<Rightarrow> string" where
  "decideToBase64 s = b64_encode (utf8_encode s)"

definition decideFromBase64 :: "string \<Rightarrow> string option" where
  "decideFromBase64 b64 =
     (case Option.bind (b64_decode b64) utf8_decode of
        None \<Rightarrow> None
      | Some t \<Rightarrow> if decideToBase64 t = b64 then Some t else None)"

lemma b64_digit_char [simp]: "n < 64 \<Longrightarrow> b64_digit (b64_char n) = Some n"
proof -
  have "list_all (\<lambda>n. b64_digit (b64_char n) = Some n) [0..<64]" by code_simp
  then show "n < 64 \<Longrightarrow> b64_digit (b64_char n) = Some n" by (simp add: list_all_iff)
qed

lemma b64_digit_pad [simp]: "b64_digit (CHR ''='') = None"
  by code_simp

lemma b64_decode_encode: "\<forall>b \<in> set bs. b < 256 \<Longrightarrow> b64_decode (b64_encode bs) = Some bs"
proof (induction bs rule: b64_encode.induct)
  case (2 a)
  then have "a div 4 < 64" "a mod 4 * 16 < 64" by auto
  then show ?case by simp
next
  case (3 a b)
  then have "a div 4 < 64" "a mod 4 * 16 + b div 16 < 64" "b mod 16 * 4 < 64" "b div 16 < 16" by auto
  then show ?case by simp
next
  case (4 a b c rest)
  then have "a div 4 < 64" "a mod 4 * 16 + b div 16 < 64" "b mod 16 * 4 + c div 64 < 64" "b div 16 < 16" "c div 64 < 4" "c mod 64 < 64"
    by auto
  with 4 show ?case by simp
qed simp

lemma utf8_char_bytes: "\<forall>b \<in> set (utf8_char c). b < 256"
proof -
  have "(of_char c :: nat) div 64 < 4" using nat_of_char_less_256 [of c] by linarith
  then show ?thesis using nat_of_char_less_256 [of c] by (auto simp: utf8_char_def Let_def)
qed

lemma utf8_decode_char: "utf8_decode (utf8_char c @ bs) = map_option (Cons c) (utf8_decode bs)"
proof -
  define n :: nat where "n = of_char c"
  then have n: "n < 256" "c = char_of n" using nat_of_char_less_256 [of c] by auto
  show ?thesis
  proof (cases "n < 0x80")
    case True
    with n show ?thesis by (simp add: utf8_char_def Let_def flip: n_def)
  next
    case False
    with n have "2 \<le> n div 64" "n div 64 \<le> 3" "n div 64 * 64 + n mod 64 = n" "n mod 64 < 64" by auto
    with False n show ?thesis by (simp add: utf8_char_def Let_def flip: n_def)
  qed
qed

lemma utf8_decode_encode: "utf8_decode (utf8_encode s) = Some s"
  by (induction s) (simp_all add: utf8_encode_def utf8_decode_char)

text \<open>Base64 reads back exactly what was written: a text decodes from a column if and only if the
  column is that text's own encoding, so one text has one column.\<close>

theorem decideFromBase64_iff: "decideFromBase64 b64 = Some t \<longleftrightarrow> b64 = decideToBase64 t"
proof -
  have "\<forall>b \<in> set (utf8_encode t). b < 256"
    using utf8_char_bytes by (auto simp: utf8_encode_def)
  then have "Option.bind (b64_decode (decideToBase64 t)) utf8_decode = Some t"
    by (simp add: decideToBase64_def b64_decode_encode utf8_decode_encode)
  then show ?thesis
    by (auto simp: decideFromBase64_def split: option.splits if_splits)
qed


section \<open>Snapshot lines\<close>

definition SNAPSHOT_FORMAT_RECORD_TAG :: string where "SNAPSHOT_FORMAT_RECORD_TAG = ''@format''"
definition SNAPSHOT_FORMAT :: nat where "SNAPSHOT_FORMAT = 3"
definition DECIDE_SNAPSHOT_FORMAT :: nat where "DECIDE_SNAPSHOT_FORMAT = 2"
definition DECIDE_RECORD_TAG :: string where "DECIDE_RECORD_TAG = ''@decide''"
definition DECIDE_FALLBACK_PREFIX :: string where "DECIDE_FALLBACK_PREFIX = ''decide-fallback:''"
definition RECORD_TEXT_MAX_BYTES :: nat where "RECORD_TEXT_MAX_BYTES = 4096"
definition DECIDE_SOP_TITLE_MAX_CHARS :: nat where "DECIDE_SOP_TITLE_MAX_CHARS = 80"

definition tab :: char where "tab = CHR 0x09"

definition encodeSnapshotFormatRecord :: "nat \<Rightarrow> string" where
  "encodeSnapshotFormatRecord fmt = SNAPSHOT_FORMAT_RECORD_TAG @ [tab] @ nat_str fmt"

definition decodeSnapshotFormatRecord :: "string \<Rightarrow> nat option" where
  "decodeSnapshotFormatRecord line =
     (case split_on tab line of
        [tag, d] \<Rightarrow>
          if tag = SNAPSHOT_FORMAT_RECORD_TAG \<and> d \<noteq> '''' \<and> hd d \<noteq> CHR ''0'' \<and> list_all is_digit d \<and> length d \<le> 6
          then Some (digits_value d) else None
      | _ \<Rightarrow> None)"

definition decideRuleRef :: "string \<Rightarrow> string \<Rightarrow> string" where
  "decideRuleRef sopId ruleId = sopId @ ''#'' @ ruleId"

definition decideFallbackId :: "(string \<Rightarrow> string) \<Rightarrow> string \<Rightarrow> string \<Rightarrow> string" where
  "decideFallbackId sha256Hex ruleId sopId = DECIDE_FALLBACK_PREFIX @ ruleId @ ''@'' @ take 12 (sha256Hex sopId)"

definition decideFallbackReason :: "string \<Rightarrow> string \<Rightarrow> string" where
  "decideFallbackReason ruleId sopTitle =
     ''Decide rule '' @ ruleId @ '' ('' @ sopTitle @ ''): upgrade to Intutic 3.0 to evaluate this rule''"

text \<open>The first bytes of a text, whole characters only.\<close>

fun text_prefix :: "string \<Rightarrow> nat \<Rightarrow> string" where
  "text_prefix [] room = []"
| "text_prefix (c # cs) room =
     (let n = length (utf8_char c) in if room < n then [] else c # text_prefix cs (room - n))"

definition decideRuleText :: "string \<Rightarrow> string" where
  "decideRuleText body = text_prefix body RECORD_TEXT_MAX_BYTES"

section \<open>Records and pins\<close>

datatype DecideStamp = StRule | StLocalDisable | StServerShadow | StSilentLog | StNoPins

definition DECIDE_STAMPS :: "(string \<times> DecideStamp) list" where
  "DECIDE_STAMPS =
     [(''rule'', StRule), (''local-disable'', StLocalDisable), (''server-shadow'', StServerShadow),
      (''silent-log'', StSilentLog), (''no-pins'', StNoPins)]"

definition DECIDE_RECORD_FIELDS :: "string list" where
  "DECIDE_RECORD_FIELDS =
     [''fallbackId'', ''ir'', ''pins'', ''ref'', ''rollout'', ''ruleHash'', ''ruleText'', ''sopTitle'', ''stampedBy'', ''v'']"

definition DECIDE_PIN_FIELDS :: "string list" where
  "DECIDE_PIN_FIELDS = [''band'', ''combiner'', ''evalRunId'', ''modelDigest'', ''source'', ''temperature'']"

text \<open>The typed reading of a pin and of a record.\<close>

record DecidePin =
  pn_modelDigest :: string
  pn_band :: "DecideBand option"
  pn_combiner :: "(rat \<times> (string \<times> rat) list) option"

record DecideRecord =
  rc_ref :: string
  rc_ruleHash :: string
  rc_fallbackId :: "string option"
  rc_rollout :: Rollout
  rc_stampedBy :: DecideStamp
  rc_ir :: json
  rc_sopTitle :: string
  rc_ruleText :: string
  rc_pins :: "DecidePin list"

definition decideOnlyFields :: "json \<Rightarrow> string list \<Rightarrow> bool" where
  "decideOnlyFields obj allowed = list_all (\<lambda>k. k \<in> set allowed) (obj_keys obj)"

fun decideIsNumber :: "json option \<Rightarrow> bool" where
  "decideIsNumber (Some (JNum _)) = True"
| "decideIsNumber _ = False"

fun decideNumberMap :: "json option \<Rightarrow> bool" where
  "decideNumberMap (Some (JObj kvs)) = list_all (\<lambda>k. decideIsNumber (map_of kvs k)) (map fst kvs)"
| "decideNumberMap _ = False"

fun nonempty_str :: "json option \<Rightarrow> bool" where
  "nonempty_str (Some (JStr s)) = (s \<noteq> '''')"
| "nonempty_str _ = False"

definition band_entry_ok :: "json \<Rightarrow> bool" where
  "band_entry_ok b \<longleftrightarrow>
     isObject b \<and> decideOnlyFields b [''yes_at'', ''no_below'']
     \<and> (case (json_field b ''yes_at'', json_field b ''no_below'') of
          (Some (JNum y), Some (JNum n)) \<Rightarrow> 1 / 2 < y \<and> y < 1 \<and> 0 < n \<and> n < y
        | _ \<Rightarrow> False)"

definition combiner_entry_ok :: "json \<Rightarrow> bool" where
  "combiner_entry_ok c \<longleftrightarrow>
     isObject c \<and> decideOnlyFields c [''bias'', ''weights'']
     \<and> decideIsNumber (json_field c ''bias'') \<and> decideNumberMap (json_field c ''weights'')"

definition parseDecidePin :: "json \<Rightarrow> json option" where
  "parseDecidePin v =
     (if \<not> isObject v \<or> \<not> decideOnlyFields v DECIDE_PIN_FIELDS then None
      else if \<not> nonempty_str (json_field v ''modelDigest'') \<or> \<not> nonempty_str (json_field v ''evalRunId'') then None
      else if json_field v ''source'' \<noteq> Some (JStr ''local'') \<and> json_field v ''source'' \<noteq> Some (JStr ''server'') then None
      else if has v ''temperature'' \<and> \<not> decideNumberMap (json_field v ''temperature'') then None
      else if \<not> (case json_field v ''band'' of None \<Rightarrow> True | Some b \<Rightarrow> band_entry_ok b) then None
      else if \<not> (case json_field v ''combiner'' of None \<Rightarrow> True | Some c \<Rightarrow> combiner_entry_ok c) then None
      else Some v)"

definition as_pin :: "json \<Rightarrow> DecidePin" where
  "as_pin v =
     \<lparr>pn_modelDigest = str_of (json_field v ''modelDigest''),
      pn_band = map_option as_band (json_field v ''band''),
      pn_combiner = map_option (\<lambda>c. (num_of (json_field c ''bias''),
          map (\<lambda>(k, w). (k, num_of (Some w))) (obj_entries (json_field c ''weights'')))) (json_field v ''combiner'')\<rparr>"

fun arr_of :: "json option \<Rightarrow> json list" where
  "arr_of (Some (JArr xs)) = xs"
| "arr_of _ = []"

definition as_record :: "json \<Rightarrow> DecideRecord" where
  "as_record r =
     \<lparr>rc_ref = str_of (json_field r ''ref''), rc_ruleHash = str_of (json_field r ''ruleHash''),
      rc_fallbackId = (case json_field r ''fallbackId'' of Some (JStr s) \<Rightarrow> Some s | _ \<Rightarrow> None),
      rc_rollout = (if json_field r ''rollout'' = Some (JStr ''enforce'') then Enforce else Shadow),
      rc_stampedBy = (case map_of DECIDE_STAMPS (str_of (json_field r ''stampedBy'')) of None \<Rightarrow> StRule | Some s \<Rightarrow> s),
      rc_ir = (case json_field r ''ir'' of None \<Rightarrow> JNull | Some i \<Rightarrow> i),
      rc_sopTitle = str_of (json_field r ''sopTitle''), rc_ruleText = str_of (json_field r ''ruleText''),
      rc_pins = map as_pin (arr_of (json_field r ''pins''))\<rparr>"

definition decideToolsColumn :: "json \<Rightarrow> string" where
  "decideToolsColumn ir =
     join_with '','' (sort (uniq (case json_field ir ''tools'' of None \<Rightarrow> [] | Some ts \<Rightarrow> json_strings ts)))"

section \<open>Writing and reading a record\<close>

text \<open>\<open>JSON.stringify\<close> with sorted keys is the canonical writer of the rule hash.\<close>

definition decideCanonicalRecordJson :: "(rat \<Rightarrow> string) \<Rightarrow> json \<Rightarrow> string" where
  "decideCanonicalRecordJson numStr v = canonicalJson numStr v"

definition fallback_column :: "json \<Rightarrow> string" where
  "fallback_column r = (case rc_fallbackId (as_record r) of None \<Rightarrow> ''-'' | Some f \<Rightarrow> f)"

definition encodeDecideRecord :: "(rat \<Rightarrow> string) \<Rightarrow> json \<Rightarrow> string" where
  "encodeDecideRecord numStr r =
     join_with [tab]
       [DECIDE_RECORD_TAG, fallback_column r,
        str_of (json_field r ''rollout''), decideToolsColumn (rc_ir (as_record r)),
        decideToBase64 (decideCanonicalRecordJson numStr r)]"

definition hex_run :: "nat \<Rightarrow> string \<Rightarrow> bool" where
  "hex_run n s \<longleftrightarrow> length s = n \<and> list_all (\<lambda>c. is_digit c \<or> (CHR ''a'' \<le> c \<and> c \<le> CHR ''f'')) s"

definition fallback_named :: "string \<Rightarrow> json option \<Rightarrow> bool" where
  "fallback_named ruleId f =
     (case f of
        Some (JStr s) \<Rightarrow>
          let head = DECIDE_FALLBACK_PREFIX @ ruleId @ ''@''
          in take (length head) s = head \<and> hex_run 12 (drop (length head) s)
      | _ \<Rightarrow> False)"

text \<open>The checks of a payload, in the order of the reader.\<close>

definition payload_checks :: "(json \<Rightarrow> string option) \<Rightarrow> json \<Rightarrow> bool list" where
  "payload_checks check r =
     (let ir = rc_ir (as_record r); id = str_of (json_field ir ''id'');
          enforce = (json_field r ''rollout'' = Some (JStr ''enforce''))
      in [isObject r \<and> decideOnlyFields r DECIDE_RECORD_FIELDS,
          list_all (has r) DECIDE_RECORD_FIELDS,
          json_field r ''v'' = Some (JNum 1) \<and> isObject ir \<and> str_ok (json_field ir ''id'') (\<lambda>_. True),
          str_ok (json_field r ''ruleHash'') (\<lambda>h. hex_run 64 h \<and> check ir = Some h),
          str_ok (json_field r ''ref'') (\<lambda>s. length id + 1 < length s \<and> suffix (''#'' @ id) s),
          enforce \<or> json_field r ''rollout'' = Some (JStr ''shadow''),
          str_ok (json_field r ''stampedBy'') (\<lambda>s. s \<in> set (map fst DECIDE_STAMPS)),
          (if enforce then json_field r ''stampedBy'' = Some (JStr ''rule'') \<and> fallback_named id (json_field r ''fallbackId'')
           else json_field r ''fallbackId'' = Some JNull),
          str_ok (json_field r ''sopTitle'')
            (\<lambda>t. list_all (\<lambda>c. c \<notin> {tab, CHR 0x0D, CHR 0x0A}) t \<and> length t \<le> DECIDE_SOP_TITLE_MAX_CHARS),
          str_ok (json_field r ''ruleText'') (\<lambda>t. length (utf8_encode t) \<le> RECORD_TEXT_MAX_BYTES),
          (case json_field r ''pins'' of Some (JArr ps) \<Rightarrow> list_all (\<lambda>p. parseDecidePin p \<noteq> None) ps | _ \<Rightarrow> False)])"

definition decodeDecideRecord :: "(string \<Rightarrow> json option) \<Rightarrow> (json \<Rightarrow> string option) \<Rightarrow> string \<Rightarrow> json option" where
  "decodeDecideRecord jsonParse check line =
     (case split_on tab line of
        [tag, fallback, rollout, tools, payload] \<Rightarrow>
          if tag \<noteq> DECIDE_RECORD_TAG \<or> payload = '''' then None
          else
            (case Option.bind (decideFromBase64 payload) jsonParse of
               None \<Rightarrow> None
             | Some r \<Rightarrow>
                 if list_ex Not (payload_checks check r) then None
                 else if fallback \<noteq> fallback_column r \<or> Some (JStr rollout) \<noteq> json_field r ''rollout''
                         \<or> tools \<noteq> decideToolsColumn (rc_ir (as_record r))
                 then None else Some r)
      | _ \<Rightarrow> None)"

text \<open>The check every gate passes: the rule's hash when it is a valid decide rule.\<close>

definition rule_check :: "(rat \<Rightarrow> string) \<Rightarrow> (string \<Rightarrow> string) \<Rightarrow> json \<Rightarrow> string option" where
  "rule_check numStr sha256 ir =
     (case validateDecideRule ir of Inl _ \<Rightarrow> None | Inr (rule, _) \<Rightarrow> decideRuleHash numStr sha256 rule)"


section \<open>Columns\<close>

lemma position_nth: "position x ys = Some i \<Longrightarrow> i < length ys \<and> ys ! i = x"
  by (induction ys arbitrary: i) (auto split: if_splits)

lemma b64_char_alphabet: "n < 64 \<Longrightarrow> b64_char n \<in> set B64_ALPHABET"
  using b64_digit_char [of n] position_nth [of "b64_char n" B64_ALPHABET n] by (metis b64_digit_def nth_mem)

lemma b64_encode_alphabet: "\<forall>b \<in> set bs. b < 256 \<Longrightarrow> set (b64_encode bs) \<subseteq> set B64_ALPHABET \<union> {CHR ''=''}"
proof (induction bs rule: b64_encode.induct)
  case (2 a)
  then have "a div 4 < 64" "a mod 4 * 16 < 64" by auto
  then show ?case by (simp add: b64_char_alphabet)
next
  case (3 a b)
  then have "a div 4 < 64" "a mod 4 * 16 + b div 16 < 64" "b mod 16 * 4 < 64" by auto
  then show ?case by (simp add: b64_char_alphabet)
next
  case (4 a b c rest)
  then have "a div 4 < 64" "a mod 4 * 16 + b div 16 < 64" "b mod 16 * 4 + c div 64 < 64" "c mod 64 < 64" by auto
  with 4 show ?case by (simp add: b64_char_alphabet)
qed simp

lemma tab_not_in_base64: "tab \<notin> set (decideToBase64 t)"
proof -
  have "\<forall>b \<in> set (utf8_encode t). b < 256" using utf8_char_bytes by (auto simp: utf8_encode_def)
  from b64_encode_alphabet [OF this] have "set (decideToBase64 t) \<subseteq> set B64_ALPHABET \<union> {CHR ''=''}"
    by (simp add: decideToBase64_def)
  moreover have "tab \<notin> set B64_ALPHABET \<union> {CHR ''=''}" by code_simp
  ultimately show ?thesis by blast
qed

lemma decideToBase64_nonempty: "t \<noteq> '''' \<Longrightarrow> decideToBase64 t \<noteq> ''''"
proof -
  assume "t \<noteq> ''''"
  then have "utf8_encode t \<noteq> []" by (cases t) (auto simp: utf8_encode_def utf8_char_def Let_def)
  then show ?thesis by (cases "utf8_encode t" rule: b64_encode.cases) (auto simp: decideToBase64_def)
qed

lemma set_join_with: "set (join_with sep xs) \<subseteq> set sep \<union> \<Union> (set ` set xs)"
  by (induction sep xs rule: join_with.induct) auto

lemma token_no_tab: "TOOL_TOKEN s \<Longrightarrow> tab \<notin> set s" "RULE_ID s \<Longrightarrow> tab \<notin> set s"
  by (cases s; auto simp: TOOL_TOKEN_def RULE_ID_def tab_def list_all_iff is_az_def is_AZ_def is_digit_def)+

lemma hex_run_no_tab: "hex_run n s \<Longrightarrow> tab \<notin> set s"
  by (auto simp: hex_run_def list_all_iff tab_def is_digit_def dest!: bspec [of _ _ "CHR 0x09"])

lemma validated_columns:
  assumes "validateDecideRule ir = Inr (rule, expr)"
  shows "RULE_ID (str_of (json_field ir ''id''))" "tab \<notin> set (decideToolsColumn ir)"
proof -
  from assms have shape: "ruleShape ir = None" and rule: "rule = as_rule ir"
    by (auto simp: validateDecideRule_def Let_def split: option.splits sum.splits)
  note checks = shape [unfolded ruleShape_def first_error_None]
  show "RULE_ID (str_of (json_field ir ''id''))" using checks by (auto dest: str_ok_of)
  have tools: "\<forall>t \<in> set ts. str_ok (Some t) TOOL_TOKEN" if "json_field ir ''tools'' = Some (JArr ts)" for ts
    using checks that by (auto simp: toolsShape_def first_error_None in_set_conv_nth)
  have "TOOL_TOKEN t" if "json_field ir ''tools'' = Some ts" "t \<in> set (json_strings ts)" for t ts
    using that tools by (cases ts) (force simp: List.map_filter_def split: json.splits)+
  then have "tab \<notin> set t" if "json_field ir ''tools'' = Some ts" "t \<in> set (json_strings ts)" for t ts
    using that token_no_tab(1) by blast
  then show "tab \<notin> set (decideToolsColumn ir)"
    using set_join_with [of "'',''" "sort (uniq (case json_field ir ''tools'' of None \<Rightarrow> [] | Some ts \<Rightarrow> json_strings ts))"]
    by (cases "json_field ir ''tools''") (auto simp: decideToolsColumn_def tab_def)
qed


section \<open>Properties\<close>

lemma rule_check_Some:
  "rule_check numStr sha256 ir = Some h \<longleftrightarrow>
     (\<exists>rule expr. validateDecideRule ir = Inr (rule, expr) \<and> decideRuleHash numStr sha256 rule = Some h)"
  by (auto simp: rule_check_def split: sum.splits)

definition payload_ok :: "(json \<Rightarrow> string option) \<Rightarrow> json \<Rightarrow> bool" where
  "payload_ok check r \<longleftrightarrow> \<not> list_ex Not (payload_checks check r)"

lemma str_ok_Some: "str_ok v P \<longleftrightarrow> (\<exists>s. v = Some (JStr s) \<and> P s)"
  by (cases "(v, P)" rule: str_ok.cases) auto

lemma payload_okD:
  assumes "payload_ok (rule_check numStr sha256) r"
  shows "isObject r"
    and "rule_check numStr sha256 (rc_ir (as_record r)) = Some (rc_ruleHash (as_record r))"
    and "rc_rollout (as_record r) = Enforce \<Longrightarrow> rc_stampedBy (as_record r) = StRule
      \<and> (\<exists>h. rc_fallbackId (as_record r) = Some (DECIDE_FALLBACK_PREFIX @ str_of (json_field (rc_ir (as_record r)) ''id'') @ ''@'' @ h) \<and> hex_run 12 h)"
    and "rc_rollout (as_record r) = Shadow \<Longrightarrow> rc_fallbackId (as_record r) = None"
    and "json_field r ''rollout'' = Some (JStr ''enforce'') \<or> json_field r ''rollout'' = Some (JStr ''shadow'')"
proof -
  note checks = assms [unfolded payload_ok_def payload_checks_def Let_def]
  show "isObject r" using checks by simp
  show "rule_check numStr sha256 (rc_ir (as_record r)) = Some (rc_ruleHash (as_record r))"
    using checks by (auto simp: str_ok_Some as_record_def)
  show "json_field r ''rollout'' = Some (JStr ''enforce'') \<or> json_field r ''rollout'' = Some (JStr ''shadow'')"
    using checks by simp
  show "rc_fallbackId (as_record r) = None" if "rc_rollout (as_record r) = Shadow"
    using checks that by (auto simp: as_record_def split: if_splits)
  assume "rc_rollout (as_record r) = Enforce"
  then have e: "json_field r ''rollout'' = Some (JStr ''enforce'')" by (auto simp: as_record_def split: if_splits)
  with checks have stamp: "json_field r ''stampedBy'' = Some (JStr ''rule'')"
    and f: "fallback_named (str_of (json_field (rc_ir (as_record r)) ''id'')) (json_field r ''fallbackId'')" by simp_all
  define head where "head = DECIDE_FALLBACK_PREFIX @ str_of (json_field (rc_ir (as_record r)) ''id'') @ ''@''"
  from f obtain s where s: "json_field r ''fallbackId'' = Some (JStr s)" "take (length head) s = head" "hex_run 12 (drop (length head) s)"
    unfolding fallback_named_def head_def by (auto simp: Let_def split: option.splits json.splits)
  then have "s = head @ drop (length head) s" by (metis append_take_drop_id)
  with s stamp show "rc_stampedBy (as_record r) = StRule
      \<and> (\<exists>h. rc_fallbackId (as_record r) = Some (DECIDE_FALLBACK_PREFIX @ str_of (json_field (rc_ir (as_record r)) ''id'') @ ''@'' @ h) \<and> hex_run 12 h)"
    unfolding head_def by (auto simp: as_record_def DECIDE_STAMPS_def simp del: length_append)
qed

lemma columns_no_tab:
  assumes "payload_ok (rule_check numStr sha256) r"
  shows "tab \<notin> set (fallback_column r)" "tab \<notin> set (decideToolsColumn (rc_ir (as_record r)))"
    "tab \<notin> set (str_of (json_field r ''rollout''))"
proof -
  from payload_okD(2) [OF assms] obtain rule expr where v: "validateDecideRule (rc_ir (as_record r)) = Inr (rule, expr)"
    by (auto simp: rule_check_Some)
  show "tab \<notin> set (decideToolsColumn (rc_ir (as_record r)))" by (rule validated_columns(2) [OF v])
  have "tab \<notin> set DECIDE_FALLBACK_PREFIX" by code_simp
  then show "tab \<notin> set (fallback_column r)"
    using payload_okD(3,4) [OF assms] token_no_tab(2) [OF validated_columns(1) [OF v]]
    by (cases "rc_rollout (as_record r)") (auto simp: fallback_column_def tab_def dest!: hex_run_no_tab)
  show "tab \<notin> set (str_of (json_field r ''rollout''))"
    using payload_okD(5) [OF assms] by (auto simp: tab_def)
qed

lemma decode_encode_record:
  assumes "payload_ok (rule_check numStr sha256) r"
    and "jsonParse (decideCanonicalRecordJson numStr r) = Some r"
  shows "decodeDecideRecord jsonParse (rule_check numStr sha256) (encodeDecideRecord numStr r) = Some r"
proof -
  have ne: "decideToBase64 (decideCanonicalRecordJson numStr r) \<noteq> ''''"
    using payload_okD(1) [OF assms(1)]
    by (intro decideToBase64_nonempty) (cases r; simp add: decideCanonicalRecordJson_def)
  have "tab \<notin> set DECIDE_RECORD_TAG" by code_simp
  then have "split_on tab (encodeDecideRecord numStr r) =
      [DECIDE_RECORD_TAG, fallback_column r, str_of (json_field r ''rollout''), decideToolsColumn (rc_ir (as_record r)),
       decideToBase64 (decideCanonicalRecordJson numStr r)]"
    unfolding encodeDecideRecord_def
    by (intro split_on_join) (simp_all add: columns_no_tab [OF assms(1)] tab_not_in_base64)
  moreover have "decideFromBase64 (decideToBase64 t) = Some t" for t by (simp add: decideFromBase64_iff)
  ultimately show ?thesis
    using assms payload_okD(5) [OF assms(1)] ne
    by (auto simp: decodeDecideRecord_def payload_ok_def)
qed

text \<open>A record that passes the reader's checks survives the snapshot: written as a line and read
  back it is the same record, whatever its texts hold.\<close>

theorem decodeDecideRecord_roundtrip:
  assumes "payload_ok (rule_check numStr sha256) r"
    and "jsonParse (decideCanonicalRecordJson numStr r) = Some r"
  shows "decodeDecideRecord jsonParse (rule_check numStr sha256) (encodeDecideRecord numStr r) = Some r"
  using assms by (rule decode_encode_record)

definition sample_record :: json where
  "sample_record = JObj
     [(''fallbackId'', JStr ''decide-fallback:prod-write@0123456789ab''),
      (''ir'', JObj
        [(''id'', JStr ''prod-write''), (''on'', JStr ''tool_call''),
         (''questions'', JObj [(''risky'', JObj [(''ask'', JStr ''Does it delete data?''), (''type'', JStr ''yes_no'')])]),
         (''rollout'', JStr ''enforce''), (''tools'', JArr [JStr ''Bash'']), (''when'', JStr ''risky'')]),
      (''pins'', JArr [JObj [(''evalRunId'', JStr ''run-1''), (''modelDigest'', JStr ''sha256:0''), (''source'', JStr ''local'')]]),
      (''ref'', JStr ''sop-1#prod-write''), (''rollout'', JStr ''enforce''),
      (''ruleHash'', JStr (replicate 64 (CHR ''a''))), (''ruleText'', JStr ''Never delete data.''),
      (''sopTitle'', JStr ''Data''), (''stampedBy'', JStr ''rule''), (''v'', JNum 1)]"

definition sample_sha :: "string \<Rightarrow> string" where "sample_sha s = replicate 64 (CHR ''a'')"

theorem decodeDecideRecord_roundtrip_witness:
  "decodeDecideRecord (\<lambda>_. Some sample_record) (rule_check (\<lambda>_. ''1'') sample_sha) (encodeDecideRecord (\<lambda>_. ''1'') sample_record)
   = Some sample_record"
proof -
  have "payload_ok (rule_check (\<lambda>_. ''1'') sample_sha) sample_record" by code_simp
  then show ?thesis by (rule decodeDecideRecord_roundtrip) simp
qed

text \<open>C34: A line that reads as a record can be trusted: its rule is valid and hashes to the record's
  rule hash; its columns are those the payload would be written with; a record that enforces is
  stamped so by the rule itself and names that rule's fallback line, and a shadow one names none.\<close>

theorem decodeDecideRecord_sound:
  assumes "decodeDecideRecord jsonParse (rule_check numStr sha256) line = Some r"
  shows "(\<exists>rule expr. validateDecideRule (rc_ir (as_record r)) = Inr (rule, expr)
            \<and> decideRuleHash numStr sha256 rule = Some (rc_ruleHash (as_record r)))
       \<and> take 4 (split_on tab line) = take 4 (split_on tab (encodeDecideRecord numStr r))
       \<and> (rc_rollout (as_record r) = Enforce \<longrightarrow> rc_stampedBy (as_record r) = StRule
            \<and> (\<exists>h. rc_fallbackId (as_record r) = Some (DECIDE_FALLBACK_PREFIX @ str_of (json_field (rc_ir (as_record r)) ''id'') @ ''@'' @ h)
                   \<and> hex_run 12 h))
       \<and> (rc_rollout (as_record r) = Shadow \<longrightarrow> rc_fallbackId (as_record r) = None)"
proof -
  from assms have ok: "payload_ok (rule_check numStr sha256) r"
    and cols: "take 4 (split_on tab line) = [DECIDE_RECORD_TAG, fallback_column r, str_of (json_field r ''rollout''), decideToolsColumn (rc_ir (as_record r))]"
    by (auto simp: decodeDecideRecord_def payload_ok_def dest!: sym [of "Some (JStr _)"] split: list.splits option.splits if_splits)
  have "tab \<notin> set DECIDE_RECORD_TAG" by code_simp
  then have "split_on tab (encodeDecideRecord numStr r) =
      [DECIDE_RECORD_TAG, fallback_column r, str_of (json_field r ''rollout''), decideToolsColumn (rc_ir (as_record r)),
       decideToBase64 (decideCanonicalRecordJson numStr r)]"
    unfolding encodeDecideRecord_def
    by (intro split_on_join) (simp_all add: columns_no_tab [OF ok] tab_not_in_base64)
  with cols have "take 4 (split_on tab line) = take 4 (split_on tab (encodeDecideRecord numStr r))" by simp
  with payload_okD [OF ok] show ?thesis by (auto simp: rule_check_Some)
qed


theorem decodeDecideRecord_sound_witness:
  "rc_stampedBy (as_record sample_record) = StRule"
proof -
  have "payload_ok (rule_check (\<lambda>_. ''1'') sample_sha) sample_record" by code_simp
  then have "decodeDecideRecord (\<lambda>_. Some sample_record) (rule_check (\<lambda>_. ''1'') sample_sha)
      (encodeDecideRecord (\<lambda>_. ''1'') sample_record) = Some sample_record"
    by (rule decode_encode_record) simp
  from decodeDecideRecord_sound [OF this] show ?thesis by (auto simp: as_record_def sample_record_def)
qed

end
