(* ===== verification/RulePredicate.thy ===== *)
theory RulePredicate
  imports Js_Prelude
begin

text \<open>
  The closed-vocabulary predicate language: \<open>packages/shared-types/src/rulePredicateDsl.ts\<close> (the
  field and operator tables, the validator and the renderer to AssemblyScript) and
  \<open>rulePredicateEval.ts\<close> (the reading of a predicate over a stored context).

  A condition whose field or operator is not a string is refused (the array-to-string coercion of
  a property key is not modelled).  \<open>numStr\<close> stands for \<open>String(n)\<close> of a number.  A
  \<open>PredicateError\<close> is a value of the datatype of that name, without its prose.
\<close>

section \<open>Vocabulary\<close>

datatype FieldKind = KString | KInt | KFloat | KOptionalFloat | KOptionalInt | KStringList | KBool

definition FIELDS :: "(string \<times> FieldKind) list" where
  "FIELDS =
     [(''model'', KString), (''harness'', KString), (''risk_tier'', KString), (''agent_role'', KString),
      (''estimated_input_tokens'', KInt), (''depth'', KInt), (''graph_node_count'', KInt), (''calls_last_60s'', KInt),
      (''budget_remaining_usd'', KFloat),
      (''graph_spend_usd'', KOptionalFloat), (''graph_budget_usd'', KOptionalFloat),
      (''workflow_spend_usd'', KOptionalFloat), (''workflow_budget_usd'', KOptionalFloat),
      (''parent_alive'', KOptionalInt),
      (''tool_sequence'', KStringList), (''new_tool_calls'', KStringList), (''injection_findings'', KStringList),
      (''injection_sources'', KStringList), (''denied_tools'', KStringList), (''allowed_harnesses'', KStringList),
      (''review_before'', KStringList), (''plan_steps'', KStringList), (''scope_paths'', KStringList),
      (''tool_contract_changed'', KBool)]"

datatype Operator =
    OpEquals | OpNotEquals | OpIsTrue | OpIsFalse | OpContains | OpNotContains | OpListEmpty | OpListNotEmpty
  | OpAtLeast | OpAtMost | OpExceedsField

definition OPERATOR_NAMES :: "(string \<times> Operator) list" where
  "OPERATOR_NAMES =
     [(''equals'', OpEquals), (''notEquals'', OpNotEquals), (''isTrue'', OpIsTrue), (''isFalse'', OpIsFalse),
      (''contains'', OpContains), (''notContains'', OpNotContains), (''listEmpty'', OpListEmpty),
      (''listNotEmpty'', OpListNotEmpty), (''atLeast'', OpAtLeast), (''atMost'', OpAtMost), (''exceedsField'', OpExceedsField)]"

fun OPERATORS :: "Operator \<Rightarrow> FieldKind list" where
  "OPERATORS OpEquals = [KString]"
| "OPERATORS OpNotEquals = [KString]"
| "OPERATORS OpIsTrue = [KBool]"
| "OPERATORS OpIsFalse = [KBool]"
| "OPERATORS OpContains = [KStringList]"
| "OPERATORS OpNotContains = [KStringList]"
| "OPERATORS OpListEmpty = [KStringList]"
| "OPERATORS OpListNotEmpty = [KStringList]"
| "OPERATORS OpAtLeast = [KInt, KFloat, KOptionalFloat, KOptionalInt]"
| "OPERATORS OpAtMost = [KInt, KFloat, KOptionalFloat, KOptionalInt]"
| "OPERATORS OpExceedsField = [KOptionalFloat]"

definition optional_kind :: "FieldKind option \<Rightarrow> bool" where
  "optional_kind k \<longleftrightarrow> k = Some KOptionalFloat \<or> k = Some KOptionalInt"

record Condition =
  cn_field :: string
  cn_op :: Operator
  cn_value :: "json option"

datatype PredicateError =
    NotAPredicate | NoConditions | TooManyConditions nat | UnknownField string | UnknownOperator string
  | WrongKind string string | NeedsValue string | TakesNoValue string | NotAFieldName | NotOptional string
  | NotNumeric string | NotTextual string

section \<open>Validation\<close>

definition needs_value :: "Operator \<Rightarrow> bool" where
  "needs_value q \<longleftrightarrow> q \<notin> {OpIsTrue, OpIsFalse, OpListEmpty, OpListNotEmpty}"

definition numeric_kind :: "FieldKind \<Rightarrow> bool" where
  "numeric_kind k \<longleftrightarrow> k \<in> {KInt, KFloat, KOptionalFloat, KOptionalInt}"

fun is_jnum :: "json option \<Rightarrow> bool" where
  "is_jnum (Some (JNum _)) = True"
| "is_jnum _ = False"

fun is_jstr :: "json option \<Rightarrow> bool" where
  "is_jstr (Some (JStr _)) = True"
| "is_jstr _ = False"

fun value_string :: "json option \<Rightarrow> string" where
  "value_string (Some (JStr s)) = s"
| "value_string _ = ''''"

definition check_value :: "string \<Rightarrow> FieldKind \<Rightarrow> Operator \<Rightarrow> json option \<Rightarrow> PredicateError option" where
  "check_value field kind q v =
     (if needs_value q \<and> (v = None \<or> v = Some JNull) then Some (NeedsValue field)
      else if \<not> needs_value q \<and> v \<noteq> None then Some (TakesNoValue field)
      else if \<not> needs_value q then None
      else if q = OpExceedsField then
        (if \<not> is_jstr v \<or> map_of FIELDS (value_string v) = None then Some NotAFieldName
         else if \<not> optional_kind (map_of FIELDS (value_string v)) then Some (NotOptional (value_string v))
         else None)
      else if numeric_kind kind \<and> \<not> is_jnum v then Some (NotNumeric field)
      else if \<not> numeric_kind kind \<and> \<not> is_jstr v then Some (NotTextual field)
      else None)"

definition validate_condition :: "json \<Rightarrow> PredicateError + Condition" where
  "validate_condition c =
     (let field = value_string (json_field c ''field''); opname = value_string (json_field c ''op'');
          v = json_field c ''value''
      in case map_of FIELDS field of
           None \<Rightarrow> Inl (UnknownField field)
         | Some kind \<Rightarrow>
             (case map_of OPERATOR_NAMES opname of
                None \<Rightarrow> Inl (UnknownOperator opname)
              | Some q \<Rightarrow>
                  if kind \<notin> set (OPERATORS q) then Inl (WrongKind opname field)
                  else (case check_value field kind q v of
                          Some e \<Rightarrow> Inl e
                        | None \<Rightarrow> Inr \<lparr>cn_field = field, cn_op = q, cn_value = v\<rparr>)))"

primrec validate_all :: "json list \<Rightarrow> PredicateError + Condition list" where
  "validate_all [] = Inr []"
| "validate_all (c # cs) =
     try_then (validate_condition c) (\<lambda>c. try_then (validate_all cs) (\<lambda>cs. Inr (c # cs)))"

definition validatePredicate :: "json \<Rightarrow> PredicateError + Condition list" where
  "validatePredicate p =
     (case json_field p ''all'' of
        Some (JArr cs) \<Rightarrow>
          if cs = [] then Inl NoConditions
          else if 8 < length cs then Inl (TooManyConditions (length cs))
          else validate_all cs
      | _ \<Rightarrow> Inl NotAPredicate)"

section \<open>The renderer\<close>

definition String_value :: "(rat \<Rightarrow> string) \<Rightarrow> json option \<Rightarrow> string" where
  "String_value numStr v = (case v of Some (JStr s) \<Rightarrow> s | Some (JNum r) \<Rightarrow> numStr r | _ \<Rightarrow> '''')"

definition renderCondition :: "(rat \<Rightarrow> string) \<Rightarrow> Condition \<Rightarrow> string" where
  "renderCondition numStr c =
     (let f = ''ctx.'' @ cn_field c; s = String_value numStr (cn_value c); q = json_quote s;
          optional = optional_kind (map_of FIELDS (cn_field c));
          other = ''ctx.'' @ s
      in case cn_op c of
           OpEquals \<Rightarrow> f @ '' == '' @ q
         | OpNotEquals \<Rightarrow> f @ '' != '' @ q
         | OpIsTrue \<Rightarrow> f
         | OpIsFalse \<Rightarrow> ''!'' @ f
         | OpContains \<Rightarrow> ''listHas('' @ f @ '', '' @ q @ '')''
         | OpNotContains \<Rightarrow> ''!listHas('' @ f @ '', '' @ q @ '')''
         | OpListEmpty \<Rightarrow> f @ ''.length == 0''
         | OpListNotEmpty \<Rightarrow> f @ ''.length > 0''
         | OpAtLeast \<Rightarrow>
             if optional then ''('' @ f @ '' != -1 && '' @ f @ '' >= '' @ s @ '')'' else f @ '' >= '' @ s
         | OpAtMost \<Rightarrow>
             if optional then ''('' @ f @ '' != -1 && '' @ f @ '' <= '' @ s @ '')'' else f @ '' <= '' @ s
         | OpExceedsField \<Rightarrow>
             ''('' @ f @ '' != -1 && '' @ other @ '' != -1 && '' @ other @ '' != 0 && '' @ f @ '' >= '' @ other @ '')'')"

record RuleInput =
  ri_predicate :: json
  ri_verdict :: int
  ri_title :: string
  ri_rationale :: string
  ri_candidateId :: string

datatype RenderError = BadPredicate PredicateError | BadVerdict int

definition verdict_str :: "int \<Rightarrow> string" where
  "verdict_str v = (if v = 1 then ''1'' else ''3'')"

definition rule_lines :: "(rat \<Rightarrow> string) \<Rightarrow> Condition list \<Rightarrow> RuleInput \<Rightarrow> string list" where
  "rule_lines numStr cs input =
     [''// Generated by Intutic from reviewed decisions. Do not edit.'',
      ''//'',
      ''// Candidate: '' @ json_quote (ri_candidateId input),
      ''// Title:     '' @ json_quote (ri_title input),
      ''// Rationale: '' @ json_quote (ri_rationale input),
      ''//'',
      ''// Rendered deterministically from a closed-vocabulary predicate; the generator'',
      ''// does not write AssemblyScript. Verdict '' @ verdict_str (ri_verdict input) @ '' '' @ [CHR 0x97] @ '' 1 blocks, 3 reasks.'',
      ''import { RequestContext, readContext } from \"../../assembly/index\";'',
      '''',
      ''export { allocate } from \"../../assembly/index\";'',
      '''',
      ''function listHas(xs: string[], needle: string): bool {'',
      ''  for (let i = 0; i < xs.length; i++) {'',
      ''    if (xs[i] == needle) return true;'',
      ''  }'',
      ''  return false;'',
      ''}'',
      '''',
      ''export function rule(ctx: RequestContext): i32 {'',
      ''  if (''] @
     map (\<lambda>i. ''    '' @ renderCondition numStr (cs ! i) @ (if i + 1 < length cs then '' &&'' else '''')) [0..<length cs] @
     [''  ) {'',
      ''    return '' @ verdict_str (ri_verdict input) @ '';'',
      ''  }'',
      ''  return 0;'',
      ''}'',
      '''',
      ''export function evaluate(offset: i32, len: i32): i32 {'',
      ''  return rule(readContext(offset, len));'',
      ''}'',
      '''']"

text \<open>The em dash of the comment is the control code 0x97, which Windows-1252 gives it.\<close>

definition RENDERABLE_VERDICTS :: "int list" where
  "RENDERABLE_VERDICTS = [1, 3]"

definition renderRule :: "(rat \<Rightarrow> string) \<Rightarrow> RuleInput \<Rightarrow> RenderError + string" where
  "renderRule numStr input =
     (case validatePredicate (ri_predicate input) of
        Inl e \<Rightarrow> Inl (BadPredicate e)
      | Inr cs \<Rightarrow>
          if ri_verdict input \<notin> set RENDERABLE_VERDICTS then Inl (BadVerdict (ri_verdict input))
          else Inr (join_with [CHR 0x0A] (rule_lines numStr cs input)))"

section \<open>The evaluator\<close>

datatype field_value = VStr string | VNum rat | VBool bool | VList "string list"

definition math_trunc :: "rat \<Rightarrow> rat" where
  "math_trunc r = of_int (if 0 \<le> r then floor r else ceiling r)"

fun readField :: "json \<Rightarrow> string \<Rightarrow> field_value" where
  "readField ctx field =
     (let v = json_field ctx field;
          num = (\<lambda>f d. case v of Some (JNum r) \<Rightarrow> VNum (f r) | _ \<Rightarrow> VNum d)
      in case map_of FIELDS field of
           Some KString \<Rightarrow> VStr (case v of Some (JStr s) \<Rightarrow> s | _ \<Rightarrow> '''')
         | Some KInt \<Rightarrow> num math_trunc 0
         | Some KFloat \<Rightarrow> num id 0
         | Some KOptionalFloat \<Rightarrow> num id (-1)
         | Some KOptionalInt \<Rightarrow> num math_trunc (-1)
         | Some KStringList \<Rightarrow> VList (case v of Some (JArr xs) \<Rightarrow> json_strings (JArr xs) | _ \<Rightarrow> [])
         | Some KBool \<Rightarrow> VBool (v = Some (JBool True))
         | None \<Rightarrow> VStr '''')"

fun num_or :: "rat \<Rightarrow> field_value \<Rightarrow> rat" where
  "num_or d (VNum n) = n"
| "num_or d _ = d"

fun list_of :: "field_value \<Rightarrow> string list option" where
  "list_of (VList xs) = Some xs"
| "list_of _ = None"

text \<open>\<open>Number(c.value)\<close> of a validated condition; a comparison with anything else is false.\<close>

fun Number_value :: "json option \<Rightarrow> rat option" where
  "Number_value (Some (JNum r)) = Some r"
| "Number_value _ = None"

definition cmp :: "(rat \<Rightarrow> rat \<Rightarrow> bool) \<Rightarrow> rat \<Rightarrow> rat option \<Rightarrow> bool" where
  "cmp le n m = (case m of None \<Rightarrow> False | Some m \<Rightarrow> le n m)"

definition holds_condition :: "(rat \<Rightarrow> string) \<Rightarrow> Condition \<Rightarrow> json \<Rightarrow> bool" where
  "holds_condition numStr c ctx =
     (let v = readField ctx (cn_field c); s = String_value numStr (cn_value c);
          optional = optional_kind (map_of FIELDS (cn_field c)); m = Number_value (cn_value c)
      in case cn_op c of
           OpEquals \<Rightarrow> v = VStr s
         | OpNotEquals \<Rightarrow> v \<noteq> VStr s
         | OpIsTrue \<Rightarrow> v = VBool True
         | OpIsFalse \<Rightarrow> v = VBool False
         | OpContains \<Rightarrow> (case list_of v of None \<Rightarrow> False | Some xs \<Rightarrow> s \<in> set xs)
         | OpNotContains \<Rightarrow> \<not> (case list_of v of None \<Rightarrow> False | Some xs \<Rightarrow> s \<in> set xs)
         | OpListEmpty \<Rightarrow> list_of v = Some []
         | OpListNotEmpty \<Rightarrow> (case list_of v of None \<Rightarrow> False | Some xs \<Rightarrow> xs \<noteq> [])
         | OpAtLeast \<Rightarrow> (if optional then num_or 0 v \<noteq> -1 \<and> cmp (\<ge>) (num_or 0 v) m else cmp (\<ge>) (num_or 0 v) m)
         | OpAtMost \<Rightarrow> (if optional then num_or 0 v \<noteq> -1 \<and> cmp (\<le>) (num_or 0 v) m else cmp (\<le>) (num_or 0 v) m)
         | OpExceedsField \<Rightarrow>
             let n = num_or (-1) v; b = num_or (-1) (readField ctx s)
             in n \<noteq> -1 \<and> b \<noteq> -1 \<and> b \<noteq> 0 \<and> b \<le> n)"

definition evaluatePredicate :: "(rat \<Rightarrow> string) \<Rightarrow> Condition list \<Rightarrow> json \<Rightarrow> bool" where
  "evaluatePredicate numStr cs ctx = list_all (\<lambda>c. holds_condition numStr c ctx) cs"

definition compilePredicate :: "(rat \<Rightarrow> string) \<Rightarrow> json \<Rightarrow> PredicateError + (json \<Rightarrow> bool)" where
  "compilePredicate numStr p = try_then (validatePredicate p) (\<lambda>cs. Inr (evaluatePredicate numStr cs))"

definition predicateStringValues :: "Condition list \<Rightarrow> string list" where
  "predicateStringValues cs =
     uniq (concat (map (\<lambda>c. case cn_value c of
        Some (JStr s) \<Rightarrow> if cn_op c = OpExceedsField then [] else [s] | _ \<Rightarrow> []) cs))"

section \<open>The rendered expression and its value in the guest\<close>

text \<open>The fragment of AssemblyScript the renderer writes, with its text and its value over the
  guest's fields (\<open>ctx.f\<close>), which hold a default where the host sent nothing.\<close>

datatype gexpr =
    GField string
  | GNot gexpr
  | GEqStr string string
  | GNeStr string string
  | GListHas string string
  | GLenZero string
  | GLenPos string
  | GKnown string
  | GNonZero string
  | GGe string rat
  | GLe string rat
  | GGeField string string
  | GParen "gexpr list"

fun gexpr_text :: "(rat \<Rightarrow> string) \<Rightarrow> gexpr \<Rightarrow> string" where
  "gexpr_text numStr (GField f) = ''ctx.'' @ f"
| "gexpr_text numStr (GNot e) = ''!'' @ gexpr_text numStr e"
| "gexpr_text numStr (GEqStr f s) = ''ctx.'' @ f @ '' == '' @ json_quote s"
| "gexpr_text numStr (GNeStr f s) = ''ctx.'' @ f @ '' != '' @ json_quote s"
| "gexpr_text numStr (GListHas f s) = ''listHas(ctx.'' @ f @ '', '' @ json_quote s @ '')''"
| "gexpr_text numStr (GLenZero f) = ''ctx.'' @ f @ ''.length == 0''"
| "gexpr_text numStr (GLenPos f) = ''ctx.'' @ f @ ''.length > 0''"
| "gexpr_text numStr (GKnown f) = ''ctx.'' @ f @ '' != -1''"
| "gexpr_text numStr (GNonZero f) = ''ctx.'' @ f @ '' != 0''"
| "gexpr_text numStr (GGe f r) = ''ctx.'' @ f @ '' >= '' @ numStr r"
| "gexpr_text numStr (GLe f r) = ''ctx.'' @ f @ '' <= '' @ numStr r"
| "gexpr_text numStr (GGeField f g) = ''ctx.'' @ f @ '' >= ctx.'' @ g"
| "gexpr_text numStr (GParen es) = ''('' @ join_with '' && '' (map (gexpr_text numStr) es) @ '')''"

fun gexpr_value :: "(string \<Rightarrow> field_value) \<Rightarrow> gexpr \<Rightarrow> bool" where
  "gexpr_value env (GField f) \<longleftrightarrow> env f = VBool True"
| "gexpr_value env (GNot e) \<longleftrightarrow> \<not> gexpr_value env e"
| "gexpr_value env (GEqStr f s) \<longleftrightarrow> env f = VStr s"
| "gexpr_value env (GNeStr f s) \<longleftrightarrow> env f \<noteq> VStr s"
| "gexpr_value env (GListHas f s) \<longleftrightarrow> (\<exists>xs. env f = VList xs \<and> s \<in> set xs)"
| "gexpr_value env (GLenZero f) \<longleftrightarrow> env f = VList []"
| "gexpr_value env (GLenPos f) \<longleftrightarrow> (\<exists>xs. env f = VList xs \<and> xs \<noteq> [])"
| "gexpr_value env (GKnown f) \<longleftrightarrow> env f \<noteq> VNum (-1)"
| "gexpr_value env (GNonZero f) \<longleftrightarrow> env f \<noteq> VNum 0"
| "gexpr_value env (GGe f r) \<longleftrightarrow> (\<exists>n. env f = VNum n \<and> r \<le> n)"
| "gexpr_value env (GLe f r) \<longleftrightarrow> (\<exists>n. env f = VNum n \<and> n \<le> r)"
| "gexpr_value env (GGeField f g) \<longleftrightarrow> (\<exists>n m. env f = VNum n \<and> env g = VNum m \<and> m \<le> n)"
| "gexpr_value env (GParen es) \<longleftrightarrow> list_all (gexpr_value env) es"

definition condition_expr :: "Condition \<Rightarrow> gexpr" where
  "condition_expr c =
     (let f = cn_field c; s = value_string (cn_value c); r = (case Number_value (cn_value c) of None \<Rightarrow> 0 | Some r \<Rightarrow> r);
          optional = optional_kind (map_of FIELDS f)
      in case cn_op c of
           OpEquals \<Rightarrow> GEqStr f s
         | OpNotEquals \<Rightarrow> GNeStr f s
         | OpIsTrue \<Rightarrow> GField f
         | OpIsFalse \<Rightarrow> GNot (GField f)
         | OpContains \<Rightarrow> GListHas f s
         | OpNotContains \<Rightarrow> GNot (GListHas f s)
         | OpListEmpty \<Rightarrow> GLenZero f
         | OpListNotEmpty \<Rightarrow> GLenPos f
         | OpAtLeast \<Rightarrow> if optional then GParen [GKnown f, GGe f r] else GGe f r
         | OpAtMost \<Rightarrow> if optional then GParen [GKnown f, GLe f r] else GLe f r
         | OpExceedsField \<Rightarrow> GParen [GKnown f, GKnown s, GNonZero s, GGeField f s])"

text \<open>What a validated condition is.\<close>

definition condition_ok :: "Condition \<Rightarrow> bool" where
  "condition_ok c \<longleftrightarrow>
     (\<exists>kind. map_of FIELDS (cn_field c) = Some kind \<and> kind \<in> set (OPERATORS (cn_op c))
        \<and> check_value (cn_field c) kind (cn_op c) (cn_value c) = None)"

lemma validate_condition_ok: "validate_condition c = Inr d \<Longrightarrow> condition_ok d"
  by (auto simp: validate_condition_def condition_ok_def Let_def split: option.splits if_splits)

lemma validate_all_ok: "validate_all cs = Inr ds \<Longrightarrow> list_all condition_ok ds \<and> length ds = length cs"
  by (induction cs arbitrary: ds) (auto simp: try_then_Inr intro: validate_condition_ok)

lemma validatePredicate_ok:
  "validatePredicate p = Inr cs \<Longrightarrow> list_all condition_ok cs \<and> 1 \<le> length cs \<and> length cs \<le> 8"
  by (auto simp: validatePredicate_def Suc_le_eq dest!: validate_all_ok split: option.splits json.splits if_splits)

lemma is_jstr_iff: "is_jstr v \<longleftrightarrow> (\<exists>s. v = Some (JStr s))"
  by (cases v rule: is_jstr.cases) auto

lemma is_jnum_iff: "is_jnum v \<longleftrightarrow> (\<exists>r. v = Some (JNum r))"
  by (cases v rule: is_jnum.cases) auto

lemma field_value_kind:
  "map_of FIELDS f = Some k \<Longrightarrow>
   (k = KString \<longrightarrow> (\<exists>s. readField ctx f = VStr s)) \<and> (numeric_kind k \<longrightarrow> (\<exists>n. readField ctx f = VNum n))
   \<and> (k = KBool \<longrightarrow> (\<exists>b. readField ctx f = VBool b)) \<and> (k = KStringList \<longrightarrow> (\<exists>xs. readField ctx f = VList xs))"
  by (cases k) (auto simp: Let_def numeric_kind_def split: option.splits json.splits)

lemma condition_ok_cases:
  assumes "condition_ok c"
  obtains (str) s where "map_of FIELDS (cn_field c) = Some KString" "cn_op c = OpEquals \<or> cn_op c = OpNotEquals" "cn_value c = Some (JStr s)"
  | (flag) "map_of FIELDS (cn_field c) = Some KBool" "cn_op c = OpIsTrue \<or> cn_op c = OpIsFalse"
  | (member) s where "map_of FIELDS (cn_field c) = Some KStringList" "cn_op c = OpContains \<or> cn_op c = OpNotContains" "cn_value c = Some (JStr s)"
  | (lists) "map_of FIELDS (cn_field c) = Some KStringList" "cn_op c = OpListEmpty \<or> cn_op c = OpListNotEmpty"
  | (number) k r where "map_of FIELDS (cn_field c) = Some k" "numeric_kind k" "cn_op c = OpAtLeast \<or> cn_op c = OpAtMost" "cn_value c = Some (JNum r)"
  | (exceeds) s k where "map_of FIELDS (cn_field c) = Some KOptionalFloat" "cn_op c = OpExceedsField" "cn_value c = Some (JStr s)"
      "map_of FIELDS s = Some k" "numeric_kind k"
proof -
  from assms obtain kind where k: "map_of FIELDS (cn_field c) = Some kind" "kind \<in> set (OPERATORS (cn_op c))"
    and v: "check_value (cn_field c) kind (cn_op c) (cn_value c) = None" by (auto simp: condition_ok_def)
  show thesis
  proof (cases "cn_op c")
    case OpEquals
    with k v show ?thesis by (intro str [of "value_string (cn_value c)"])
        (auto simp: check_value_def needs_value_def numeric_kind_def is_jstr_iff split: if_splits)
  next
    case OpNotEquals
    with k v show ?thesis by (intro str [of "value_string (cn_value c)"])
        (auto simp: check_value_def needs_value_def numeric_kind_def is_jstr_iff split: if_splits)
  next
    case OpContains
    with k v show ?thesis by (intro member [of "value_string (cn_value c)"])
        (auto simp: check_value_def needs_value_def numeric_kind_def is_jstr_iff split: if_splits)
  next
    case OpNotContains
    with k v show ?thesis by (intro member [of "value_string (cn_value c)"])
        (auto simp: check_value_def needs_value_def numeric_kind_def is_jstr_iff split: if_splits)
  next
    case OpExceedsField
    with k v obtain s k' where s: "cn_value c = Some (JStr s)" "map_of FIELDS s = Some k'" "optional_kind (map_of FIELDS s)"
      by (auto simp: check_value_def needs_value_def is_jstr_iff split: if_splits)
    then have "numeric_kind k'" by (auto simp: optional_kind_def numeric_kind_def)
    with k s OpExceedsField show ?thesis by (intro exceeds [of s k']) auto
  qed (use k v in \<open>auto simp: check_value_def needs_value_def numeric_kind_def is_jnum_iff split: if_splits
      intro: flag lists number\<close>)
qed

lemma render_is_text: "condition_ok c \<Longrightarrow> renderCondition numStr c = gexpr_text numStr (condition_expr c)"
  by (erule condition_ok_cases)
    (auto simp: renderCondition_def condition_expr_def String_value_def Let_def)

lemma expr_value_holds:
  "condition_ok c \<Longrightarrow> gexpr_value (readField ctx) (condition_expr c) \<longleftrightarrow> holds_condition numStr c ctx"
proof (erule condition_ok_cases)
  fix k r assume k: "map_of FIELDS (cn_field c) = Some k" "numeric_kind k"
    and ops: "cn_op c = OpAtLeast \<or> cn_op c = OpAtMost" and v: "cn_value c = Some (JNum r)"
  from field_value_kind [OF k(1)] k(2) obtain n where "readField ctx (cn_field c) = VNum n" by blast
  with ops v show ?thesis
    by (auto simp: condition_expr_def holds_condition_def cmp_def Let_def simp del: readField.simps)
next
  fix s k assume f: "map_of FIELDS (cn_field c) = Some KOptionalFloat" and q: "cn_op c = OpExceedsField"
    and v: "cn_value c = Some (JStr s)" and g: "map_of FIELDS s = Some k" "numeric_kind k"
  from field_value_kind [OF f, where ctx = ctx] field_value_kind [OF g(1), where ctx = ctx] g(2)
  obtain n m where "readField ctx (cn_field c) = VNum n" "readField ctx s = VNum m"
    by (auto simp: numeric_kind_def simp del: readField.simps)
  with q v show ?thesis
    by (auto simp: condition_expr_def holds_condition_def String_value_def Let_def simp del: readField.simps)
qed (auto simp: condition_expr_def holds_condition_def String_value_def Let_def simp del: readField.simps
    dest!: field_value_kind [where ctx = ctx])

lemma FIELDS_one_line: "map_of FIELDS f = Some k \<Longrightarrow> CHR 0x0A \<notin> set f"
proof -
  have "list_all (\<lambda>(f, k). list_all (\<lambda>c. c \<noteq> CHR 0x0A) f) FIELDS" by code_simp
  then show "map_of FIELDS f = Some k \<Longrightarrow> ?thesis"
    by (auto simp: list_all_iff dest!: map_of_SomeD)
qed

lemma renderCondition_one_line:
  assumes "condition_ok c" "\<And>r. CHR 0x0A \<notin> set (numStr r)"
  shows "CHR 0x0A \<notin> set (renderCondition numStr c)"
proof -
  from assms(1) obtain k where "map_of FIELDS (cn_field c) = Some k" by (auto simp: condition_ok_def)
  note f = FIELDS_one_line [OF this]
  from assms(1) show ?thesis
    by (rule condition_ok_cases)
      (use f assms(2) FIELDS_one_line in \<open>auto simp: renderCondition_def String_value_def Let_def\<close>)
qed

lemma rule_lines_one_line:
  assumes "list_all condition_ok cs" "\<And>r. CHR 0x0A \<notin> set (numStr r)"
  shows "\<forall>l \<in> set (rule_lines numStr cs input). CHR 0x0A \<notin> set l"
proof -
  have "CHR 0x0A \<notin> set (renderCondition numStr (cs ! i))" if "i < length cs" for i
    using renderCondition_one_line [OF _ assms(2)] assms(1) that by (auto simp: list_all_iff)
  then show ?thesis
    by (auto simp: rule_lines_def verdict_str_def)
qed

section \<open>Properties\<close>


definition sample_predicate :: json where
  "sample_predicate = JObj [(''all'', JArr
     [JObj [(''field'', JStr ''graph_spend_usd''), (''op'', JStr ''exceedsField''), (''value'', JStr ''graph_budget_usd'')],
      JObj [(''field'', JStr ''new_tool_calls''), (''op'', JStr ''contains''), (''value'', JStr ''Bash'')]])]"

definition sample_conditions :: "Condition list" where
  "sample_conditions =
     [\<lparr>cn_field = ''graph_spend_usd'', cn_op = OpExceedsField, cn_value = Some (JStr ''graph_budget_usd'')\<rparr>,
      \<lparr>cn_field = ''new_tool_calls'', cn_op = OpContains, cn_value = Some (JStr ''Bash'')\<rparr>]"

lemma sample_validates: "validatePredicate sample_predicate = Inr sample_conditions"
  by code_simp


text \<open>Unknown never blocks: a validated predicate that compares an optional numeric field the
  context does not carry, on either side, does not fire on that context.\<close>

theorem evaluatePredicate_unknown:
  assumes "validatePredicate p = Inr cs" "c \<in> set cs"
    and "cn_op c \<in> {OpAtLeast, OpAtMost, OpExceedsField}"
    and "f = cn_field c \<or> cn_op c = OpExceedsField \<and> cn_value c = Some (JStr f)"
    and "optional_kind (map_of FIELDS f)" "json_field ctx f = None"
  shows "\<not> evaluatePredicate numStr cs ctx"
proof -
  have unknown: "readField ctx f = VNum (-1)"
    using assms(5,6) by (auto simp: optional_kind_def)
  have "\<not> holds_condition numStr c ctx"
    using assms(3-5) unknown by (auto simp: holds_condition_def String_value_def Let_def simp del: readField.simps)
  with assms(2) show ?thesis by (auto simp: evaluatePredicate_def list_all_iff)
qed

theorem evaluatePredicate_unknown_witness:
  "\<not> evaluatePredicate (\<lambda>_. '''') sample_conditions (JObj [(''graph_spend_usd'', JNum 5), (''new_tool_calls'', JArr [JStr ''Bash''])])"
  by (rule evaluatePredicate_unknown [OF sample_validates, of "hd sample_conditions" "''graph_budget_usd''"])
    (simp_all add: sample_conditions_def optional_kind_def FIELDS_def)

text \<open>Nothing a generator supplies can leave its line: the rendered source, split at its
  newlines, is exactly the fixed lines of the template and one line per condition, with the title,
  the rationale and the candidate id each quoted inside a comment line.\<close>

theorem renderRule_lines:
  assumes "renderRule numStr input = Inr src" "\<And>r. CHR 0x0A \<notin> set (numStr r)"
  shows "\<exists>cs. validatePredicate (ri_predicate input) = Inr cs
      \<and> split_on (CHR 0x0A) src = rule_lines numStr cs input
      \<and> length (split_on (CHR 0x0A) src) = 31 + length cs"
proof -
  from assms(1) obtain cs where cs: "validatePredicate (ri_predicate input) = Inr cs"
    and src: "src = join_with [CHR 0x0A] (rule_lines numStr cs input)"
    by (auto simp: renderRule_def split: sum.splits if_splits)
  have "rule_lines numStr cs input \<noteq> []" by (simp add: rule_lines_def)
  from split_on_join [OF this rule_lines_one_line [OF _ assms(2)]] validatePredicate_ok [OF cs]
  have "split_on (CHR 0x0A) src = rule_lines numStr cs input" by (simp add: src)
  moreover have "length (rule_lines numStr cs input) = 31 + length cs" by (simp add: rule_lines_def)
  ultimately show ?thesis using cs by simp
qed

theorem renderRule_lines_witness:
  "\<exists>src. renderRule (\<lambda>_. ''0'') \<lparr>ri_predicate = sample_predicate, ri_verdict = 1, ri_title = ''t'', ri_rationale = [CHR 0x0A], ri_candidateId = ''c''\<rparr> = Inr src
       \<and> length (split_on (CHR 0x0A) src) = 33"
proof -
  obtain src where src: "renderRule (\<lambda>_. ''0'') \<lparr>ri_predicate = sample_predicate, ri_verdict = 1, ri_title = ''t'', ri_rationale = [CHR 0x0A], ri_candidateId = ''c''\<rparr> = Inr src"
    by (simp add: renderRule_def sample_validates RENDERABLE_VERDICTS_def)
  from renderRule_lines [OF this] sample_validates have "length (split_on (CHR 0x0A) src) = 31 + length sample_conditions"
    by auto
  with src show ?thesis by (simp add: sample_conditions_def)
qed

end
