(* ===== verification/DecideEvaluate.thy ===== *)
theory DecideEvaluate
  imports DecideEngine DecideRecord
begin

text \<open>
  Evaluating one tool call's decide rules, \<open>packages/shared-types/src/decideEvaluate.ts\<close>: the
  effective rollout of a rule, the canary cache, the latency budget, the evaluation and what a gate
  says of it.

  The engine is a pair of functions (\<open>DecideEngine\<close> builds such a pair), the canary cache a state
  with its two operations, and one reading of the clock serves a call.  A promise that rejects is an
  \<^const>\<open>Inl\<close>.
\<close>

section \<open>Effective rollout\<close>

datatype DecideShadowWhy = WhyRollout | WhyLocalDisable | WhyServerShadow | WhySilentLog | WhyNoPins | WhyNotEvaluated

fun stamp_why :: "DecideStamp \<Rightarrow> DecideShadowWhy" where
  "stamp_why StRule = WhyRollout"
| "stamp_why StLocalDisable = WhyLocalDisable"
| "stamp_why StServerShadow = WhyServerShadow"
| "stamp_why StSilentLog = WhySilentLog"
| "stamp_why StNoPins = WhyNoPins"

record DecideEffectiveRollout =
  ef_effective :: Rollout
  ef_why :: "DecideShadowWhy option"
  ef_pin :: "DecidePin option"

definition runs_shadow :: "DecideShadowWhy \<Rightarrow> DecideEffectiveRollout" where
  "runs_shadow w = \<lparr>ef_effective = Shadow, ef_why = Some w, ef_pin = None\<rparr>"

definition decideEffectiveRollout :: "DecideRecord \<Rightarrow> string option \<Rightarrow> DecideEffectiveRollout" where
  "decideEffectiveRollout entry modelDigest =
     (if json_field (rc_ir entry) ''rollout'' \<noteq> Some (JStr ''enforce'') then runs_shadow WhyRollout
      else if rc_rollout entry \<noteq> Enforce then runs_shadow (stamp_why (rc_stampedBy entry))
      else if rc_pins entry = [] then runs_shadow WhyNoPins
      else
        case modelDigest of
          None \<Rightarrow> \<lparr>ef_effective = Enforce, ef_why = None, ef_pin = None\<rparr>
        | Some d \<Rightarrow>
            (case find (\<lambda>p. pn_modelDigest p = d) (rc_pins entry) of
               Some pin \<Rightarrow> \<lparr>ef_effective = Enforce, ef_why = None, ef_pin = Some pin\<rparr>
             | None \<Rightarrow> runs_shadow WhyNotEvaluated))"

section \<open>The canary cache\<close>

definition DECIDE_CANARY_TTL_MS :: rat where "DECIDE_CANARY_TTL_MS = 600000"
definition CANARY_ENTRIES_MAX :: nat where "CANARY_ENTRIES_MAX = 16"

record DecideCanaryEntry =
  ca_url :: string
  ca_modelDigest :: string
  ca_ok :: bool
  ca_atMs :: rat
  ca_pViolation :: rat
  ca_pClean :: rat
  ca_choiceTop :: string

definition decideCanaryFresh :: "DecideCanaryEntry option \<Rightarrow> rat \<Rightarrow> bool" where
  "decideCanaryFresh entry nowMs \<longleftrightarrow>
     (case entry of None \<Rightarrow> False
      | Some e \<Rightarrow> ca_ok e \<and> ca_atMs e \<le> nowMs \<and> nowMs - ca_atMs e < DECIDE_CANARY_TTL_MS)"

definition canaryEntry :: "json \<Rightarrow> DecideCanaryEntry option" where
  "canaryEntry v =
     (case (json_field v ''url'', json_field v ''modelDigest'', json_field v ''ok'') of
        (Some (JStr url), Some (JStr digest), Some (JBool ok)) \<Rightarrow>
          (case (json_field v ''atMs'', json_field v ''pViolation'', json_field v ''pClean'', json_field v ''choiceTop'') of
             (Some (JNum atMs), Some (JNum pV), Some (JNum pC), Some (JStr best)) \<Rightarrow>
               Some \<lparr>ca_url = url, ca_modelDigest = digest, ca_ok = ok, ca_atMs = atMs,
                     ca_pViolation = pV, ca_pClean = pC, ca_choiceTop = best\<rparr>
           | _ \<Rightarrow> None)
      | _ \<Rightarrow> None)"

definition canary_json :: "DecideCanaryEntry \<Rightarrow> json" where
  "canary_json e = JObj
     [(''url'', JStr (ca_url e)), (''modelDigest'', JStr (ca_modelDigest e)), (''ok'', JBool (ca_ok e)),
      (''atMs'', JNum (ca_atMs e)), (''pViolation'', JNum (ca_pViolation e)), (''pClean'', JNum (ca_pClean e)),
      (''choiceTop'', JStr (ca_choiceTop e))]"

text \<open>The file, kept as the document its text parses to (none when it cannot be read or parsed); a
  write replaces it whole.\<close>

type_synonym canary_file = "json option"

definition canary_readAll :: "canary_file \<Rightarrow> DecideCanaryEntry list" where
  "canary_readAll file =
     (case file of
        None \<Rightarrow> []
      | Some doc \<Rightarrow>
          (case (json_field doc ''v'', json_field doc ''entries'') of
             (Some (JNum n), Some (JArr es)) \<Rightarrow> if n = 1 then List.map_filter canaryEntry es else []
           | _ \<Rightarrow> []))"

definition canary_read :: "canary_file \<Rightarrow> string \<Rightarrow> string \<Rightarrow> DecideCanaryEntry option" where
  "canary_read file url modelDigest =
     find (\<lambda>e. ca_url e = url \<and> ca_modelDigest e = modelDigest) (canary_readAll file)"

definition canary_entries :: "DecideCanaryEntry list \<Rightarrow> DecideCanaryEntry \<Rightarrow> DecideCanaryEntry list" where
  "canary_entries es entry =
     last_n CANARY_ENTRIES_MAX
       (filter (\<lambda>e. ca_url e \<noteq> ca_url entry \<or> ca_modelDigest e \<noteq> ca_modelDigest entry) es @ [entry])"

definition canary_write :: "DecideCanaryEntry \<Rightarrow> canary_file \<Rightarrow> canary_file" where
  "canary_write entry file =
     Some (JObj [(''v'', JNum 1), (''entries'', JArr (map canary_json (canary_entries (canary_readAll file) entry)))])"

section \<open>One call\<close>

datatype Before = BeforeAllow | BeforeRefuse | BeforeHold

record DecideEvaluateInput =
  in_deterministic :: Before
  in_tool :: string
  in_toolInput :: "json option"
  in_cwd :: string
  in_lastUserTurn :: "string option"
  in_rules :: "DecideRecord list"
  in_deadlineMs :: rat

record engine_ops =
  eo_describe :: "DecideEngineErrorCode + DecideModelIdentity"
  eo_ask :: "string \<Rightarrow> DecideQuestionCall list \<Rightarrow> DecideEngineErrorCode + DecideEngineResult"

text \<open>\<open>dp_write\<close> answers \<^const>\<open>None\<close> when the cache cannot be written.  \<open>dp_numStr\<close>, \<open>dp_log\<close> and
  \<open>dp_exp\<close> are how a number is written and the rounded \<open>Math.log\<close> and \<open>Math.exp\<close>.\<close>

record 's DecideEvaluateDeps =
  dp_engine :: "DecideEngineErrorCode + engine_ops"
  dp_engineUrl :: string
  dp_read :: "'s \<Rightarrow> string \<Rightarrow> string \<Rightarrow> DecideCanaryEntry option"
  dp_write :: "DecideCanaryEntry \<Rightarrow> 's \<Rightarrow> 's option"
  dp_sha256Hex :: "string \<Rightarrow> string"
  dp_now :: rat
  dp_q95Ms :: "rat option"
  dp_parallel :: nat
  dp_numStr :: "rat \<Rightarrow> string"
  dp_log :: "rat \<Rightarrow> rat"
  dp_exp :: "rat \<Rightarrow> rat"

datatype ReportError = EngineErr DecideEngineErrorCode | BudgetSkip

record DecideRuleReport =
  rp_ref :: string
  rp_ruleHash :: string
  rp_effective :: Rollout
  rp_why :: "DecideShadowWhy option"
  rp_outcome :: RuleVerdict
  rp_code :: "DecideCode option"
  rp_via :: "Via option"
  rp_error :: "ReportError option"
  rp_modelDigest :: "string option"
  rp_answers :: "answers option"

datatype CanaryStatus = CanaryOk | CanaryCached | CanaryBad

record DecideEvaluation =
  ev_call :: DecideCallOutcome
  ev_rules :: "DecideRuleReport list"
  ev_skipped :: "string list"
  ev_engine :: "DecideModelIdentity option"
  ev_canary :: "CanaryStatus option"

definition ALLOW :: DecideCallOutcome where
  "ALLOW = \<lparr>co_outcome = Allow, co_code = None, co_ruleRef = None, co_via = None, co_reason = None\<rparr>"

datatype OrderedVerdict = VAllow | VRefuse | VHold | VEscalate

definition before_verdict :: "Before \<Rightarrow> OrderedVerdict" where
  "before_verdict b = (case b of BeforeAllow \<Rightarrow> VAllow | BeforeRefuse \<Rightarrow> VRefuse | BeforeHold \<Rightarrow> VHold)"

definition decideVerdictInOrder :: "Before \<Rightarrow> Verdict option \<Rightarrow> OrderedVerdict" where
  "decideVerdictInOrder before decide =
     (if before \<noteq> BeforeAllow then before_verdict before
      else case decide of
             None \<Rightarrow> VAllow
           | Some v \<Rightarrow> (case v of Allow \<Rightarrow> VAllow | Refuse \<Rightarrow> VRefuse | Escalated \<Rightarrow> VEscalate))"

section \<open>The latency budget\<close>

definition decideRuleCalls :: "DecideRule \<Rightarrow> nat" where
  "decideRuleCalls rule =
     sum_list (map (\<lambda>(_, q). if qn_type q = YesNo then 1 else if 3 < length (decideOptions q) then 3 else 2)
       (rl_questions rule))"

text \<open>\<open>Math.round\<close>: the nearest whole number, a half upwards.\<close>

definition math_round :: "rat \<Rightarrow> int" where
  "math_round x = \<lfloor>x + 1 / 2\<rfloor>"

definition decideRuleEstimateMs :: "DecideRule \<Rightarrow> rat \<Rightarrow> nat \<Rightarrow> int" where
  "decideRuleEstimateMs rule q95Ms par =
     math_round (q95Ms * of_int \<lceil>(of_nat (decideRuleCalls rule) :: rat) / of_nat (max 1 par)\<rceil>)"

definition decideStoredQ95Ms :: "json \<Rightarrow> rat option" where
  "decideStoredQ95Ms file =
     (case json_field file ''q95Ms'' of Some (JNum r) \<Rightarrow> if 0 < r then Some r else None | _ \<Rightarrow> None)"

definition names_tool :: "DecideRecord \<Rightarrow> string \<Rightarrow> bool" where
  "names_tool r tool \<longleftrightarrow>
     json_field (rc_ir r) ''on'' = Some (JStr ''tool_call'')
     \<and> JStr tool \<in> set (arr_of (json_field (rc_ir r) ''tools''))"

section \<open>Evaluating the rules\<close>

text \<open>Pins are earned by one rule hash.\<close>

definition earned_pins :: "'s DecideEvaluateDeps \<Rightarrow> DecideRecord \<Rightarrow> DecidePin list" where
  "earned_pins deps r =
     (if rule_check (dp_numStr deps) (dp_sha256Hex deps) (rc_ir r) = Some (rc_ruleHash r) then rc_pins r else [])"

record EvalEntry = DecideCandidate +
  ee_entry :: DecideRecord
  ee_v :: "string + DecideRule \<times> DecideExpr"

definition eval_entry :: "'s DecideEvaluateDeps \<Rightarrow> string option \<Rightarrow> DecideRecord \<Rightarrow> EvalEntry" where
  "eval_entry deps digest r =
     (let entry = r\<lparr>rc_pins := earned_pins deps r\<rparr> in
      \<lparr>dc_ref = rc_ref r,
       dc_on = (if json_field (rc_ir r) ''on'' = Some (JStr ''tool_call'') then OnToolCall else OnResponse),
       dc_tools = map_option json_strings (json_field (rc_ir r) ''tools''),
       dc_effective = ef_effective (decideEffectiveRollout entry digest),
       ee_entry = entry, ee_v = validateDecideRule (rc_ir r)\<rparr>)"

record Asked =
  as_answers :: "answers option"
  as_error :: "DecideEngineErrorCode option"
  as_modelDigest :: "string option"

definition rule_questions :: "DecideRule \<Rightarrow> DecideQuestionCall list" where
  "rule_questions rule =
     map (\<lambda>(name, q). \<lparr>qc_name = name, qc_type = qn_type q, qc_ask = qn_ask q,
                       qc_options = (if qn_type q = Choice then decideOptions q else [])\<rparr>) (rl_questions rule)"

definition asked_error :: "DecideEngineErrorCode \<Rightarrow> Asked" where
  "asked_error e = \<lparr>as_answers = None, as_error = Some e, as_modelDigest = None\<rparr>"

definition rule_state :: "'s DecideEvaluateDeps \<Rightarrow> DecideEvaluateInput \<Rightarrow> DecideRecord \<Rightarrow> DecideRule \<Rightarrow> DecideEngineErrorCode + string" where
  "rule_state deps input entry rule =
     buildDecideToolCallState (dp_numStr deps)
       \<lparr>si_ruleId = rl_id rule, si_sopTitle = rc_sopTitle entry, si_ruleText = rc_ruleText entry,
        si_tool = in_tool input, si_cwd = in_cwd input, si_toolInput = in_toolInput input,
        si_lastUserTurn = (if ''last_user_turn'' \<in> set (list_or_empty (rl_context rule)) then in_lastUserTurn input else None)\<rparr>"

definition askRule :: "'s DecideEvaluateDeps \<Rightarrow> DecideEvaluateInput \<Rightarrow> DecideEngineErrorCode option \<Rightarrow> EvalEntry \<Rightarrow> Asked" where
  "askRule deps input engineError e =
     (case (dp_engine deps, engineError) of
        (Inl code, _) \<Rightarrow> asked_error code
      | (_, Some code) \<Rightarrow> asked_error code
      | (Inr engine, None) \<Rightarrow>
          (case ee_v e of
             Inl _ \<Rightarrow> asked_error BadResponse
           | Inr (rule, _) \<Rightarrow>
               (case try_then (rule_state deps input (ee_entry e) rule) (\<lambda>state. eo_ask engine state (rule_questions rule)) of
                  Inl code \<Rightarrow> asked_error code
                | Inr res \<Rightarrow>
                    \<lparr>as_answers = Some (er_answers res), as_error = None, as_modelDigest = Some (mi_modelDigest (er_identity res))\<rparr>)))"


text \<open>The canary, when the engine could say who it is: a fresh passed result, or a run whose result
  is written to the cache.  Its error is \<open>canary_failed\<close> only when it was answered wrongly.\<close>

record 's canary_phase =
  cp_status :: "CanaryStatus option"
  cp_error :: "DecideEngineErrorCode option"
  cp_store :: 's

definition run_canary :: "'s DecideEvaluateDeps \<Rightarrow> engine_ops \<Rightarrow> string \<Rightarrow> 's \<Rightarrow> 's canary_phase" where
  "run_canary deps engine digest store =
     (if decideCanaryFresh (dp_read deps store (dp_engineUrl deps) digest) (dp_now deps)
      then \<lparr>cp_status = Some CanaryCached, cp_error = None, cp_store = store\<rparr>
      else
        case runDecideCanary (dp_numStr deps) (eo_ask engine) of
          Inl code \<Rightarrow>
            \<lparr>cp_status = (if code = CanaryFailed then Some CanaryBad else None), cp_error = Some code, cp_store = store\<rparr>
        | Inr r \<Rightarrow>
            let entry = \<lparr>ca_url = dp_engineUrl deps, ca_modelDigest = digest, ca_ok = cr_ok r, ca_atMs = dp_now deps,
                         ca_pViolation = cr_pViolation r, ca_pClean = cr_pClean r, ca_choiceTop = cr_choiceTop r\<rparr>
            in \<lparr>cp_status = Some (if cr_ok r then CanaryOk else CanaryBad),
                cp_error = (if cr_ok r then None else Some CanaryFailed),
                cp_store = (case dp_write deps entry store of None \<Rightarrow> store | Some s \<Rightarrow> s)\<rparr>)"

definition canary_phase_of :: "'s DecideEvaluateDeps \<Rightarrow> DecideModelIdentity option \<Rightarrow> 's \<Rightarrow> 's canary_phase" where
  "canary_phase_of deps identity store =
     (case (dp_engine deps, identity) of
        (Inr engine, Some i) \<Rightarrow> run_canary deps engine (mi_modelDigest i) store
      | _ \<Rightarrow> \<lparr>cp_status = None, cp_error = None, cp_store = store\<rparr>)"

text \<open>A pin's fitted combiner replaces \<open>when\<close>.\<close>

definition pin_combiner :: "DecidePin option \<Rightarrow> DecideRule \<Rightarrow> DecideCombiner option" where
  "pin_combiner pin rule =
     (case pin of
        None \<Rightarrow> None
      | Some p \<Rightarrow>
          map_option (\<lambda>(bias, weights).
            \<lparr>cb_bias = bias, cb_weights = weights,
             cb_band = (case pn_band p of Some b \<Rightarrow> b
                        | None \<Rightarrow> (case rl_band rule of Some b \<Rightarrow> b | None \<Rightarrow> DECIDE_DEFAULT_BAND))\<rparr>) (pn_combiner p))"

definition rule_verdict :: "Verdict \<Rightarrow> RuleVerdict" where
  "rule_verdict v = (case v of Allow \<Rightarrow> RAllow | Refuse \<Rightarrow> RRefuse | Escalated \<Rightarrow> REscalate)"

definition makes_unavailable :: "DecideEngineErrorCode option \<Rightarrow> bool" where
  "makes_unavailable e = (case e of None \<Rightarrow> False | Some c \<Rightarrow> decideEngineErrorOutcome c = MeansUnavailable)"

definition rule_report :: "'s DecideEvaluateDeps \<Rightarrow> string option \<Rightarrow> DecideEngineErrorCode option \<Rightarrow> EvalEntry \<times> Asked \<Rightarrow> DecideRuleReport" where
  "rule_report deps identity canaryError = (\<lambda>(e, a).
     (let digest = (case as_modelDigest a of None \<Rightarrow> identity | Some d \<Rightarrow> Some d);
          eff = decideEffectiveRollout (ee_entry e) digest;
          report = (\<lambda>outcome code via err answers.
            \<lparr>rp_ref = rc_ref (ee_entry e), rp_ruleHash = rc_ruleHash (ee_entry e), rp_effective = ef_effective eff,
             rp_why = ef_why eff, rp_outcome = outcome, rp_code = code, rp_via = via,
             rp_error = map_option EngineErr err, rp_modelDigest = digest, rp_answers = answers\<rparr>)
      in case canaryError of
           Some ce \<Rightarrow>
             report RUnavailable None None
               (if ce \<noteq> CanaryFailed \<and> makes_unavailable (as_error a) then as_error a else Some ce) None
         | None \<Rightarrow>
             if makes_unavailable (as_error a) then report RUnavailable None None (as_error a) None
             else
               (case ee_v e of
                  Inl _ \<Rightarrow> report RUnavailable None None (Some BadResponse) None
                | Inr (rule, expr) \<Rightarrow>
                    let o' = decideRuleOutcome (dp_log deps) (dp_exp deps) rule expr
                               (case as_answers a of None \<Rightarrow> [] | Some as \<Rightarrow> as) (pin_combiner (ef_pin eff) rule)
                    in report (rule_verdict (ro_outcome o')) (ro_code o') (ro_via o') (as_error a) (as_answers a))))"

definition rule_result :: "DecideRuleReport \<Rightarrow> DecideRuleResult" where
  "rule_result r = \<lparr>rr_ref = rp_ref r, rr_effective = rp_effective r, rr_outcome = rp_outcome r, rr_code = rp_code r, rr_via = rp_via r\<rparr>"

definition described :: "'s DecideEvaluateDeps \<Rightarrow> DecideEngineErrorCode + DecideModelIdentity" where
  "described deps = try_then (dp_engine deps) eo_describe"

definition before_reason :: "Before \<Rightarrow> string" where
  "before_reason b =
     (if b = BeforeHold then ''the call is held for a person; a decide answer never releases a hold''
      else ''a deterministic rule refused the call'')"

definition evaluateDecideRules :: "DecideEvaluateInput \<Rightarrow> 's DecideEvaluateDeps \<Rightarrow> 's \<Rightarrow> DecideEvaluation \<times> 's" where
  "evaluateDecideRules input deps store =
     (if in_deterministic input \<noteq> BeforeAllow then
        (\<lparr>ev_call = \<lparr>co_outcome = Refuse, co_code = None, co_ruleRef = None, co_via = None,
                     co_reason = Some (before_reason (in_deterministic input))\<rparr>,
          ev_rules = [], ev_skipped = [], ev_engine = None, ev_canary = None\<rparr>, store)
      else
        let matched = filter (\<lambda>r. names_tool r (in_tool input)) (in_rules input) in
        if matched = [] then
          (\<lparr>ev_call = ALLOW, ev_rules = [], ev_skipped = [], ev_engine = None, ev_canary = None\<rparr>, store)
        else
          let engineError = (case described deps of Inl code \<Rightarrow> Some code | Inr _ \<Rightarrow> None);
              identity = (case described deps of Inl _ \<Rightarrow> None | Inr i \<Rightarrow> Some i);
              digest = map_option mi_modelDigest identity;
              selection = selectDecideRules (map (eval_entry deps digest) matched) (in_tool input);
              skipped = map dc_ref (sel_skipped selection)
          in if sel_unavailable selection \<noteq> None then
               (\<lparr>ev_call = decideCallOutcome (sel_unavailable selection) [], ev_rules = [], ev_skipped = skipped,
                 ev_engine = identity, ev_canary = None\<rparr>, store)
             else
               let canary = canary_phase_of deps identity store;
                   asked = map (\<lambda>e. (e, askRule deps input engineError e)) (sel_evaluate selection);
                   reports = map (rule_report deps digest (cp_error canary)) asked
               in (\<lparr>ev_call = decideCallOutcome (sel_unavailable selection) (map rule_result reports), ev_rules = reports,
                    ev_skipped = skipped, ev_engine = identity, ev_canary = cp_status canary\<rparr>, cp_store canary))"


section \<open>The budget\<close>

definition over_budget :: "DecideEvaluateInput \<Rightarrow> 's DecideEvaluateDeps \<Rightarrow> rat \<Rightarrow> DecideRecord \<Rightarrow> bool" where
  "over_budget input deps q95 r \<longleftrightarrow>
     names_tool r (in_tool input)
     \<and> (case validateDecideRule (rc_ir r) of
          Inl _ \<Rightarrow> False
        | Inr (rule, _) \<Rightarrow> in_deadlineMs input - dp_now deps < of_int (decideRuleEstimateMs rule q95 (dp_parallel deps)))"

definition skipped_report :: "'s DecideEvaluateDeps \<Rightarrow> string option \<Rightarrow> DecideRecord \<Rightarrow> DecideRuleReport" where
  "skipped_report deps digest r =
     (let eff = decideEffectiveRollout (r\<lparr>rc_pins := earned_pins deps r\<rparr>) digest;
          escalate = (case validateDecideRule (rc_ir r) of
              Inl _ \<Rightarrow> EscAsk
            | Inr (rule, _) \<Rightarrow> (case rl_escalate rule of None \<Rightarrow> EscAsk | Some e \<Rightarrow> e));
          report = (\<lambda>outcome code via.
            \<lparr>rp_ref = rc_ref r, rp_ruleHash = rc_ruleHash r, rp_effective = ef_effective eff, rp_why = ef_why eff,
             rp_outcome = outcome, rp_code = code, rp_via = via, rp_error = Some BudgetSkip,
             rp_modelDigest = digest, rp_answers = None\<rparr>)
      in if ef_effective eff = Shadow then report RAllow None None
         else case escalate of
                EscRefuse \<Rightarrow> report RRefuse (Some DECIDE_ESCALATED) None
              | EscReview \<Rightarrow> report REscalate (Some DECIDE_ESCALATED) (Some ViaReview)
              | EscAsk \<Rightarrow> report REscalate (Some DECIDE_ESCALATED) (Some ViaAsk))"

definition evaluateDecideCall :: "DecideEvaluateInput \<Rightarrow> 's DecideEvaluateDeps \<Rightarrow> 's \<Rightarrow> DecideEvaluation \<times> 's" where
  "evaluateDecideCall input deps store =
     (case dp_q95Ms deps of
        None \<Rightarrow> evaluateDecideRules input deps store
      | Some q95 \<Rightarrow>
          if in_deterministic input \<noteq> BeforeAllow then evaluateDecideRules input deps store
          else
            let overBudget = filter (over_budget input deps q95) (in_rules input);
                inBudget = filter (\<lambda>r. \<not> over_budget input deps q95 r) (in_rules input);
                (ev, store') = evaluateDecideRules (input\<lparr>in_rules := inBudget\<rparr>) deps store
            in if overBudget = [] then (ev, store')
               else
                 let rules = ev_rules ev @ map (skipped_report deps (map_option mi_modelDigest (ev_engine ev))) overBudget;
                     call = (if ev_rules ev = [] \<and> co_outcome (ev_call ev) \<noteq> Allow then ev_call ev
                             else decideCallOutcome None (map rule_result rules))
                 in (ev\<lparr>ev_call := call, ev_rules := rules\<rparr>, store'))"

section \<open>What a gate says\<close>

record DecideDecision =
  dd_outcome :: Verdict
  dd_code :: "DecideCode option"
  dd_ruleId :: "string option"
  dd_via :: "Via option"
  dd_reason :: string

definition unknown_name :: "DecideAtoms \<Rightarrow> string \<Rightarrow> bool" where
  "unknown_name atoms name =
     (case map_of (at_yes atoms) name of
        Some v \<Rightarrow> v = U
      | None \<Rightarrow>
          let vs = map snd (case map_of (at_eq atoms) name of None \<Rightarrow> [] | Some m \<Rightarrow> m)
          in T \<notin> set vs \<and> U \<in> set vs)"

definition unknownQuestions :: "DecideRecord \<Rightarrow> answers option \<Rightarrow> string list" where
  "unknownQuestions entry answers =
     (case validateDecideRule (rc_ir entry) of
        Inl _ \<Rightarrow> []
      | Inr (rule, _) \<Rightarrow>
          let unknown = (case answers of
                None \<Rightarrow> []
              | Some as \<Rightarrow> filter (\<lambda>(name, q). unknown_name (decideAtoms rule as) name) (rl_questions rule))
          in map (\<lambda>(_, q). qn_ask q) (if unknown \<noteq> [] then unknown else rl_questions rule))"

fun error_text :: "ReportError \<Rightarrow> string" where
  "error_text BudgetSkip = ''budget_skip''"
| "error_text (EngineErr e) =
     (case e of
        NotConfigured \<Rightarrow> ''not_configured'' | HostRefused \<Rightarrow> ''host_refused'' | Timeout \<Rightarrow> ''timeout''
      | Upstream \<Rightarrow> ''upstream'' | NoLogprobs \<Rightarrow> ''no_logprobs'' | BadResponse \<Rightarrow> ''bad_response''
      | TooLarge \<Rightarrow> ''too_large'' | CanaryFailed \<Rightarrow> ''canary_failed'')"

definition decideRuleReason :: "DecideRuleReport \<Rightarrow> DecideRecord \<Rightarrow> string" where
  "decideRuleReason report entry =
     (let title = (case json_field (rc_ir entry) ''title'' of Some (JStr t) \<Rightarrow> t | _ \<Rightarrow> rc_sopTitle entry);
          id = str_of (json_field (rc_ir entry) ''id'')
      in if rp_error report = Some BudgetSkip \<and> rp_outcome report \<noteq> RAllow then
           ''Needs a person: '' @ title @ '' '' @ em_dash @ '' the decide engine cannot answer rule '' @ id
             @ '' within this call's time budget''
         else if rp_outcome report = RUnavailable then
           ''GOVERNANCE_UNAVAILABLE '' @ em_dash @ '' the decide engine could not evaluate rule '' @ id @ '' ('' @ title @ ''): ''
             @ (case rp_error report of None \<Rightarrow> ''unavailable'' | Some e \<Rightarrow> error_text e)
         else if rp_code report = Some DECIDE_REFUSED then
           ''Decide rule '' @ id @ '' ('' @ title @ '') refused this call''
         else
           ''Needs a person: '' @ title @ '' '' @ em_dash @ '' '' @ join_with '' '' (unknownQuestions entry (rp_answers report)))"

definition allow_decision :: DecideDecision where
  "allow_decision = \<lparr>dd_outcome = Allow, dd_code = None, dd_ruleId = None, dd_via = None, dd_reason = ''''\<rparr>"

definition decideDecision :: "DecideEvaluation \<Rightarrow> DecideRecord list \<Rightarrow> DecideDecision" where
  "decideDecision ev rules =
     (let call = ev_call ev in
      if co_outcome call = Allow then allow_decision
      else
        let entry = Option.bind (co_ruleRef call) (\<lambda>ref. find (\<lambda>r. rc_ref r = ref) rules);
            report = Option.bind (co_ruleRef call) (\<lambda>ref. find (\<lambda>r. rp_ref r = ref) (ev_rules ev))
        in \<lparr>dd_outcome = co_outcome call, dd_code = co_code call,
            dd_ruleId = map_option (\<lambda>ref. ''decide.'' @ ref) (co_ruleRef call),
            dd_via = (if co_outcome call = Escalated
                      then (case co_via call of None \<Rightarrow> Some ViaAsk | v \<Rightarrow> v) else None),
            dd_reason =
              (case (entry, report) of
                 (Some e, Some r) \<Rightarrow> decideRuleReason r e
               | _ \<Rightarrow> ''GOVERNANCE_UNAVAILABLE '' @ em_dash @ '' ''
                       @ (case co_reason call of None \<Rightarrow> ''the decide rules for this call could not be evaluated''
                          | Some reason \<Rightarrow> reason))\<rparr>)"

definition decideShadowFindings :: "DecideEvaluation \<Rightarrow> DecideRecord list \<Rightarrow> (string \<times> string) list" where
  "decideShadowFindings ev rules =
     List.map_filter (\<lambda>report.
       if rp_effective report \<noteq> Shadow \<or> rp_outcome report = RAllow then None
       else map_option (\<lambda>entry. (''decide.'' @ rp_ref report, decideRuleReason report entry))
              (find (\<lambda>r. rc_ref r = rp_ref report) rules)) (ev_rules ev)"

definition decideUnavailableDecision :: "DecideRecord list \<Rightarrow> string \<Rightarrow> string \<Rightarrow> DecideDecision" where
  "decideUnavailableDecision rules tool why =
     (case find (\<lambda>r. rc_rollout r = Enforce) (filter (\<lambda>r. names_tool r tool) rules) of
        None \<Rightarrow> allow_decision
      | Some enforcing \<Rightarrow>
          \<lparr>dd_outcome = Refuse, dd_code = Some GOVERNANCE_UNAVAILABLE, dd_ruleId = Some (''decide.'' @ rc_ref enforcing),
           dd_via = None, dd_reason = ''GOVERNANCE_UNAVAILABLE '' @ em_dash @ '' '' @ why\<rparr>)"

end
