(* ===== verification/DecideCanary.thy ===== *)
theory DecideCanary
  imports DecideEvaluate
begin

text \<open>
  The canary cache behind its interface: what the evaluation needs of any store, the file store of
  \<open>createDecideCanaryFileStore\<close> as one, and what a cached result can and cannot say.
\<close>

section \<open>Errors of a run\<close>

lemma build_not_failed: "buildDecideToolCallState numStr input \<noteq> Inl CanaryFailed"
  unfolding buildDecideToolCallState_def Let_def by (simp add: sized_def)

lemma try_then_Inl_iff: "try_then m f = Inl e \<longleftrightarrow> m = Inl e \<or> (\<exists>x. m = Inr x \<and> f x = Inl e)"
  by (cases m) auto

lemma runDecideCanary_not_failed:
  assumes "\<And>s qs. ask s qs \<noteq> Inl CanaryFailed"
  shows "runDecideCanary numStr ask \<noteq> Inl CanaryFailed"
  unfolding runDecideCanary_def canary_state_def Let_def
  by (simp add: try_then_Inl_iff build_not_failed assms)

text \<open>The entry a run writes, and the three ways the canary goes.\<close>

definition canary_entry :: "'s DecideEvaluateDeps \<Rightarrow> string \<Rightarrow> DecideCanaryResult \<Rightarrow> DecideCanaryEntry" where
  "canary_entry deps d r =
     \<lparr>ca_url = dp_engineUrl deps, ca_modelDigest = d, ca_ok = cr_ok r, ca_atMs = dp_now deps,
      ca_pViolation = cr_pViolation r, ca_pClean = cr_pClean r, ca_choiceTop = cr_choiceTop r\<rparr>"

lemma run_canary_status:
  "cp_status (run_canary deps engine d st) = Some CanaryCached \<longleftrightarrow>
     decideCanaryFresh (dp_read deps st (dp_engineUrl deps) d) (dp_now deps)"
  by (auto simp: run_canary_def Let_def split: sum.splits)

lemma run_canary_ran:
  assumes "\<not> decideCanaryFresh (dp_read deps st (dp_engineUrl deps) d) (dp_now deps)"
    and "runDecideCanary (dp_numStr deps) (eo_ask engine) = Inr r"
  shows "run_canary deps engine d st =
     \<lparr>cp_status = Some (if cr_ok r then CanaryOk else CanaryBad), cp_error = (if cr_ok r then None else Some CanaryFailed),
      cp_store = (case dp_write deps (canary_entry deps d r) st of None \<Rightarrow> st | Some s \<Rightarrow> s)\<rparr>"
  using assms by (simp add: run_canary_def canary_entry_def)

lemma run_canary_no_answer:
  assumes "\<not> decideCanaryFresh (dp_read deps st (dp_engineUrl deps) d) (dp_now deps)"
    and "runDecideCanary (dp_numStr deps) (eo_ask engine) = Inl code"
  shows "run_canary deps engine d st =
     \<lparr>cp_status = (if code = CanaryFailed then Some CanaryBad else None), cp_error = Some code, cp_store = st\<rparr>"
  using assms by (simp add: run_canary_def)

section \<open>The interface\<close>

locale canary_store =
  fixes get :: "'s \<Rightarrow> string \<Rightarrow> string \<Rightarrow> DecideCanaryEntry option"
    and put :: "DecideCanaryEntry \<Rightarrow> 's \<Rightarrow> 's"
    and ok :: "'s \<Rightarrow> bool"
  assumes get_put: "get (put e s) (ca_url e) (ca_modelDigest e) = Some e"
    and put_ok: "ok s \<Longrightarrow> ok (put e s)"
    and get_other: "ok s \<Longrightarrow> (u, d) \<noteq> (ca_url e, ca_modelDigest e) \<Longrightarrow> get (put e s) u d = Some x \<Longrightarrow> get s u d = Some x"
    and get_key: "get s u d = Some x \<Longrightarrow> ca_url x = u \<and> ca_modelDigest x = d"
begin

lemma get_entry: "get (put (canary_entry deps d r) s) (dp_engineUrl deps) d = Some (canary_entry deps d r)"
  using get_put [of "canary_entry deps d r"] by (simp add: canary_entry_def)

text \<open>A passed run is served from the cache for its ten minutes.\<close>

lemma run_canary_passed:
  assumes ops: "dp_read deps = get" "dp_write deps = (\<lambda>e s. Some (put e s))"
    and passed: "cp_status (run_canary deps engine d st) = Some CanaryOk"
    and later: "dp_now deps \<le> later" "later - dp_now deps < DECIDE_CANARY_TTL_MS"
  shows "cp_status (run_canary (deps\<lparr>dp_now := later\<rparr>) engine' d (cp_store (run_canary deps engine d st))) = Some CanaryCached"
proof -
  from passed have stale: "\<not> decideCanaryFresh (dp_read deps st (dp_engineUrl deps) d) (dp_now deps)"
    using run_canary_status [of deps engine d st] by auto
  with passed obtain r where r: "runDecideCanary (dp_numStr deps) (eo_ask engine) = Inr r"
    by (cases "runDecideCanary (dp_numStr deps) (eo_ask engine)") (auto simp: run_canary_no_answer split: if_splits)
  from passed have "cr_ok r" by (simp add: run_canary_ran [OF stale r] split: if_splits)
  then show ?thesis
    using later by (simp add: run_canary_status run_canary_ran [OF stale r] ops get_entry decideCanaryFresh_def)
      (simp add: canary_entry_def)
qed

text \<open>A wrongly answered run is never served: the next call runs the canary again.\<close>

lemma run_canary_failed:
  assumes ops: "dp_read deps = get" "dp_write deps = (\<lambda>e s. Some (put e s))"
    and failed: "cp_status (run_canary deps engine d st) = Some CanaryBad"
    and honest: "\<And>s qs. eo_ask engine s qs \<noteq> Inl CanaryFailed"
  shows "cp_status (run_canary (deps\<lparr>dp_now := later\<rparr>) engine' d (cp_store (run_canary deps engine d st))) \<noteq> Some CanaryCached"
proof -
  from failed have stale: "\<not> decideCanaryFresh (dp_read deps st (dp_engineUrl deps) d) (dp_now deps)"
    using run_canary_status [of deps engine d st] by auto
  with failed runDecideCanary_not_failed [of "eo_ask engine", OF honest]
  obtain r where r: "runDecideCanary (dp_numStr deps) (eo_ask engine) = Inr r"
    by (cases "runDecideCanary (dp_numStr deps) (eo_ask engine)") (auto simp: run_canary_no_answer split: if_splits)
  from failed have "\<not> cr_ok r" by (simp add: run_canary_ran [OF stale r] split: if_splits)
  then show ?thesis
    by (simp add: run_canary_status run_canary_ran [OF stale r] ops get_entry decideCanaryFresh_def)
      (simp add: canary_entry_def)
qed

end

section \<open>The file store\<close>

definition entry_key :: "DecideCanaryEntry \<Rightarrow> string \<times> string" where
  "entry_key e = (ca_url e, ca_modelDigest e)"

definition file_ok :: "canary_file \<Rightarrow> bool" where
  "file_ok file \<longleftrightarrow> distinct (map entry_key (canary_readAll file)) \<and> length (canary_readAll file) \<le> CANARY_ENTRIES_MAX"

lemma canaryEntry_json [simp]: "canaryEntry (canary_json e) = Some e"
  by (simp add: canaryEntry_def canary_json_def)

lemma map_filter_read_back: "(\<And>x. f (g x) = Some x) \<Longrightarrow> List.map_filter f (map g xs) = xs"
  by (induction xs) (simp_all add: List.map_filter_simps)

lemma readAll_write: "canary_readAll (canary_write e file) = canary_entries (canary_readAll file) e"
  by (simp add: canary_readAll_def canary_write_def map_filter_read_back)


lemma find_keys:
  "distinct (map entry_key es) \<Longrightarrow>
     find (\<lambda>e. ca_url e = u \<and> ca_modelDigest e = d) es = Some x \<longleftrightarrow> x \<in> set es \<and> entry_key x = (u, d)"
  by (induction es) (auto simp: entry_key_def rev_image_eqI)

lemma canary_entries_key:
  "canary_entries es e = last_n CANARY_ENTRIES_MAX (filter (\<lambda>x. entry_key x \<noteq> entry_key e) es @ [e])"
  unfolding canary_entries_def entry_key_def by simp

lemma canary_entries_props:
  shows "distinct (map entry_key es) \<Longrightarrow> distinct (map entry_key (canary_entries es e))" "e \<in> set (canary_entries es e)"
    "length (canary_entries es e) \<le> CANARY_ENTRIES_MAX" "set (canary_entries es e) \<subseteq> insert e (set es)"
    "x \<in> set (canary_entries es e) \<Longrightarrow> entry_key x = entry_key e \<Longrightarrow> x = e"
proof -
  show "distinct (map entry_key (canary_entries es e))" if "distinct (map entry_key es)"
    using distinct_map_filter [OF that, of "\<lambda>x. entry_key x \<noteq> entry_key e"]
    by (auto simp: canary_entries_key last_n_def drop_map [symmetric] simp del: drop_append intro!: distinct_drop)
  show "e \<in> set (canary_entries es e)"
    by (simp add: canary_entries_key last_n_def CANARY_ENTRIES_MAX_def)
  show "length (canary_entries es e) \<le> CANARY_ENTRIES_MAX" by (simp add: canary_entries_def)
  show "set (canary_entries es e) \<subseteq> insert e (set es)"
    using set_last_n_subset by (fastforce simp: canary_entries_def)
  show "x = e" if "x \<in> set (canary_entries es e)" "entry_key x = entry_key e"
    using that set_last_n_subset by (fastforce simp: canary_entries_key)
qed

lemma read_mem: "canary_read file u d = Some x \<Longrightarrow> x \<in> set (canary_readAll file) \<and> entry_key x = (u, d)"
  by (auto simp: canary_read_def entry_key_def dest: find_SomeD)


lemma read_write_key: "canary_read (canary_write e file) (ca_url e) (ca_modelDigest e) = Some e"
proof -
  have "\<exists>x \<in> set (canary_readAll (canary_write e file)). ca_url x = ca_url e \<and> ca_modelDigest x = ca_modelDigest e"
    using canary_entries_props(2) by (auto simp: readAll_write)
  then have "canary_read (canary_write e file) (ca_url e) (ca_modelDigest e) \<noteq> None"
    by (auto simp: canary_read_def find_None_iff)
  then obtain x where x: "canary_read (canary_write e file) (ca_url e) (ca_modelDigest e) = Some x" by auto
  then show ?thesis
    using read_mem [OF x] canary_entries_props(5) unfolding readAll_write entry_key_def by metis
qed

interpretation fstore: canary_store canary_read canary_write file_ok
proof unfold_locales
  fix e x :: DecideCanaryEntry and s :: canary_file and u d :: string
  show "canary_read (canary_write e s) (ca_url e) (ca_modelDigest e) = Some e" by (rule read_write_key)
  show "file_ok s \<Longrightarrow> file_ok (canary_write e s)"
    by (simp add: file_ok_def readAll_write canary_entries_props)
  show "canary_read s u d = Some x \<Longrightarrow> ca_url x = u \<and> ca_modelDigest x = d"
    by (auto dest: read_mem simp: entry_key_def)
  assume "file_ok s" "(u, d) \<noteq> (ca_url e, ca_modelDigest e)" "canary_read (canary_write e s) u d = Some x"
  then show "canary_read s u d = Some x"
    using read_mem [of "canary_write e s" u d x] canary_entries_props(4) [of "canary_readAll s" e]
    by (auto simp: canary_read_def file_ok_def find_keys readAll_write entry_key_def)
qed

section \<open>Properties\<close>

text \<open>The file store is a store: after a write the engine and digest read back that entry, any other
  pair reads at most what it read before, and a file without duplicates stays so, with at most 16
  entries.\<close>

theorem canary_file_store:
  assumes "file_ok s"
  shows "canary_read (canary_write e s) (ca_url e) (ca_modelDigest e) = Some e
       \<and> file_ok (canary_write e s)
       \<and> ((u, d) \<noteq> (ca_url e, ca_modelDigest e) \<longrightarrow>
            canary_read (canary_write e s) u d = None \<or> canary_read (canary_write e s) u d = canary_read s u d)"
  using fstore.get_put fstore.put_ok [OF assms] fstore.get_other [OF assms, of u d e]
  by (cases "canary_read (canary_write e s) u d") auto

theorem canary_file_store_witness:
  "file_ok (canary_write \<lparr>ca_url = ''u'', ca_modelDigest = ''d'', ca_ok = True, ca_atMs = 0, ca_pViolation = 1, ca_pClean = 0, ca_choiceTop = ''''\<rparr> None)"
proof -
  have "file_ok None" by (simp add: file_ok_def canary_readAll_def)
  from canary_file_store [OF this] show ?thesis by blast
qed

text \<open>C35: With the file store, a canary the engine answered wrongly is never served from the cache: the
  next call, whenever it comes, does not find a fresh result.  One it passed is served for ten
  minutes.\<close>

theorem canary_file_fresh:
  assumes "dp_read deps = canary_read" "dp_write deps = (\<lambda>e s. Some (canary_write e s))"
    and "\<And>s qs. eo_ask engine s qs \<noteq> Inl CanaryFailed"
    and "run_canary deps engine d st = phase" "run_canary (deps\<lparr>dp_now := later\<rparr>) engine' d (cp_store phase) = next_phase"
  shows "(cp_status phase = Some CanaryBad \<longrightarrow> cp_status next_phase \<noteq> Some CanaryCached)
       \<and> (cp_status phase = Some CanaryOk \<and> dp_now deps \<le> later \<and> later - dp_now deps < DECIDE_CANARY_TTL_MS
            \<longrightarrow> cp_status next_phase = Some CanaryCached)"
  using fstore.run_canary_failed [of deps engine d st later engine'] fstore.run_canary_passed [of deps engine d st later engine'] assms
  by blast


definition sample_deps :: "canary_file DecideEvaluateDeps" where
  "sample_deps =
     \<lparr>dp_engine = Inr \<lparr>eo_describe = Inl Upstream, eo_ask = stuck_ask\<rparr>, dp_engineUrl = ''http://127.0.0.1'',
      dp_read = canary_read, dp_write = (\<lambda>e s. Some (canary_write e s)), dp_sha256Hex = sample_sha, dp_now = 0,
      dp_q95Ms = None, dp_parallel = 1, dp_numStr = (\<lambda>_. ''0''), dp_log = id, dp_exp = id\<rparr>"

definition sample_engine :: engine_ops where
  "sample_engine = \<lparr>eo_describe = Inl Upstream, eo_ask = stuck_ask\<rparr>"

theorem canary_file_fresh_witness:
  "cp_status (run_canary (sample_deps\<lparr>dp_now := 5\<rparr>) sample_engine ''d'' (cp_store (run_canary sample_deps sample_engine ''d'' None)))
     \<noteq> Some CanaryCached"
proof -
  have bad: "cp_status (run_canary sample_deps sample_engine ''d'' None) = Some CanaryBad"
    using run_canary_ran [of sample_deps None "''d''" sample_engine canary_run] canary_run_ok stuck_canary
    by (simp add: sample_deps_def sample_engine_def canary_read_def canary_readAll_def decideCanaryFresh_def)
  have "\<And>s qs. eo_ask sample_engine s qs \<noteq> Inl CanaryFailed" by (simp add: sample_engine_def stuck_ask_def)
  from canary_file_fresh [OF _ _ this refl refl, of sample_deps "''d''" None 5 sample_engine] bad
  show ?thesis by (simp add: sample_deps_def)
qed

end
