(* ===== verification/DecideGate.thy ===== *)
theory DecideGate
  imports DecideCanary DecideProps
begin

text \<open>
  What the evaluation of \<open>DecideEvaluate\<close> promises a gate: an allowed call has had an allow from
  every rule that enforces, a rule enforces only under a pin of its own for the model that answered,
  shadow rules change nothing, and a wrongly answered canary discards every answer.
\<close>

section \<open>The shape of an evaluation\<close>

definition digest_of :: "'s DecideEvaluateDeps \<Rightarrow> string option" where
  "digest_of deps = (case described deps of Inl _ \<Rightarrow> None | Inr i \<Rightarrow> Some (mi_modelDigest i))"

definition selection_of :: "DecideEvaluateInput \<Rightarrow> 's DecideEvaluateDeps \<Rightarrow> EvalEntry DecideSelection" where
  "selection_of input deps =
     selectDecideRules (map (eval_entry deps (digest_of deps)) (filter (\<lambda>r. names_tool r (in_tool input)) (in_rules input))) (in_tool input)"

definition identity_of :: "'s DecideEvaluateDeps \<Rightarrow> DecideModelIdentity option" where
  "identity_of deps = (case described deps of Inl _ \<Rightarrow> None | Inr i \<Rightarrow> Some i)"

definition describe_error :: "'s DecideEvaluateDeps \<Rightarrow> DecideEngineErrorCode option" where
  "describe_error deps = (case described deps of Inl code \<Rightarrow> Some code | Inr _ \<Rightarrow> None)"

definition report_of :: "DecideEvaluateInput \<Rightarrow> 's DecideEvaluateDeps \<Rightarrow> 's \<Rightarrow> EvalEntry \<Rightarrow> DecideRuleReport" where
  "report_of input deps store e =
     rule_report deps (digest_of deps) (cp_error (canary_phase_of deps (identity_of deps) store))
       (e, askRule deps input (describe_error deps) e)"

lemma identity_digest: "map_option mi_modelDigest (identity_of deps) = digest_of deps"
  by (simp add: identity_of_def digest_of_def split: sum.splits)

lemma evaluateDecideRules_cases:
  assumes "in_deterministic input = BeforeAllow"
  obtains
    (none) "\<And>r. r \<in> set (in_rules input) \<Longrightarrow> \<not> names_tool r (in_tool input)"
      "evaluateDecideRules input deps store =
        (\<lparr>ev_call = ALLOW, ev_rules = [], ev_skipped = [], ev_engine = None, ev_canary = None\<rparr>, store)"
  | (surplus) "sel_unavailable (selection_of input deps) \<noteq> None"
      "ev_rules (fst (evaluateDecideRules input deps store)) = []"
      "ev_engine (fst (evaluateDecideRules input deps store)) = identity_of deps"
      "ev_canary (fst (evaluateDecideRules input deps store)) = None"
      "ev_call (fst (evaluateDecideRules input deps store)) = decideCallOutcome (sel_unavailable (selection_of input deps)) []"
  | (asked) "sel_unavailable (selection_of input deps) = None"
      "ev_rules (fst (evaluateDecideRules input deps store)) = map (report_of input deps store) (sel_evaluate (selection_of input deps))"
      "ev_engine (fst (evaluateDecideRules input deps store)) = identity_of deps"
      "ev_canary (fst (evaluateDecideRules input deps store)) = cp_status (canary_phase_of deps (identity_of deps) store)"
      "ev_call (fst (evaluateDecideRules input deps store)) =
         decideCallOutcome None (map rule_result (ev_rules (fst (evaluateDecideRules input deps store))))"
proof -
  define matched where "matched = filter (\<lambda>r. names_tool r (in_tool input)) (in_rules input)"
  show thesis
  proof (cases "matched = []")
    case True
    then show thesis
      using assms by (intro none) (auto simp: evaluateDecideRules_def matched_def filter_empty_conv)
  next
    case False
    have sel: "selection_of input deps =
        selectDecideRules (map (eval_entry deps (map_option mi_modelDigest (identity_of deps))) matched) (in_tool input)"
      by (simp add: selection_of_def matched_def identity_digest)
    note ev = evaluateDecideRules_def [of input deps store, folded matched_def identity_of_def describe_error_def, unfolded Let_def, folded sel]
    show thesis
    proof (cases "sel_unavailable (selection_of input deps)")
      case None
      with False assms show thesis
        by (intro asked) (simp_all add: ev report_of_def [abs_def] identity_digest o_def)
    next
      case (Some reason)
      with False assms show thesis by (intro surplus) (simp_all add: ev)
    qed
  qed
qed

lemma eval_entry_simps [simp]:
  "dc_ref (eval_entry deps d r) = rc_ref r"
  "dc_effective (eval_entry deps d r) = ef_effective (decideEffectiveRollout (r\<lparr>rc_pins := earned_pins deps r\<rparr>) d)"
  "ee_entry (eval_entry deps d r) = r\<lparr>rc_pins := earned_pins deps r\<rparr>"
  "ee_v (eval_entry deps d r) = validateDecideRule (rc_ir r)"
  by (simp_all add: eval_entry_def Let_def)

lemma names_tool_entry:
  assumes "names_tool r tool"
  shows "dc_on (eval_entry deps d r) = OnToolCall" "tool \<in> set (list_or_empty (dc_tools (eval_entry deps d r)))"
proof -
  from assms show "dc_on (eval_entry deps d r) = OnToolCall" by (simp add: names_tool_def eval_entry_def Let_def)
  from assms obtain ts where ts: "json_field (rc_ir r) ''tools'' = Some (JArr ts)" "JStr tool \<in> set ts"
    by (cases "json_field (rc_ir r) ''tools''" rule: arr_of.cases) (auto simp: names_tool_def)
  then have "tool \<in> set (json_strings (JArr ts))" by (force simp: List.map_filter_def)
  with ts show "tool \<in> set (list_or_empty (dc_tools (eval_entry deps d r)))"
    by (simp add: eval_entry_def Let_def list_or_empty_def)
qed

lemma selected_from:
  assumes "e \<in> set (sel_evaluate (selection_of input deps))"
  obtains r where "r \<in> set (in_rules input)" "names_tool r (in_tool input)" "e = eval_entry deps (digest_of deps) r"
proof -
  have "set (sel_evaluate (selection_of input deps)) \<subseteq>
      set (map (eval_entry deps (digest_of deps)) (filter (\<lambda>r. names_tool r (in_tool input)) (in_rules input)))"
    unfolding selection_of_def using select_matched(2) by blast
  with assms that show thesis by auto
qed

text \<open>The rollout a record runs with, its pins being its own.\<close>

definition runs_as :: "'s DecideEvaluateDeps \<Rightarrow> DecideRecord \<Rightarrow> string option \<Rightarrow> Rollout" where
  "runs_as deps r d = ef_effective (decideEffectiveRollout (r\<lparr>rc_pins := earned_pins deps r\<rparr>) d)"

lemma enforcing_selected:
  assumes "r \<in> set (in_rules input)" "names_tool r (in_tool input)" "runs_as deps r (digest_of deps) = Enforce"
    and "sel_unavailable (selection_of input deps) = None"
  shows "eval_entry deps (digest_of deps) r \<in> set (sel_evaluate (selection_of input deps))"
proof -
  let ?e = "eval_entry deps (digest_of deps) r"
  have "?e \<in> set (map (eval_entry deps (digest_of deps)) (filter (\<lambda>r. names_tool r (in_tool input)) (in_rules input)))"
    using assms(1,2) by auto
  from select_matched(3) [OF this names_tool_entry [OF assms(2)]] select_matched(4) assms(3,4) show ?thesis
    unfolding selection_of_def runs_as_def by (metis eval_entry_simps(2))
qed

lemma enforce_cases:
  assumes "ef_effective (decideEffectiveRollout entry d) = Enforce"
  shows "json_field (rc_ir entry) ''rollout'' = Some (JStr ''enforce'') \<and> rc_rollout entry = Enforce \<and> rc_pins entry \<noteq> []
       \<and> (\<forall>m. d = Some m \<longrightarrow> m \<in> pn_modelDigest ` set (rc_pins entry))"
  using assms by (auto simp: decideEffectiveRollout_def runs_shadow_def dest: find_SomeD split: if_splits option.splits)

lemma report_simps:
  "rp_ref (report_of input deps store e) = rc_ref (ee_entry e)"
  "rp_effective (report_of input deps store e) = ef_effective (decideEffectiveRollout (ee_entry e) (rp_modelDigest (report_of input deps store e)))"
  by (auto simp: report_of_def rule_report_def Let_def split: option.splits sum.splits)


section \<open>Enforcing\<close>

lemma runs_as_None: "runs_as deps r d = Enforce \<Longrightarrow> runs_as deps r None = Enforce"
  by (auto simp: runs_as_def decideEffectiveRollout_def runs_shadow_def split: if_splits option.splits)

lemma surplus_enforces:
  "sel_unavailable (selectDecideRules cs tool) \<noteq> None \<Longrightarrow> \<exists>c \<in> set cs. dc_effective c = Enforce"
proof -
  define matched where "matched = filter (\<lambda>c. dc_on c = OnToolCall \<and> tool \<in> set (list_or_empty (dc_tools c))) cs"
  assume "sel_unavailable (selectDecideRules cs tool) \<noteq> None"
  then have "list_ex (\<lambda>c. dc_effective c = Enforce)
      (drop DECIDE_MAX_RULES_PER_CALL (filter (\<lambda>c. dc_effective c = Enforce) matched @ filter (\<lambda>c. dc_effective c \<noteq> Enforce) matched))"
    unfolding selectDecideRules_def Let_def matched_def [symmetric] by (simp del: drop_append list_ex_append split: if_splits)
  then obtain c where "dc_effective c = Enforce"
    and "c \<in> set (drop DECIDE_MAX_RULES_PER_CALL (filter (\<lambda>c. dc_effective c = Enforce) matched @ filter (\<lambda>c. dc_effective c \<noteq> Enforce) matched))"
    unfolding list_ex_iff by blast
  note this(1) in_set_dropD [OF this(2)]
  then have "c \<in> set matched" "dc_effective c = Enforce" by simp_all
  then show ?thesis by (auto simp: matched_def)
qed

lemma surplus_refuses:
  assumes "sel_unavailable (selection_of input deps) \<noteq> None"
  shows "co_outcome (decideCallOutcome (sel_unavailable (selection_of input deps)) []) = Refuse"
  using assms by (auto simp: selection_of_def selectDecideRules_def Let_def decideCallOutcome_def split: if_splits)

lemma call_allows_iff:
  "co_outcome (decideCallOutcome None (map rule_result rps)) = Allow \<longleftrightarrow> (\<forall>rp \<in> set rps. rp_effective rp = Enforce \<longrightarrow> rp_outcome rp = RAllow)"
  by (auto simp: call_allows rule_result_def)

definition answered :: "'s DecideEvaluateDeps \<Rightarrow> DecideRecord \<Rightarrow> DecideRuleReport \<Rightarrow> bool" where
  "answered deps r rp \<longleftrightarrow>
     rp_ref rp = rc_ref r
     \<and> (rp_effective rp = Enforce \<and> rp_outcome rp = RAllow
        \<or> rp_effective rp = Shadow \<and> rp_modelDigest rp \<noteq> digest_of deps)"

lemma rules_answered:
  assumes "in_deterministic input = BeforeAllow" "r \<in> set (in_rules input)" "names_tool r (in_tool input)"
    and "runs_as deps r (digest_of deps) = Enforce"
    and "co_outcome (ev_call (fst (evaluateDecideRules input deps store))) = Allow
       \<or> ev_rules (fst (evaluateDecideRules input deps store)) \<noteq> []"
    and "\<And>rp. rp \<in> set (ev_rules (fst (evaluateDecideRules input deps store))) \<Longrightarrow> rp_effective rp = Enforce \<Longrightarrow> rp_outcome rp = RAllow"
  shows "\<exists>rp \<in> set (ev_rules (fst (evaluateDecideRules input deps store))). answered deps r rp"
  using assms(1)
proof (cases rule: evaluateDecideRules_cases [where deps = deps and store = store])
  case none
  with assms show ?thesis by blast
next
  case surplus
  with assms(5) show ?thesis by (simp add: surplus_refuses)
next
  case asked
  define e where "e = eval_entry deps (digest_of deps) r"
  have "e \<in> set (sel_evaluate (selection_of input deps))"
    unfolding e_def using assms(2-4) asked(1) by (rule enforcing_selected)
  then have mem: "report_of input deps store e \<in> set (ev_rules (fst (evaluateDecideRules input deps store)))"
    using asked(2) by simp
  have "answered deps r (report_of input deps store e)"
  proof (cases "rp_effective (report_of input deps store e)")
    case Enforce
    with assms(6) [OF mem] show ?thesis by (simp add: answered_def report_simps(1) e_def)
  next
    case Shadow
    moreover have "rp_modelDigest (report_of input deps store e) \<noteq> digest_of deps"
      using assms(4) Shadow report_simps(2) [of input deps store e] by (auto simp: runs_as_def e_def)
    ultimately show ?thesis by (simp add: answered_def report_simps(1) e_def)
  qed
  with mem show ?thesis by blast
qed

text \<open>The evaluation under a budget: nothing over it, or the rest asked and the surplus reported.\<close>

definition in_budget :: "DecideEvaluateInput \<Rightarrow> 's DecideEvaluateDeps \<Rightarrow> rat \<Rightarrow> DecideEvaluateInput" where
  "in_budget input deps q95 = input\<lparr>in_rules := filter (\<lambda>r. \<not> over_budget input deps q95 r) (in_rules input)\<rparr>"

lemma evaluateDecideCall_cases:
  assumes "in_deterministic input = BeforeAllow"
  obtains
    (all) "evaluateDecideCall input deps store = evaluateDecideRules input deps store"
  | (some) q95 rules ev where "dp_q95Ms deps = Some q95" "ev = fst (evaluateDecideRules (in_budget input deps q95) deps store)"
      "rules = ev_rules ev @ map (skipped_report deps (map_option mi_modelDigest (ev_engine ev))) (filter (over_budget input deps q95) (in_rules input))"
      "ev_rules (fst (evaluateDecideCall input deps store)) = rules"
      "ev_call (fst (evaluateDecideCall input deps store)) =
        (if ev_rules ev = [] \<and> co_outcome (ev_call ev) \<noteq> Allow then ev_call ev else decideCallOutcome None (map rule_result rules))"
      "ev_canary (fst (evaluateDecideCall input deps store)) = ev_canary ev"
proof (cases "dp_q95Ms deps")
  case None
  then show thesis by (intro all) (simp add: evaluateDecideCall_def)
next
  case (Some q95)
  show thesis
  proof (cases "filter (over_budget input deps q95) (in_rules input) = []")
    case True
    then have "filter (\<lambda>r. \<not> over_budget input deps q95 r) (in_rules input) = in_rules input"
      by (simp add: filter_empty_conv filter_id_conv)
    with Some True assms show thesis
      by (intro all) (simp add: evaluateDecideCall_def split: prod.split)
  next
    case False
    with Some assms show thesis
      by (intro some [OF Some refl refl])
        (simp_all add: evaluateDecideCall_def in_budget_def Let_def split: prod.split)
  qed
qed

lemma skipped_report_simps:
  "rp_ref (skipped_report deps d r) = rc_ref r"
  "rp_effective (skipped_report deps d r) = runs_as deps r d"
  "rp_modelDigest (skipped_report deps d r) = d"
  "rp_answers (skipped_report deps d r) = None"
  "rp_error (skipped_report deps d r) = Some BudgetSkip"
  "rp_outcome (skipped_report deps d r) = RAllow \<longleftrightarrow> runs_as deps r d = Shadow"
  by (auto simp: skipped_report_def runs_as_def Let_def split: Escalate.split)


lemma rules_call_allows:
  assumes "in_deterministic input = BeforeAllow"
    and "co_outcome (ev_call (fst (evaluateDecideRules input deps store))) = Allow"
    and "rp \<in> set (ev_rules (fst (evaluateDecideRules input deps store)))" "rp_effective rp = Enforce"
  shows "rp_outcome rp = RAllow"
  using assms(1)
proof (cases rule: evaluateDecideRules_cases [where deps = deps and store = store])
  case asked
  from assms(2) have "\<forall>rp \<in> set (ev_rules (fst (evaluateDecideRules input deps store))). rp_effective rp = Enforce \<longrightarrow> rp_outcome rp = RAllow"
    unfolding asked(5) call_allows_iff .
  with assms(3,4) show ?thesis by blast
qed (use assms in auto)

lemma call_answered:
  assumes allow: "in_deterministic input = BeforeAllow" and r: "r \<in> set (in_rules input)" "names_tool r (in_tool input)"
    and enforce: "runs_as deps r (digest_of deps) = Enforce"
    and out: "co_outcome (ev_call (fst (evaluateDecideCall input deps store))) = Allow"
  shows "\<exists>rp \<in> set (ev_rules (fst (evaluateDecideCall input deps store))). answered deps r rp"
  using allow
proof (cases rule: evaluateDecideCall_cases [where deps = deps and store = store])
  case all
  have "co_outcome (ev_call (fst (evaluateDecideRules input deps store))) = Allow" using out all by simp
  then show ?thesis
    unfolding all using rules_call_allows [OF allow] by (intro rules_answered [OF allow r enforce]) simp_all
next
  case (some q95 rules ev)
  let ?i = "in_budget input deps q95"
  have asks: "\<not> (ev_rules ev = [] \<and> co_outcome (ev_call ev) \<noteq> Allow)"
    and ok: "\<And>rp. rp \<in> set rules \<Longrightarrow> rp_effective rp = Enforce \<Longrightarrow> rp_outcome rp = RAllow"
    using out some(5) by (auto simp: call_allows_iff split: if_splits)
  have i: "in_deterministic ?i = BeforeAllow" "in_tool ?i = in_tool input" using allow by (simp_all add: in_budget_def)
  have engine: "map_option mi_modelDigest (ev_engine ev) \<in> {None, digest_of deps}"
    using i(1) by (cases rule: evaluateDecideRules_cases [where deps = deps and store = store])
      (simp_all add: some(2) identity_digest)
  have "\<not> over_budget input deps q95 r"
  proof
    assume "over_budget input deps q95 r"
    then have mem: "skipped_report deps (map_option mi_modelDigest (ev_engine ev)) r \<in> set rules"
      using r(1) by (simp add: some(3))
    moreover have "runs_as deps r (map_option mi_modelDigest (ev_engine ev)) = Enforce"
      using engine enforce runs_as_None by auto
    ultimately show False using ok [OF mem] by (simp add: skipped_report_simps)
  qed
  then have "r \<in> set (in_rules ?i)" using r(1) by (simp add: in_budget_def)
  moreover have "co_outcome (ev_call (fst (evaluateDecideRules ?i deps store))) = Allow \<or> ev_rules (fst (evaluateDecideRules ?i deps store)) \<noteq> []"
    using asks by (auto simp: some(2))
  moreover have "rp_outcome rp = RAllow"
    if "rp \<in> set (ev_rules (fst (evaluateDecideRules ?i deps store)))" "rp_effective rp = Enforce" for rp
    using ok that by (simp add: some(2,3))
  ultimately have "\<exists>rp \<in> set (ev_rules (fst (evaluateDecideRules ?i deps store))). answered deps r rp"
    using r(2) enforce i by (intro rules_answered) simp_all
  then show ?thesis by (auto simp: some(2-4))
qed

lemma report_record:
  assumes "rp \<in> set (ev_rules (fst (evaluateDecideRules input deps store)))" "in_deterministic input = BeforeAllow"
  shows "\<exists>r \<in> set (in_rules input). names_tool r (in_tool input) \<and> rp_ref rp = rc_ref r \<and> rp_effective rp = runs_as deps r (rp_modelDigest rp)"
  using assms(2)
proof (cases rule: evaluateDecideRules_cases [where deps = deps and store = store])
  case asked
  with assms(1) obtain e where e: "rp = report_of input deps store e" "e \<in> set (sel_evaluate (selection_of input deps))" by auto
  from e(2) obtain r where r: "r \<in> set (in_rules input)" "names_tool r (in_tool input)" "e = eval_entry deps (digest_of deps) r"
    by (rule selected_from)
  then show ?thesis
    using report_simps [of input deps store e] by (auto simp: e(1) runs_as_def)
qed (use assms(1) in auto)

lemma call_report_record:
  assumes "rp \<in> set (ev_rules (fst (evaluateDecideCall input deps store)))" "in_deterministic input = BeforeAllow"
  shows "\<exists>r \<in> set (in_rules input). names_tool r (in_tool input) \<and> rp_ref rp = rc_ref r \<and> rp_effective rp = runs_as deps r (rp_modelDigest rp)"
  using assms(2)
proof (cases rule: evaluateDecideCall_cases [where deps = deps and store = store])
  case all
  then show ?thesis using report_record assms by simp
next
  case (some q95 rules ev)
  from assms(1) some(3,4) consider
      "rp \<in> set (ev_rules (fst (evaluateDecideRules (in_budget input deps q95) deps store)))"
    | r where "r \<in> set (in_rules input)" "over_budget input deps q95 r" "rp = skipped_report deps (map_option mi_modelDigest (ev_engine ev)) r"
    by (auto simp: some(2))
  then show ?thesis
  proof cases
    case 1
    then show ?thesis using report_record [OF 1] assms(2) by (auto simp: in_budget_def)
  next
    case 2
    then show ?thesis by (intro bexI [of _ r]) (auto simp: skipped_report_simps over_budget_def)
  qed
qed

lemma runs_as_enforce:
  assumes "runs_as deps r d = Enforce"
  shows "json_field (rc_ir r) ''rollout'' = Some (JStr ''enforce'') \<and> rc_rollout r = Enforce
       \<and> rule_check (dp_numStr deps) (dp_sha256Hex deps) (rc_ir r) = Some (rc_ruleHash r)
       \<and> (\<forall>m. d = Some m \<longrightarrow> m \<in> pn_modelDigest ` set (rc_pins r))"
  using enforce_cases [of "r\<lparr>rc_pins := earned_pins deps r\<rparr>" d] assms
  by (auto simp: runs_as_def earned_pins_def split: if_splits)

lemma canary_discards:
  assumes "in_deterministic input = BeforeAllow" "ev_canary (fst (evaluateDecideRules input deps store)) = Some CanaryBad"
    and "rp \<in> set (ev_rules (fst (evaluateDecideRules input deps store)))"
  shows "rp_answers rp = None \<and> rp_outcome rp = RUnavailable"
  using assms(1)
proof (cases rule: evaluateDecideRules_cases [where deps = deps and store = store])
  case asked
  with assms(2) have "cp_error (canary_phase_of deps (identity_of deps) store) \<noteq> None"
    by (auto simp: canary_phase_of_def run_canary_def Let_def split: sum.splits option.splits if_splits)
  with asked(2) assms(3) show ?thesis
    by (auto simp: report_of_def rule_report_def Let_def)
qed (use assms in auto)


section \<open>Properties\<close>

text \<open>C2: An allowed call has been allowed by every rule that enforces.  When nothing before decide
  refused or held the call and the call is allowed, each of its rules that enforces for the model
  the engine named has a report, which allows, unless another model answered that rule's questions
  and the rule has no pin for it.  A rule over the time budget, an engine error or a surplus of rules
  cannot let the call through.\<close>

theorem evaluateDecideCall_allow:
  assumes "in_deterministic input = BeforeAllow" "r \<in> set (in_rules input)" "names_tool r (in_tool input)"
    and "runs_as deps r (digest_of deps) = Enforce"
    and "co_outcome (ev_call (fst (evaluateDecideCall input deps store))) = Allow"
  shows "\<exists>rp \<in> set (ev_rules (fst (evaluateDecideCall input deps store))). rp_ref rp = rc_ref r
       \<and> (rp_effective rp = Enforce \<and> rp_outcome rp = RAllow
          \<or> rp_effective rp = Shadow \<and> rp_modelDigest rp \<noteq> digest_of deps)"
  using call_answered [OF assms] by (auto simp: answered_def)

text \<open>C19: A rule enforces on a call only when its author and its snapshot stamp say so, its record's hash
  is its own rule's, and one of its pins is for the model that answered it.\<close>

theorem evaluateDecideCall_pins:
  assumes "rp \<in> set (ev_rules (fst (evaluateDecideCall input deps store)))" "in_deterministic input = BeforeAllow"
    and "rp_effective rp = Enforce"
  shows "\<exists>r \<in> set (in_rules input). rp_ref rp = rc_ref r \<and> names_tool r (in_tool input)
       \<and> json_field (rc_ir r) ''rollout'' = Some (JStr ''enforce'') \<and> rc_rollout r = Enforce
       \<and> rule_check (dp_numStr deps) (dp_sha256Hex deps) (rc_ir r) = Some (rc_ruleHash r)
       \<and> (\<forall>m. rp_modelDigest rp = Some m \<longrightarrow> m \<in> pn_modelDigest ` set (rc_pins r))"
  using call_report_record [OF assms(1,2)] assms(3) runs_as_enforce by metis

text \<open>Shadow rules never change the call: when no rule on the tool runs to enforce, the call is
  allowed whatever the engine, the canary and the clock do.\<close>

theorem evaluateDecideCall_shadow:
  assumes "in_deterministic input = BeforeAllow"
    and "\<And>r. r \<in> set (in_rules input) \<Longrightarrow> names_tool r (in_tool input) \<Longrightarrow> runs_as deps r None = Shadow"
  shows "co_outcome (ev_call (fst (evaluateDecideCall input deps store))) = Allow"
proof -
  have shadow: "rp_effective rp = Shadow" if "rp \<in> set (ev_rules (fst (evaluateDecideCall input deps store)))" for rp
    using call_report_record [OF that assms(1)] assms(2) runs_as_None by (metis Rollout.exhaust)
  have rules: "co_outcome (ev_call (fst (evaluateDecideRules i deps store))) = Allow"
    if "in_deterministic i = BeforeAllow" "set (in_rules i) \<subseteq> set (in_rules input)" "in_tool i = in_tool input" for i
    using that(1)
  proof (cases rule: evaluateDecideRules_cases [where deps = deps and store = store])
    case none
    then show ?thesis by (simp add: ALLOW_def)
  next
    case surplus
    then obtain e where "e \<in> set (map (eval_entry deps (digest_of deps)) (filter (\<lambda>r. names_tool r (in_tool i)) (in_rules i)))"
      "dc_effective e = Enforce"
      unfolding selection_of_def using surplus_enforces by blast
    then obtain r where r: "r \<in> set (in_rules i)" "names_tool r (in_tool i)" "runs_as deps r (digest_of deps) = Enforce"
      by (auto simp: runs_as_def)
    with assms(2) [of r] that(2,3) runs_as_None [OF r(3)] show ?thesis by auto
  next
    case asked
    have "rp_effective rp \<noteq> Enforce" if rp: "rp \<in> set (ev_rules (fst (evaluateDecideRules i deps store)))" for rp
    proof
      assume "rp_effective rp = Enforce"
      with report_record [OF rp \<open>in_deterministic i = BeforeAllow\<close>] obtain r where
        r: "r \<in> set (in_rules i)" "names_tool r (in_tool i)" "runs_as deps r (rp_modelDigest rp) = Enforce" by auto
      with assms(2) [of r] \<open>set (in_rules i) \<subseteq> _\<close> \<open>in_tool i = _\<close> runs_as_None [OF r(3)] show False by auto
    qed
    then show ?thesis unfolding asked(5) call_allows_iff by blast
  qed
  from assms(1) show ?thesis
  proof (cases rule: evaluateDecideCall_cases [where deps = deps and store = store])
    case all
    then show ?thesis using rules [of input] assms(1) by simp
  next
    case (some q95 rules' ev)
    have "co_outcome (decideCallOutcome None (map rule_result rules')) = Allow"
      using shadow by (simp add: some(4) call_allows_iff)
    then show ?thesis
      using rules [of "in_budget input deps q95"] assms(1) unfolding some(5) by (auto simp: some(2) in_budget_def)
  qed
qed

text \<open>A wrongly answered canary discards every answer: with no budget in force each evaluated rule
  is unavailable, and no report carries an answer.\<close>

theorem evaluateDecideCall_canary:
  assumes "in_deterministic input = BeforeAllow" "dp_q95Ms deps = None"
    and "ev_canary (fst (evaluateDecideCall input deps store)) = Some CanaryBad"
  shows "list_all (\<lambda>rp. rp_answers rp = None \<and> rp_outcome rp = RUnavailable) (ev_rules (fst (evaluateDecideCall input deps store)))"
  using canary_discards [OF assms(1), of deps store] assms(2,3) by (simp add: list_all_iff evaluateDecideCall_def)


section \<open>Witnesses\<close>

definition gate_identity :: DecideModelIdentity where
  "gate_identity = \<lparr>mi_model = ''m'', mi_modelDigest = ''sha256:0'', mi_strong = True\<rparr>"

definition gate_engine :: engine_ops where
  "gate_engine = \<lparr>eo_describe = Inr gate_identity,
     eo_ask = (\<lambda>_ _. Inr \<lparr>er_identity = gate_identity, er_answers = [(''risky'', \<lparr>an_p = Some (1 / 100), an_perOrder = None\<rparr>)]\<rparr>)\<rparr>"

definition gate_deps :: "unit DecideEvaluateDeps" where
  "gate_deps =
     \<lparr>dp_engine = Inr gate_engine, dp_engineUrl = ''u'',
      dp_read = (\<lambda>_ u d. Some \<lparr>ca_url = u, ca_modelDigest = d, ca_ok = True, ca_atMs = 0, ca_pViolation = 1, ca_pClean = 0, ca_choiceTop = ''''\<rparr>),
      dp_write = (\<lambda>_ s. Some s), dp_sha256Hex = sample_sha, dp_now = 0, dp_q95Ms = None, dp_parallel = 1,
      dp_numStr = (\<lambda>_. ''1''), dp_log = id, dp_exp = id\<rparr>"

definition gate_record :: DecideRecord where "gate_record = as_record sample_record"

definition gate_input :: DecideEvaluateInput where
  "gate_input =
     \<lparr>in_deterministic = BeforeAllow, in_tool = ''Bash'', in_toolInput = Some (JObj []), in_cwd = ''/'', in_lastUserTurn = None,
      in_rules = [gate_record], in_deadlineMs = 1000\<rparr>"

definition gate_rule :: DecideRule where "gate_rule = as_rule (rc_ir gate_record)"

lemma gate_facts:
  "names_tool gate_record ''Bash''"
  "rule_check (\<lambda>_. ''1'') sample_sha (rc_ir gate_record) = Some (rc_ruleHash gate_record)"
  "json_field (rc_ir gate_record) ''rollout'' = Some (JStr ''enforce'')" "rc_rollout gate_record = Enforce"
  "map pn_modelDigest (rc_pins gate_record) = [''sha256:0'']" "map pn_combiner (rc_pins gate_record) = [None]"
  "rc_ref gate_record = ''sop-1#prod-write''"
  by code_simp+

lemma gate_validates: "validateDecideRule (rc_ir gate_record) = Inr (gate_rule, EYes ''risky'')"
proof -
  have "(case validateDecideRule (rc_ir gate_record) of Inl _ \<Rightarrow> None | Inr (rule, e) \<Rightarrow> Some e) = Some (EYes ''risky'')" by code_simp
  then obtain rule where "validateDecideRule (rc_ir gate_record) = Inr (rule, EYes ''risky'')"
    by (auto split: sum.splits)
  moreover from this have "rule = gate_rule"
    by (auto simp: validateDecideRule_def gate_rule_def Let_def split: option.splits sum.splits)
  ultimately show ?thesis by simp
qed

lemma gate_runs: "runs_as gate_deps gate_record (digest_of gate_deps) = Enforce"
proof -
  obtain p where p: "rc_pins gate_record = [p]" "pn_modelDigest p = ''sha256:0''"
    using gate_facts(5) by (auto simp: map_eq_Cons_conv)
  then show ?thesis
    by (simp add: runs_as_def decideEffectiveRollout_def gate_facts earned_pins_def digest_of_def described_def gate_deps_def
        gate_engine_def gate_identity_def)
qed

lemma gate_outcome:
  "ro_outcome (decideRuleOutcome l x gate_rule (EYes ''risky'') [(''risky'', \<lparr>an_p = Some (1 / 100), an_perOrder = None\<rparr>)] None) = Allow"
proof -
  have "ro_outcome (decideRuleOutcome id id gate_rule (EYes ''risky'') [(''risky'', \<lparr>an_p = Some (1 / 100), an_perOrder = None\<rparr>)] None) = Allow"
    by code_simp
  then show ?thesis by (simp add: decideRuleOutcome_def Let_def split: Tri.splits)
qed

lemma gate_state: "\<not> isl (rule_state gate_deps gate_input gate_record gate_rule)"
proof -
  have "length (rl_id gate_rule) + length (rc_sopTitle gate_record) + length (rc_ruleText gate_record) + length ''Bash'' + length ''/''
      + length (decideCanonicalJson (\<lambda>_. ''1'') (JObj [])) \<le> 4000"
    by code_simp
  from build_fits [OF this] show ?thesis
    by (simp add: rule_state_def gate_input_def gate_deps_def)
qed

lemma gate_report:
  "rp_outcome (report_of gate_input gate_deps () (eval_entry gate_deps (digest_of gate_deps) gate_record)) = RAllow
   \<and> rp_effective (report_of gate_input gate_deps () (eval_entry gate_deps (digest_of gate_deps) gate_record)) = Enforce"
proof -
  obtain st where st: "rule_state gate_deps gate_input (gate_record\<lparr>rc_pins := earned_pins gate_deps gate_record\<rparr>) gate_rule = Inr st"
    using gate_state by (auto simp: rule_state_def isl_def) (metis sum.exhaust)
  obtain p where p: "rc_pins gate_record = [p]" "pn_modelDigest p = ''sha256:0''" "pn_combiner p = None"
    using gate_facts(5,6) by (auto simp: map_eq_Cons_conv)
  have pins: "earned_pins gate_deps gate_record = [p]"
    using p gate_facts(2) by (simp add: earned_pins_def gate_deps_def)
  have engine: "dp_engine gate_deps = Inr gate_engine" "described gate_deps = Inr gate_identity"
    by (simp_all add: gate_deps_def described_def gate_engine_def)
  have canary: "cp_error (canary_phase_of gate_deps (identity_of gate_deps) ()) = None"
    by (simp add: canary_phase_of_def identity_of_def engine run_canary_def)
      (simp add: gate_deps_def decideCanaryFresh_def DECIDE_CANARY_TTL_MS_def)
  have "askRule gate_deps gate_input (describe_error gate_deps) (eval_entry gate_deps (digest_of gate_deps) gate_record)
      = \<lparr>as_answers = Some [(''risky'', \<lparr>an_p = Some (1 / 100), an_perOrder = None\<rparr>)], as_error = None, as_modelDigest = Some ''sha256:0''\<rparr>"
    using st by (simp add: askRule_def engine describe_error_def gate_validates) (simp add: gate_engine_def gate_identity_def)
  then show ?thesis
    by (simp add: report_of_def rule_report_def canary makes_unavailable_def gate_validates pins p gate_facts decideEffectiveRollout_def
        pin_combiner_def gate_outcome rule_verdict_def Let_def)
qed

lemma gate_allows: "co_outcome (ev_call (fst (evaluateDecideCall gate_input gate_deps ()))) = Allow"
proof -
  have one: "evaluateDecideCall gate_input gate_deps () = evaluateDecideRules gate_input gate_deps ()"
    by (simp add: evaluateDecideCall_def gate_deps_def)
  have det: "in_deterministic gate_input = BeforeAllow" by (simp add: gate_input_def)
  show ?thesis
    using det
  proof (cases rule: evaluateDecideRules_cases [where deps = gate_deps and store = "()"])
    case none
    then show ?thesis by (simp add: one ALLOW_def)
  next
    case surplus
    then show ?thesis
      by (simp add: one selection_of_def selectDecideRules_def gate_input_def Let_def DECIDE_MAX_RULES_PER_CALL_def split: if_splits)
  next
    case asked
    have "rp_outcome rp = RAllow" if "rp \<in> set (ev_rules (fst (evaluateDecideRules gate_input gate_deps ())))" for rp
    proof -
      from that asked(2) obtain e where e: "rp = report_of gate_input gate_deps () e" "e \<in> set (sel_evaluate (selection_of gate_input gate_deps))" by auto
      from e(2) obtain r where "r \<in> set (in_rules gate_input)" "e = eval_entry gate_deps (digest_of gate_deps) r"
        by (rule selected_from)
      then show ?thesis using gate_report e(1) by (simp add: gate_input_def)
    qed
    then show ?thesis unfolding one asked(5) call_allows_iff by blast
  qed
qed

theorem evaluateDecideCall_allow_witness:
  "\<exists>rp \<in> set (ev_rules (fst (evaluateDecideCall gate_input gate_deps ()))). rp_ref rp = ''sop-1#prod-write''"
proof -
  have "in_deterministic gate_input = BeforeAllow" "gate_record \<in> set (in_rules gate_input)" "names_tool gate_record (in_tool gate_input)"
    using gate_facts(1) by (simp_all add: gate_input_def)
  from evaluateDecideCall_allow [OF this gate_runs gate_allows] gate_facts(7) show ?thesis by auto
qed

lemma gate_reports: "evaluateDecideCall gate_input gate_deps () = evaluateDecideRules gate_input gate_deps ()"
  by (simp add: evaluateDecideCall_def gate_deps_def)

theorem evaluateDecideCall_pins_witness:
  "\<exists>rp. rp_effective rp = Enforce \<and> rp \<in> set (ev_rules (fst (evaluateDecideCall gate_input gate_deps ())))
     \<and> (\<exists>r \<in> set (in_rules gate_input). rp_ref rp = rc_ref r \<and> rc_rollout r = Enforce)"
proof -
  have det: "in_deterministic gate_input = BeforeAllow" by (simp add: gate_input_def)
  have named: "gate_record \<in> set (in_rules gate_input)" "names_tool gate_record (in_tool gate_input)"
    using gate_facts(1) by (simp_all add: gate_input_def)
  have "described gate_deps = Inr gate_identity" by (simp add: gate_deps_def described_def gate_engine_def)
  from call_answered [OF det named gate_runs gate_allows] obtain rp where
    rp: "rp \<in> set (ev_rules (fst (evaluateDecideCall gate_input gate_deps ())))" "answered gate_deps gate_record rp" by blast
  have "rp_effective rp = Enforce"
    using det
  proof (cases rule: evaluateDecideRules_cases [where deps = gate_deps and store = "()"])
    case asked
    with rp(1) obtain e where e: "rp = report_of gate_input gate_deps () e" "e \<in> set (sel_evaluate (selection_of gate_input gate_deps))"
      by (auto simp: gate_reports)
    from e(2) obtain r where "r \<in> set (in_rules gate_input)" "e = eval_entry gate_deps (digest_of gate_deps) r" by (rule selected_from)
    with e(1) show ?thesis using gate_report by (simp add: gate_input_def)
  qed (use rp(1) in \<open>simp_all add: gate_reports\<close>)
  with rp(1) evaluateDecideCall_pins [OF rp(1) det this] show ?thesis by blast
qed

theorem evaluateDecideCall_shadow_witness:
  "co_outcome (ev_call (fst (evaluateDecideCall (gate_input\<lparr>in_rules := [gate_record\<lparr>rc_rollout := Shadow\<rparr>]\<rparr>) sample_deps None))) = Allow"
  by (rule evaluateDecideCall_shadow) (auto simp: gate_input_def runs_as_def decideEffectiveRollout_def runs_shadow_def)

definition stuck_engine :: engine_ops where
  "stuck_engine = \<lparr>eo_describe = Inr gate_identity, eo_ask = stuck_ask\<rparr>"

definition stuck_deps :: "canary_file DecideEvaluateDeps" where
  "stuck_deps = sample_deps\<lparr>dp_engine := Inr stuck_engine\<rparr>"

lemma stuck_status: "ev_canary (fst (evaluateDecideCall gate_input stuck_deps None)) = Some CanaryBad"
proof -
  have one: "evaluateDecideCall gate_input stuck_deps None = evaluateDecideRules gate_input stuck_deps None"
    by (simp add: evaluateDecideCall_def stuck_deps_def sample_deps_def)
  have det: "in_deterministic gate_input = BeforeAllow" by (simp add: gate_input_def)
  have stale: "\<not> decideCanaryFresh (dp_read stuck_deps None (dp_engineUrl stuck_deps) d) (dp_now stuck_deps)" for d
    by (simp add: stuck_deps_def sample_deps_def canary_read_def canary_readAll_def decideCanaryFresh_def)
  have engine: "dp_engine stuck_deps = Inr stuck_engine" "described stuck_deps = Inr gate_identity"
    by (simp_all add: stuck_deps_def described_def stuck_engine_def)
  have run: "runDecideCanary (dp_numStr stuck_deps) (eo_ask stuck_engine) = Inr canary_run"
    using canary_run_ok by (simp add: stuck_deps_def sample_deps_def stuck_engine_def)
  have bad: "cp_status (canary_phase_of stuck_deps (identity_of stuck_deps) None) = Some CanaryBad"
    using stuck_canary by (simp add: canary_phase_of_def identity_of_def engine run_canary_ran [OF stale run])
  show ?thesis
    using det
  proof (cases rule: evaluateDecideRules_cases [where deps = stuck_deps and store = None])
    case none
    then show ?thesis using gate_facts(1) by (simp add: gate_input_def)
  next
    case surplus
    then show ?thesis
      by (simp add: one selection_of_def selectDecideRules_def gate_input_def Let_def DECIDE_MAX_RULES_PER_CALL_def split: if_splits)
  next
    case asked
    then show ?thesis by (simp add: one bad)
  qed
qed

theorem evaluateDecideCall_canary_witness:
  "list_all (\<lambda>rp. rp_answers rp = None \<and> rp_outcome rp = RUnavailable) (ev_rules (fst (evaluateDecideCall gate_input stuck_deps None)))"
  by (rule evaluateDecideCall_canary [OF _ _ stuck_status])
    (simp_all add: gate_input_def stuck_deps_def sample_deps_def)

end
