(* ===== verification/TestOutcome.thy ===== *)
theory TestOutcome
  imports ScopeMatch "HOL-Library.AList"
begin

text \<open>
  Test outcomes (\<open>packages/shared-types/src/testOutcome.ts\<close>): the reading of a test run's
  result out of what a surface saw of it (\<open>extractExitCode\<close>, \<open>parseTestSummaries\<close>,
  \<open>decideTestOutcome\<close>), the state a gate keeps of the latest outcome per token
  (\<open>recordTestOutcome\<close>, \<open>noteCompletedCall\<close>) and the answer to whether a qualified
  \<open>requires_before\<close> is met now (\<open>prerequisiteCase\<close>).

  The regular expressions are written out as the scanners they are: every one is anchored, and
  where one can backtrack (the blank runs of jest's and vitest's lines, pytest's last
  \<open> in \<close>) the scanner says which match the greedy search finds.  \<open>JSON.parse\<close> is the
  parameter \<open>jsonParse\<close> (\<^const>\<open>None\<close>: it throws).
\<close>

section \<open>Reading the output of a run\<close>

datatype TestOutcome = OutcomeOk | OutcomeFailed | OutcomeUnknown

datatype TestOutcomeWhy =
  WhyExitCode | WhyIsError | WhySuccessFalse | WhySummaryFailed | WhyNoTests | WhyExitZero | WhySummaryPassed | WhyNoSignal

fun outcome_why :: "TestOutcomeWhy \<Rightarrow> string" where
  "outcome_why WhyExitCode = ''exit_code''"
| "outcome_why WhyIsError = ''is_error''"
| "outcome_why WhySuccessFalse = ''success_false''"
| "outcome_why WhySummaryFailed = ''summary_failed''"
| "outcome_why WhyNoTests = ''no_tests''"
| "outcome_why WhyExitZero = ''exit_zero''"
| "outcome_why WhySummaryPassed = ''summary_passed''"
| "outcome_why WhyNoSignal = ''no_signal''"

text \<open>An \<open>exitCode\<close> that is not a number is \<^const>\<open>None\<close>, as is an absent flag or output.\<close>

record TestOutcomeInput =
  ti_exitCode :: "rat option"
  ti_isError :: "bool option"
  ti_success :: "bool option"
  ti_output :: "string option"

record TestOutcomeDecision =
  td_outcome :: TestOutcome
  td_why :: TestOutcomeWhy

datatype Runner = Pytest | Jest | Vitest | Go | Cargo | Mocha | Rspec

record TestRunnerSummary =
  ts_runner :: Runner
  ts_passed :: nat
  ts_failed :: nat
  ts_noTests :: bool

definition TEST_OUTPUT_TAIL_BYTES :: nat where "TEST_OUTPUT_TAIL_BYTES = 65536"
definition TEST_OUTPUT_LINE_BYTES :: nat where "TEST_OUTPUT_LINE_BYTES = 1024"
definition TEST_OUTPUT_JSON_MAX_CHARS :: nat where "TEST_OUTPUT_JSON_MAX_CHARS = 1048576"
definition OUTCOME_STATE_TTL_MS :: rat where "OUTCOME_STATE_TTL_MS = 86400000"

text \<open>In the model's alphabet a code unit is one or two bytes (\<^const>\<open>unit_bytes\<close>), and no unit is
  half of a pair.\<close>

fun testOutcomeUtf8Head :: "string \<Rightarrow> nat \<Rightarrow> string" where
  "testOutcomeUtf8Head [] m = []"
| "testOutcomeUtf8Head (c # s) m =
     (if m < unit_bytes c then [] else c # testOutcomeUtf8Head s (m - unit_bytes c))"

definition testOutcomeUtf8Tail :: "string \<Rightarrow> nat \<Rightarrow> string" where
  "testOutcomeUtf8Tail s m = rev (testOutcomeUtf8Head (rev s) m)"

definition is_blank :: "char \<Rightarrow> bool" where
  "is_blank c \<longleftrightarrow> c = CHR '' '' \<or> c = CHR 0x09"

text \<open>\<open>.replace(/\x1b\[[0-9;?]*[A-Za-z]/g, '')\<close>\<close>

definition ansi_sequence :: "string \<Rightarrow> string option" where
  "ansi_sequence s =
     (case s of
        e # b # r \<Rightarrow>
          if e = CHR 0x1B \<and> b = CHR ''['' then
            (case dropWhile (\<lambda>c. is_digit c \<or> c = CHR '';'' \<or> c = CHR ''?'') r of
               a # t \<Rightarrow> if is_az a \<or> is_AZ a then Some t else None
             | [] \<Rightarrow> None)
          else None
      | _ \<Rightarrow> None)"

lemma ansi_sequence_shorter: "ansi_sequence s = Some t \<Longrightarrow> length t < length s"
proof -
  assume "ansi_sequence s = Some t"
  then obtain e b r a where "s = e # b # r"
    "dropWhile (\<lambda>c. is_digit c \<or> c = CHR '';'' \<or> c = CHR ''?'') r = a # t"
    by (auto simp: ansi_sequence_def split: list.splits if_splits)
  moreover from this(2) have "length (a # t) \<le> length r" by (metis length_dropWhile_le)
  ultimately show ?thesis by simp
qed

function (sequential) strip_ansi :: "string \<Rightarrow> string" where
  "strip_ansi [] = []"
| "strip_ansi (c # s) =
     (case ansi_sequence (c # s) of Some t \<Rightarrow> strip_ansi t | None \<Rightarrow> c # strip_ansi s)"
  by pat_completeness auto
termination by (relation "measure length") (auto dest: ansi_sequence_shorter)

definition testOutcomeLines :: "string \<Rightarrow> string list" where
  "testOutcomeLines s =
     map (\<lambda>raw. strip_ansi (filter (\<lambda>c. c \<noteq> CHR 0x0D) (testOutcomeUtf8Head raw TEST_OUTPUT_LINE_BYTES)))
       (split_on (CHR 0x0A) s)"

definition is_integer_rat :: "rat \<Rightarrow> bool" where
  "is_integer_rat r \<longleftrightarrow> of_int \<lfloor>r\<rfloor> = r"

definition testOutcomeIntegerOrNull :: "json option \<Rightarrow> int option" where
  "testOutcomeIntegerOrNull v =
     (case v of
        Some (JNum r) \<Rightarrow> if is_integer_rat r \<and> \<bar>r\<bar> \<le> 2 ^ 53 - 1 then Some \<lfloor>r\<rfloor> else None
      | _ \<Rightarrow> None)"

text \<open>\<open>[0-9]{1,9}\<close> followed by something that is not a digit, and by anything.\<close>

definition number_then :: "string \<Rightarrow> (nat \<times> string) option" where
  "number_then s =
     (let d = takeWhile is_digit s in
      if d \<noteq> [] \<and> length d \<le> 9 then Some (digits_value d, dropWhile is_digit s) else None)"

definition number_prefix :: "string \<Rightarrow> nat option" where
  "number_prefix s =
     (let d = take 9 (takeWhile is_digit s) in if d \<noteq> [] then Some (digits_value d) else None)"

definition signed :: "(string \<Rightarrow> nat option) \<Rightarrow> string \<Rightarrow> int option" where
  "signed num s =
     (case s of
        c # r \<Rightarrow> if c = CHR ''-'' then map_option (\<lambda>n. - int n) (num r) else map_option int (num s)
      | [] \<Rightarrow> None)"

definition number_all :: "string \<Rightarrow> nat option" where
  "number_all s = (case number_then s of Some (n, []) \<Rightarrow> Some n | _ \<Rightarrow> None)"

definition exit_line :: "string \<Rightarrow> int option" where
  "exit_line line =
     or_else
       (if map ascii_lower_char (take 9 line) = ''exit code''
        then Option.bind (after_prefix '' '' (optional_char (CHR '':'') (drop 9 line))) (signed number_all) else None)
     (or_else (Option.bind (after_prefix ''exit status '' line) (\<lambda>r. map_option int (number_all r)))
     (or_else (Option.bind (after_prefix ''Process exited with code '' line) (signed number_prefix))
              (Option.bind (after_prefix ''Command exited with code '' line) (signed number_prefix))))"

definition strip_blanks :: "string \<Rightarrow> string" where
  "strip_blanks s = rev (dropWhile is_blank (rev (dropWhile is_blank s)))"

text \<open>The exit code of a whole-output JSON object.\<close>

definition json_object :: "json option \<Rightarrow> (string \<times> json) list option" where
  "json_object v = (case v of Some (JObj kvs) \<Rightarrow> Some kvs | _ \<Rightarrow> None)"

definition json_exit_code :: "json \<Rightarrow> int option" where
  "json_exit_code v =
     (case v of
        JObj o' \<Rightarrow>
          or_else (case json_object (map_of o' ''metadata'') of
                     Some m \<Rightarrow> testOutcomeIntegerOrNull (map_of m ''exit_code'') | None \<Rightarrow> None)
          (or_else (testOutcomeIntegerOrNull (map_of o' ''exit_code''))
                   (testOutcomeIntegerOrNull (map_of o' ''exitCode'')))
      | _ \<Rightarrow> None)"

definition extractExitCode :: "(string \<Rightarrow> json option) \<Rightarrow> string option \<Rightarrow> int option" where
  "extractExitCode jsonParse output =
     (case output of
        None \<Rightarrow> None
      | Some s \<Rightarrow>
          if s = '''' then None
          else
            let trimmed = trim s;
                whole = (if length trimmed \<le> TEST_OUTPUT_JSON_MAX_CHARS \<and> char_at trimmed 0 = Some (CHR ''{'')
                            \<and> char_at trimmed (length trimmed - 1) = Some (CHR ''}'')
                         then Option.bind (jsonParse trimmed) json_exit_code else None);
                hd' = testOutcomeUtf8Head s TEST_OUTPUT_TAIL_BYTES;
                parts = (if length hd' = length s then [hd']
                         else [hd', testOutcomeUtf8Tail (drop (length hd') s) TEST_OUTPUT_TAIL_BYTES])
            in or_else whole
                 (first_some (\<lambda>part. first_some (\<lambda>raw. exit_line (strip_blanks raw)) (testOutcomeLines part)) parts))"

section \<open>The runners' summaries\<close>

text \<open>\<open>counts\<close> is the words counted, each with its sum; only \<open>passed\<close>, \<open>failed\<close>,
  \<open>error\<close>, \<open>errors\<close> and \<open>total\<close> are ever read.\<close>

definition count_piece :: "string \<Rightarrow> (string \<times> nat) option" where
  "count_piece piece =
     (case number_then (dropWhile is_blank piece) of
        Some (n, c # r) \<Rightarrow>
          if c = CHR '' '' \<and> takeWhile is_az r \<noteq> [] then Some (takeWhile is_az r, n) else None
      | _ \<Rightarrow> None)"

definition add_count :: "(string \<times> nat) option \<Rightarrow> (string \<times> nat) list \<Rightarrow> (string \<times> nat) list" where
  "add_count piece counts =
     (case piece of
        None \<Rightarrow> counts
      | Some (w, n) \<Rightarrow> AList.update w ((case map_of counts w of None \<Rightarrow> 0 | Some m \<Rightarrow> m) + n) counts)"

definition testOutcomeCounts :: "string \<Rightarrow> (string \<times> nat) list" where
  "testOutcomeCounts s =
     fold (\<lambda>piece. add_count (count_piece piece)) (concat (map (split_on (CHR ''|'')) (split_on (CHR '','') s))) []"

definition count_of :: "(string \<times> nat) list \<Rightarrow> string \<Rightarrow> nat" where
  "count_of counts w = (case map_of counts w of None \<Rightarrow> 0 | Some n \<Rightarrow> n)"

text \<open>\<open>^=+ (.+) in [0-9.]+s.* =+$\<close>: the greedy group ends at the last \<open> in \<close> the rest matches
  after.\<close>

definition after_equals :: "string \<Rightarrow> string option" where
  "after_equals s = (if prefix ''='' s then after_prefix '' '' (dropWhile (\<lambda>c. c = CHR ''='') s) else None)"

definition pytest_tail :: "string \<Rightarrow> bool" where
  "pytest_tail s \<longleftrightarrow>
     (let d = takeWhile (\<lambda>c. is_digit c \<or> c = CHR ''.'') s;
          r = dropWhile (\<lambda>c. is_digit c \<or> c = CHR ''.'') s
      in d \<noteq> [] \<and> prefix ''s'' r
         \<and> prefix ''='' (rev (drop 1 r)) \<and> prefix '' '' (dropWhile (\<lambda>c. c = CHR ''='') (rev (drop 1 r))))"

definition greedy_before :: "string \<Rightarrow> (string \<Rightarrow> bool) \<Rightarrow> string \<Rightarrow> string option" where
  "greedy_before sep ok s =
     map_option (\<lambda>i. take i s)
       (List.find (\<lambda>i. prefix sep (drop i s) \<and> ok (drop (i + length sep) s)) (rev [1..<length s + 1]))"

definition pytest_line :: "string \<Rightarrow> string option" where
  "pytest_line line = Option.bind (after_equals line) (greedy_before '' in '' pytest_tail)"

text \<open>\<open>[ \t]+(.+)$\<close>: the blanks are greedy, and give one back when nothing else is left.\<close>

definition blanks_then :: "string \<Rightarrow> string option" where
  "blanks_then s =
     (let b = takeWhile is_blank s; r = dropWhile is_blank s in
      if b = [] then None
      else if r \<noteq> [] then Some r
      else if 2 \<le> length b then Some [last b] else None)"

definition jest_line :: "string \<Rightarrow> string option" where
  "jest_line line = Option.bind (after_prefix ''Tests:'' line) blanks_then"

definition vitest_line :: "string \<Rightarrow> string option" where
  "vitest_line line = Option.bind (after_prefix ''Tests'' (dropWhile is_blank line)) blanks_then"

definition go_ok_line :: "string \<Rightarrow> bool" where
  "go_ok_line line \<longleftrightarrow>
     (case after_prefix ''ok'' line of
        None \<Rightarrow> False
      | Some r \<Rightarrow> takeWhile is_blank r \<noteq> [] \<and> dropWhile is_blank r \<noteq> [])"

definition go_fail_line :: "string \<Rightarrow> bool" where
  "go_fail_line line \<longleftrightarrow>
     (case after_prefix ''FAIL'' line of None \<Rightarrow> False | Some [] \<Rightarrow> True | Some (c # r) \<Rightarrow> is_blank c)
     \<or> prefix ''--- FAIL:'' line"

text \<open>\<open>test result: (ok|FAILED)\. N passed; M failed;\<close>\<close>

definition cargo_counts :: "string \<Rightarrow> (nat \<times> nat) option" where
  "cargo_counts s =
     Option.bind (number_then s) (\<lambda>(p, r).
     Option.bind (after_prefix '' passed; '' r) (\<lambda>r.
     Option.bind (number_then r) (\<lambda>(f, r).
     if prefix '' failed;'' r then Some (p, f) else None)))"

definition cargo_line :: "string \<Rightarrow> (bool \<times> nat \<times> nat) option" where
  "cargo_line line =
     Option.bind (after_prefix ''test result: '' line) (\<lambda>r.
     or_else (map_option (\<lambda>c. (True, c)) (Option.bind (after_prefix ''ok. '' r) cargo_counts))
             (map_option (\<lambda>c. (False, c)) (Option.bind (after_prefix ''FAILED. '' r) cargo_counts)))"

definition mocha_line :: "string \<Rightarrow> string \<Rightarrow> nat option" where
  "mocha_line word line =
     (case number_then (dropWhile is_blank line) of
        Some (n, r) \<Rightarrow> if prefix ('' '' @ word) r then Some n else None | None \<Rightarrow> None)"

definition rspec_line :: "string \<Rightarrow> (nat \<times> nat) option" where
  "rspec_line line =
     Option.bind (number_then line) (\<lambda>(e, r).
     Option.bind (after_prefix '' example'' r) (\<lambda>r.
     Option.bind (after_prefix '', '' (optional_char (CHR ''s'') r)) (\<lambda>r.
     Option.bind (number_then r) (\<lambda>(f, r).
     if prefix '' failure'' r then Some (e, f) else None))))"

text \<open>The one \<open>go\<close> and the one \<open>mocha\<close> entry are changed where they stand in \<open>out\<close>; the
  other runners add one each time.\<close>

definition bump :: "Runner \<Rightarrow> (TestRunnerSummary \<Rightarrow> TestRunnerSummary) \<Rightarrow> TestRunnerSummary list \<Rightarrow> TestRunnerSummary list" where
  "bump runner f out =
     (let out' = (if list_ex (\<lambda>s. ts_runner s = runner) out then out
                  else out @ [\<lparr>ts_runner = runner, ts_passed = 0, ts_failed = 0, ts_noTests = False\<rparr>])
      in map (\<lambda>s. if ts_runner s = runner then f s else s) out')"

definition summary :: "Runner \<Rightarrow> nat \<Rightarrow> nat \<Rightarrow> bool \<Rightarrow> TestRunnerSummary" where
  "summary runner p f none = \<lparr>ts_runner = runner, ts_passed = p, ts_failed = f, ts_noTests = none\<rparr>"

definition read_summary_line :: "string \<Rightarrow> TestRunnerSummary list \<Rightarrow> TestRunnerSummary list" where
  "read_summary_line line out =
     (if (case after_equals line of Some r \<Rightarrow> prefix ''no tests ran'' r | None \<Rightarrow> False)
      then out @ [summary Pytest 0 0 True]
      else case pytest_line line of
        Some g \<Rightarrow>
          let c = testOutcomeCounts g in
          if map_of c ''passed'' = None \<and> map_of c ''failed'' = None \<and> map_of c ''error'' = None \<and> map_of c ''errors'' = None
          then out
          else out @ [summary Pytest (count_of c ''passed'') (count_of c ''failed'' + count_of c ''error'' + count_of c ''errors'')
                        (map_of c ''passed'' = Some 0)]
      | None \<Rightarrow>
      case jest_line line of
        Some g \<Rightarrow>
          let c = testOutcomeCounts g in
          out @ [summary Jest (count_of c ''passed'') (count_of c ''failed'')
                   (map_of c ''passed'' = Some 0 \<or> map_of c ''total'' = Some 0)]
      | None \<Rightarrow>
      case vitest_line line of
        Some g \<Rightarrow>
          let c = testOutcomeCounts g in
          if map_of c ''passed'' = None \<and> map_of c ''failed'' = None then out
          else out @ [summary Vitest (count_of c ''passed'') (count_of c ''failed'') (map_of c ''passed'' = Some 0)]
      | None \<Rightarrow>
      if go_ok_line line then bump Go (\<lambda>s. s\<lparr>ts_passed := ts_passed s + 1\<rparr>) out
      else if go_fail_line line then bump Go (\<lambda>s. s\<lparr>ts_failed := ts_failed s + 1\<rparr>) out
      else case cargo_line line of
        Some (ok, p, f) \<Rightarrow> out @ [summary Cargo p (if \<not> ok \<and> f = 0 then 1 else f) (p = 0)]
      | None \<Rightarrow>
      case mocha_line ''passing'' line of
        Some n \<Rightarrow> bump Mocha (\<lambda>s. s\<lparr>ts_passed := ts_passed s + n, ts_noTests := ts_noTests s \<or> n = 0\<rparr>) out
      | None \<Rightarrow>
      case mocha_line ''failing'' line of
        Some n \<Rightarrow> bump Mocha (\<lambda>s. s\<lparr>ts_failed := ts_failed s + n\<rparr>) out
      | None \<Rightarrow>
      case rspec_line line of
        Some (e, f) \<Rightarrow> out @ [summary Rspec (e - f) f (e = 0)]
      | None \<Rightarrow> out)"

definition parseTestSummaries :: "string option \<Rightarrow> TestRunnerSummary list" where
  "parseTestSummaries output =
     (case output of
        None \<Rightarrow> []
      | Some s \<Rightarrow>
          if s = '''' then []
          else fold read_summary_line (testOutcomeLines (testOutcomeUtf8Tail s TEST_OUTPUT_TAIL_BYTES)) [])"

section \<open>The outcome of one run\<close>

text \<open>The loop over the summaries: \<^const>\<open>None\<close> is its early return on a failure.\<close>

fun scan_summaries :: "TestRunnerSummary list \<Rightarrow> nat \<Rightarrow> bool \<Rightarrow> (nat \<times> bool) option" where
  "scan_summaries [] passed noTests = Some (passed, noTests)"
| "scan_summaries (s # ss) passed noTests =
     (if 0 < ts_failed s then None
      else scan_summaries ss (passed + ts_passed s) (noTests \<or> ts_noTests s))"

definition decideTestOutcome :: "TestOutcomeInput \<Rightarrow> TestOutcomeDecision" where
  "decideTestOutcome input =
     (let exit = testOutcomeIntegerOrNull (map_option JNum (ti_exitCode input)) in
      if exit \<noteq> None \<and> exit \<noteq> Some 0 then \<lparr>td_outcome = OutcomeFailed, td_why = WhyExitCode\<rparr>
      else if ti_isError input = Some True then \<lparr>td_outcome = OutcomeFailed, td_why = WhyIsError\<rparr>
      else if ti_success input = Some False then \<lparr>td_outcome = OutcomeFailed, td_why = WhySuccessFalse\<rparr>
      else case scan_summaries (parseTestSummaries (ti_output input)) 0 False of
        None \<Rightarrow> \<lparr>td_outcome = OutcomeFailed, td_why = WhySummaryFailed\<rparr>
      | Some (passed, noTests) \<Rightarrow>
          if passed = 0 \<and> noTests then \<lparr>td_outcome = OutcomeFailed, td_why = WhyNoTests\<rparr>
          else if exit = Some 0 then \<lparr>td_outcome = OutcomeOk, td_why = WhyExitZero\<rparr>
          else if 1 \<le> passed then \<lparr>td_outcome = OutcomeOk, td_why = WhySummaryPassed\<rparr>
          else \<lparr>td_outcome = OutcomeUnknown, td_why = WhyNoSignal\<rparr>)"

section \<open>The qualifier\<close>

definition orderingQualifierError :: "string \<Rightarrow> bool \<Rightarrow> string option" where
  "orderingQualifierError side left =
     (if CHR ''['' \<notin> set side \<and> CHR '']'' \<notin> set side then None
      else if left \<and> side = ''action:run_tests[ok]'' then None
      else Some (json_quote side @ '': [ok] qualifies only action:run_tests, on the left of ->''))"

definition splitQualifier :: "string \<Rightarrow> string \<times> bool" where
  "splitQualifier token =
     (if token = ''action:run_tests[ok]'' then (''action:run_tests'', True) else (token, False))"

section \<open>The state of a session\<close>

record OutcomeEntry =
  oe_o :: TestOutcome
  oe_at :: rat
  oe_why :: "string option"
  oe_changed :: bool
  oe_later :: bool

type_synonym OutcomeState = "(string \<times> OutcomeEntry) list"

definition emptyOutcomeState :: OutcomeState where "emptyOutcomeState = []"

definition outcomeStateFileName :: "string \<Rightarrow> string \<Rightarrow> (string \<Rightarrow> string) \<Rightarrow> string" where
  "outcomeStateFileName harness sessionId sha256Hex = take 32 (sha256Hex (harness @ [CHR 0x00] @ sessionId)) @ ''.json''"

definition outcome_named :: "json option \<Rightarrow> TestOutcome option" where
  "outcome_named v =
     (if v = Some (JStr ''ok'') then Some OutcomeOk
      else if v = Some (JStr ''failed'') then Some OutcomeFailed
      else if v = Some (JStr ''unknown'') then Some OutcomeUnknown
      else None)"

definition parse_entry :: "json \<Rightarrow> OutcomeEntry option" where
  "parse_entry e =
     (case e of
        JObj r \<Rightarrow>
          (case (outcome_named (map_of r ''o''), map_of r ''at'') of
             (Some o', Some (JNum t)) \<Rightarrow>
               if (case map_of r ''why'' of None \<Rightarrow> False | Some (JStr w) \<Rightarrow> False | _ \<Rightarrow> True) then None
               else if map_of r ''changed'' \<notin> {None, Some (JBool True)} then None
               else if map_of r ''later'' \<notin> {None, Some (JBool True)} then None
               else Some \<lparr>oe_o = o', oe_at = t,
                          oe_why = (case map_of r ''why'' of Some (JStr w) \<Rightarrow> Some w | _ \<Rightarrow> None),
                          oe_changed = (map_of r ''changed'' = Some (JBool True)),
                          oe_later = (map_of r ''later'' = Some (JBool True))\<rparr>
           | _ \<Rightarrow> None)
      | _ \<Rightarrow> None)"

fun parse_entries :: "(string \<times> json) list \<Rightarrow> OutcomeState option" where
  "parse_entries [] = Some []"
| "parse_entries ((k, v) # kvs) =
     (case parse_entry v of
        None \<Rightarrow> None
      | Some e \<Rightarrow> map_option (\<lambda>rest. (k, e) # rest) (parse_entries kvs))"

definition parseOutcomeState :: "(string \<Rightarrow> json option) \<Rightarrow> string \<Rightarrow> OutcomeState option" where
  "parseOutcomeState jsonParse s =
     (case jsonParse s of
        Some (JObj kvs) \<Rightarrow>
          (case (map_of kvs ''v'', map_of kvs ''outcomes'') of
             (Some (JNum v), Some (JObj outcomes)) \<Rightarrow> if v = 1 then parse_entries outcomes else None
           | _ \<Rightarrow> None)
      | _ \<Rightarrow> None)"

definition recordTestOutcome :: "OutcomeState \<Rightarrow> string \<Rightarrow> TestOutcomeDecision \<Rightarrow> rat \<Rightarrow> OutcomeState" where
  "recordTestOutcome state token decision atMs =
     AList.update token
       \<lparr>oe_o = td_outcome decision, oe_at = atMs, oe_why = Some (outcome_why (td_why decision)),
        oe_changed = False, oe_later = False\<rparr> state"

definition noteCompletedCall :: "OutcomeState \<Rightarrow> bool \<Rightarrow> OutcomeState" where
  "noteCompletedCall state changedFiles =
     map (\<lambda>(k, e). (k, e\<lparr>oe_changed := oe_changed e \<or> changedFiles, oe_later := True\<rparr>)) state"

datatype PrerequisiteCase =
  CaseMet | CaseNone | CaseFailed | CaseUnknown | CaseChanged | CaseNotAdjacent | CaseNotObservable | CaseNoSession

definition prerequisiteCase :: "OutcomeState option \<Rightarrow> string \<Rightarrow> bool \<Rightarrow> rat \<Rightarrow> PrerequisiteCase \<times> string option" where
  "prerequisiteCase state token adjacent nowMs =
     (case Option.bind state (\<lambda>s. map_of s token) of
        None \<Rightarrow> (CaseNone, None)
      | Some e \<Rightarrow>
          if \<not> nowMs - oe_at e < OUTCOME_STATE_TTL_MS \<or> oe_at e > nowMs then (CaseNone, None)
          else if oe_o e = OutcomeFailed then (CaseFailed, oe_why e)
          else if oe_o e = OutcomeUnknown then (CaseUnknown, oe_why e)
          else if oe_changed e then (CaseChanged, None)
          else if adjacent \<and> oe_later e then (CaseNotAdjacent, None)
          else (CaseMet, None))"

definition prerequisiteUnmetReason :: "string \<Rightarrow> string \<Rightarrow> PrerequisiteCase \<Rightarrow> string option \<Rightarrow> string \<Rightarrow> string" where
  "prerequisiteUnmetReason first next c why harness =
     (let head = next @ '' needs a passing '' @ first @ '' first; '' in
      case c of
        CaseNone \<Rightarrow> head @ ''none ran in this session''
      | CaseFailed \<Rightarrow> head @ ''the last '' @ first @ '' failed ('' @ (case why of None \<Rightarrow> ''failed'' | Some w \<Rightarrow> w) @ '')''
      | CaseUnknown \<Rightarrow> head @ ''the result of the last '' @ first @ '' could not be read; rerun the tests so their summary is visible''
      | CaseChanged \<Rightarrow> head @ ''files changed after the last passing '' @ first @ ''; rerun the tests''
      | CaseNotAdjacent \<Rightarrow> head @ next @ '' must come directly after it, and another call came between''
      | CaseNotObservable \<Rightarrow> head @ harness @ '' reports no tool results Intutic can read, so a passing run cannot be observed here''
      | CaseNoSession \<Rightarrow> head @ harness @ '' sent no session id, so test results cannot be tied to this session''
      | CaseMet \<Rightarrow> '''')"

section \<open>What the decisions mean\<close>

lemma scan_summaries_Some:
  "scan_summaries ss p b = Some (passed, none) \<longleftrightarrow>
     list_all (\<lambda>s. ts_failed s = 0) ss \<and> passed = p + sum_list (map ts_passed ss) \<and> none = (b \<or> list_ex ts_noTests ss)"
proof (induction ss arbitrary: p b)
  case (Cons s ss)
  then show ?case by (cases "ts_failed s = 0") (simp_all add: add.assoc disj_assoc)
qed auto

lemma scan_summaries_None: "scan_summaries ss p b = None \<longleftrightarrow> list_ex (\<lambda>s. 0 < ts_failed s) ss"
  by (induction ss arbitrary: p b) auto

text \<open>The exit code the decision reads: an integer one, or none.\<close>

definition exit_read :: "TestOutcomeInput \<Rightarrow> int option" where
  "exit_read input = testOutcomeIntegerOrNull (map_option JNum (ti_exitCode input))"

definition passes_counted :: "TestRunnerSummary list \<Rightarrow> nat" where
  "passes_counted ss = sum_list (map ts_passed ss)"

text \<open>A run counts as passed exactly when nothing said it failed (no non-zero exit code, no
  error flag, no failed success flag, no summary with failures) and something said it passed:
  a summary counts a pass, or the exit code is 0 and no summary says that no tests ran.\<close>

theorem decideTestOutcome_ok_iff:
  "td_outcome (decideTestOutcome input) = OutcomeOk \<longleftrightarrow>
     exit_read input \<in> {None, Some 0} \<and> ti_isError input \<noteq> Some True \<and> ti_success input \<noteq> Some False
     \<and> list_all (\<lambda>s. ts_failed s = 0) (parseTestSummaries (ti_output input))
     \<and> (1 \<le> passes_counted (parseTestSummaries (ti_output input))
        \<or> exit_read input = Some 0 \<and> list_all (Not \<circ> ts_noTests) (parseTestSummaries (ti_output input)))"
proof (cases "scan_summaries (parseTestSummaries (ti_output input)) 0 False")
  case None
  then have "\<not> list_all (\<lambda>s. ts_failed s = 0) (parseTestSummaries (ti_output input))"
    by (auto simp: scan_summaries_None list_ex_iff list_all_iff)
  with None show ?thesis by (simp add: decideTestOutcome_def Let_def)
next
  case (Some r)
  then obtain passed none where "r = (passed, none)" by (cases r)
  with Some have s: "scan_summaries (parseTestSummaries (ti_output input)) 0 False = Some (passed, none)" by simp
  then have p: "list_all (\<lambda>s. ts_failed s = 0) (parseTestSummaries (ti_output input))"
    "passes_counted (parseTestSummaries (ti_output input)) = passed"
    "list_all (Not \<circ> ts_noTests) (parseTestSummaries (ti_output input)) \<longleftrightarrow> \<not> none"
    by (auto simp: scan_summaries_Some passes_counted_def list_all_iff list_ex_iff)
  show ?thesis
    by (auto simp: decideTestOutcome_def Let_def s p exit_read_def)
qed

section \<open>The state of a session as a summary of its history\<close>

text \<open>What happens in a session, as the gates report it: a test run of \<open>token\<close> with its outcome
  and time, or another call completing, which changed a file or did not.\<close>

datatype SessionEvent = RunRecorded string TestOutcomeDecision rat | CallCompleted bool

fun session_step :: "SessionEvent \<Rightarrow> OutcomeState \<Rightarrow> OutcomeState" where
  "session_step (RunRecorded token d t) state = recordTestOutcome state token d t"
| "session_step (CallCompleted changed) state = noteCompletedCall state changed"

definition session_state :: "SessionEvent list \<Rightarrow> OutcomeState" where
  "session_state evs = fold session_step evs emptyOutcomeState"

fun run_of :: "string \<Rightarrow> SessionEvent \<Rightarrow> bool" where
  "run_of token (RunRecorded t d a) \<longleftrightarrow> t = token"
| "run_of token (CallCompleted c) \<longleftrightarrow> False"

fun is_call :: "SessionEvent \<Rightarrow> bool" where
  "is_call (RunRecorded t d a) \<longleftrightarrow> False"
| "is_call (CallCompleted c) \<longleftrightarrow> True"

definition entry_after :: "TestOutcomeDecision \<Rightarrow> rat \<Rightarrow> SessionEvent list \<Rightarrow> OutcomeEntry" where
  "entry_after d t post =
     \<lparr>oe_o = td_outcome d, oe_at = t, oe_why = Some (outcome_why (td_why d)),
      oe_changed = (CallCompleted True \<in> set post), oe_later = list_ex is_call post\<rparr>"

definition last_run :: "string \<Rightarrow> SessionEvent list \<Rightarrow> TestOutcomeDecision \<Rightarrow> rat \<Rightarrow> SessionEvent list \<Rightarrow> bool" where
  "last_run token evs d t post \<longleftrightarrow>
     (\<exists>pre. evs = pre @ RunRecorded token d t # post) \<and> list_all (Not \<circ> run_of token) post"

lemma last_run_snoc:
  "last_run token (evs @ [x]) d t post \<longleftrightarrow>
     (x = RunRecorded token d t \<and> post = []
      \<or> \<not> run_of token x \<and> (\<exists>post'. post = post' @ [x] \<and> last_run token evs d t post'))"
  unfolding last_run_def by (cases post rule: rev_cases) auto

lemma map_of_noteCompletedCall:
  "map_of (noteCompletedCall state c) k =
     map_option (\<lambda>e. e\<lparr>oe_changed := oe_changed e \<or> c, oe_later := True\<rparr>) (map_of state k)"
  by (induction state) (auto simp: noteCompletedCall_def)

lemma ex_through:
  assumes "\<And>e. P e \<longleftrightarrow> (\<exists>d t post. Q d t post \<and> e = f d t post)"
  shows "(\<exists>e. P e \<and> x = g e) \<longleftrightarrow> (\<exists>d t post. Q d t post \<and> x = g (f d t post))"
  unfolding assms by blast

lemma session_entry:
  "map_of (session_state evs) token = Some e \<longleftrightarrow> (\<exists>d t post. last_run token evs d t post \<and> e = entry_after d t post)"
proof (induction evs arbitrary: e rule: rev_induct)
  case Nil
  then show ?case by (simp add: session_state_def emptyOutcomeState_def last_run_def)
next
  case (snoc x evs)
  have st: "session_state (evs @ [x]) = session_step x (session_state evs)" by (simp add: session_state_def)
  show ?case
  proof (cases x)
    case (RunRecorded tok d t)
    have a: "entry_after d' t' (post @ [x]) = entry_after d' t' post" for d' t' post
      by (simp add: entry_after_def RunRecorded)
    show ?thesis
    proof (cases "tok = token")
      case True
      have "map_of (session_state (evs @ [x])) token = Some e \<longleftrightarrow> e = entry_after d t []"
        unfolding st by (auto simp: RunRecorded True recordTestOutcome_def update_conv' entry_after_def)
      then show ?thesis unfolding last_run_snoc by (simp add: RunRecorded True)
    next
      case False
      have "map_of (session_state (evs @ [x])) token = Some e \<longleftrightarrow> map_of (session_state evs) token = Some e"
        unfolding st using False by (auto simp: RunRecorded recordTestOutcome_def update_conv')
      also have "\<dots> \<longleftrightarrow> (\<exists>d t post. last_run token evs d t post \<and> e = entry_after d t (post @ [x]))"
        unfolding a by (rule snoc.IH)
      also have "\<dots> \<longleftrightarrow> (\<exists>d t post. last_run token (evs @ [x]) d t post \<and> e = entry_after d t post)"
        unfolding last_run_snoc by (auto simp: RunRecorded False)
      finally show ?thesis .
    qed
  next
    case (CallCompleted c)
    have a: "entry_after d t (post @ [x]) = (entry_after d t post)\<lparr>oe_changed := oe_changed (entry_after d t post) \<or> c, oe_later := True\<rparr>" for d t post
      by (auto simp: entry_after_def CallCompleted)
    have "map_of (session_state (evs @ [x])) token = Some e \<longleftrightarrow>
        (\<exists>e'. map_of (session_state evs) token = Some e' \<and> e = e'\<lparr>oe_changed := oe_changed e' \<or> c, oe_later := True\<rparr>)"
      unfolding st by (auto simp: CallCompleted map_of_noteCompletedCall)
    also have "\<dots> \<longleftrightarrow> (\<exists>d t post. last_run token evs d t post \<and> e = entry_after d t (post @ [x]))"
      unfolding a by (rule ex_through) (rule snoc.IH)
    also have "\<dots> \<longleftrightarrow> (\<exists>d t post. last_run token (evs @ [x]) d t post \<and> e = entry_after d t post)"
      unfolding last_run_snoc by (auto simp: CallCompleted)
    finally show ?thesis .
  qed
qed

text \<open>C26: A qualified prerequisite is met exactly when the session's latest run of the token
  passed less than a day ago (and not in the future), no call has changed a file since, and,
  for \<open>~>\<close>, no other call has completed since, whatever else the session did.\<close>

theorem prerequisite_met_iff:
  "fst (prerequisiteCase (Some (session_state evs)) token adjacent now) = CaseMet \<longleftrightarrow>
     (\<exists>d t post. last_run token evs d t post \<and> td_outcome d = OutcomeOk
        \<and> now - OUTCOME_STATE_TTL_MS < t \<and> t \<le> now
        \<and> CallCompleted True \<notin> set post \<and> \<not> (adjacent \<and> list_ex is_call post))"
proof -
  have met: "fst (prerequisiteCase (Some s) token adjacent now) = CaseMet \<longleftrightarrow>
      (\<exists>e. map_of s token = Some e \<and> oe_o e = OutcomeOk \<and> now - OUTCOME_STATE_TTL_MS < oe_at e \<and> oe_at e \<le> now
        \<and> \<not> oe_changed e \<and> \<not> (adjacent \<and> oe_later e))" for s
    by (cases "map_of s token"; cases "oe_o (the (map_of s token))") (auto simp: prerequisiteCase_def algebra_simps)
  show ?thesis
    unfolding met session_entry
    by (force simp: entry_after_def)
qed

end
