(* ===== verification/GateRules.thy ===== *)
theory GateRules
  imports Lanes ShellParse TestOutcome DecideRecord
begin

text \<open>
  Rule records of the policy snapshot (\<open>packages/shared-types/src/gateRuleRecord.ts\<close>): the
  \<open>@rule\<close> line and its reader, the records and fallback lines a SOP compiles to, and Tier R,
  which decides one call against the records in force.

  A record is a \<open>GateRuleRecord\<close>: the shared columns and the kind's own fields
  (\<open>GateRuleBody\<close>); the literal fields \<open>v\<close>, \<open>first\<close> and \<open>qualifier\<close> have one
  value each and are not kept.  \<open>JSON.parse\<close>, the text of a number and \<open>sha256Hex\<close> are
  parameters.  Base64 and the canonical JSON are those of \<open>DecideRecord\<close> and
  \<open>DecideRules\<close>, whose functions have the same text in both files.
\<close>

section \<open>Records\<close>

definition RULE_RECORD_TAG :: string where "RULE_RECORD_TAG = ''@rule''"
definition RULE_SOP_TITLE_MAX_CHARS :: nat where "RULE_SOP_TITLE_MAX_CHARS = 80"
definition RULE_SCOPE_PATHS_MAX :: nat where "RULE_SCOPE_PATHS_MAX = 64"
definition RULE_SCOPE_PATH_MAX_CHARS :: nat where "RULE_SCOPE_PATH_MAX_CHARS = 512"
definition RULE_ALLOW_COMMANDS_MAX :: nat where "RULE_ALLOW_COMMANDS_MAX = 64"
definition RULE_ALLOW_COMMAND_MAX_CHARS :: nat where "RULE_ALLOW_COMMAND_MAX_CHARS = 512"
definition RULE_COMMAND_QUOTE_MAX_CHARS :: nat where "RULE_COMMAND_QUOTE_MAX_CHARS = 120"

datatype GateRuleKind = KindRequiresOutcome | KindScopePaths | KindPlanApproval | KindAllowCommands

fun kind_name :: "GateRuleKind \<Rightarrow> string" where
  "kind_name KindRequiresOutcome = ''requires_outcome''"
| "kind_name KindScopePaths = ''scope_paths''"
| "kind_name KindPlanApproval = ''plan_approval''"
| "kind_name KindAllowCommands = ''allow_commands''"

definition GATE_RULE_KINDS :: "GateRuleKind list" where
  "GATE_RULE_KINDS = [KindRequiresOutcome, KindScopePaths, KindPlanApproval, KindAllowCommands]"

definition kind_of_name :: "string \<Rightarrow> GateRuleKind option" where
  "kind_of_name s = List.find (\<lambda>k. kind_name k = s) GATE_RULE_KINDS"

definition V22_ACTION_TOKENS :: "string list" where
  "V22_ACTION_TOKENS = [''action:deploy'', ''action:publish'', ''action:release'', ''action:db_write'']"

datatype PlanMode = PlanRequired | PlanStrict

fun plan_mode_name :: "PlanMode \<Rightarrow> string" where
  "plan_mode_name PlanRequired = ''required''"
| "plan_mode_name PlanStrict = ''strict''"

fun rollout_name :: "Rollout \<Rightarrow> string" where
  "rollout_name Shadow = ''shadow''"
| "rollout_name Enforce = ''enforce''"

text \<open>\<open>RequiresOutcomeRecord\<close> (its \<open>then\<close> and \<open>adjacent\<close>), \<open>ScopePathsRecord\<close>,
  \<open>PlanApprovalRecord\<close> and \<open>AllowCommandsRecord\<close>.\<close>

datatype GateRuleBody =
    RequiresOutcome string bool
  | ScopePaths "string list"
  | PlanApproval PlanMode
  | AllowCommands "string list"

fun body_kind :: "GateRuleBody \<Rightarrow> GateRuleKind" where
  "body_kind (RequiresOutcome g a) = KindRequiresOutcome"
| "body_kind (ScopePaths ps) = KindScopePaths"
| "body_kind (PlanApproval m) = KindPlanApproval"
| "body_kind (AllowCommands cs) = KindAllowCommands"

record GateRuleRecord =
  gr_ref :: string
  gr_sopTitle :: string
  gr_fallbackId :: "string option"
  gr_rollout :: Rollout
  gr_body :: GateRuleBody

abbreviation gr_kind :: "GateRuleRecord \<Rightarrow> GateRuleKind" where
  "gr_kind r \<equiv> body_kind (gr_body r)"

fun RULE_RECORD_FIELDS :: "GateRuleKind \<Rightarrow> string list" where
  "RULE_RECORD_FIELDS KindRequiresOutcome = [''adjacent'', ''first'', ''qualifier'', ''ref'', ''sopTitle'', ''then'', ''v'']"
| "RULE_RECORD_FIELDS KindScopePaths = [''ref'', ''scopePaths'', ''sopTitle'', ''v'']"
| "RULE_RECORD_FIELDS KindPlanApproval = [''mode'', ''ref'', ''sopTitle'', ''v'']"
| "RULE_RECORD_FIELDS KindAllowCommands = [''commands'', ''ref'', ''sopTitle'', ''v'']"

definition gateRuleRef :: "string \<Rightarrow> GateRuleKind \<Rightarrow> nat \<Rightarrow> string" where
  "gateRuleRef sopId kind n = sopId @ ''#'' @ kind_name kind @ '':'' @ nat_str n"

definition gateRuleFallbackId :: "GateRuleKind \<Rightarrow> nat \<Rightarrow> string \<Rightarrow> (string \<Rightarrow> string) \<Rightarrow> string" where
  "gateRuleFallbackId kind n sopId sha256Hex = kind_name kind @ ''-fallback:'' @ nat_str n @ ''@'' @ take 12 (sha256Hex sopId)"

fun gateRuleFallbackReason :: "GateRuleKind \<Rightarrow> string \<Rightarrow> string" where
  "gateRuleFallbackReason KindRequiresOutcome sopTitle =
     ''Qualified requires_before ('' @ sopTitle @ ''): this gate cannot read test results, so the call it gates is refused; upgrade the Intutic gate''"
| "gateRuleFallbackReason KindScopePaths sopTitle =
     ''scope_paths_mode: enforce ('' @ sopTitle @ ''): this gate cannot check a change against the scope, so every file change is refused; upgrade the Intutic gate''"
| "gateRuleFallbackReason KindAllowCommands sopTitle =
     ''allow_commands ('' @ sopTitle @ ''): this gate cannot check a command against the list, so every shell call is refused; upgrade the Intutic gate''"
| "gateRuleFallbackReason KindPlanApproval sopTitle =
     ''plan_approval ('' @ sopTitle @ ''): this gate cannot check plan approval, so every call is refused; upgrade the Intutic gate''"

section \<open>The line\<close>

definition ruleText :: "nat \<Rightarrow> nat \<Rightarrow> string \<Rightarrow> bool" where
  "ruleText mx mn s \<longleftrightarrow>
     tab \<notin> set s \<and> CHR 0x0D \<notin> set s \<and> CHR 0x0A \<notin> set s \<and> mn \<le> length s \<and> length s \<le> mx"

fun body_fields :: "GateRuleBody \<Rightarrow> (string \<times> json) list" where
  "body_fields (RequiresOutcome g a) =
     [(''first'', JStr ''action:run_tests''), (''qualifier'', JStr ''ok''), (''then'', JStr g), (''adjacent'', JBool a)]"
| "body_fields (ScopePaths ps) = [(''scopePaths'', JArr (map JStr ps))]"
| "body_fields (PlanApproval m) = [(''mode'', JStr (plan_mode_name m))]"
| "body_fields (AllowCommands cs) = [(''commands'', JArr (map JStr cs))]"

definition gateRulePayload :: "GateRuleRecord \<Rightarrow> (string \<times> json) list" where
  "gateRulePayload r = [(''v'', JNum 1), (''ref'', JStr (gr_ref r)), (''sopTitle'', JStr (gr_sopTitle r))] @ body_fields (gr_body r)"

definition ruleCanonicalJson :: "(rat \<Rightarrow> string) \<Rightarrow> json \<Rightarrow> string" where
  "ruleCanonicalJson numStr v = canonicalJson numStr v"

definition ruleToBase64 :: "string \<Rightarrow> string" where
  "ruleToBase64 s = decideToBase64 s"

definition ruleFromBase64 :: "string \<Rightarrow> string option" where
  "ruleFromBase64 b = decideFromBase64 b"

definition fallback_col :: "string option \<Rightarrow> string" where
  "fallback_col f = (case f of None \<Rightarrow> ''-'' | Some i \<Rightarrow> i)"

definition encodeGateRuleRecord :: "(rat \<Rightarrow> string) \<Rightarrow> GateRuleRecord \<Rightarrow> string" where
  "encodeGateRuleRecord numStr r =
     join_with [tab]
       [RULE_RECORD_TAG, fallback_col (gr_fallbackId r), kind_name (gr_kind r), rollout_name (gr_rollout r),
        ruleToBase64 (ruleCanonicalJson numStr (JObj (gateRulePayload r)))]"

text \<open>\<open>/^.+#([a-z_]+):([1-9][0-9]{0,5})$/\<close>: neither group holds a \<open>#\<close>, so the last one in the
  ref is the one matched, and \<open>.\<close> is any character but a line end.\<close>

definition ref_number :: "string \<Rightarrow> bool" where
  "ref_number n \<longleftrightarrow>
     (case n of
        [] \<Rightarrow> False
      | c # r \<Rightarrow> is_digit c \<and> c \<noteq> CHR ''0'' \<and> list_all is_digit r \<and> length r \<le> 5)"

definition ref_match :: "string \<Rightarrow> (string \<times> string) option" where
  "ref_match ref =
     (let parts = split_on (CHR ''#'') ref; before = join_with ''#'' (butlast parts) in
      case split_on (CHR '':'') (last parts) of
        [k, n] \<Rightarrow>
          if before \<noteq> '''' \<and> CHR 0x0A \<notin> set before \<and> CHR 0x0D \<notin> set before
             \<and> k \<noteq> '''' \<and> list_all (\<lambda>c. is_az c \<or> c = CHR ''_'') k \<and> ref_number n
          then Some (k, n) else None
      | _ \<Rightarrow> None)"

text \<open>\<open>new RegExp('^' + kind + '-fallback:' + n + '@[0-9a-f]{12}$')\<close>\<close>

definition fallback_match :: "GateRuleKind \<Rightarrow> string \<Rightarrow> string \<Rightarrow> bool" where
  "fallback_match kind n f \<longleftrightarrow>
     (case after_prefix (kind_name kind @ ''-fallback:'' @ n @ ''@'') f of None \<Rightarrow> False | Some h \<Rightarrow> hex_run 12 h)"

text \<open>\<open>/^[A-Za-z][A-Za-z0-9_.:-]{0,63}$/\<close>\<close>

definition gated_name :: "string \<Rightarrow> bool" where
  "gated_name s \<longleftrightarrow>
     (case s of
        [] \<Rightarrow> False
      | c # r \<Rightarrow> (is_az c \<or> is_AZ c) \<and> length r \<le> 63
                \<and> list_all (\<lambda>d. is_az d \<or> is_AZ d \<or> is_digit d \<or> d \<in> set ''_.:-'') r)"

definition str_list :: "json option \<Rightarrow> string list option" where
  "str_list v =
     (case v of
        Some (JArr xs) \<Rightarrow>
          if list_all (\<lambda>x. case x of JStr s \<Rightarrow> True | _ \<Rightarrow> False) xs
          then Some (map (\<lambda>x. case x of JStr s \<Rightarrow> s | _ \<Rightarrow> '''') xs) else None
      | _ \<Rightarrow> None)"

definition decode_body :: "GateRuleKind \<Rightarrow> (string \<times> json) list \<Rightarrow> GateRuleBody option" where
  "decode_body kind r =
     (case kind of
        KindRequiresOutcome \<Rightarrow>
          (case (map_of r ''adjacent'', map_of r ''then'') of
             (Some (JBool a), Some (JStr g)) \<Rightarrow>
               if map_of r ''first'' = Some (JStr ''action:run_tests'') \<and> map_of r ''qualifier'' = Some (JStr ''ok'')
                  \<and> gated_name g \<and> g \<noteq> ''action:run_tests''
               then Some (RequiresOutcome g a) else None
           | _ \<Rightarrow> None)
      | KindScopePaths \<Rightarrow>
          (case str_list (map_of r ''scopePaths'') of
             Some ps \<Rightarrow> if 1 \<le> length ps \<and> length ps \<le> 64 \<and> list_all (ruleText 512 1) ps then Some (ScopePaths ps) else None
           | None \<Rightarrow> None)
      | KindAllowCommands \<Rightarrow>
          (case str_list (map_of r ''commands'') of
             Some cs \<Rightarrow>
               if 1 \<le> length cs \<and> length cs \<le> 64 \<and> list_all (\<lambda>c. ruleText 512 1 c \<and> isAllowEntry c) cs
               then Some (AllowCommands cs) else None
           | None \<Rightarrow> None)
      | KindPlanApproval \<Rightarrow>
          if map_of r ''mode'' = Some (JStr ''required'') then Some (PlanApproval PlanRequired)
          else if map_of r ''mode'' = Some (JStr ''strict'') then Some (PlanApproval PlanStrict)
          else None)"

definition fallback_ok :: "GateRuleKind \<Rightarrow> string \<Rightarrow> Rollout \<Rightarrow> string option \<Rightarrow> bool" where
  "fallback_ok kind n rollout f \<longleftrightarrow>
     (case rollout of
        Enforce \<Rightarrow> (case f of None \<Rightarrow> False | Some i \<Rightarrow> fallback_match kind n i)
      | Shadow \<Rightarrow> f = None)"

definition decode_payload :: "GateRuleKind \<Rightarrow> string \<Rightarrow> Rollout \<Rightarrow> (string \<times> json) list \<Rightarrow> GateRuleRecord option" where
  "decode_payload kind fcol rollout r =
     (let f = (if fcol = ''-'' then None else Some fcol) in
      if sort (map fst r) \<noteq> RULE_RECORD_FIELDS kind then None
      else case (map_of r ''sopTitle'', map_of r ''ref'') of
        (Some (JStr sopTitle), Some (JStr ref)) \<Rightarrow>
          if map_of r ''v'' \<noteq> Some (JNum 1) \<or> \<not> ruleText 80 0 sopTitle then None
          else (case ref_match ref of
                  None \<Rightarrow> None
                | Some (k, n) \<Rightarrow>
                    if k \<noteq> kind_name kind \<or> \<not> fallback_ok kind n rollout f then None
                    else map_option
                           (\<lambda>body. \<lparr>gr_ref = ref, gr_sopTitle = sopTitle, gr_fallbackId = f, gr_rollout = rollout, gr_body = body\<rparr>)
                           (decode_body kind r))
      | _ \<Rightarrow> None)"

definition rollout_of_name :: "string \<Rightarrow> Rollout option" where
  "rollout_of_name s = (if s = ''shadow'' then Some Shadow else if s = ''enforce'' then Some Enforce else None)"

definition decodeGateRuleRecord :: "(string \<Rightarrow> json option) \<Rightarrow> string \<Rightarrow> GateRuleRecord option" where
  "decodeGateRuleRecord jsonParse line =
     (case split_on tab line of
        [tag, fcol, k, ro, b64] \<Rightarrow>
          if tag \<noteq> RULE_RECORD_TAG \<or> b64 = '''' then None
          else (case (kind_of_name k, Option.bind (ruleFromBase64 b64) jsonParse, rollout_of_name ro) of
                  (Some kind, Some (JObj r), Some rollout) \<Rightarrow> decode_payload kind fcol rollout r
                | _ \<Rightarrow> None)
      | _ \<Rightarrow> None)"

section \<open>Served records\<close>

text \<open>What \<open>[...].join\<close> writes for one element.\<close>

fun join_text :: "(rat \<Rightarrow> string) \<Rightarrow> json \<Rightarrow> string" where
  "join_text numStr JNull = ''''"
| "join_text numStr (JBool b) = (if b then ''true'' else ''false'')"
| "join_text numStr (JNum r) = numStr r"
| "join_text numStr (JStr s) = s"
| "join_text numStr (JArr xs) = join_with '','' (map (join_text numStr) xs)"
| "join_text numStr (JObj kvs) = ''[object Object]''"

definition join_text_opt :: "(rat \<Rightarrow> string) \<Rightarrow> json option \<Rightarrow> string" where
  "join_text_opt numStr v = (case v of None \<Rightarrow> '''' | Some w \<Rightarrow> join_text numStr w)"

definition toServedGateRecord :: "GateRuleRecord \<Rightarrow> string \<Rightarrow> json" where
  "toServedGateRecord r sopId = JObj
     [(''sopId'', JStr sopId), (''kind'', JStr (kind_name (gr_kind r))), (''rollout'', JStr (rollout_name (gr_rollout r))),
      (''fallbackId'', case gr_fallbackId r of None \<Rightarrow> JNull | Some f \<Rightarrow> JStr f), (''payload'', JObj (gateRulePayload r))]"

definition fromServedGateRecord :: "(rat \<Rightarrow> string) \<Rightarrow> (string \<Rightarrow> json option) \<Rightarrow> json \<Rightarrow> GateRuleRecord option" where
  "fromServedGateRecord numStr jsonParse served =
     (case json_field served ''payload'' of
        Some (JObj payload) \<Rightarrow>
          if list_ex (\<lambda>k. k \<in> {''kind'', ''fallbackId'', ''rollout''}) (map fst payload) then None
          else decodeGateRuleRecord jsonParse
                 (join_with [tab]
                    [RULE_RECORD_TAG,
                     (case json_field served ''fallbackId'' of None \<Rightarrow> ''-'' | Some JNull \<Rightarrow> ''-'' | Some f \<Rightarrow> join_text numStr f),
                     join_text_opt numStr (json_field served ''kind''),
                     join_text_opt numStr (json_field served ''rollout''),
                     ruleToBase64 (ruleCanonicalJson numStr (JObj payload))])
      | _ \<Rightarrow> None)"

section \<open>The writer\<close>

datatype RuleSubject = SubjectTool | SubjectAction | SubjectPhrase

text \<open>A fallback line is always a \<open>block\<close>.\<close>

record GateRuleFallback =
  gf_id :: string
  gf_subject :: RuleSubject
  gf_source :: string
  gf_ignoreCase :: bool
  gf_reason :: string

record GateRuleFrontMatter =
  fm_roles :: "string list"
  fm_shadow :: bool
  fm_requiresBefore :: "(string \<times> string \<times> bool) list"
  fm_scopePaths :: "string list"
  fm_scopeEnforced :: bool
  fm_planApproval :: "PlanMode option"
  fm_allowCommands :: "string list"

text \<open>\<open>title.replace(/[\t\r\n]+/g, ' ').trim()\<close>, at most 80 characters.\<close>

definition is_line_space :: "char \<Rightarrow> bool" where
  "is_line_space c \<longleftrightarrow> c = tab \<or> c = CHR 0x0D \<or> c = CHR 0x0A"

function (sequential) collapse_runs :: "string \<Rightarrow> string" where
  "collapse_runs [] = []"
| "collapse_runs (c # s) =
     (if is_line_space c then CHR '' '' # collapse_runs (dropWhile is_line_space s) else c # collapse_runs s)"
  by pat_completeness auto
termination by (relation "measure length") (auto simp: le_imp_less_Suc length_dropWhile_le)

definition ruleSopTitle :: "string \<Rightarrow> string" where
  "ruleSopTitle title = take 80 (trim (collapse_runs title))"

text \<open>\<open>s.replace(/[.*+?^${}()|[\]\\]/g, '\\$&')\<close>\<close>

definition ruleEscape :: "string \<Rightarrow> string" where
  "ruleEscape s = concat (map (\<lambda>c. if c \<in> set ''.*+?^${}()|[]'' \<or> c = CHR 0x5C then [CHR 0x5C, c] else [c]) s)"

definition tool_source :: "string list \<Rightarrow> string" where
  "tool_source tools = '' [^ ]*('' @ join_with ''|'' (map ruleEscape tools) @ '') ''"

text \<open>The subject, the source and \<open>ignoreCase\<close> of the line each kind of record falls back to.\<close>

fun fallback_shape :: "GateRuleBody \<Rightarrow> RuleSubject \<times> string \<times> bool" where
  "fallback_shape (PlanApproval m) = (SubjectTool, '' [^ ]+ '', False)"
| "fallback_shape (AllowCommands cs) = (SubjectTool, tool_source SCOPE_SHELL_TOOLS, True)"
| "fallback_shape (ScopePaths ps) =
     (SubjectTool, tool_source (SCOPE_WRITE_TOOLS @ SCOPE_EDIT_TOOLS @ SCOPE_DELETE_TOOLS @ SCOPE_MOVE_TOOLS @ SCOPE_EDITOR_TOOLS), True)"
| "fallback_shape (RequiresOutcome g a) =
     (if g \<in> set V22_ACTION_TOKENS then (SubjectAction, '' ('' @ ruleEscape g @ '') '', True)
      else if take 7 g = ''action:'' then
        (case map_of LANE_PHRASES g of
           Some (p # ps) \<Rightarrow> (SubjectPhrase, join_with ''|'' (p # ps), True)
         | _ \<Rightarrow> (SubjectTool, tool_source SCOPE_SHELL_TOOLS, True))
      else (SubjectTool, '' ('' @ ruleEscape g @ '') '', False))"

definition gateRuleFallback :: "GateRuleRecord \<Rightarrow> GateRuleFallback option" where
  "gateRuleFallback r =
     (case gr_fallbackId r of
        None \<Rightarrow> None
      | Some i \<Rightarrow>
          (case fallback_shape (gr_body r) of
             (subject, source, ignoreCase) \<Rightarrow>
               Some \<lparr>gf_id = i, gf_subject = subject, gf_source = source, gf_ignoreCase = ignoreCase,
                     gf_reason = gateRuleFallbackReason (gr_kind r) (gr_sopTitle r)\<rparr>))"

record SopEntry =
  se_sopId :: string
  se_sopTitle :: string
  se_shadow :: bool

definition compiled_rollout :: "SopEntry \<Rightarrow> GateRuleFrontMatter \<Rightarrow> Rollout" where
  "compiled_rollout entry fm = (if fm_shadow fm \<or> se_shadow entry then Shadow else Enforce)"

definition compiled_record :: "(string \<Rightarrow> string) \<Rightarrow> SopEntry \<Rightarrow> Rollout \<Rightarrow> nat \<Rightarrow> GateRuleBody \<Rightarrow> GateRuleRecord" where
  "compiled_record sha256Hex entry rollout n body =
     \<lparr>gr_ref = gateRuleRef (se_sopId entry) (body_kind body) n,
      gr_sopTitle = ruleSopTitle (se_sopTitle entry),
      gr_fallbackId = (if rollout = Enforce then Some (gateRuleFallbackId (body_kind body) n (se_sopId entry) sha256Hex) else None),
      gr_rollout = rollout, gr_body = body\<rparr>"

definition qualified_entry :: "string \<times> string \<times> bool \<Rightarrow> bool" where
  "qualified_entry e \<longleftrightarrow>
     (case e of (first, g, a) \<Rightarrow> first = ''action:run_tests[ok]'' \<and> gated_name g \<and> g \<noteq> ''action:run_tests'')"

fun compile_requires :: "(nat \<Rightarrow> GateRuleBody \<Rightarrow> GateRuleRecord) \<Rightarrow> nat \<Rightarrow> (string \<times> string \<times> bool) list \<Rightarrow> GateRuleRecord list" where
  "compile_requires mk n [] = []"
| "compile_requires mk n (e # es) =
     (if \<not> qualified_entry e then compile_requires mk n es
      else mk (n + 1) (RequiresOutcome (fst (snd e)) (snd (snd e))) # compile_requires mk (n + 1) es)"

definition compileSopGateRecords ::
    "SopEntry \<Rightarrow> GateRuleFrontMatter \<Rightarrow> (string \<Rightarrow> string) \<Rightarrow> GateRuleRecord list \<times> GateRuleFallback list" where
  "compileSopGateRecords entry fm sha256Hex =
     (if fm_roles fm \<noteq> [] then ([], [])
      else
        let mk = compiled_record sha256Hex entry (compiled_rollout entry fm);
            paths = take 64 (filter (ruleText 512 1) (fm_scopePaths fm));
            records =
              compile_requires mk 0 (fm_requiresBefore fm)
              @ (if fm_scopeEnforced fm \<and> paths \<noteq> [] then [mk 1 (ScopePaths paths)] else [])
              @ (case fm_planApproval fm of None \<Rightarrow> [] | Some m \<Rightarrow> [mk 1 (PlanApproval m)])
              @ (if fm_allowCommands fm \<noteq> [] then [mk 1 (AllowCommands (take 65 (fm_allowCommands fm)))] else [])
        in (records, List.map_filter gateRuleFallback records))"

section \<open>Tier R\<close>

datatype GateRuleCode = PREREQUISITE_UNMET | OUT_OF_SCOPE | OFF_PLAN | PLAN_NOT_APPROVED | COMMAND_NOT_ALLOWED

datatype GateRulePlan = PlanApproved "string list" | PlanNone | PlanUnavailable

text \<open>The loop over the steps: a step's \<open>tool\<close>, else its \<open>toolName\<close>, trimmed, each once.\<close>

definition step_tool :: "json \<Rightarrow> string option" where
  "step_tool step =
     (case step of
        JObj kvs \<Rightarrow>
          (case (case map_of kvs ''tool'' of Some (JStr t) \<Rightarrow> Some (JStr t) | _ \<Rightarrow> map_of kvs ''toolName'') of
             Some (JStr t) \<Rightarrow> if trim t \<noteq> '''' then Some (trim t) else None
           | _ \<Rightarrow> None)
      | _ \<Rightarrow> None)"

definition add_new :: "'a \<Rightarrow> 'a list \<Rightarrow> 'a list" where
  "add_new x xs = (if x \<in> set xs then xs else xs @ [x])"

definition gateRulePlanFromResponse :: "int option \<Rightarrow> json option \<Rightarrow> GateRulePlan" where
  "gateRulePlanFromResponse status body =
     (if status = Some 404 then PlanNone
      else if status \<noteq> Some 200 then PlanUnavailable
      else case body of
        Some (JObj kvs) \<Rightarrow>
          if map_of kvs ''lifecycleState'' \<notin> {Some (JStr ''APPROVED''), Some (JStr ''EXECUTING'')} then PlanNone
          else PlanApproved
                 (fold (\<lambda>step tools. case step_tool step of None \<Rightarrow> tools | Some t \<Rightarrow> add_new t tools)
                    (case map_of kvs ''steps'' of Some (JArr xs) \<Rightarrow> xs | _ \<Rightarrow> []) [])
      | _ \<Rightarrow> PlanUnavailable)"

record GateRuleCall =
  gc_tool :: string
  gc_input :: json
  gc_actions :: "string list"
  gc_cwd :: string
  gc_root :: string
  gc_sessionId :: string
  gc_harness :: string
  gc_outcomes :: "OutcomeState option"
  gc_observable :: bool
  gc_plan :: GateRulePlan
  gc_nowMs :: rat

text \<open>The fields of a \<open>RefusalScope\<close> the rules fill.\<close>

record RefusalScope =
  rs_paths :: "string list option"
  rs_tools :: "string list option"
  rs_step :: "string option"

record GateRuleFinding =
  fi_code :: GateRuleCode
  fi_ruleId :: string
  fi_reason :: string
  fi_scope :: RefusalScope
  fi_ref :: string

record GateRuleEvaluation =
  ev_refusal :: "GateRuleFinding option"
  ev_shadow :: "GateRuleFinding list"

definition tools_scope :: "string list \<Rightarrow> RefusalScope" where
  "tools_scope ts = \<lparr>rs_paths = None, rs_tools = Some ts, rs_step = None\<rparr>"

definition plan_mode :: "GateRuleRecord \<Rightarrow> PlanMode option" where
  "plan_mode r = (case gr_body r of PlanApproval m \<Rightarrow> Some m | _ \<Rightarrow> None)"

definition plan_finding :: "GateRuleCode \<Rightarrow> GateRuleRecord \<Rightarrow> string \<Rightarrow> string \<Rightarrow> GateRuleFinding" where
  "plan_finding code rec tool reason =
     \<lparr>fi_code = code, fi_ruleId = ''plan_approval.'' @ gr_sopTitle rec, fi_reason = reason,
      fi_scope = tools_scope [tool], fi_ref = gr_ref rec\<rparr>"

definition rulePlanFinding :: "GateRuleRecord list \<Rightarrow> GateRuleCall \<Rightarrow> GateRuleFinding option" where
  "rulePlanFinding records call =
     (if records = [] \<or> isPlanExemptTool (gc_tool call) then None
      else
        let rec = (case List.find (\<lambda>r. plan_mode r = Some PlanStrict) records of Some r \<Rightarrow> r | None \<Rightarrow> hd records);
            mode = (case plan_mode rec of Some m \<Rightarrow> m | None \<Rightarrow> PlanRequired);
            head = ''plan_approval: '' @ plan_mode_name mode @ '' ('' @ gr_sopTitle rec @ ''): ''
        in if gc_sessionId call = '''' then
             Some (plan_finding PLAN_NOT_APPROVED rec (gc_tool call)
                     (head @ gc_harness call @ '' sent no session id, so no approved plan can be found for this session''))
           else case gc_plan call of
             PlanNone \<Rightarrow>
               Some (plan_finding PLAN_NOT_APPROVED rec (gc_tool call)
                       (head @ ''this session has no approved plan'' @ ''; get the plan approved, then retry''))
           | PlanUnavailable \<Rightarrow>
               Some (plan_finding PLAN_NOT_APPROVED rec (gc_tool call)
                       (head @ ''the approved plans could not be read'' @ ''; get the plan approved, then retry''))
           | PlanApproved tools \<Rightarrow>
               if mode = PlanStrict \<and> \<not> list_ex (\<lambda>t. to_lower t = to_lower (gc_tool call)) tools then
                 Some (plan_finding OFF_PLAN rec (gc_tool call)
                         (gc_tool call @ '' is not a step of this session'' @ [CHR 0x27] @ ''s approved plan (plan_approval: strict, '' @ gr_sopTitle rec @ '')''))
               else None)"

text \<open>Why one \<open>requires_outcome\<close> record refuses the call, or that it does not gate it or is met.\<close>

definition gates_call :: "GateRuleCall \<Rightarrow> string \<Rightarrow> bool" where
  "gates_call call g \<longleftrightarrow> g \<in> set (gc_actions call) \<or> to_lower g = to_lower (gc_tool call)"

definition requires_case :: "GateRuleCall \<Rightarrow> bool \<Rightarrow> PrerequisiteCase \<times> string option" where
  "requires_case call adjacent =
     (if \<not> gc_observable call then (CaseNotObservable, None)
      else if gc_sessionId call = '''' then (CaseNoSession, None)
      else prerequisiteCase (gc_outcomes call) ''action:run_tests'' adjacent (gc_nowMs call))"

definition requires_finding :: "GateRuleCall \<Rightarrow> GateRuleRecord \<Rightarrow> GateRuleFinding option" where
  "requires_finding call rec =
     (case gr_body rec of
        RequiresOutcome g adjacent \<Rightarrow>
          if \<not> gates_call call g then None
          else (case requires_case call adjacent of
                  (c, why) \<Rightarrow>
                    if c = CaseMet then None
                    else Some \<lparr>fi_code = PREREQUISITE_UNMET,
                               fi_ruleId = ''requires_before.'' @ ''action:run_tests'' @ ''[ok]'' @ (if adjacent then ''~>'' else ''->'') @ g,
                               fi_reason = prerequisiteUnmetReason ''action:run_tests'' g c why (gc_harness call),
                               fi_scope = \<lparr>rs_paths = None, rs_tools = Some [g], rs_step = Some ''action:run_tests''\<rparr>,
                               fi_ref = gr_ref rec\<rparr>)
      | _ \<Rightarrow> None)"

definition ruleRequiresFinding :: "GateRuleRecord list \<Rightarrow> GateRuleCall \<Rightarrow> GateRuleFinding option" where
  "ruleRequiresFinding records call = first_some (requires_finding call) records"

definition record_paths :: "GateRuleRecord \<Rightarrow> string list" where
  "record_paths r = (case gr_body r of ScopePaths ps \<Rightarrow> ps | _ \<Rightarrow> [])"

definition record_commands :: "GateRuleRecord \<Rightarrow> string list" where
  "record_commands r = (case gr_body r of AllowCommands cs \<Rightarrow> cs | _ \<Rightarrow> [])"

text \<open>\<open>for (const x of xs) if (out.indexOf(x) === -1) out.push(x)\<close>\<close>

definition union_of :: "'a list \<Rightarrow> 'a list" where
  "union_of xs = fold add_new xs []"

definition outside_scope :: "GateRuleCall \<Rightarrow> string list \<Rightarrow> ChangeTarget \<Rightarrow> bool" where
  "outside_scope call scopes t \<longleftrightarrow>
     (case scopeRelativePath (ct_target t) (gc_cwd call) (gc_root call) of
        None \<Rightarrow> True
      | Some rel \<Rightarrow> \<not> isWithinScope rel scopes)"

definition ruleScopeFinding :: "GateRuleRecord list \<Rightarrow> GateRuleCall \<Rightarrow> GateRuleFinding option" where
  "ruleScopeFinding records call =
     (if records = [] then None
      else
        let targets = changeTargets (gc_tool call) (gc_input call);
            scopes = union_of (concat (map record_paths records));
            outside = union_of (map ct_target (filter (outside_scope call scopes) targets))
        in if targets = [] \<or> outside = [] then None
           else Some \<lparr>fi_code = OUT_OF_SCOPE, fi_ruleId = ''scope_paths.'' @ gr_sopTitle (hd records),
                      fi_reason = ''Changes outside the declared file scope: '' @ join_with '', '' outside
                                  @ '' (scope: '' @ join_with '', '' scopes @ '')'',
                      fi_scope = \<lparr>rs_paths = Some outside, rs_tools = None, rs_step = None\<rparr>,
                      fi_ref = gr_ref (hd records)\<rparr>)"

definition call_commands :: "json \<Rightarrow> string list" where
  "call_commands input = List.map_filter (\<lambda>k. scopeKeyed input [k]) SCOPE_COMMAND_KEYS"

definition ruleCommandFinding :: "GateRuleRecord list \<Rightarrow> GateRuleCall \<Rightarrow> GateRuleFinding option" where
  "ruleCommandFinding records call =
     (if records = [] \<or> \<not> scopeToolIs (gc_tool call) SCOPE_SHELL_TOOLS then None
      else
        let allow = union_of (concat (map record_commands records));
            commands = call_commands (gc_input call);
            outside = (if commands = [] then [''(no command)''] else concat (map (\<lambda>c. commandsOutsideAllow c allow) commands))
        in if outside = [] then None
           else Some \<lparr>fi_code = COMMAND_NOT_ALLOWED, fi_ruleId = ''allow_commands.'' @ gr_sopTitle (hd records),
                      fi_reason = ''Not on the allowed command list: '' @ join_with ''; '' (map (take 120) outside)
                                  @ '' (allowed: '' @ join_with '', '' allow @ '')'',
                      fi_scope = tools_scope [gc_tool call], fi_ref = gr_ref (hd records)\<rparr>)"

definition of_kind :: "GateRuleKind \<Rightarrow> GateRuleRecord list \<Rightarrow> GateRuleRecord list" where
  "of_kind k records = filter (\<lambda>r. gr_kind r = k) records"

definition opt_list :: "'a option \<Rightarrow> 'a list" where
  "opt_list v = (case v of None \<Rightarrow> [] | Some x \<Rightarrow> [x])"

definition ruleFindings :: "GateRuleRecord list \<Rightarrow> GateRuleCall \<Rightarrow> GateRuleFinding list" where
  "ruleFindings records call =
     opt_list (rulePlanFinding (of_kind KindPlanApproval records) call)
     @ opt_list (ruleRequiresFinding (of_kind KindRequiresOutcome records) call)
     @ opt_list (ruleScopeFinding (of_kind KindScopePaths records) call)
     @ opt_list (ruleCommandFinding (of_kind KindAllowCommands records) call)"

definition evaluateGateRuleRecords :: "GateRuleRecord list \<Rightarrow> GateRuleCall \<Rightarrow> GateRuleEvaluation" where
  "evaluateGateRuleRecords records call =
     (let enforce = ruleFindings (filter (\<lambda>r. gr_rollout r = Enforce) records) call in
      \<lparr>ev_refusal = (if enforce \<noteq> [] then Some (hd enforce) else None),
       ev_shadow = ruleFindings (filter (\<lambda>r. gr_rollout r = Shadow) records) call\<rparr>)"

section \<open>The reader accepts the records the writer means\<close>

fun body_ok :: "GateRuleBody \<Rightarrow> bool" where
  "body_ok (RequiresOutcome g a) \<longleftrightarrow> gated_name g \<and> g \<noteq> ''action:run_tests''"
| "body_ok (ScopePaths ps) \<longleftrightarrow> 1 \<le> length ps \<and> length ps \<le> 64 \<and> list_all (ruleText 512 1) ps"
| "body_ok (PlanApproval m) \<longleftrightarrow> True"
| "body_ok (AllowCommands cs) \<longleftrightarrow> 1 \<le> length cs \<and> length cs \<le> 64 \<and> list_all (\<lambda>c. ruleText 512 1 c \<and> isAllowEntry c) cs"

text \<open>A record that holds together: its title fits, its ref names its kind and its number, and its
  fallback id is the one the rollout asks for.\<close>

definition record_ok :: "GateRuleRecord \<Rightarrow> bool" where
  "record_ok r \<longleftrightarrow>
     ruleText 80 0 (gr_sopTitle r) \<and> body_ok (gr_body r)
     \<and> (case ref_match (gr_ref r) of
          None \<Rightarrow> False
        | Some (k, n) \<Rightarrow> k = kind_name (gr_kind r) \<and> fallback_ok (gr_kind r) n (gr_rollout r) (gr_fallbackId r))"

lemma kind_name_inj [simp]: "kind_name k = kind_name l \<longleftrightarrow> k = l"
  by (cases k; cases l) simp_all

lemma kind_of_name_Some: "kind_of_name s = Some k \<longleftrightarrow> s = kind_name k"
  by (cases k) (auto simp: kind_of_name_def GATE_RULE_KINDS_def)

lemma rollout_of_name_Some: "rollout_of_name s = Some ro \<longleftrightarrow> s = rollout_name ro"
  by (cases ro) (auto simp: rollout_of_name_def)

lemma str_list_strings [simp]: "str_list (Some (JArr (map JStr xs))) = Some xs"
  by (simp add: str_list_def list_all_iff comp_def)

lemma str_list_Some: "str_list v = Some xs \<longleftrightarrow> v = Some (JArr (map JStr xs))"
proof
  assume "str_list v = Some xs"
  then obtain ys where v: "v = Some (JArr ys)" and all: "list_all (\<lambda>x. case x of JStr s \<Rightarrow> True | _ \<Rightarrow> False) ys"
    and xs: "xs = map (\<lambda>x. case x of JStr s \<Rightarrow> s | _ \<Rightarrow> '''') ys"
    by (cases v; cases "the v") (auto simp: str_list_def split: if_splits)
  from all have "map JStr (map (\<lambda>x. case x of JStr s \<Rightarrow> s | _ \<Rightarrow> '''') ys) = ys"
    by (induction ys) (auto split: json.splits)
  with v xs show "v = Some (JArr (map JStr xs))" by simp
qed simp

lemma decode_body_ok: "decode_body kind r = Some body \<Longrightarrow> body_kind body = kind \<and> body_ok body"
  by (cases kind) (auto simp: decode_body_def split: option.splits json.splits if_splits)

lemma decode_payload_ok:
  assumes "decode_payload kind fcol ro p = Some r"
  shows "record_ok r \<and> gr_kind r = kind \<and> fallback_col (gr_fallbackId r) = fcol \<and> gr_rollout r = ro"
proof -
  from assms obtain sopTitle ref n body where
    "ruleText 80 0 sopTitle" "ref_match ref = Some (kind_name kind, n)"
    "fallback_ok kind n ro (if fcol = ''-'' then None else Some fcol)" "decode_body kind p = Some body"
    "r = \<lparr>gr_ref = ref, gr_sopTitle = sopTitle, gr_fallbackId = (if fcol = ''-'' then None else Some fcol), gr_rollout = ro, gr_body = body\<rparr>"
    by (auto simp: decode_payload_def Let_def split: option.splits json.splits if_splits)
  with decode_body_ok show ?thesis by (auto simp: record_ok_def fallback_col_def)
qed

lemma decode_ok:
  assumes "decodeGateRuleRecord jsonParse line = Some r"
  shows "record_ok r \<and> take 4 (split_on tab line) = [RULE_RECORD_TAG, fallback_col (gr_fallbackId r), kind_name (gr_kind r), rollout_name (gr_rollout r)]"
proof -
  from assms obtain fcol kind ro b64 p where
    "split_on tab line = [RULE_RECORD_TAG, fcol, kind_name kind, rollout_name ro, b64]" "decode_payload kind fcol ro p = Some r"
    by (auto simp: decodeGateRuleRecord_def kind_of_name_Some rollout_of_name_Some split: list.splits option.splits json.splits if_splits)
  with decode_payload_ok show ?thesis by fastforce
qed

text \<open>C23: A line that reads as a rule record can be acted on: its fields are within their bounds, its
  ref names its kind and number, an enforcing record names the fallback line of that kind and
  number and a shadow record names none, and the columns are the record's own.\<close>

theorem decodeGateRuleRecord_sound:
  assumes "decodeGateRuleRecord jsonParse line = Some r"
  shows "record_ok r \<and> take 4 (split_on tab line) = [RULE_RECORD_TAG, fallback_col (gr_fallbackId r), kind_name (gr_kind r), rollout_name (gr_rollout r)]"
  using assms by (rule decode_ok)

section \<open>Round trip\<close>

lemma map_of_sorted_fields: "distinct (map fst kvs) \<Longrightarrow> map_of (sort_key fst kvs) = map_of kvs"
  by (subst map_of_inject_set) (auto simp: distinct_map distinct_sort inj_on_def)

lemma sort_fst_sort_key: "sort (map fst (sort_key fst kvs)) = sort (map fst kvs)"
  by (rule properties_for_sort) (simp_all only: mset_map mset_sort sorted_sort)

lemma payload_fields:
  "distinct (map fst (gateRulePayload r))" "sort (map fst (gateRulePayload r)) = RULE_RECORD_FIELDS (gr_kind r)"
  by (cases "gr_body r"; simp add: gateRulePayload_def)+

lemma body_decodes:
  assumes "\<And>k. map_of p k = map_of (gateRulePayload r) k" "body_ok (gr_body r)"
  shows "decode_body (gr_kind r) p = Some (gr_body r)"
proof (cases "gr_body r")
  case (PlanApproval m)
  with assms show ?thesis by (cases m) (simp_all add: decode_body_def gateRulePayload_def)
qed (use assms in \<open>simp_all add: decode_body_def gateRulePayload_def\<close>)

definition sorted_payload :: "GateRuleRecord \<Rightarrow> json" where
  "sorted_payload r = JObj (sort_key fst (gateRulePayload r))"

lemma fallback_ok_col:
  "fallback_ok kind n ro f \<Longrightarrow> (if fallback_col f = ''-'' then None else Some (fallback_col f)) = f"
proof -
  assume ok: "fallback_ok kind n ro f"
  have "f \<noteq> Some ''-''"
    using ok by (cases ro; cases kind) (auto simp: fallback_ok_def fallback_match_def after_prefix_def)
  then show ?thesis by (auto simp: fallback_col_def split: option.splits)
qed

lemma payload_decodes:
  assumes "record_ok r"
  shows "decode_payload (gr_kind r) (fallback_col (gr_fallbackId r)) (gr_rollout r) (sort_key fst (gateRulePayload r)) = Some r"
proof -
  have look: "map_of (sort_key fst (gateRulePayload r)) k = map_of (gateRulePayload r) k" for k
    by (simp add: map_of_sorted_fields payload_fields)
  from assms obtain n where "ref_match (gr_ref r) = Some (kind_name (gr_kind r), n)"
    and f: "fallback_ok (gr_kind r) n (gr_rollout r) (gr_fallbackId r)"
    and "ruleText 80 0 (gr_sopTitle r)" "body_ok (gr_body r)"
    by (auto simp: record_ok_def split: option.splits)
  moreover have "map_of (gateRulePayload r) ''sopTitle'' = Some (JStr (gr_sopTitle r))"
    "map_of (gateRulePayload r) ''ref'' = Some (JStr (gr_ref r))" "map_of (gateRulePayload r) ''v'' = Some (JNum 1)"
    by (simp_all add: gateRulePayload_def)
  ultimately show ?thesis
    using body_decodes [OF look]
    by (simp add: decode_payload_def Let_def sort_fst_sort_key payload_fields look fallback_ok_col [OF f])
qed

lemma after_prefix_Some: "after_prefix p s = Some r \<longleftrightarrow> s = p @ r"
  by (auto simp: after_prefix_def prefix_def)

lemma fallback_match_iff:
  "fallback_match kind n f \<longleftrightarrow> (\<exists>h. f = kind_name kind @ ''-fallback:'' @ n @ ''@'' @ h \<and> hex_run 12 h)"
proof -
  have "(case after_prefix p f of None \<Rightarrow> False | Some h \<Rightarrow> P h) \<longleftrightarrow> (\<exists>h. f = p @ h \<and> P h)" for p P
    by (simp add: after_prefix_Some [symmetric] split: option.split)
  then show ?thesis by (simp only: fallback_match_def append.assoc)
qed

lemma digits_no_tab: "list_all is_digit n \<Longrightarrow> tab \<notin> set n"
  by (induction n) (auto simp: tab_def is_digit_def)

lemma ref_number_digits: "ref_number n \<Longrightarrow> list_all is_digit n"
  by (cases n) (auto simp: ref_number_def)

lemma fallback_no_tab: "fallback_ok kind n ro f \<Longrightarrow> ref_number n \<Longrightarrow> tab \<notin> set (fallback_col f)"
proof -
  assume ok: "fallback_ok kind n ro f" and n: "ref_number n"
  have "tab \<notin> set n" using n by (simp add: ref_number_digits digits_no_tab)
  moreover have "tab \<notin> set (kind_name kind)" by (cases kind) (simp_all add: tab_def)
  ultimately show ?thesis using ok
    by (cases ro; cases f) (auto simp: fallback_ok_def fallback_col_def fallback_match_iff tab_def dest!: hex_run_no_tab)
qed

lemma ref_match_number: "ref_match ref = Some (k, n) \<Longrightarrow> ref_number n"
  by (auto simp: ref_match_def Let_def split: list.splits if_splits)

lemma encoded_columns:
  assumes "record_ok r"
  shows "split_on tab (encodeGateRuleRecord numStr r) =
      [RULE_RECORD_TAG, fallback_col (gr_fallbackId r), kind_name (gr_kind r), rollout_name (gr_rollout r),
       ruleToBase64 (ruleCanonicalJson numStr (JObj (gateRulePayload r)))]"
proof -
  from assms have "tab \<notin> set (fallback_col (gr_fallbackId r))"
    by (auto simp: record_ok_def split: option.splits dest: fallback_no_tab ref_match_number)
  moreover have "tab \<notin> set RULE_RECORD_TAG" by code_simp
  moreover have "tab \<notin> set (kind_name k)" "tab \<notin> set (rollout_name ro)" for k ro
    by (cases k; simp add: tab_def) (cases ro; simp add: tab_def)
  ultimately show ?thesis
    unfolding encodeGateRuleRecord_def
    by (intro split_on_join) (simp_all add: ruleToBase64_def tab_not_in_base64)
qed

lemma decode_encode_rule:
  assumes "record_ok r" "jsonParse (ruleCanonicalJson numStr (JObj (gateRulePayload r))) = Some (sorted_payload r)"
  shows "decodeGateRuleRecord jsonParse (encodeGateRuleRecord numStr r) = Some r"
proof -
  have "ruleToBase64 (ruleCanonicalJson numStr (JObj (gateRulePayload r))) \<noteq> ''''"
    unfolding ruleToBase64_def by (rule decideToBase64_nonempty) (simp add: ruleCanonicalJson_def)
  moreover have "ruleFromBase64 (ruleToBase64 t) = Some t" for t
    by (simp add: ruleFromBase64_def ruleToBase64_def decideFromBase64_iff)
  moreover have "kind_of_name (kind_name k) = Some k" "rollout_of_name (rollout_name ro) = Some ro" for k ro
    by (simp_all add: kind_of_name_Some rollout_of_name_Some)
  ultimately show ?thesis
    using assms(2) payload_decodes [OF assms(1)]
    by (simp add: decodeGateRuleRecord_def encoded_columns [OF assms(1)] sorted_payload_def)
qed

text \<open>C24: A record that holds together survives both ways it travels: written as an \<open>@rule\<close> line and
  read back, and served by the control plane and read by a client, it is the same record.\<close>

theorem gateRuleRecord_roundtrip:
  assumes "record_ok r"
    and "jsonParse (ruleCanonicalJson numStr (JObj (gateRulePayload r))) = Some (sorted_payload r)"
  shows "decodeGateRuleRecord jsonParse (encodeGateRuleRecord numStr r) = Some r
       \<and> fromServedGateRecord numStr jsonParse (toServedGateRecord r sopId) = Some r"
proof -
  have "\<not> list_ex (\<lambda>k. k \<in> {''kind'', ''fallbackId'', ''rollout''}) (map fst (gateRulePayload r))"
    by (cases "gr_body r") (simp_all add: gateRulePayload_def)
  then have "fromServedGateRecord numStr jsonParse (toServedGateRecord r sopId) =
      decodeGateRuleRecord jsonParse (encodeGateRuleRecord numStr r)"
    by (cases "gr_fallbackId r")
      (simp_all add: fromServedGateRecord_def toServedGateRecord_def encodeGateRuleRecord_def fallback_col_def join_text_opt_def)
  with decode_encode_rule [where jsonParse = jsonParse and numStr = numStr, OF assms] show ?thesis by simp
qed

definition sample_gate_rule :: GateRuleRecord where
  "sample_gate_rule =
     \<lparr>gr_ref = ''sop-1#allow_commands:1'', gr_sopTitle = ''Shell'', gr_fallbackId = Some ''allow_commands-fallback:1@0123456789ab'',
      gr_rollout = Enforce, gr_body = AllowCommands [''git status'', ''npm test *'']\<rparr>"

lemma sample_rule_ok: "record_ok sample_gate_rule"
  by code_simp

theorem decodeGateRuleRecord_sound_witness:
  "record_ok sample_gate_rule"
proof -
  have "decodeGateRuleRecord (\<lambda>_. Some (sorted_payload sample_gate_rule)) (encodeGateRuleRecord (\<lambda>_. ''1'') sample_gate_rule) = Some sample_gate_rule"
    by (rule decode_encode_rule [OF sample_rule_ok]) simp
  from decodeGateRuleRecord_sound [OF this] show ?thesis by simp
qed

theorem gateRuleRecord_roundtrip_witness:
  "fromServedGateRecord (\<lambda>_. ''1'') (\<lambda>_. Some (sorted_payload sample_gate_rule)) (toServedGateRecord sample_gate_rule ''sop-1'') = Some sample_gate_rule"
  using gateRuleRecord_roundtrip [OF sample_rule_ok, of "\<lambda>_. Some (sorted_payload sample_gate_rule)"] by simp

section \<open>What a SOP compiles to\<close>

lemma nat_str_all_digits: "list_all is_digit (nat_str n)"
proof (induction n rule: nat_str.induct)
  case (1 n)
  have d: "is_digit (char_of (48 + m))" if "m < 10" for m :: nat
  proof -
    have "list_all (\<lambda>m. is_digit (char_of (48 + m))) [0..<10::nat]" by code_simp
    with that show ?thesis by (simp add: list_all_iff)
  qed
  show ?case
  proof (cases "n < 10")
    case True
    then show ?thesis by (subst nat_str.simps) (simp add: d)
  next
    case False
    with 1 d [of "n mod 10"] show ?thesis by (subst nat_str.simps) simp
  qed
qed

lemma nat_str_leading: "0 < n \<Longrightarrow> hd (nat_str n) \<noteq> CHR ''0''"
proof (induction n rule: nat_str.induct)
  case (1 n)
  show ?case
  proof (cases "n < 10")
    case True
    have "list_all (\<lambda>m. char_of (48 + m) \<noteq> CHR ''0'') [1..<10::nat]" by code_simp
    with True 1 show ?thesis by (subst nat_str.simps) (simp add: list_all_iff)
  next
    case False
    with 1 show ?thesis by (subst nat_str.simps) (simp add: nat_str_not_nil)
  qed
qed

lemma nat_str_length: "n < 10 ^ Suc k \<Longrightarrow> length (nat_str n) \<le> Suc k"
proof (induction k arbitrary: n)
  case 0
  then show ?case by (simp add: nat_str.simps [of n])
next
  case (Suc k)
  then have "n div 10 < 10 ^ Suc k" by (simp add: div_less_iff_less_mult)
  then have "length (nat_str (n div 10)) \<le> Suc k" by (rule Suc.IH)
  then have "length (if n < 10 then [char_of (48 + n)] else nat_str (n div 10) @ [char_of (48 + n mod 10)]) \<le> Suc (Suc k)" by auto
  then show ?case by (simp only: nat_str.simps [of n])
qed

lemma ref_number_nat_str: "0 < n \<Longrightarrow> n < 1000000 \<Longrightarrow> ref_number (nat_str n)"
  using nat_str_all_digits [of n] nat_str_leading [of n] nat_str_length [of n 5] nat_str_not_nil [of n]
  by (cases "nat_str n") (auto simp: ref_number_def)

lemma kind_name_chars: "list_all (\<lambda>c. is_az c \<or> c = CHR ''_'') (kind_name k)" "kind_name k \<noteq> ''''"
  by (cases k; simp add: is_az_def)+

lemma no_sep_in_name: "list_all (\<lambda>c. is_az c \<or> c = CHR ''_'') s \<Longrightarrow> CHR ''#'' \<notin> set s \<and> CHR '':'' \<notin> set s"
  by (induction s) (auto simp: is_az_def)

lemma no_sep_in_digits: "list_all is_digit s \<Longrightarrow> CHR ''#'' \<notin> set s \<and> CHR '':'' \<notin> set s"
  by (induction s) (auto simp: is_digit_def)

lemma ref_match_ref:
  assumes "sopId \<noteq> ''''" "CHR 0x0A \<notin> set sopId" "CHR 0x0D \<notin> set sopId" "0 < n" "n < 1000000"
  shows "ref_match (gateRuleRef sopId kind n) = Some (kind_name kind, nat_str n)"
proof -
  note k = kind_name_chars [of kind] no_sep_in_name [OF kind_name_chars(1), of kind]
  note m = no_sep_in_digits [OF nat_str_all_digits, of n] ref_number_nat_str [OF assms(4,5)]
  have "split_on (CHR ''#'') (gateRuleRef sopId kind n) = split_on (CHR ''#'') sopId @ [kind_name kind @ CHR '':'' # nat_str n]"
    using k m split_on_append [of "CHR ''#''" sopId "kind_name kind @ CHR '':'' # nat_str n"]
    by (simp add: gateRuleRef_def split_on_no_sep)
  moreover have "split_on (CHR '':'') (kind_name kind @ CHR '':'' # nat_str n) = [kind_name kind, nat_str n]"
    using k m by (simp add: split_on_append split_on_no_sep)
  ultimately show ?thesis
    using assms k m by (simp add: ref_match_def Let_def join_split_on)
qed

lemma collapse_runs_no_line_space: "c \<in> set (collapse_runs s) \<Longrightarrow> \<not> is_line_space c"
  by (induction s rule: collapse_runs.induct) (auto simp: is_line_space_def tab_def split: if_splits)

lemma set_trim: "set (trim s) \<subseteq> set s"
proof -
  have "set (dropWhile P xs) \<subseteq> set xs" for P and xs :: string by (induction xs) auto
  from subset_trans [OF this [of is_trim_space "rev (dropWhile is_trim_space s)"]] this [of is_trim_space s]
  show ?thesis by (simp add: trim_def)
qed

lemma ruleSopTitle_ok: "ruleText 80 0 (ruleSopTitle title)"
proof -
  have "\<not> is_line_space c" if "c \<in> set (ruleSopTitle title)" for c
    using that set_trim [of "collapse_runs title"] collapse_runs_no_line_space
    unfolding ruleSopTitle_def by (meson in_set_takeD subsetD)
  then show ?thesis by (auto simp: ruleText_def is_line_space_def ruleSopTitle_def)
qed

lemma compiled_fallback:
  "hex_run 12 (take 12 (sha256Hex (se_sopId entry))) \<Longrightarrow>
   fallback_ok (body_kind body) (nat_str n) ro (gr_fallbackId (compiled_record sha256Hex entry ro n body))"
  by (cases ro) (auto simp: fallback_ok_def compiled_record_def gateRuleFallbackId_def fallback_match_iff)

definition sop_id_ok :: "(string \<Rightarrow> string) \<Rightarrow> SopEntry \<Rightarrow> bool" where
  "sop_id_ok sha256Hex entry \<longleftrightarrow>
     se_sopId entry \<noteq> '''' \<and> CHR 0x0A \<notin> set (se_sopId entry) \<and> CHR 0x0D \<notin> set (se_sopId entry)
     \<and> hex_run 12 (take 12 (sha256Hex (se_sopId entry)))"

lemma compiled_record_ok:
  assumes "sop_id_ok sha256Hex entry" "0 < n" "n < 1000000"
  shows "record_ok (compiled_record sha256Hex entry ro n body) \<longleftrightarrow> body_ok body"
  using assms compiled_fallback [of sha256Hex entry body n ro]
  by (simp add: record_ok_def sop_id_ok_def ruleSopTitle_ok compiled_record_def ref_match_ref)

lemma compile_requires_all:
  "list_all (\<lambda>e. \<not> qualified_entry e \<or> gated_name (fst (snd e)) \<and> fst (snd e) \<noteq> ''action:run_tests'') es"
  by (induction es) (auto simp: qualified_entry_def)

lemma compile_requires_members:
  "r \<in> set (compile_requires mk n es) \<Longrightarrow>
     \<exists>m g a. r = mk m (RequiresOutcome g a) \<and> n < m \<and> m \<le> n + length es \<and> body_ok (RequiresOutcome g a)"
proof (induction mk n es rule: compile_requires.induct)
  case (2 mk n e es)
  show ?case
  proof (cases "qualified_entry e \<and> r = mk (n + 1) (RequiresOutcome (fst (snd e)) (snd (snd e)))")
    case True
    then show ?thesis
      by (intro exI [of _ "n + 1"] exI [of _ "fst (snd e)"] exI [of _ "snd (snd e)"]) (auto simp: qualified_entry_def)
  next
    case False
    with 2 obtain m g a where "r = mk m (RequiresOutcome g a)" "n < m" "m \<le> n + length (e # es)" "body_ok (RequiresOutcome g a)"
      by (cases "qualified_entry e") fastforce+
    then show ?thesis by blast
  qed
qed simp

lemma compiled_members:
  assumes "r \<in> set (fst (compileSopGateRecords entry fm sha256Hex))"
  shows "\<exists>m body. r = compiled_record sha256Hex entry (compiled_rollout entry fm) m body
      \<and> 0 < m \<and> m \<le> max 1 (length (fm_requiresBefore fm))
      \<and> (body_ok body \<or> gr_kind r = KindAllowCommands)"
proof -
  let ?mk = "compiled_record sha256Hex entry (compiled_rollout entry fm)"
  let ?paths = "take 64 (filter (ruleText 512 1) (fm_scopePaths fm))"
  have paths: "?paths \<noteq> [] \<Longrightarrow> body_ok (ScopePaths ?paths)"
    by (auto simp: list_all_iff Suc_le_eq dest!: in_set_takeD)
  have kind: "gr_kind (?mk m body) = body_kind body" for m body by (simp add: compiled_record_def)
  from assms consider (req) "r \<in> set (compile_requires ?mk 0 (fm_requiresBefore fm))"
    | (scope) "?paths \<noteq> []" "r = ?mk 1 (ScopePaths ?paths)"
    | (plan) m where "r = ?mk 1 (PlanApproval m)"
    | (allow) cs where "r = ?mk 1 (AllowCommands cs)"
    by (auto simp: compileSopGateRecords_def Let_def split: if_splits option.splits)
  then show ?thesis
  proof cases
    case req
    from compile_requires_members [OF this] obtain m g a where
      "r = ?mk m (RequiresOutcome g a)" "0 < m" "m \<le> length (fm_requiresBefore fm)" "body_ok (RequiresOutcome g a)" by auto
    then show ?thesis by (intro exI [of _ m] exI [of _ "RequiresOutcome g a"]) (simp add: le_max_iff_disj)
  next
    case scope
    with paths show ?thesis by (metis less_one max.cobounded1 zero_less_one)
  next
    case plan
    moreover have "body_ok (PlanApproval m)" by simp
    ultimately show ?thesis by (metis max.cobounded1 zero_less_one)
  next
    case allow
    then show ?thesis using kind by (metis body_kind.simps(4) max.cobounded1 zero_less_one)
  qed
qed


definition sample_sop :: SopEntry where
  "sample_sop = \<lparr>se_sopId = ''sop-1'', se_sopTitle = ''Release'', se_shadow = False\<rparr>"

definition sample_front :: GateRuleFrontMatter where
  "sample_front =
     \<lparr>fm_roles = [], fm_shadow = False, fm_requiresBefore = [(''action:run_tests[ok]'', ''action:deploy'', False)],
      fm_scopePaths = [], fm_scopeEnforced = False, fm_planApproval = Some PlanStrict, fm_allowCommands = []\<rparr>"


section \<open>What a call must meet\<close>

text \<open>The four rules as conditions on the call and its session, with no findings and no order.\<close>

definition plan_met :: "GateRuleRecord list \<Rightarrow> GateRuleCall \<Rightarrow> bool" where
  "plan_met records call \<longleftrightarrow>
     records = [] \<or> isPlanExemptTool (gc_tool call)
     \<or> gc_sessionId call \<noteq> '''' \<and>
       (case gc_plan call of
          PlanApproved tools \<Rightarrow>
            list_all (\<lambda>r. plan_mode r = Some PlanRequired) records \<or> to_lower (gc_tool call) \<in> to_lower ` set tools
        | _ \<Rightarrow> False)"

definition prerequisite_met :: "GateRuleCall \<Rightarrow> GateRuleRecord \<Rightarrow> bool" where
  "prerequisite_met call r \<longleftrightarrow>
     (case gr_body r of
        RequiresOutcome g adjacent \<Rightarrow>
          \<not> gates_call call g
          \<or> gc_observable call \<and> gc_sessionId call \<noteq> ''''
            \<and> fst (prerequisiteCase (gc_outcomes call) ''action:run_tests'' adjacent (gc_nowMs call)) = CaseMet
      | _ \<Rightarrow> True)"

definition scope_met :: "GateRuleRecord list \<Rightarrow> GateRuleCall \<Rightarrow> bool" where
  "scope_met records call \<longleftrightarrow>
     records = []
     \<or> list_all (\<lambda>t. case scopeRelativePath (ct_target t) (gc_cwd call) (gc_root call) of
                       None \<Rightarrow> False
                     | Some rel \<Rightarrow> isWithinScope rel (concat (map record_paths records)))
         (changeTargets (gc_tool call) (gc_input call))"

definition command_covered :: "string list \<Rightarrow> string \<Rightarrow> bool" where
  "command_covered allow c \<longleftrightarrow>
     list_all isAllowEntry allow
     \<and> (case parseShell c of None \<Rightarrow> False | Some ps \<Rightarrow> list_all (covered_by allow) (concat ps))"

definition commands_met :: "GateRuleRecord list \<Rightarrow> GateRuleCall \<Rightarrow> bool" where
  "commands_met records call \<longleftrightarrow>
     records = [] \<or> \<not> scopeToolIs (gc_tool call) SCOPE_SHELL_TOOLS
     \<or> call_commands (gc_input call) \<noteq> []
       \<and> list_all (command_covered (concat (map record_commands records))) (call_commands (gc_input call))"

definition rules_met :: "GateRuleRecord list \<Rightarrow> GateRuleCall \<Rightarrow> bool" where
  "rules_met records call \<longleftrightarrow>
     plan_met (of_kind KindPlanApproval records) call
     \<and> list_all (prerequisite_met call) records
     \<and> scope_met (of_kind KindScopePaths records) call
     \<and> commands_met (of_kind KindAllowCommands records) call"

lemma set_fold_add_new: "set (fold add_new xs ys) = set ys \<union> set xs"
  by (induction xs arbitrary: ys) (auto simp: add_new_def)

lemma set_union_of [simp]: "set (union_of xs) = set xs"
  by (simp add: union_of_def set_fold_add_new)

lemma union_of_Nil [simp]: "union_of xs = [] \<longleftrightarrow> xs = []"
  by (metis set_empty set_union_of)

lemma isWithinScope_union_of: "isWithinScope t (union_of xs) = isWithinScope t xs"
  by (simp add: isWithinScope_def list_ex_iff)

lemma plan_mode_kind: "r \<in> set (of_kind KindPlanApproval records) \<Longrightarrow> plan_mode r \<noteq> None"
  by (cases "gr_body r") (auto simp: of_kind_def plan_mode_def)

lemma rulePlanFinding_None:
  assumes "\<And>r. r \<in> set records \<Longrightarrow> plan_mode r \<noteq> None"
  shows "rulePlanFinding records call = None \<longleftrightarrow> plan_met records call"
proof (cases "records = [] \<or> isPlanExemptTool (gc_tool call)")
  case True
  then show ?thesis by (auto simp: rulePlanFinding_def plan_met_def)
next
  case False
  let ?rec = "case List.find (\<lambda>r. plan_mode r = Some PlanStrict) records of Some r \<Rightarrow> r | None \<Rightarrow> hd records"
  have strict: "plan_mode ?rec = Some PlanStrict \<longleftrightarrow> \<not> list_all (\<lambda>r. plan_mode r = Some PlanRequired) records"
  proof (cases "List.find (\<lambda>r. plan_mode r = Some PlanStrict) records")
    case None
    then have "plan_mode r \<noteq> Some PlanStrict" if "r \<in> set records" for r using that by (auto simp: find_None_iff)
    moreover from this have "plan_mode r = Some PlanRequired" if "r \<in> set records" for r
      using that assms by (metis PlanMode.exhaust option.exhaust)
    ultimately show ?thesis using False None by (auto simp: list_all_iff)
  next
    case (Some r)
    then have "plan_mode r = Some PlanStrict" "r \<in> set records" by (auto simp: find_Some_iff)
    with Some show ?thesis by (force simp: list_all_iff)
  qed
  have "?rec \<in> set records"
  proof (cases "List.find (\<lambda>r. plan_mode r = Some PlanStrict) records")
    case (Some r)
    then have "r \<in> set records" by (auto simp: find_Some_iff)
    with Some show ?thesis by simp
  qed (use False in simp)
  then obtain m where m: "plan_mode ?rec = Some m" using assms by blast
  have lower: "list_ex (\<lambda>t. to_lower t = to_lower (gc_tool call)) ts \<longleftrightarrow> to_lower (gc_tool call) \<in> to_lower ` set ts" for ts
    by (auto simp: list_ex_iff image_iff eq_commute [of "to_lower (gc_tool call)"])
  from False m strict show ?thesis
    by (cases "gc_plan call") (auto simp: rulePlanFinding_def plan_met_def Let_def lower)
qed

lemma requires_finding_None: "requires_finding call r = None \<longleftrightarrow> prerequisite_met call r"
  by (cases "gr_body r") (auto simp: requires_finding_def prerequisite_met_def requires_case_def split: prod.splits)

lemma opt_list_Nil: "opt_list v = [] \<longleftrightarrow> v = None"
  by (cases v) (simp_all add: opt_list_def)

lemma first_some_None: "first_some f xs = None \<longleftrightarrow> list_all (\<lambda>x. f x = None) xs"
  by (induction xs) (auto simp: or_else_def split: option.splits)

lemma ruleRequiresFinding_None:
  "ruleRequiresFinding (of_kind KindRequiresOutcome records) call = None \<longleftrightarrow> list_all (prerequisite_met call) records"
proof -
  have "prerequisite_met call r" if "gr_kind r \<noteq> KindRequiresOutcome" for r
    using that by (cases "gr_body r") (auto simp: prerequisite_met_def)
  then show ?thesis
    by (auto simp: ruleRequiresFinding_def first_some_None requires_finding_None of_kind_def list_all_iff)
qed

lemma ruleScopeFinding_None: "ruleScopeFinding records call = None \<longleftrightarrow> scope_met records call"
  by (auto simp: ruleScopeFinding_def scope_met_def Let_def filter_empty_conv list_all_iff outside_scope_def isWithinScope_union_of
      split: option.splits)

lemma command_covered_iff: "commandsOutsideAllow c allow = [] \<longleftrightarrow> command_covered allow c"
  by (auto simp: commandsOutsideAllow_Nil command_covered_def split: option.splits)

lemma covered_by_set: "set xs = set ys \<Longrightarrow> covered_by xs = covered_by ys"
  by (auto simp: covered_by_def fun_eq_iff list_ex_iff)

lemma command_covered_union_of: "command_covered (union_of xs) = command_covered xs"
proof -
  have "covered_by (union_of xs) = covered_by xs" by (rule covered_by_set) simp
  moreover have "list_all isAllowEntry (union_of xs) = list_all isAllowEntry xs" by (simp add: list_all_iff)
  ultimately show ?thesis by (intro ext) (simp only: command_covered_def)
qed

lemma ruleCommandFinding_None: "ruleCommandFinding records call = None \<longleftrightarrow> commands_met records call"
  by (simp add: ruleCommandFinding_def commands_met_def Let_def list_all_iff command_covered_iff command_covered_union_of)

lemma tier_r_refusal:
  "ev_refusal (evaluateGateRuleRecords records call) = None \<longleftrightarrow>
     rules_met (filter (\<lambda>r. gr_rollout r = Enforce) records) call"
proof -
  have "ruleFindings rs call = [] \<longleftrightarrow> rules_met rs call" for rs
    by (simp add: ruleFindings_def rules_met_def opt_list_Nil ruleRequiresFinding_None ruleScopeFinding_None ruleCommandFinding_None
        rulePlanFinding_None [OF plan_mode_kind])
  then show ?thesis by (simp add: evaluateGateRuleRecords_def Let_def)
qed

text \<open>C22: Tier R lets a call on exactly when every enforcing record is met: the plan is approved (and
  holds the tool, when a record is strict), every gated prerequisite has passed, every changed file
  lies in the union of the scopes, and every command parses and is allowed by the union of the
  lists.  What cannot be read (no session, no plan feed, no outcome state, no command, an
  unreadable entry) is never met, and a shadow record never refuses.\<close>

theorem evaluateGateRuleRecords_refuses:
  "ev_refusal (evaluateGateRuleRecords records call) = None \<longleftrightarrow>
     rules_met (filter (\<lambda>r. gr_rollout r = Enforce) records) call"
  by (rule tier_r_refusal)

end
