(* ===== verification/RegoRules.thy ===== *)
theory RegoRules
  imports DecideEngine "HOL-Library.Word" "HOL-Library.AList"
begin

text \<open>
  Rules written in Rego and built by OPA, \<open>packages/shared-types/src/regoRules.ts\<close>: the metadata section a
  build carries, the memory its import asks for, the input document a policy reads and the decision its result
  stands for.  A binary is a list of 8-bit words.  The text of a number and the UTF-8 bytes of a text are parameters.
  Instantiating and running a module is WebAssembly's, and is not modelled.
\<close>

unbundle bit_operations_syntax

section \<open>LEB128\<close>

definition leb_byte :: "32 word \<Rightarrow> 8 word" where
  "leb_byte n = (if drop_bit 7 n \<noteq> 0 then ucast (n AND 0x7F) OR 0x80 else ucast (n AND 0x7F))"

function leb128 :: "32 word \<Rightarrow> 8 word list" where
  "leb128 n = leb_byte n # (if drop_bit 7 n \<noteq> 0 then leb128 (drop_bit 7 n) else [])"
  by auto

lemma unat_drop_7: "unat (drop_bit 7 n) = unat (n :: 32 word) div 128"
  using unat_drop_bit_eq [of 7 n] by (simp add: drop_bit_eq_div [where 'a = nat])

termination leb128
proof (relation "measure unat")
  fix n :: "32 word"
  assume "drop_bit 7 n \<noteq> 0"
  then have "unat (drop_bit 7 n) \<noteq> 0" by (simp add: unat_eq_zero)
  then show "(drop_bit 7 n, n) \<in> measure unat" by (simp add: unat_drop_7)
qed simp

declare leb128.simps [simp del]

text \<open>The number at \<open>p\<close> and the position after it; \<^const>\<open>None\<close> when the binary is malformed.\<close>

function leb_loop :: "8 word list \<Rightarrow> nat \<Rightarrow> nat \<Rightarrow> nat \<Rightarrow> (nat \<times> nat) option" where
  "leb_loop bytes p v shift =
     (if 35 \<le> shift then None
      else case char_at bytes p of
        None \<Rightarrow> None
      | Some b \<Rightarrow>
          let v' = v + unat (b AND 0x7F) * 2 ^ shift in
          if b AND 0x80 = 0 then Some (v', p + 1) else leb_loop bytes (p + 1) v' (shift + 7))"
  by auto

termination leb_loop
  by (relation "measure (\<lambda>(bytes, p, v, shift). 35 - shift)") auto

declare leb_loop.simps [simp del]

definition leb :: "8 word list \<Rightarrow> nat \<Rightarrow> (nat \<times> nat) option" where
  "leb bytes p = leb_loop bytes p 0 0"

lemma leb_loop_next: "leb_loop bytes p v shift = Some (n, q) \<Longrightarrow> p < q \<and> q \<le> length bytes"
proof (induction bytes p v shift rule: leb_loop.induct)
  case (1 bytes p v shift)
  then show ?case
    by (subst (asm) leb_loop.simps)
      (fastforce simp: Let_def char_at_def split: if_splits option.splits)
qed

lemma leb_next: "leb bytes p = Some (n, q) \<Longrightarrow> p < q \<and> q \<le> length bytes"
  unfolding leb_def by (rule leb_loop_next)


section \<open>The memory a module imports\<close>

definition malformed :: string where "malformed = ''malformed WASM binary''"

definition odd_flags :: "8 word option \<Rightarrow> bool" where
  "odd_flags b = (case b of None \<Rightarrow> False | Some w \<Rightarrow> w AND 1 \<noteq> 0)"

definition skipLimits :: "8 word list \<Rightarrow> nat \<Rightarrow> nat option" where
  "skipLimits bytes p =
     (case leb bytes (p + 1) of
        None \<Rightarrow> None
      | Some (v, q) \<Rightarrow> if odd_flags (char_at bytes p) then map_option snd (leb bytes q) else Some q)"

text \<open>The two names of an import.\<close>

definition skip_names :: "8 word list \<Rightarrow> nat \<Rightarrow> nat option" where
  "skip_names bytes q =
     Option.bind (leb bytes q) (\<lambda>(m, a). map_option (\<lambda>(n, b). b + n) (leb bytes (a + m)))"

text \<open>What follows an import's kind: the minimum pages of a memory, or where the next import starts.\<close>

definition import_kind :: "8 word list \<Rightarrow> 8 word \<Rightarrow> nat \<Rightarrow> string + (nat + nat)" where
  "import_kind bytes kind q =
     (if kind = 0 then (case leb bytes q of None \<Rightarrow> Inl malformed | Some (v, r) \<Rightarrow> Inr (Inr r))
      else if kind = 1 then (case skipLimits bytes (q + 1) of None \<Rightarrow> Inl malformed | Some r \<Rightarrow> Inr (Inr r))
      else if kind = 2 then (case leb bytes (q + 1) of None \<Rightarrow> Inl malformed | Some (v, r) \<Rightarrow> Inr (Inl v))
      else if kind = 3 then Inr (Inr (q + 2))
      else Inl (''unknown import kind '' @ nat_str (unat kind)))"

fun import_loop :: "8 word list \<Rightarrow> nat \<Rightarrow> nat \<Rightarrow> string + nat option" where
  "import_loop bytes 0 q = Inr None"
| "import_loop bytes (Suc n) q =
     (case skip_names bytes q of
        None \<Rightarrow> Inl malformed
      | Some k \<Rightarrow>
          (case char_at bytes k of
             None \<Rightarrow> Inl ''unknown import kind undefined''
           | Some kind \<Rightarrow>
               (case import_kind bytes kind (k + 1) of
                  Inl e \<Rightarrow> Inl e
                | Inr (Inl pages) \<Rightarrow> Inr (Some pages)
                | Inr (Inr r) \<Rightarrow> import_loop bytes n r)))"

definition import_section :: "8 word list \<Rightarrow> nat \<Rightarrow> string + nat option" where
  "import_section bytes q =
     (case leb bytes q of None \<Rightarrow> Inl malformed | Some (n, r) \<Rightarrow> import_loop bytes n r)"

function section_loop :: "8 word list \<Rightarrow> nat \<Rightarrow> string + nat" where
  "section_loop bytes p =
     (case char_at bytes p of
        None \<Rightarrow> Inl ''not an OPA module: no env.memory import''
      | Some kind \<Rightarrow>
          (case leb bytes (p + 1) of
             None \<Rightarrow> Inl malformed
           | Some (len, q) \<Rightarrow>
               (case (if kind = 2 then import_section bytes q else Inr None) of
                  Inl e \<Rightarrow> Inl e
                | Inr (Some pages) \<Rightarrow> Inr pages
                | Inr None \<Rightarrow> section_loop bytes (q + len))))"
  by auto

termination section_loop
  by (relation "measure (\<lambda>(bytes, p). length bytes - p)") (auto simp: char_at_def dest!: leb_next split: if_splits)

declare section_loop.simps [simp del]

definition importedMemoryPages :: "8 word list \<Rightarrow> string + nat" where
  "importedMemoryPages bytes = section_loop bytes 8"

section \<open>The metadata section\<close>

definition REGO_METADATA_SECTION :: string where "REGO_METADATA_SECTION = ''intutic.rule''"

text \<open>\<open>encode\<close> is \<open>TextEncoder.encode\<close>.\<close>

definition metadata_body :: "(string \<Rightarrow> 8 word list) \<Rightarrow> string \<Rightarrow> 8 word list" where
  "metadata_body encode payload =
     (let name = encode REGO_METADATA_SECTION in leb128 (of_nat (length name)) @ name @ encode payload)"

definition withRegoMetadata :: "(string \<Rightarrow> 8 word list) \<Rightarrow> (rat \<Rightarrow> string) \<Rightarrow> 8 word list \<Rightarrow> json \<Rightarrow> 8 word list" where
  "withRegoMetadata encode numStr bytes meta =
     (let body = metadata_body encode (stringify numStr meta) in bytes @ [0] @ leb128 (of_nat (length body)) @ body)"

section \<open>The input document\<close>

definition REGO_INPUT_VERSION :: rat where "REGO_INPUT_VERSION = 1"
definition REGO_MAX_INPUT_BYTES :: nat where "REGO_MAX_INPUT_BYTES = 64 * 1024"

definition TRUNCATION_STEPS :: "nat list" where
  "TRUNCATION_STEPS = [16 * 1024, 4 * 1024, 1024, 256]"

definition cut :: "string \<Rightarrow> nat \<Rightarrow> string" where
  "cut s limit = (if utf8Bytes s \<le> limit then s else utf8Prefix s limit)"

fun truncateStrings :: "nat \<Rightarrow> json \<Rightarrow> json" where
  "truncateStrings limit (JStr s) = JStr (cut s limit)"
| "truncateStrings limit (JArr xs) = JArr (map (truncateStrings limit) xs)"
| "truncateStrings limit (JObj kvs) = JObj (map (\<lambda>(k, v). (k, truncateStrings limit v)) kvs)"
| "truncateStrings limit v = v"

definition with_args :: "(json \<Rightarrow> json) \<Rightarrow> (string \<times> json) list \<Rightarrow> (string \<times> json) list" where
  "with_args f doc = (case map_of doc ''args'' of None \<Rightarrow> doc | Some a \<Rightarrow> AList.update ''args'' (f a) doc)"

definition input_fits :: "string \<Rightarrow> bool" where
  "input_fits s \<longleftrightarrow> utf8Bytes s \<le> REGO_MAX_INPUT_BYTES"

fun truncation_loop :: "(rat \<Rightarrow> string) \<Rightarrow> nat list \<Rightarrow> (string \<times> json) list \<Rightarrow> string" where
  "truncation_loop numStr [] doc = stringify numStr (JObj (AList.update ''args'' JNull doc))"
| "truncation_loop numStr (limit # limits) doc =
     (let doc' = with_args (truncateStrings limit) doc; s = stringify numStr (JObj doc') in
      if input_fits s then s else truncation_loop numStr limits doc')"

definition boundedRegoInput :: "(rat \<Rightarrow> string) \<Rightarrow> (string \<times> json) list \<Rightarrow> string" where
  "boundedRegoInput numStr input =
     (let doc = AList.update ''truncated'' (JBool False) input; s = stringify numStr (JObj doc) in
      if input_fits s then s else truncation_loop numStr TRUNCATION_STEPS (AList.update ''truncated'' (JBool True) doc))"

section \<open>The decision of a result\<close>

datatype RegoRiskTier = TierLow | TierMedium | TierHigh | TierCritical

definition RISK_TIERS :: "(string \<times> RegoRiskTier) list" where
  "RISK_TIERS = [(''low'', TierLow), (''medium'', TierMedium), (''high'', TierHigh), (''critical'', TierCritical)]"

definition rego_parseRiskTier :: "string \<Rightarrow> RegoRiskTier option" where
  "rego_parseRiskTier tier = map_of RISK_TIERS (to_lower tier)"

datatype RegoVerdict = RegoDeny | RegoHold | RegoReask

datatype RegoDecision =
    RegoAllow "RegoRiskTier option"
  | RegoRefuse RegoVerdict (rego_reason: string) "RegoRiskTier option"

definition isControl :: "char \<Rightarrow> bool" where
  "isControl c \<longleftrightarrow> (let n = (of_char c :: nat) in n \<le> 0x1F \<or> 0x7F \<le> n \<and> n \<le> 0x9F)"

definition sanitize :: "json option \<Rightarrow> string option" where
  "sanitize v =
     (case v of
        Some (JStr s) \<Rightarrow>
          (let trimmed = filter (\<lambda>c. \<not> isControl c) (take 480 (trim s)) in if trimmed \<noteq> '''' then Some trimmed else None)
      | _ \<Rightarrow> None)"

definition rego_fallback :: "string \<Rightarrow> string \<Rightarrow> string" where
  "rego_fallback entrypoint verb = verb @ '' by Rego policy '' @ entrypoint"

definition reason_or :: "json option \<Rightarrow> string \<Rightarrow> string" where
  "reason_or v fallback = (case sanitize v of Some s \<Rightarrow> s | None \<Rightarrow> fallback)"

definition opa_value :: "json \<Rightarrow> json option" where
  "opa_value result = (case result of JArr (x # xs) \<Rightarrow> json_field x ''result'' | _ \<Rightarrow> None)"

definition regoDecision :: "json \<Rightarrow> string \<Rightarrow> string + RegoDecision" where
  "regoDecision result entrypoint =
     (case opa_value result of
        None \<Rightarrow> Inr (RegoAllow None)
      | Some (JBool False) \<Rightarrow> Inr (RegoAllow None)
      | Some (JBool True) \<Rightarrow> Inr (RegoRefuse RegoDeny (rego_fallback entrypoint ''Denied'') None)
      | Some (JArr []) \<Rightarrow> Inr (RegoAllow None)
      | Some (JArr (x # xs)) \<Rightarrow> Inr (RegoRefuse RegoDeny (reason_or (Some x) (rego_fallback entrypoint ''Denied'')) None)
      | Some (JObj kvs) \<Rightarrow>
          (let tier = (case map_of kvs ''risk_tier'' of Some (JStr t) \<Rightarrow> rego_parseRiskTier t | _ \<Rightarrow> None);
               said = reason_or (map_of kvs ''reason'') \<circ> rego_fallback entrypoint;
               d = map_of kvs ''decision'' in
           if d = Some (JStr ''allow'') then Inr (RegoAllow tier)
           else if d = Some (JStr ''deny'') then Inr (RegoRefuse RegoDeny (said ''Denied'') tier)
           else if d = Some (JStr ''hold'') then Inr (RegoRefuse RegoHold (said ''Held for approval'') tier)
           else if d = Some (JStr ''reask'') then Inr (RegoRefuse RegoReask (said ''Refused'') tier)
           else Inl ''it returned an object without a known `decision` (allow, deny, hold, reask)'')
      | Some _ \<Rightarrow> Inl ''it returned neither a boolean, a set of messages nor a decision object'')"


section \<open>Numbers and sections\<close>

lemma mask_7: "(n :: 'a::len word) AND 0x7F = take_bit 7 n"
  using take_bit_eq_mask [of 7 n] by (simp add: mask_eq_exp_minus_1)

lemma unat_low_bits: "unat (ucast (n AND 0x7F :: 32 word) :: 8 word) = unat n mod 128"
  by (simp add: mask_7 unsigned_ucast_eq unsigned_take_bit_eq take_bit_eq_mod [where 'a = nat]
      mod_mod_cancel [of 128 256])

lemma leb_byte_bits:
  "unat (leb_byte n AND 0x7F) = unat n mod 128"
  "leb_byte n AND 0x80 = 0 \<longleftrightarrow> drop_bit 7 n = 0"
proof -
  let ?b = "ucast (n AND 0x7F :: 32 word) :: 8 word"
  have low: "?b AND 0x7F = ?b"
    by (simp add: mask_7 word_unat_eq_iff unsigned_take_bit_eq unsigned_ucast_eq)
  have high: "?b AND 0x80 = 0"
  proof -
    have "(?b AND 0x7F) AND 0x80 = ?b AND (0x7F AND 0x80)" by (rule and.assoc)
    also have "\<dots> = 0" by simp
    finally show ?thesis using low by simp
  qed
  have or7: "(?b OR 0x80) AND 0x7F = ?b" using low by (simp add: bit.conj_disj_distrib2)
  have or8: "(?b OR 0x80) AND 0x80 = 0x80" using high by (simp add: bit.conj_disj_distrib2)
  show "unat (leb_byte n AND 0x7F) = unat n mod 128"
    using low or7 unat_low_bits [of n] by (simp add: leb_byte_def)
  show "leb_byte n AND 0x80 = 0 \<longleftrightarrow> drop_bit 7 n = 0"
    using high or8 by (simp add: leb_byte_def)
qed

lemma char_at_append: "char_at (pre @ x # rest) (length pre) = Some x"
  by (simp add: char_at_def)

lemma low_high: "(a :: nat) mod 128 * s + a div 128 * (s * 128) = a * s"
proof -
  have "(a mod 128 + a div 128 * 128) * s = a * s" by (simp only: mod_div_mult_eq)
  then show ?thesis by (simp only: add_mult_distrib mult.assoc mult.commute [of s])
qed

lemma leb_loop_leb128:
  "unat n < 2 ^ (35 - shift) \<Longrightarrow> shift < 35 \<Longrightarrow>
   leb_loop (pre @ leb128 n @ rest) (length pre) v shift = Some (v + unat n * 2 ^ shift, length pre + length (leb128 n))"
proof (induction n arbitrary: pre v shift rule: leb128.induct)
  case (1 n)
  have parts: "unat n mod 128 * 2 ^ shift + unat n div 128 * 2 ^ (shift + 7) = unat n * 2 ^ shift"
    using low_high [of "unat n" "2 ^ shift"] by (simp add: power_add)
  show ?case
  proof (cases "drop_bit 7 n = 0")
    case True
    then have "unat n div 128 = 0" by (metis unat_0 unat_drop_7)
    with True parts "1.prems" show ?thesis
      by (simp add: leb128.simps [of n] leb_loop.simps [of _ _ _ shift] char_at_append leb_byte_bits)
  next
    case False
    then have big: "128 \<le> unat n" by (metis unat_drop_7 unat_eq_zero div_less not_le)
    from big "1.prems"(1) have "128 < (2 :: nat) ^ (35 - shift)" by (rule le_less_trans)
    moreover have "(2 :: nat) ^ 7 = 128" by simp
    ultimately have "(2 :: nat) ^ 7 < 2 ^ (35 - shift)" by (simp only:)
    then have seven: "7 < 35 - shift" by (rule power_less_imp_less_exp [rotated]) simp
    have "unat (drop_bit 7 n) < 2 ^ (35 - (shift + 7))"
    proof -
      have "(2 :: nat) ^ (35 - shift) = 128 * 2 ^ (35 - (shift + 7))"
        using seven power_add [of "2 :: nat" 7 "28 - shift"] by simp
      with "1.prems"(1) show ?thesis by (simp add: unat_drop_7)
    qed
    with "1.IH" [OF False, of "shift + 7" "pre @ [leb_byte n]" "v + unat n mod 128 * 2 ^ shift"] seven
    have "leb_loop (pre @ leb_byte n # leb128 (drop_bit 7 n) @ rest) (length pre + 1) (v + unat n mod 128 * 2 ^ shift) (shift + 7)
        = Some (v + unat n * 2 ^ shift, length pre + 1 + length (leb128 (drop_bit 7 n)))"
      using parts by (simp add: unat_drop_7)
    with False "1.prems"(2) show ?thesis
      by (simp add: leb128.simps [of n] leb_loop.simps [of _ _ _ shift] char_at_append leb_byte_bits)
  qed
qed

text \<open>A length written before a section is read back: after any bytes and before any, the LEB128 form of a
  32-bit number is read as that number, up to the byte after it.\<close>

theorem leb128_roundtrip:
  "leb (pre @ leb128 n @ rest) (length pre) = Some (unat n, length pre + length (leb128 n))"
  using leb_loop_leb128 [of n 0 pre rest 0] unsigned_less [of n, where 'a = nat] by (simp add: leb_def)

section \<open>Bytes appended to a module\<close>

lemma char_at_more: "char_at bytes p = Some b \<Longrightarrow> char_at (bytes @ extra) p = Some b"
  by (auto simp: char_at_def nth_append split: if_splits)

lemma leb_loop_more: "leb_loop bytes p v shift = Some r \<Longrightarrow> leb_loop (bytes @ extra) p v shift = Some r"
proof (induction bytes p v shift rule: leb_loop.induct)
  case (1 bytes p v shift)
  then show ?case
    by (subst leb_loop.simps, subst (asm) leb_loop.simps)
      (auto simp: Let_def char_at_more split: if_splits option.splits)
qed

lemma leb_more: "leb bytes p = Some r \<Longrightarrow> leb (bytes @ extra) p = Some r"
  unfolding leb_def by (rule leb_loop_more)

lemma skip_names_more: "skip_names bytes q = Some r \<Longrightarrow> skip_names (bytes @ extra) q = Some r"
  by (auto simp: skip_names_def bind_eq_Some_conv leb_more)

lemma leb_inside: "leb bytes p = Some r \<Longrightarrow> p < length bytes"
  by (cases r) (use leb_next in force)

lemma skipLimits_more: "skipLimits bytes p = Some r \<Longrightarrow> skipLimits (bytes @ extra) p = Some r"
  by (auto simp: skipLimits_def leb_more char_at_def nth_append dest: leb_inside split: option.splits if_splits)

lemma import_kind_more: "import_kind bytes kind q = Inr r \<Longrightarrow> import_kind (bytes @ extra) kind q = Inr r"
  by (auto simp: import_kind_def leb_more skipLimits_more split: if_splits option.splits)

lemma import_loop_more: "import_loop bytes n q = Inr r \<Longrightarrow> import_loop (bytes @ extra) n q = Inr r"
  by (induction bytes n q rule: import_loop.induct)
    (auto simp: skip_names_more char_at_more import_kind_more split: option.splits sum.splits)

lemma import_section_more: "import_section bytes q = Inr r \<Longrightarrow> import_section (bytes @ extra) q = Inr r"
  by (auto simp: import_section_def leb_more import_loop_more split: option.splits)

lemma section_loop_more: "section_loop bytes p = Inr n \<Longrightarrow> section_loop (bytes @ extra) p = Inr n"
proof (induction bytes p rule: section_loop.induct)
  case (1 bytes p)
  from "1.prems" obtain kind len q where at: "char_at bytes p = Some kind" "leb bytes (p + 1) = Some (len, q)"
    by (subst (asm) section_loop.simps) (auto split: option.splits)
  let ?s = "if kind = 2 then import_section bytes q else Inr None"
  from "1.prems" at obtain r where r: "?s = Inr r" by (subst (asm) section_loop.simps) (cases ?s; simp)
  then have s: "(if kind = 2 then import_section (bytes @ extra) q else Inr None) = Inr r"
    by (cases "kind = 2") (simp_all add: import_section_more)
  show ?case
  proof (cases r)
    case None
    from "1.prems" at r None have "section_loop bytes (q + len) = Inr n" by (subst (asm) section_loop.simps) simp
    from "1.IH" [OF at(1,2) refl r None this] show ?thesis
      using at s None by (subst section_loop.simps) (simp add: char_at_more leb_more)
  next
    case (Some pages)
    with "1.prems" at r have "pages = n" by (subst (asm) section_loop.simps) simp
    with Some show ?thesis using at s by (subst section_loop.simps) (simp add: char_at_more leb_more)
  qed
qed

text \<open>Writing a rule's metadata into a build does not change what it runs with: the memory its import asks for
  is read as before.\<close>

theorem importedMemoryPages_metadata:
  "importedMemoryPages bytes = Inr n \<Longrightarrow> importedMemoryPages (withRegoMetadata encode numStr bytes meta) = Inr n"
  by (simp add: importedMemoryPages_def withRegoMetadata_def Let_def section_loop_more)

definition sample_module :: "8 word list" where
  "sample_module = [0, 0x61, 0x73, 0x6D, 1, 0, 0, 0, 2, 8, 1, 1, 0x61, 1, 0x62, 2, 0, 3]"

theorem importedMemoryPages_metadata_witness:
  "importedMemoryPages (withRegoMetadata (map (\<lambda>c. of_char c)) (\<lambda>_. ''1'') sample_module (JObj [(''v'', JNum 1)])) = Inr 3"
  by (rule importedMemoryPages_metadata) code_simp


section \<open>Cutting the arguments\<close>

lemma utf8Prefix_fits: "utf8Bytes s \<le> n \<Longrightarrow> utf8Prefix s n = s"
  by (induction s n rule: utf8Prefix.induct) (auto simp: utf8Bytes_def)

lemma cut_prefix: "cut s n = utf8Prefix s n"
  by (simp add: cut_def utf8Prefix_fits)

lemma utf8Prefix_shorter: "n \<le> m \<Longrightarrow> utf8Prefix (utf8Prefix s m) n = utf8Prefix s n"
  by (induction s m arbitrary: n rule: utf8Prefix.induct) auto

lemma truncate_again: "n \<le> m \<Longrightarrow> truncateStrings n (truncateStrings m v) = truncateStrings n v"
  by (induction m v rule: truncateStrings.induct) (auto simp: cut_prefix utf8Prefix_shorter)

lemma with_args_again:
  "with_args f (with_args g doc) = with_args (f \<circ> g) doc"
  by (auto simp: with_args_def update_conv' split: option.splits)

lemma with_args_cut:
  "n \<le> m \<Longrightarrow> with_args (truncateStrings n) (with_args (truncateStrings m) doc) = with_args (truncateStrings n) doc"
  by (simp add: with_args_again comp_def truncate_again)

lemma drop_args [simp]: "AList.update ''args'' a (with_args f doc) = AList.update ''args'' a doc"
  by (simp add: with_args_def split: option.split)

text \<open>The documents a policy may be handed, the fullest first: everything; the strings of \<open>args\<close> cut at each limit.\<close>

definition rego_candidates :: "(rat \<Rightarrow> string) \<Rightarrow> (string \<times> json) list \<Rightarrow> string list" where
  "rego_candidates numStr input =
     stringify numStr (JObj (AList.update ''truncated'' (JBool False) input))
     # map (\<lambda>limit. stringify numStr (JObj (with_args (truncateStrings limit) (AList.update ''truncated'' (JBool True) input)))) TRUNCATION_STEPS"

text \<open>C27: A policy is handed the fullest document of at most 64 KB: the whole input, else the input with the strings
  of its arguments, and nothing else, cut at the largest of the four limits that fits, marked as truncated;
  only when none fits does it see no arguments.\<close>

theorem boundedRegoInput_fullest:
  "boundedRegoInput numStr input =
     (case find input_fits (rego_candidates numStr input) of
        Some s \<Rightarrow> s
      | None \<Rightarrow> stringify numStr (JObj (AList.update ''args'' JNull (AList.update ''truncated'' (JBool True) input))))"
  by (simp add: boundedRegoInput_def rego_candidates_def TRUNCATION_STEPS_def with_args_cut Let_def)

text \<open>What a policy says cannot forge the agent's transcript: a refusal's reason is the host's own sentence, or the
  policy's text of at most 480 characters with no control character left in it.\<close>

theorem regoDecision_reason:
  assumes "regoDecision result entrypoint = Inr (RegoRefuse verdict reason tier)"
  shows "reason \<in> {rego_fallback entrypoint ''Denied'', rego_fallback entrypoint ''Held for approval'', rego_fallback entrypoint ''Refused''}
       \<or> reason \<noteq> '''' \<and> length reason \<le> 480 \<and> list_all (\<lambda>c. \<not> isControl c) reason"
proof -
  have clean: "s \<noteq> '''' \<and> length s \<le> 480 \<and> list_all (\<lambda>c. \<not> isControl c) s" if "sanitize v = Some s" for v s
    using that
    by (auto simp: sanitize_def Let_def list_all_iff split: option.splits json.splits if_splits
        intro: order_trans [OF length_filter_le])
  have "reason_or v f = f \<or> sanitize v = Some (reason_or v f)" for v f
    by (simp add: reason_or_def split: option.split)
  then have said: "reason_or v f = f \<or> reason_or v f \<noteq> '''' \<and> length (reason_or v f) \<le> 480 \<and> list_all (\<lambda>c. \<not> isControl c) (reason_or v f)" for v f
    using clean by blast
  show ?thesis
  proof (cases "opa_value result")
    case None
    with assms show ?thesis by (simp add: regoDecision_def)
  next
    case (Some w)
    show ?thesis
    proof (cases w)
      case (JBool b)
      with assms Some show ?thesis by (cases b) (simp_all add: regoDecision_def)
    next
      case (JArr xs)
      with assms Some said show ?thesis by (cases xs) (auto simp add: regoDecision_def)
    next
      case (JObj kvs)
      with assms Some show ?thesis
        using said [of "map_of kvs ''reason''"] by (auto simp: regoDecision_def Let_def split: if_splits)
    qed (use assms Some in \<open>simp_all add: regoDecision_def\<close>)
  qed
qed

theorem regoDecision_reason_witness:
  "length ''no prod'' \<le> 480 \<and> list_all (\<lambda>c. \<not> isControl c) ''no prod''"
proof -
  have "regoDecision (JArr [JObj [(''result'', JArr [JStr ''no prod''])]]) ''p'' = Inr (RegoRefuse RegoDeny ''no prod'' None)"
    by code_simp
  from regoDecision_reason [OF this] show ?thesis by (simp add: rego_fallback_def)
qed

end
