(* ===== verification/McpBudgets.thy ===== *)
theory McpBudgets
  imports DecideRecord
begin

text \<open>
  MCP call budgets: the \<open>mcpBudgets\<close> setting and the budgets a call draws on,
  \<open>packages/shared-types/src/mcpBudgets.ts\<close>.  The two zod schemas are written out as the checks they
  declare.  Times are whole milliseconds.  In this theory the control code 0x9B stands for the
  character U+203A of a description.
\<close>

section \<open>The setting\<close>

datatype McpBudgetScope = ScServer | ScTool | ScMember | ScMemberServer
datatype McpBudgetPeriod = Hour | Day

record McpBudget =
  bg_id :: string
  bg_scope :: McpBudgetScope
  bg_server :: "string option"
  bg_tool :: "string option"
  bg_memberId :: "string option"
  bg_period :: McpBudgetPeriod
  bg_limit :: nat

record McpBudgetPolicy =
  bp_budgets :: "McpBudget list"
  bp_warnAtPct :: nat

definition MCP_BUDGET_DEFAULT_WARN_PCT :: nat where "MCP_BUDGET_DEFAULT_WARN_PCT = 80"
definition MAX_MCP_BUDGETS :: nat where "MAX_MCP_BUDGETS = 200"
definition MAX_MCP_BUDGET_LIMIT :: nat where "MAX_MCP_BUDGET_LIMIT = 1000000"

definition MCP_BUDGET_SCOPES :: "(string \<times> McpBudgetScope) list" where
  "MCP_BUDGET_SCOPES = [(''server'', ScServer), (''tool'', ScTool), (''member'', ScMember), (''member_server'', ScMemberServer)]"

definition MCP_BUDGET_PERIODS :: "(string \<times> McpBudgetPeriod) list" where
  "MCP_BUDGET_PERIODS = [(''hour'', Hour), (''day'', Day)]"

fun PERIOD_MS :: "McpBudgetPeriod \<Rightarrow> nat" where
  "PERIOD_MS Hour = 3600000"
| "PERIOD_MS Day = 86400000"

text \<open>\<open>/^[A-Za-z0-9_-]{1,40}$/\<close>\<close>

definition budget_id :: "string \<Rightarrow> bool" where
  "budget_id s \<longleftrightarrow> s \<noteq> '''' \<and> length s \<le> 40 \<and> list_all (\<lambda>c. is_az c \<or> is_AZ c \<or> is_digit c \<or> c = CHR ''_'' \<or> c = CHR ''-'') s"

text \<open>A whole number in a range, as a natural number.\<close>

definition whole_in :: "json option \<Rightarrow> nat \<Rightarrow> nat \<Rightarrow> nat option" where
  "whole_in v lo hi =
     (case v of
        Some (JNum r) \<Rightarrow>
          if r = of_int \<lfloor>r\<rfloor> \<and> of_nat lo \<le> r \<and> r \<le> of_nat hi then Some (nat \<lfloor>r\<rfloor>) else None
      | _ \<Rightarrow> None)"

definition str_value :: "json option \<Rightarrow> string option" where
  "str_value v = (case v of Some (JStr s) \<Rightarrow> Some s | _ \<Rightarrow> None)"

text \<open>An optional string of bounded length: \<^const>\<open>None\<close> when it is there and wrong.\<close>

definition optional_str :: "json option \<Rightarrow> nat \<Rightarrow> string option option" where
  "optional_str v maxlen =
     (case v of
        None \<Rightarrow> Some None
      | Some (JStr s) \<Rightarrow> if 1 \<le> length s \<and> length s \<le> maxlen then Some (Some s) else None
      | _ \<Rightarrow> None)"

definition BUDGET_FIELDS :: "string list" where
  "BUDGET_FIELDS = [''id'', ''scope'', ''server'', ''tool'', ''memberId'', ''period'', ''limit'']"

definition budget_shape :: "json \<Rightarrow> McpBudget option" where
  "budget_shape v =
     (if \<not> isObject v \<or> \<not> decideOnlyFields v BUDGET_FIELDS then None
      else
        Option.bind (str_value (json_field v ''id'')) (\<lambda>i.
        Option.bind (Option.bind (str_value (json_field v ''scope'')) (map_of MCP_BUDGET_SCOPES)) (\<lambda>scope.
        Option.bind (optional_str (json_field v ''server'') 256) (\<lambda>server.
        Option.bind (optional_str (json_field v ''tool'') 256) (\<lambda>tool.
        Option.bind (optional_str (json_field v ''memberId'') 64) (\<lambda>member.
        Option.bind (Option.bind (str_value (json_field v ''period'')) (map_of MCP_BUDGET_PERIODS)) (\<lambda>period.
        Option.bind (whole_in (json_field v ''limit'') 1 MAX_MCP_BUDGET_LIMIT) (\<lambda>limit.
          if budget_id i
          then Some \<lparr>bg_id = i, bg_scope = scope, bg_server = server, bg_tool = tool, bg_memberId = member,
                     bg_period = period, bg_limit = limit\<rparr>
          else None))))))))"

text \<open>The cross-field rules: who names a server, a tool and a member.\<close>

definition budget_names :: "McpBudget \<Rightarrow> bool" where
  "budget_names b \<longleftrightarrow>
     (bg_scope b \<noteq> ScMember \<longleftrightarrow> bg_server b \<noteq> None)
     \<and> (bg_scope b = ScTool \<longleftrightarrow> bg_tool b \<noteq> None)
     \<and> (bg_memberId b \<noteq> None \<longrightarrow> bg_scope b = ScMember \<or> bg_scope b = ScMemberServer)"

definition BudgetSchema :: "json \<Rightarrow> McpBudget option" where
  "BudgetSchema v = (case budget_shape v of None \<Rightarrow> None | Some b \<Rightarrow> if budget_names b then Some b else None)"

definition McpBudgetSettingsSchema :: "json \<Rightarrow> bool" where
  "McpBudgetSettingsSchema v \<longleftrightarrow>
     isObject v \<and> decideOnlyFields v [''budgets'', ''warnAtPct'']
     \<and> (case json_field v ''budgets'' of
          Some (JArr es) \<Rightarrow>
            length es \<le> MAX_MCP_BUDGETS \<and> list_all (\<lambda>e. BudgetSchema e \<noteq> None) es
            \<and> distinct (map bg_id (List.map_filter BudgetSchema es))
        | _ \<Rightarrow> False)
     \<and> (has v ''warnAtPct'' \<longrightarrow> whole_in (json_field v ''warnAtPct'') 1 99 \<noteq> None)"

fun read_budgets :: "json list \<Rightarrow> string set \<Rightarrow> McpBudget list" where
  "read_budgets [] seen = []"
| "read_budgets (e # es) seen =
     (case BudgetSchema e of
        None \<Rightarrow> read_budgets es seen
      | Some b \<Rightarrow> if bg_id b \<in> seen then read_budgets es seen else b # read_budgets es (insert (bg_id b) seen))"

definition parseMcpBudgetPolicy :: "json \<Rightarrow> McpBudgetPolicy" where
  "parseMcpBudgetPolicy v =
     (if \<not> isObject v then \<lparr>bp_budgets = [], bp_warnAtPct = MCP_BUDGET_DEFAULT_WARN_PCT\<rparr>
      else
        \<lparr>bp_budgets = read_budgets (arr_of (json_field v ''budgets'')) {},
         bp_warnAtPct = (case whole_in (json_field v ''warnAtPct'') 1 99 of None \<Rightarrow> MCP_BUDGET_DEFAULT_WARN_PCT | Some n \<Rightarrow> n)\<rparr>)"

section \<open>One call\<close>

record McpBudgetCall =
  bc_server :: string
  bc_tool :: string
  bc_memberId :: "string option"
  bc_fallbackCaller :: string

record McpBudgetCharge =
  ch_budget :: McpBudget
  ch_subject :: string

definition names_or_any :: "string option \<Rightarrow> string option \<Rightarrow> bool" where
  "names_or_any want actual \<longleftrightarrow> want = None \<or> want = actual"

definition per_member :: "McpBudget \<Rightarrow> bool" where
  "per_member b \<longleftrightarrow> bg_scope b = ScMember \<or> bg_scope b = ScMemberServer"

definition budgetsForCall :: "McpBudgetPolicy \<Rightarrow> McpBudgetCall \<Rightarrow> McpBudgetCharge list" where
  "budgetsForCall policy call =
     (let caller = (case bc_memberId call of None \<Rightarrow> bc_fallbackCaller call | Some m \<Rightarrow> m) in
      map (\<lambda>b. \<lparr>ch_budget = b, ch_subject = (if per_member b then caller else '''')\<rparr>)
        (filter (\<lambda>b. names_or_any (bg_server b) (Some (bc_server call)) \<and> names_or_any (bg_tool b) (Some (bc_tool call))
                      \<and> names_or_any (bg_memberId b) (bc_memberId call)) (bp_budgets policy)))"

record Window =
  wn_startMs :: nat
  wn_resetAtMs :: nat

definition budgetWindow :: "McpBudgetPeriod \<Rightarrow> nat \<Rightarrow> Window" where
  "budgetWindow period nowMs =
     (let size = PERIOD_MS period; startMs = nowMs div size * size
      in \<lparr>wn_startMs = startMs, wn_resetAtMs = startMs + size\<rparr>)"

definition budgetWarnAt :: "nat \<Rightarrow> nat \<Rightarrow> nat" where
  "budgetWarnAt limit warnAtPct = max 1 ((limit * warnAtPct + 99) div 100)"

definition opt_text :: "string option \<Rightarrow> string" where
  "opt_text s = (case s of None \<Rightarrow> ''undefined'' | Some t \<Rightarrow> t)"

definition describeMcpBudget :: "McpBudget \<Rightarrow> string option \<Rightarrow> string" where
  "describeMcpBudget b memberLabel =
     (let who = (case bg_memberId b of
            None \<Rightarrow> ''each member''
          | Some m \<Rightarrow> (case memberLabel of None \<Rightarrow> ''member '' @ m | Some l \<Rightarrow> l));
          what = (case bg_scope b of
            ScServer \<Rightarrow> ''calls to '' @ opt_text (bg_server b)
          | ScTool \<Rightarrow> ''calls to '' @ opt_text (bg_server b) @ '' '' @ [CHR 0x9B] @ '' '' @ opt_text (bg_tool b)
          | ScMember \<Rightarrow> ''MCP calls by '' @ who
          | ScMemberServer \<Rightarrow> ''calls to '' @ opt_text (bg_server b) @ '' by '' @ who)
      in what @ '': '' @ nat_str (bg_limit b) @ '' per '' @ (case bg_period b of Hour \<Rightarrow> ''hour'' | Day \<Rightarrow> ''day''))"

section \<open>What is read\<close>

lemma read_budgets_distinct:
  "distinct (map bg_id (read_budgets es seen)) \<and> bg_id ` set (read_budgets es seen) \<inter> seen = {}"
  by (induction es arbitrary: seen) (auto split: option.splits)

lemma read_budgets_schema: "b \<in> set (read_budgets es seen) \<Longrightarrow> \<exists>e \<in> set es. BudgetSchema e = Some b"
  by (induction es arbitrary: seen) (auto split: option.splits if_splits)

lemma read_budgets_all:
  "list_all (\<lambda>e. BudgetSchema e \<noteq> None) es \<Longrightarrow> distinct (map bg_id (List.map_filter BudgetSchema es)) \<Longrightarrow>
   bg_id ` set (List.map_filter BudgetSchema es) \<inter> seen = {} \<Longrightarrow> read_budgets es seen = List.map_filter BudgetSchema es"
  by (induction es arbitrary: seen) (auto simp: List.map_filter_simps)

definition budget_ok :: "McpBudget \<Rightarrow> bool" where
  "budget_ok b \<longleftrightarrow> budget_id (bg_id b) \<and> 1 \<le> bg_limit b \<and> bg_limit b \<le> MAX_MCP_BUDGET_LIMIT \<and> budget_names b"

lemma whole_in_Some: "whole_in v lo hi = Some n \<Longrightarrow> lo \<le> n \<and> n \<le> hi"
proof -
  assume "whole_in v lo hi = Some n"
  then obtain q :: rat where "(if q = of_int \<lfloor>q\<rfloor> \<and> of_nat lo \<le> q \<and> q \<le> of_nat hi then Some (nat \<lfloor>q\<rfloor>) else None) = Some n"
    by (cases v rule: decideIsNumber.cases) (auto simp: whole_in_def)
  then have r: "q = of_int \<lfloor>q\<rfloor>" "of_nat lo \<le> q" "q \<le> of_nat hi" "n = nat \<lfloor>q\<rfloor>"
    by (metis option.distinct(1) option.inject)+
  from r(2) have "int lo \<le> \<lfloor>q\<rfloor>" by (simp add: le_floor_iff)
  moreover from r(1,3) have "(of_int \<lfloor>q\<rfloor> :: rat) \<le> of_int (int hi)" by simp
  then have "\<lfloor>q\<rfloor> \<le> int hi" by (simp only: of_int_le_iff)
  ultimately show ?thesis using r(4) by linarith
qed

lemma BudgetSchema_ok: "BudgetSchema v = Some b \<Longrightarrow> budget_ok b"
  by (auto simp: BudgetSchema_def budget_shape_def budget_ok_def bind_eq_Some_conv dest: whole_in_Some split: option.split_asm if_split_asm)

text \<open>Whatever the control plane delivers, the policy the proxy enforces has well-formed budgets with
  distinct ids and a warning percentage from 1 to 99; and a setting an admin could save is read in
  full, every budget in order.\<close>

theorem parseMcpBudgetPolicy_ok:
  "list_all budget_ok (bp_budgets (parseMcpBudgetPolicy v)) \<and> distinct (map bg_id (bp_budgets (parseMcpBudgetPolicy v)))
   \<and> bp_warnAtPct (parseMcpBudgetPolicy v) \<in> {1..99}
   \<and> (McpBudgetSettingsSchema v \<longrightarrow>
        map Some (bp_budgets (parseMcpBudgetPolicy v)) = map BudgetSchema (arr_of (json_field v ''budgets'')))"
proof -
  have budgets: "list_all budget_ok (bp_budgets (parseMcpBudgetPolicy v))"
    by (auto simp: parseMcpBudgetPolicy_def list_all_iff dest!: read_budgets_schema intro: BudgetSchema_ok)
  have ids: "distinct (map bg_id (bp_budgets (parseMcpBudgetPolicy v)))"
    by (simp add: parseMcpBudgetPolicy_def read_budgets_distinct)
  have pct: "bp_warnAtPct (parseMcpBudgetPolicy v) \<in> {1..99}"
    by (auto simp: parseMcpBudgetPolicy_def MCP_BUDGET_DEFAULT_WARN_PCT_def dest!: whole_in_Some split: option.splits)
  have "map Some (bp_budgets (parseMcpBudgetPolicy v)) = map BudgetSchema (arr_of (json_field v ''budgets''))"
    if "McpBudgetSettingsSchema v"
  proof -
    from that obtain es where es: "json_field v ''budgets'' = Some (JArr es)" "isObject v"
      "list_all (\<lambda>e. BudgetSchema e \<noteq> None) es" "distinct (map bg_id (List.map_filter BudgetSchema es))"
      by (auto simp: McpBudgetSettingsSchema_def split: option.splits json.splits)
    have "map Some (List.map_filter BudgetSchema es) = map BudgetSchema es"
      using es(3) by (induction es) (auto simp: List.map_filter_simps)
    then show ?thesis using es by (simp add: parseMcpBudgetPolicy_def read_budgets_all)
  qed
  with budgets ids pct show ?thesis by blast
qed

definition sample_setting :: json where
  "sample_setting = JObj [(''budgets'', JArr [JObj [(''id'', JStr ''gh-hour''), (''scope'', JStr ''server''), (''server'', JStr ''github''),
     (''period'', JStr ''hour''), (''limit'', JNum 100)]])]"

theorem parseMcpBudgetPolicy_ok_witness: "length (bp_budgets (parseMcpBudgetPolicy sample_setting)) = 1"
proof -
  have "McpBudgetSettingsSchema sample_setting"
    by (simp add: McpBudgetSettingsSchema_def sample_setting_def BudgetSchema_def budget_shape_def decideOnlyFields_def BUDGET_FIELDS_def
        str_value_def MCP_BUDGET_SCOPES_def MCP_BUDGET_PERIODS_def optional_str_def whole_in_def MAX_MCP_BUDGET_LIMIT_def
        budget_id_def is_az_def is_AZ_def is_digit_def budget_names_def MAX_MCP_BUDGETS_def has_def List.map_filter_simps)
  then have "map Some (bp_budgets (parseMcpBudgetPolicy sample_setting)) = map BudgetSchema (arr_of (json_field sample_setting ''budgets''))"
    using parseMcpBudgetPolicy_ok [of sample_setting] by blast
  then have "length (map Some (bp_budgets (parseMcpBudgetPolicy sample_setting))) = 1"
    by (simp add: sample_setting_def)
  then show ?thesis by simp
qed

end
