(* ===== verification/McpBudgetStore.thy ===== *)
theory McpBudgetStore
  imports McpBudgets
begin

text \<open>
  MCP call budgets enforced, \<open>packages/mcp-proxy/src/budget.ts\<close>: the Valkey script that checks and
  counts a call against every counter it draws on, its store and the enforcer's check.

  The Valkey keyspace is a map from keys to a value and the moment it expires; \<open>GET\<close>, \<open>INCR\<close>,
  \<open>EXPIRE\<close> and \<open>SET NX EX\<close> are their documented effects on it.  The script's loops are written as
  recursions over the counters (a key, a limit, a warning count and a lifetime each), and a call
  reads one clock.  \<open>up\<close> says whether Valkey answers.  \<open>encodeURIComponent\<close> and \<open>toISOString\<close> are
  parameters.
\<close>

section \<open>The script\<close>

type_synonym valkey = "string \<Rightarrow> (nat \<times> nat) option"

definition vk_get :: "nat \<Rightarrow> string \<Rightarrow> valkey \<Rightarrow> nat" where
  "vk_get now k db = (case db k of None \<Rightarrow> 0 | Some (n, t) \<Rightarrow> if now < t then n else 0)"

definition vk_exists :: "nat \<Rightarrow> string \<Rightarrow> valkey \<Rightarrow> bool" where
  "vk_exists now k db = (case db k of None \<Rightarrow> False | Some (n, t) \<Rightarrow> now < t)"

text \<open>\<open>INCR\<close>, and \<open>EXPIRE\<close> when the count is one.\<close>

definition vk_incr :: "nat \<Rightarrow> nat \<Rightarrow> string \<Rightarrow> valkey \<Rightarrow> nat \<times> valkey" where
  "vk_incr now ttlSecs k db =
     (let n = vk_get now k db + 1;
          t = (if n = 1 then now + ttlSecs * 1000 else (case db k of None \<Rightarrow> 0 | Some (_, t) \<Rightarrow> t))
      in (n, db(k := Some (n, t))))"

definition vk_set_nx :: "nat \<Rightarrow> nat \<Rightarrow> string \<Rightarrow> valkey \<Rightarrow> bool \<times> valkey" where
  "vk_set_nx now ttlSecs k db =
     (if vk_exists now k db then (False, db) else (True, db(k := Some (1, now + ttlSecs * 1000))))"

record BudgetCounter =
  ct_key :: string
  ct_limit :: nat
  ct_warnAt :: nat
  ct_ttlSecs :: nat

definition count_key :: "string \<Rightarrow> string" where "count_key k = k @ '':count''"
definition warned_key :: "string \<Rightarrow> string" where "warned_key k = k @ '':warned''"
definition exhausted_key :: "string \<Rightarrow> string" where "exhausted_key k = k @ '':exhausted''"

datatype CountOutcome =
    Counted "nat list" "bool list"
  | UsedUp nat nat bool

fun check_loop :: "nat \<Rightarrow> BudgetCounter list \<Rightarrow> nat \<Rightarrow> valkey \<Rightarrow> (CountOutcome \<times> valkey) option" where
  "check_loop now [] i db = None"
| "check_loop now (c # cs) i db =
     (let used = vk_get now (count_key (ct_key c)) db in
      if ct_limit c \<le> used then
        (let (claimed, db) = vk_set_nx now (ct_ttlSecs c) (exhausted_key (ct_key c)) db in Some (UsedUp i used claimed, db))
      else check_loop now cs (i + 1) db)"

fun count_loop :: "nat \<Rightarrow> BudgetCounter list \<Rightarrow> valkey \<Rightarrow> (nat \<times> bool) list \<times> valkey" where
  "count_loop now [] db = ([], db)"
| "count_loop now (c # cs) db =
     (let (used, db) = vk_incr now (ct_ttlSecs c) (count_key (ct_key c)) db;
          (claimed, db) = (if ct_warnAt c \<le> used then vk_set_nx now (ct_ttlSecs c) (warned_key (ct_key c)) db else (False, db));
          (rest, db) = count_loop now cs db
      in ((used, claimed) # rest, db))"

definition CHECK_AND_COUNT :: "nat \<Rightarrow> BudgetCounter list \<Rightarrow> valkey \<Rightarrow> CountOutcome \<times> valkey" where
  "CHECK_AND_COUNT now cs db =
     (case check_loop now cs 0 db of
        Some r \<Rightarrow> r
      | None \<Rightarrow> (let (us, db) = count_loop now cs db in (Counted (map fst us) (map snd us), db)))"

definition store_count :: "bool \<Rightarrow> nat \<Rightarrow> BudgetCounter list \<Rightarrow> valkey \<Rightarrow> CountOutcome option \<times> valkey" where
  "store_count up now cs db =
     (if up then (let (r, db) = CHECK_AND_COUNT now cs db in (Some r, db)) else (None, db))"

definition store_used :: "bool \<Rightarrow> nat \<Rightarrow> string list \<Rightarrow> valkey \<Rightarrow> nat list option" where
  "store_used up now keys db = (if up then Some (map (\<lambda>k. vk_get now (count_key k) db) keys) else None)"

section \<open>The enforcer\<close>

definition budgetCounterKey :: "(string \<Rightarrow> string) \<Rightarrow> string \<Rightarrow> string \<Rightarrow> nat \<Rightarrow> string \<Rightarrow> string" where
  "budgetCounterKey enc workspaceId budgetId windowStartMs subject =
     ''v2:mcpbudget:{'' @ workspaceId @ ''}:'' @ budgetId @ '':'' @ nat_str windowStartMs @ '':'' @ enc subject"

definition COUNTER_TTL_SLACK_SECS :: nat where "COUNTER_TTL_SLACK_SECS = 60"

record BudgetStanding =
  bs_budget :: McpBudget
  bs_subject :: string
  bs_used :: nat
  bs_resetAt :: nat

datatype BudgetVerdict =
    Unlimited
  | Allowed "BudgetStanding list"
  | Exceeded BudgetStanding bool
  | Unavailable "McpBudget list"

record McpBudgetEnforcer =
  be_hasStore :: bool
  be_workspaceId :: string
  be_serverName :: string
  be_fallbackCaller :: string

definition budget_counter :: "(string \<Rightarrow> string) \<Rightarrow> McpBudgetEnforcer \<Rightarrow> McpBudgetPolicy \<Rightarrow> nat \<Rightarrow> McpBudgetCharge \<Rightarrow> BudgetCounter" where
  "budget_counter enc enf policy nowMs c =
     (let w = budgetWindow (bg_period (ch_budget c)) nowMs in
      \<lparr>ct_key = budgetCounterKey enc (be_workspaceId enf) (bg_id (ch_budget c)) (wn_startMs w) (ch_subject c),
       ct_limit = bg_limit (ch_budget c),
       ct_warnAt = budgetWarnAt (bg_limit (ch_budget c)) (bp_warnAtPct policy),
       ct_ttlSecs = (wn_resetAtMs w - nowMs + 999) div 1000 + COUNTER_TTL_SLACK_SECS\<rparr>)"

definition standing :: "nat \<Rightarrow> McpBudgetCharge \<Rightarrow> nat \<Rightarrow> BudgetStanding" where
  "standing nowMs c used =
     \<lparr>bs_budget = ch_budget c, bs_subject = ch_subject c, bs_used = used,
      bs_resetAt = wn_resetAtMs (budgetWindow (bg_period (ch_budget c)) nowMs)\<rparr>"

definition charges_of :: "McpBudgetEnforcer \<Rightarrow> McpBudgetPolicy \<Rightarrow> string \<Rightarrow> string option \<Rightarrow> McpBudgetCharge list" where
  "charges_of enf policy toolName memberId =
     budgetsForCall policy \<lparr>bc_server = be_serverName enf, bc_tool = toolName, bc_memberId = memberId,
                             bc_fallbackCaller = be_fallbackCaller enf\<rparr>"

text \<open>The check over any store: \<open>cnt\<close> is the store's own operation.\<close>

definition check_with ::
  "(nat \<Rightarrow> BudgetCounter list \<Rightarrow> 's \<Rightarrow> CountOutcome option \<times> 's) \<Rightarrow> (string \<Rightarrow> string) \<Rightarrow> McpBudgetEnforcer \<Rightarrow> McpBudgetPolicy
     \<Rightarrow> string \<Rightarrow> string option \<Rightarrow> nat \<Rightarrow> 's \<Rightarrow> BudgetVerdict \<times> 's" where
  "check_with cnt enc enf policy toolName memberId nowMs db =
     (let charges = charges_of enf policy toolName memberId in
      if charges = [] then (Unlimited, db)
      else if \<not> be_hasStore enf then (Unavailable (map ch_budget charges), db)
      else
        case cnt nowMs (map (budget_counter enc enf policy nowMs) charges) db of
          (None, db) \<Rightarrow> (Unavailable (map ch_budget charges), db)
        | (Some (UsedUp i used claimed), db) \<Rightarrow> (Exceeded (standing nowMs (charges ! i) used) claimed, db)
        | (Some (Counted useds claims), db) \<Rightarrow>
            (Allowed (map (\<lambda>(c, used, _). standing nowMs c used) (filter (\<lambda>(_, _, claimed). claimed) (zip charges (zip useds claims)))), db))"

definition check :: "bool \<Rightarrow> (string \<Rightarrow> string) \<Rightarrow> McpBudgetEnforcer \<Rightarrow> McpBudgetPolicy \<Rightarrow> string \<Rightarrow> string option \<Rightarrow> nat \<Rightarrow> valkey
    \<Rightarrow> BudgetVerdict \<times> valkey" where
  "check up enc enf policy toolName memberId nowMs db = check_with (store_count up) enc enf policy toolName memberId nowMs db"

section \<open>What is said\<close>

definition untilReset :: "nat \<Rightarrow> nat \<Rightarrow> string" where
  "untilReset resetAt nowMs =
     (let minutes = max 1 ((resetAt - nowMs + 59999) div 60000)
      in if minutes < 120 then nat_str minutes @ '' min'' else nat_str ((minutes + 30) div 60) @ '' h'')"

definition period_text :: "McpBudgetPeriod \<Rightarrow> string" where
  "period_text p = (case p of Hour \<Rightarrow> ''hour'' | Day \<Rightarrow> ''day'')"

definition exceededReason :: "(nat \<Rightarrow> string) \<Rightarrow> BudgetStanding \<Rightarrow> nat \<Rightarrow> string" where
  "exceededReason isoTime s nowMs =
     (let b = bs_budget s in
      ''MCP call budget '' @ [CHR 0x22] @ bg_id b @ [CHR 0x22] @ '' is used up ('' @ describeMcpBudget b None @ ''): ''
      @ nat_str (bs_used s) @ '' of '' @ nat_str (bg_limit b) @ '' calls made this '' @ period_text (bg_period b)
      @ ''. It resets at '' @ isoTime (bs_resetAt s) @ '' (in '' @ untilReset (bs_resetAt s) nowMs
      @ ''). An owner or admin can change MCP budgets on the MCP Servers page.'')"

definition warningReason :: "(nat \<Rightarrow> string) \<Rightarrow> BudgetStanding \<Rightarrow> nat \<Rightarrow> string" where
  "warningReason isoTime s warnAtPct =
     (let b = bs_budget s in
      ''MCP call budget '' @ [CHR 0x22] @ bg_id b @ [CHR 0x22] @ '' reached its '' @ nat_str warnAtPct @ ''% warning (''
      @ describeMcpBudget b None @ ''): '' @ nat_str (bs_used s) @ '' of '' @ nat_str (bg_limit b) @ '' calls made this ''
      @ period_text (bg_period b) @ ''. It resets at '' @ isoTime (bs_resetAt s) @ ''.'')"

definition unavailableReason :: "McpBudget list \<Rightarrow> string" where
  "unavailableReason budgets =
     ''MCP call budget'' @ (if length budgets = 1 then '''' else ''s'') @ '' ''
     @ join_with '', '' (map (\<lambda>b. [CHR 0x22] @ bg_id b @ [CHR 0x22]) budgets)
     @ '' cover this call, but the call count could not be checked (no Valkey configured for this proxy with INTUTIC_VALKEY_URL, ''
     @ ''or Valkey unreachable). Tool call blocked by workspace policy (fail-closed mode). Contact your ''
     @ ''administrator or update mcpProxyFailBehavior to open.''"

record BudgetEventDetail =
  bd_budgetId :: string
  bd_scope :: McpBudgetScope
  bd_server :: "string option"
  bd_tool :: "string option"
  bd_memberId :: "string option"
  bd_subject :: "string option"
  bd_period :: McpBudgetPeriod
  bd_limit :: nat
  bd_used :: nat
  bd_resetAt :: string

definition budgetEventDetail :: "(nat \<Rightarrow> string) \<Rightarrow> BudgetStanding \<Rightarrow> BudgetEventDetail" where
  "budgetEventDetail isoTime s =
     (let b = bs_budget s in
      \<lparr>bd_budgetId = bg_id b, bd_scope = bg_scope b, bd_server = bg_server b, bd_tool = bg_tool b, bd_memberId = bg_memberId b,
       bd_subject = (if bs_subject s \<noteq> '''' then Some (bs_subject s) else None), bd_period = bg_period b,
       bd_limit = bg_limit b, bd_used = bs_used s, bd_resetAt = isoTime (bs_resetAt s)\<rparr>)"


section \<open>Keys\<close>

lemma colon_free: "budget_id s \<Longrightarrow> CHR '':'' \<notin> set s" "CHR '':'' \<notin> set (nat_str n)"
  by (auto simp: budget_id_def list_all_iff is_az_def is_AZ_def is_digit_def colon_nat_str dest!: bspec [of _ _ "CHR '':''"])

lemma budgetCounterKey_inj:
  assumes "budgetCounterKey enc ws i w x = budgetCounterKey enc ws j v y" "budget_id i" "budget_id j"
  shows "i = j \<and> w = v"
proof -
  from assms(1) have "i @ CHR '':'' # nat_str w @ CHR '':'' # enc x = j @ CHR '':'' # nat_str v @ CHR '':'' # enc y"
    by (simp add: budgetCounterKey_def)
  with assms(2,3) show ?thesis by (simp add: sep_eq colon_free) (auto dest: nat_str_inj)
qed

section \<open>A store of calls\<close>

text \<open>What the enforcer needs of a store: \<open>held\<close> is the count it keeps for a key, and until when.  A
  refusal and an unanswered call leave every count alone; a counted call was under every limit, and
  each of its counters goes up by one, keeping its expiry.\<close>

locale call_store =
  fixes cnt :: "bool \<Rightarrow> nat \<Rightarrow> BudgetCounter list \<Rightarrow> 's \<Rightarrow> CountOutcome option \<times> 's"
    and held :: "'s \<Rightarrow> string \<Rightarrow> (nat \<times> nat) option"
  assumes refused: "cnt up now cs s = (Some (UsedUp i u f), s') \<Longrightarrow> held s' = held s \<and> i < length cs \<and> ct_limit (cs ! i) \<le> u"
    and unanswered: "cnt up now cs s = (None, s') \<Longrightarrow> held s' = held s"
    and counted: "cnt up now cs s = (Some (Counted us fs), s') \<Longrightarrow> distinct (map ct_key cs) \<Longrightarrow> c \<in> set cs \<Longrightarrow>
      vk_get now (ct_key c) (held s) < ct_limit c
      \<and> held s' (ct_key c) = snd (vk_incr now (ct_ttlSecs c) (ct_key c) (held s)) (ct_key c)"
    and counted_other: "cnt up now cs s = (Some (Counted us fs), s') \<Longrightarrow> k \<notin> ct_key ` set cs \<Longrightarrow> held s' k = held s k"

record BudgetStep =
  sp_up :: bool
  sp_tool :: string
  sp_member :: "string option"
  sp_now :: nat

definition step_counters :: "(string \<Rightarrow> string) \<Rightarrow> McpBudgetEnforcer \<Rightarrow> McpBudgetPolicy \<Rightarrow> BudgetStep \<Rightarrow> BudgetCounter list" where
  "step_counters enc enf policy st =
     map (budget_counter enc enf policy (sp_now st)) (charges_of enf policy (sp_tool st) (sp_member st))"

fun is_allowed :: "BudgetVerdict \<Rightarrow> bool" where
  "is_allowed (Allowed _) = True"
| "is_allowed _ = False"

text \<open>A run of calls, and how many of them were allowed and drew on a key.\<close>

fun run_checks :: "(bool \<Rightarrow> nat \<Rightarrow> BudgetCounter list \<Rightarrow> 's \<Rightarrow> CountOutcome option \<times> 's) \<Rightarrow> (string \<Rightarrow> string) \<Rightarrow> McpBudgetEnforcer \<Rightarrow> McpBudgetPolicy
    \<Rightarrow> BudgetStep list \<Rightarrow> 's \<Rightarrow> BudgetVerdict list" where
  "run_checks cnt enc enf policy [] s = []"
| "run_checks cnt enc enf policy (st # sts) s =
     (let (v, s') = check_with (cnt (sp_up st)) enc enf policy (sp_tool st) (sp_member st) (sp_now st) s
      in v # run_checks cnt enc enf policy sts s')"

definition drawn :: "(string \<Rightarrow> string) \<Rightarrow> McpBudgetEnforcer \<Rightarrow> McpBudgetPolicy \<Rightarrow> string \<Rightarrow> BudgetStep list \<Rightarrow> BudgetVerdict list \<Rightarrow> nat" where
  "drawn enc enf policy k sts vs =
     length (filter (\<lambda>(st, v). is_allowed v \<and> k \<in> ct_key ` set (step_counters enc enf policy st)) (zip sts vs))"

definition policy_ok :: "McpBudgetPolicy \<Rightarrow> bool" where
  "policy_ok policy \<longleftrightarrow> list_all budget_ok (bp_budgets policy) \<and> distinct (map bg_id (bp_budgets policy))"

lemma charge_budgets: "map ch_budget (charges_of enf policy t m) =
    filter (\<lambda>b. names_or_any (bg_server b) (Some (be_serverName enf)) \<and> names_or_any (bg_tool b) (Some t) \<and> names_or_any (bg_memberId b) m)
      (bp_budgets policy)"
  by (simp add: charges_of_def budgetsForCall_def Let_def o_def)

lemma charge_in_policy: "c \<in> set (charges_of enf policy t m) \<Longrightarrow> ch_budget c \<in> set (bp_budgets policy)"
  using charge_budgets [of enf policy t m] by (metis (no_types, lifting) filter_is_subset image_eqI list.set_map subsetD)

lemma counter_key:
  "ct_key (budget_counter enc enf policy n c) =
     budgetCounterKey enc (be_workspaceId enf) (bg_id (ch_budget c)) (wn_startMs (budgetWindow (bg_period (ch_budget c)) n)) (ch_subject c)"
  "ct_limit (budget_counter enc enf policy n c) = bg_limit (ch_budget c)"
  by (simp_all add: budget_counter_def Let_def)

lemma counters_distinct:
  assumes "policy_ok policy"
  shows "distinct (map ct_key (step_counters enc enf policy st))"
proof -
  let ?cs = "charges_of enf policy (sp_tool st) (sp_member st)"
  have ids: "distinct (map (\<lambda>c. bg_id (ch_budget c)) ?cs)"
  proof -
    have "distinct (map bg_id (map ch_budget ?cs))"
      unfolding charge_budgets using assms by (intro distinct_map_filter) (simp add: policy_ok_def)
    then show ?thesis by (simp add: o_def)
  qed
  moreover have "inj_on (\<lambda>c. ct_key (budget_counter enc enf policy (sp_now st) c)) (set ?cs)" if "distinct (map (\<lambda>c. bg_id (ch_budget c)) ?cs)"
  proof (rule inj_onI)
    fix c d
    assume cd: "c \<in> set ?cs" "d \<in> set ?cs" "ct_key (budget_counter enc enf policy (sp_now st) c) = ct_key (budget_counter enc enf policy (sp_now st) d)"
    with assms charge_in_policy have "budget_id (bg_id (ch_budget c))" "budget_id (bg_id (ch_budget d))"
      by (auto simp: policy_ok_def list_all_iff budget_ok_def)
    with cd(3) have "bg_id (ch_budget c) = bg_id (ch_budget d)"
      unfolding counter_key by (blast dest: budgetCounterKey_inj)
    with that cd(1,2) show "c = d" by (auto simp: distinct_map inj_on_def)
  qed
  ultimately show ?thesis
    by (auto simp: step_counters_def distinct_map o_def)
qed


definition budget_key :: "(string \<Rightarrow> string) \<Rightarrow> McpBudgetEnforcer \<Rightarrow> McpBudget \<Rightarrow> nat \<Rightarrow> string \<Rightarrow> string" where
  "budget_key enc enf b nowMs subject =
     budgetCounterKey enc (be_workspaceId enf) (bg_id b) (wn_startMs (budgetWindow (bg_period b) nowMs)) subject"

text \<open>The key of a budget's window is touched only by that budget, in that window.\<close>

lemma key_of_budget:
  assumes "policy_ok policy" "b \<in> set (bp_budgets policy)"
    and "c \<in> set (charges_of enf policy t m)" "ct_key (budget_counter enc enf policy n c) = budget_key enc enf b w x"
  shows "ch_budget c = b \<and> wn_startMs (budgetWindow (bg_period b) n) = wn_startMs (budgetWindow (bg_period b) w)"
proof -
  have mem: "ch_budget c \<in> set (bp_budgets policy)" using assms(3) by (rule charge_in_policy)
  with assms(1,2) have "budget_id (bg_id (ch_budget c))" "budget_id (bg_id b)"
    by (auto simp: policy_ok_def list_all_iff budget_ok_def)
  with assms(4) have eq: "bg_id (ch_budget c) = bg_id b"
      "wn_startMs (budgetWindow (bg_period (ch_budget c)) n) = wn_startMs (budgetWindow (bg_period b) w)"
    unfolding counter_key budget_key_def by (blast dest: budgetCounterKey_inj)+
  with mem assms(1,2) have "ch_budget c = b" by (auto simp: policy_ok_def distinct_map inj_on_def)
  with eq(2) show ?thesis by simp
qed

lemma window_reset: "n < wn_resetAtMs (budgetWindow p n)" "wn_resetAtMs (budgetWindow p n) = wn_startMs (budgetWindow p n) + PERIOD_MS p"
proof -
  have "0 < PERIOD_MS p" by (cases p) simp_all
  then have "n < n div PERIOD_MS p * PERIOD_MS p + PERIOD_MS p"
    using div_mult_mod_eq [of n "PERIOD_MS p"] mod_less_divisor [of "PERIOD_MS p" n] by linarith
  then show "n < wn_resetAtMs (budgetWindow p n)" by (simp add: budgetWindow_def Let_def)
qed (simp add: budgetWindow_def Let_def)

text \<open>A counter's lifetime reaches past its window.\<close>

lemma ttl_covers: "wn_resetAtMs (budgetWindow (bg_period (ch_budget c)) n) \<le> n + ct_ttlSecs (budget_counter enc enf policy n c) * 1000"
proof -
  have "(x :: nat) \<le> (x + 999) div 1000 * 1000" for x by linarith
  then show ?thesis
    using window_reset(1) [of n "bg_period (ch_budget c)"]
    by (simp add: budget_counter_def Let_def add_mult_distrib)
qed

definition key_inv :: "McpBudget \<Rightarrow> nat \<Rightarrow> nat \<Rightarrow> (nat \<times> nat) option \<Rightarrow> bool" where
  "key_inv b w n h \<longleftrightarrow>
     (case h of None \<Rightarrow> n = 0 | Some (m, t) \<Rightarrow> m = n \<and> n \<le> bg_limit b \<and> wn_resetAtMs (budgetWindow (bg_period b) w) \<le> t)"

lemma key_inv_incr:
  assumes inv: "key_inv b w n (h k)" and under: "vk_get now k h < bg_limit b"
    and win: "wn_startMs (budgetWindow (bg_period b) now) = wn_startMs (budgetWindow (bg_period b) w)"
    and ttl: "wn_resetAtMs (budgetWindow (bg_period b) now) \<le> now + ttl * 1000"
  shows "key_inv b w (Suc n) (snd (vk_incr now ttl k h) k)"
proof -
  have reset: "now < wn_resetAtMs (budgetWindow (bg_period b) w)" "wn_resetAtMs (budgetWindow (bg_period b) w) \<le> now + ttl * 1000"
    using window_reset(1) [of now "bg_period b"] window_reset(2) [of "bg_period b" now] window_reset(2) [of "bg_period b" w] win ttl by simp_all
  have "vk_get now k h = n"
    using inv reset(1) by (auto simp: key_inv_def vk_get_def split: option.splits)
  with assms(1,2) reset show ?thesis
    by (auto simp: key_inv_def vk_incr_def Let_def split: option.splits if_splits)
qed

context call_store begin

lemma check_key_inv:
  assumes ok: "policy_ok policy" "b \<in> set (bp_budgets policy)"
    and inv: "key_inv b w n (held s (budget_key enc enf b w x))"
    and step: "check_with (cnt up) enc enf policy t m now s = (v, s')"
  shows "key_inv b w (if is_allowed v \<and> budget_key enc enf b w x \<in> ct_key ` set (map (budget_counter enc enf policy now) (charges_of enf policy t m))
           then Suc n else n) (held s' (budget_key enc enf b w x))"
proof -
  let ?cs = "charges_of enf policy t m" and ?k = "budget_key enc enf b w x"
  let ?cts = "map (budget_counter enc enf policy now) ?cs"
  obtain out s2 where out: "cnt up now ?cts s = (out, s2)" by fastforce
  consider "\<not> is_allowed v" "held s' = held s" | us fs where "out = Some (Counted us fs)" "s' = s2" "is_allowed v"
    using step out refused unanswered
    by (auto simp: check_with_def Let_def split: if_splits option.splits CountOutcome.splits)
  then show ?thesis
  proof cases
    case 1
    with inv show ?thesis by simp
  next
    case 2
    show ?thesis
    proof (cases "?k \<in> ct_key ` set ?cts")
      case False
      with counted_other [OF out [unfolded 2(1)]] inv 2 show ?thesis by simp
    next
      case True
      then obtain c where c: "c \<in> set ?cs" "ct_key (budget_counter enc enf policy now c) = ?k" by auto
      from key_of_budget [OF ok c] have b: "ch_budget c = b"
        and win: "wn_startMs (budgetWindow (bg_period b) now) = wn_startMs (budgetWindow (bg_period b) w)" by auto
      have "distinct (map ct_key ?cts)"
        using counters_distinct [OF ok(1), of enc enf "\<lparr>sp_up = up, sp_tool = t, sp_member = m, sp_now = now\<rparr>"]
        by (simp add: step_counters_def)
      from counted [OF out [unfolded 2(1)] this, of "budget_counter enc enf policy now c"] c
      have "vk_get now ?k (held s) < bg_limit b"
        "held s2 ?k = snd (vk_incr now (ct_ttlSecs (budget_counter enc enf policy now c)) ?k (held s)) ?k"
        by (simp_all add: counter_key b)
      with key_inv_incr [OF inv this(1) win ttl_covers [of c now enc enf policy, unfolded b]] True 2 show ?thesis by simp
    qed
  qed
qed

lemma run_within_limit:
  assumes ok: "policy_ok policy" "b \<in> set (bp_budgets policy)"
    and "key_inv b w n (held s (budget_key enc enf b w x))" "n \<le> bg_limit b"
  shows "n + drawn enc enf policy (budget_key enc enf b w x) sts (run_checks cnt enc enf policy sts s) \<le> bg_limit b"
  using assms(3,4)
proof (induction sts arbitrary: s n)
  case Nil
  then show ?case by (simp add: drawn_def)
next
  case (Cons st sts)
  let ?k = "budget_key enc enf b w x"
  obtain v s' where step: "check_with (cnt (sp_up st)) enc enf policy (sp_tool st) (sp_member st) (sp_now st) s = (v, s')" by fastforce
  define n' where "n' = (if is_allowed v \<and> ?k \<in> ct_key ` set (step_counters enc enf policy st) then Suc n else n)"
  have inv: "key_inv b w n' (held s' ?k)"
    using check_key_inv [OF ok Cons.prems(1) step] by (simp add: n'_def step_counters_def)
  then have "n' \<le> bg_limit b" using Cons.prems(2)
    by (auto simp: key_inv_def n'_def split: option.splits if_splits)
  from Cons.IH [OF inv this] show ?case
    by (auto simp: step drawn_def n'_def)
qed

end


section \<open>Valkey as the store\<close>

definition vk_held :: "valkey \<Rightarrow> string \<Rightarrow> (nat \<times> nat) option" where
  "vk_held db k = db (count_key k)"

lemma keys_apart [simp]: "count_key k \<noteq> warned_key l" "count_key k \<noteq> exhausted_key l" "count_key k = count_key l \<longleftrightarrow> k = l"
proof -
  have "last (count_key k) \<noteq> last (warned_key l)" "last (count_key k) \<noteq> last (exhausted_key l)"
    by (simp_all add: count_key_def warned_key_def exhausted_key_def)
  then show "count_key k \<noteq> warned_key l" "count_key k \<noteq> exhausted_key l" by metis+
  show "count_key k = count_key l \<longleftrightarrow> k = l" by (simp add: count_key_def)
qed

lemma held_set_nx [simp]:
  "vk_held (snd (vk_set_nx now ttl (warned_key l) db)) = vk_held db"
  "vk_held (snd (vk_set_nx now ttl (exhausted_key l) db)) = vk_held db"
  by (simp_all add: vk_set_nx_def vk_held_def fun_eq_iff)

lemma held_get: "vk_get now (count_key k) db = vk_get now k (vk_held db)"
  by (simp add: vk_get_def vk_held_def)

lemma held_incr: "vk_held (snd (vk_incr now ttl (count_key k) db)) = snd (vk_incr now ttl k (vk_held db))"
  by (auto simp: vk_incr_def held_get Let_def vk_held_def fun_eq_iff)

lemma check_loop_refused:
  "check_loop now cs i db = Some (out, db') \<Longrightarrow>
     vk_held db' = vk_held db \<and> (\<exists>j u f. out = UsedUp (i + j) u f \<and> j < length cs \<and> ct_limit (cs ! j) \<le> u)"
proof (induction cs arbitrary: i)
  case (Cons c cs)
  show ?case
  proof (cases "ct_limit c \<le> vk_get now (count_key (ct_key c)) db")
    case True
    with Cons.prems have "db' = snd (vk_set_nx now (ct_ttlSecs c) (exhausted_key (ct_key c)) db)"
      "\<exists>u f. out = UsedUp i u f \<and> ct_limit c \<le> u"
      by (auto simp: Let_def split: prod.splits)
    then show ?thesis by (auto intro: exI [of _ 0])
  next
    case False
    with Cons.prems have "check_loop now cs (i + 1) db = Some (out, db')" by (simp add: Let_def)
    from Cons.IH [OF this] obtain j u f where "vk_held db' = vk_held db" "out = UsedUp (i + 1 + j) u f" "j < length cs" "ct_limit (cs ! j) \<le> u"
      by blast
    then show ?thesis by (intro conjI exI [of _ "Suc j"] exI [of _ u] exI [of _ f]) simp_all
  qed
qed simp

lemma check_loop_under: "check_loop now cs i db = None \<Longrightarrow> c \<in> set cs \<Longrightarrow> vk_get now (count_key (ct_key c)) db < ct_limit c"
  by (induction cs arbitrary: i) (auto simp: Let_def not_le split: if_splits prod.splits)

lemma count_loop_step:
  "\<exists>db1. vk_held db1 = snd (vk_incr now (ct_ttlSecs c) (ct_key c) (vk_held db))
     \<and> snd (count_loop now (c # cs) db) = snd (count_loop now cs db1)"
proof -
  define db0 where "db0 = snd (vk_incr now (ct_ttlSecs c) (count_key (ct_key c)) db)"
  define db1 where "db1 = (if ct_warnAt c \<le> fst (vk_incr now (ct_ttlSecs c) (count_key (ct_key c)) db)
     then snd (vk_set_nx now (ct_ttlSecs c) (warned_key (ct_key c)) db0) else db0)"
  have "snd (count_loop now (c # cs) db) = snd (count_loop now cs db1)"
    by (auto simp: db1_def db0_def Let_def split: prod.splits)
  moreover have "vk_held db1 = snd (vk_incr now (ct_ttlSecs c) (ct_key c) (vk_held db))"
    by (simp add: db1_def db0_def held_incr)
  ultimately show ?thesis by blast
qed

lemma incr_other: "k \<noteq> l \<Longrightarrow> snd (vk_incr now ttl l h) k = h k"
  by (simp add: vk_incr_def Let_def)

lemma incr_local: "h k = h' k \<Longrightarrow> snd (vk_incr now ttl k h) k = snd (vk_incr now ttl k h') k"
  by (simp add: vk_incr_def Let_def vk_get_def)

lemma count_loop_other: "k \<notin> ct_key ` set cs \<Longrightarrow> vk_held (snd (count_loop now cs db)) k = vk_held db k"
proof (induction cs arbitrary: db)
  case (Cons c cs)
  from count_loop_step [of now c db cs] obtain db1 where
    db1: "vk_held db1 = snd (vk_incr now (ct_ttlSecs c) (ct_key c) (vk_held db))" "snd (count_loop now (c # cs) db) = snd (count_loop now cs db1)" by blast
  show ?case
    unfolding db1(2) using Cons.IH [of db1] Cons.prems by (simp add: db1(1) incr_other)
qed simp

lemma count_loop_counted:
  "distinct (map ct_key cs) \<Longrightarrow> c \<in> set cs \<Longrightarrow>
   vk_held (snd (count_loop now cs db)) (ct_key c) = snd (vk_incr now (ct_ttlSecs c) (ct_key c) (vk_held db)) (ct_key c)"
proof (induction cs arbitrary: db)
  case (Cons d cs)
  from count_loop_step [of now d db cs] obtain db1 where
    db1: "vk_held db1 = snd (vk_incr now (ct_ttlSecs d) (ct_key d) (vk_held db))" "snd (count_loop now (d # cs) db) = snd (count_loop now cs db1)" by blast
  show ?case
  proof (cases "c = d")
    case True
    with Cons.prems(1) have "ct_key c \<notin> ct_key ` set cs" by auto
    with True show ?thesis unfolding db1(2) by (simp add: count_loop_other db1(1))
  next
    case False
    with Cons.prems have c: "c \<in> set cs" "ct_key c \<noteq> ct_key d" by (auto simp: image_iff)
    then have "vk_held db1 (ct_key c) = vk_held db (ct_key c)" by (simp add: db1(1) incr_other)
    with Cons.IH [of db1] Cons.prems(1) c(1) show ?thesis
      unfolding db1(2) using incr_local [of "vk_held db1" "ct_key c" "vk_held db"] by simp
  qed
qed simp

interpretation vk: call_store store_count vk_held
proof unfold_locales
  fix up now cs i u f us fs c k and s s' :: valkey
  show "vk_held s' = vk_held s \<and> i < length cs \<and> ct_limit (cs ! i) \<le> u" if "store_count up now cs s = (Some (UsedUp i u f), s')"
  proof -
    from that have "check_loop now cs 0 s = Some (UsedUp i u f, s')"
      by (auto simp: store_count_def CHECK_AND_COUNT_def split: if_splits option.splits prod.splits)
    from check_loop_refused [OF this] show ?thesis by auto
  qed
  show "vk_held s' = vk_held s" if "store_count up now cs s = (None, s')"
    using that by (auto simp: store_count_def split: if_splits prod.splits)
  assume out: "store_count up now cs s = (Some (Counted us fs), s')"
  have loop: "check_loop now cs 0 s = None"
  proof (cases "check_loop now cs 0 s")
    case (Some r)
    with check_loop_refused [of now cs 0 s "fst r" "snd r"] out show ?thesis
      by (cases r) (auto simp: store_count_def CHECK_AND_COUNT_def split: if_splits)
  qed simp
  with out have s': "s' = snd (count_loop now cs s)"
    by (auto simp: store_count_def CHECK_AND_COUNT_def split: if_splits prod.splits)
  show "vk_held s' k = vk_held s k" if "k \<notin> ct_key ` set cs" using that by (simp add: s' count_loop_other)
  show "vk_get now (ct_key c) (vk_held s) < ct_limit c \<and> vk_held s' (ct_key c) = snd (vk_incr now (ct_ttlSecs c) (ct_key c) (vk_held s)) (ct_key c)"
    if "distinct (map ct_key cs)" "c \<in> set cs"
    using check_loop_under [OF loop that(2)] count_loop_counted [OF that] by (simp add: s' held_get)
qed

section \<open>Properties\<close>

text \<open>C3: A budget is never overdrawn: over any run of calls, at any times and with Valkey failing at any
  of them, the calls allowed against one budget's allowance in one window number at most its limit.\<close>

theorem budget_never_overdrawn:
  assumes "policy_ok policy" "b \<in> set (bp_budgets policy)"
  shows "drawn enc enf policy (budget_key enc enf b w x) sts (run_checks store_count enc enf policy sts (\<lambda>_. None)) \<le> bg_limit b"
  using vk.run_within_limit [OF assms, of w 0 "\<lambda>_. None" enc enf x sts] by (simp add: key_inv_def vk_held_def)

text \<open>A refused call consumes nothing and says why: the counts are as before, and the standing it
  reports is of a budget that covers the call and has none of its limit left.\<close>

theorem refused_consumes_nothing:
  assumes "check up enc enf policy toolName memberId nowMs db = (Exceeded st claimed, db')"
  shows "vk_held db' = vk_held db \<and> bg_limit (bs_budget st) \<le> bs_used st
       \<and> bs_budget st \<in> ch_budget ` set (charges_of enf policy toolName memberId)"
proof -
  let ?cs = "charges_of enf policy toolName memberId"
  from assms obtain i used where st: "st = standing nowMs (?cs ! i) used"
    and out: "store_count up nowMs (map (budget_counter enc enf policy nowMs) ?cs) db = (Some (UsedUp i used claimed), db')"
    by (auto simp: check_def check_with_def Let_def split: if_splits option.splits CountOutcome.splits prod.splits)
  from vk.refused [OF out] show ?thesis
    by (auto simp: st standing_def counter_key)
qed


definition sample_budget :: McpBudget where
  "sample_budget = \<lparr>bg_id = ''b'', bg_scope = ScServer, bg_server = Some ''gh'', bg_tool = None, bg_memberId = None, bg_period = Hour, bg_limit = 1\<rparr>"

definition sample_policy :: McpBudgetPolicy where
  "sample_policy = \<lparr>bp_budgets = [sample_budget], bp_warnAtPct = 80\<rparr>"

definition sample_enforcer :: McpBudgetEnforcer where
  "sample_enforcer = \<lparr>be_hasStore = True, be_workspaceId = ''ws'', be_serverName = ''gh'', be_fallbackCaller = ''''\<rparr>"

definition sample_step :: BudgetStep where
  "sample_step = \<lparr>sp_up = True, sp_tool = ''t'', sp_member = None, sp_now = 5\<rparr>"

theorem budget_never_overdrawn_witness:
  "drawn id sample_enforcer sample_policy (budget_key id sample_enforcer sample_budget 5 '''')
     [sample_step, sample_step, sample_step] (run_checks store_count id sample_enforcer sample_policy [sample_step, sample_step, sample_step] (\<lambda>_. None)) \<le> 1"
proof -
  have "policy_ok sample_policy"
    by (simp add: policy_ok_def sample_policy_def sample_budget_def budget_ok_def budget_id_def is_az_def budget_names_def MAX_MCP_BUDGET_LIMIT_def)
  moreover have "sample_budget \<in> set (bp_budgets sample_policy)" by (simp add: sample_policy_def)
  moreover have "bg_limit sample_budget = 1" by (simp add: sample_budget_def)
  ultimately show ?thesis
    using budget_never_overdrawn [of sample_policy sample_budget id sample_enforcer 5 "''''" "[sample_step, sample_step, sample_step]"]
    by (simp only:)
qed

theorem refused_consumes_nothing_witness:
  "\<exists>db'. vk_held db' = vk_held (\<lambda>_. Some (1, 10 ^ 7))
     \<and> (\<exists>st c. check True id sample_enforcer sample_policy ''t'' None 6 (\<lambda>_. Some (1, 10 ^ 7)) = (Exceeded st c, db'))"
proof -
  have "\<exists>st c db'. check True id sample_enforcer sample_policy ''t'' None 6 (\<lambda>_. Some (1, 10 ^ 7)) = (Exceeded st c, db')"
    by (simp add: check_def check_with_def charges_of_def budgetsForCall_def sample_policy_def sample_budget_def sample_enforcer_def
        names_or_any_def store_count_def CHECK_AND_COUNT_def budget_counter_def vk_get_def vk_set_nx_def vk_exists_def Let_def)
      (rule exI [of _ False], simp)
  then obtain st c db' where run: "check True id sample_enforcer sample_policy ''t'' None 6 (\<lambda>_. Some (1, 10 ^ 7)) = (Exceeded st c, db')"
    by blast
  from refused_consumes_nothing [OF run] run show ?thesis by auto
qed

end
