(* ===== verification/McpSession.thy ===== *)
theory McpSession
  imports DecideRules
begin

text \<open>
  A proxy process's session window and the one its siblings share:
  \<open>packages/mcp-proxy/src/session.ts\<close>, \<open>sessionStore.ts\<close> and the pure part of \<open>sessionScope.ts\<close>.

  Valkey is three maps (the sequences, the call times and the reask counters) from keys to a value
  and the moment it expires, in milliseconds; \<open>RPUSH\<close>, \<open>LTRIM\<close>, \<open>ZADD\<close>, \<open>INCR\<close> and \<open>EXPIRE\<close> are their
  documented effects.  \<open>up\<close> says whether Valkey answers a command.  A write-behind takes effect where
  it is issued.  \<open>hashToken\<close> is a parameter.
\<close>

section \<open>The scope\<close>

record SessionScopeInput =
  sc_workspaceId :: string
  sc_ppid :: int
  sc_parentStartToken :: "string option"
  sc_envOverride :: "string option"

definition scope_char :: "char \<Rightarrow> bool" where
  "scope_char c \<longleftrightarrow> is_az c \<or> is_AZ c \<or> is_digit c \<or> c = CHR ''.'' \<or> c = CHR ''_'' \<or> c = CHR ''-''"

definition nonempty :: "string option \<Rightarrow> string option" where
  "nonempty s = (case s of Some t \<Rightarrow> if t \<noteq> '''' then Some t else None | None \<Rightarrow> None)"

definition buildSessionScope :: "SessionScopeInput \<Rightarrow> string option" where
  "buildSessionScope input =
     (let safe = nonempty (map_option (\<lambda>o'. take 64 (filter scope_char o')) (nonempty (map_option trim (sc_envOverride input)))) in
      case safe of
        Some s \<Rightarrow> Some (sc_workspaceId input @ '':mcp:env:'' @ s)
      | None \<Rightarrow>
          if sc_ppid input \<le> 1 then None
          else
            Some (sc_workspaceId input @ '':mcp:'' @ nat_str (nat (sc_ppid input))
                  @ (case nonempty (map_option trim (sc_parentStartToken input)) of None \<Rightarrow> '''' | Some t \<Rightarrow> '':'' @ t)))"

text \<open>\<open>split(/\s+/)\<close> on a trimmed text: its blank-separated words, or the empty word.\<close>

definition space_words :: "string \<Rightarrow> string list" where
  "space_words s = (case filter (\<lambda>w. w \<noteq> '''') (split_on (CHR '' '') (map (\<lambda>c. if is_trim_space c then CHR '' '' else c) s)) of
     [] \<Rightarrow> [''''] | ws \<Rightarrow> ws)"

definition startTokenFromProcStat :: "(string \<Rightarrow> string) \<Rightarrow> string \<Rightarrow> string option" where
  "startTokenFromProcStat hashToken stat =
     (if CHR '')'' \<notin> set stat then None
      else
        let fields = space_words (trim (rev (takeWhile (\<lambda>c. c \<noteq> CHR '')'') (rev stat)))) in
        case char_at fields 19 of
          None \<Rightarrow> None
        | Some starttime \<Rightarrow> if starttime \<noteq> '''' \<and> list_all is_digit starttime then Some (hashToken starttime) else None)"

section \<open>The shared store\<close>

definition TOOL_SEQUENCE_CAP :: nat where "TOOL_SEQUENCE_CAP = 60"
definition CALLS_WINDOW_MS :: nat where "CALLS_WINDOW_MS = 60000"
definition SESSION_WINDOW_TTL_SECS :: nat where "SESSION_WINDOW_TTL_SECS = 86400"
definition REASK_WINDOW_SECS :: nat where "REASK_WINDOW_SECS = 3600"

definition tools_key :: "string \<Rightarrow> string" where "tools_key scope = ''v2:mcpsession:'' @ scope @ '':tools''"
definition calls_key :: "string \<Rightarrow> string" where "calls_key scope = ''v2:mcpsession:'' @ scope @ '':calls''"
definition reask_key :: "string \<Rightarrow> string \<Rightarrow> string" where "reask_key scope key = ''v2:mcpsession:'' @ scope @ '':reask:'' @ key"

record session_db =
  sd_tools :: "string \<Rightarrow> (string list \<times> nat) option"
  sd_calls :: "string \<Rightarrow> (nat list \<times> nat) option"
  sd_reask :: "string \<Rightarrow> (nat \<times> nat) option"

text \<open>A key that has expired reads as absent.\<close>

definition live_list :: "nat \<Rightarrow> ('a list \<times> nat) option \<Rightarrow> 'a list" where
  "live_list now e = (case e of None \<Rightarrow> [] | Some (xs, t) \<Rightarrow> if now < t then xs else [])"

record SharedWindowSnapshot =
  sw_sequence :: "string list"
  sw_callsLast60s :: nat

definition readWindow :: "bool \<Rightarrow> string \<Rightarrow> nat \<Rightarrow> nat \<Rightarrow> session_db \<Rightarrow> SharedWindowSnapshot option" where
  "readWindow up scope nowMs windowMs db =
     (if \<not> up then None
      else Some \<lparr>sw_sequence = live_list nowMs (sd_tools db (tools_key scope)),
                 sw_callsLast60s = length (filter (\<lambda>t. nowMs - windowMs \<le> t) (live_list nowMs (sd_calls db (calls_key scope))))\<rparr>)"

definition store_recordCall :: "bool \<Rightarrow> string \<Rightarrow> string \<Rightarrow> nat \<Rightarrow> session_db \<Rightarrow> bool \<times> session_db" where
  "store_recordCall up scope toolName nowMs db =
     (if \<not> up then (False, db)
      else
        let expiry = nowMs + SESSION_WINDOW_TTL_SECS * 1000; tools = tools_key scope; calls = calls_key scope in
        (True, db\<lparr>sd_tools := (sd_tools db)(tools := Some (last_n TOOL_SEQUENCE_CAP (live_list nowMs (sd_tools db tools) @ [toolName]), expiry)),
                  sd_calls := (sd_calls db)(calls := Some (filter (\<lambda>t. nowMs < t + 60000) (live_list nowMs (sd_calls db calls)) @ [nowMs], expiry))\<rparr>))"

definition store_incrReask :: "bool \<Rightarrow> string \<Rightarrow> string \<Rightarrow> nat \<Rightarrow> session_db \<Rightarrow> nat option \<times> session_db" where
  "store_incrReask up scope key nowMs db =
     (if \<not> up then (None, db)
      else
        let k = reask_key scope key;
            (held, t) = (case sd_reask db k of None \<Rightarrow> (0, 0) | Some (n, t) \<Rightarrow> if nowMs < t then (n, t) else (0, 0));
            n = held + 1
        in (Some n, db\<lparr>sd_reask := (sd_reask db)(k := Some (n, if n = 1 then nowMs + REASK_WINDOW_SECS * 1000 else t))\<rparr>))"

section \<open>The session state of a process\<close>

record ToolsListEntry =
  te_name :: string
  te_description :: "string option"

record SessionState =
  ss_scope :: "string option"
  ss_store :: bool
  ss_sequence :: "string list"
  ss_timestamps :: "nat list"
  ss_toolContractChanged :: "bool option"
  ss_reaskAttempts :: "(string \<times> nat) list"
  ss_toolsList :: "ToolsListEntry list"

definition new_SessionState :: "string option \<Rightarrow> bool \<Rightarrow> SessionState" where
  "new_SessionState scope store =
     \<lparr>ss_scope = scope, ss_store = (nonempty scope \<noteq> None \<and> store), ss_sequence = [], ss_timestamps = [],
      ss_toolContractChanged = None, ss_reaskAttempts = [], ss_toolsList = []\<rparr>"

text \<open>The scope when the process has a store and a scope.\<close>

definition shared_scope :: "SessionState \<Rightarrow> string option" where
  "shared_scope st = (if ss_store st then nonempty (ss_scope st) else None)"

definition recordCall :: "bool \<Rightarrow> string \<Rightarrow> nat \<Rightarrow> SessionState \<Rightarrow> session_db \<Rightarrow> SessionState \<times> session_db" where
  "recordCall up toolName now st db =
     (let sequence = ss_sequence st @ [toolName]; times = ss_timestamps st @ [now];
          excess = length sequence - TOOL_SEQUENCE_CAP
      in (st\<lparr>ss_sequence := (if TOOL_SEQUENCE_CAP < length sequence then drop excess sequence else sequence),
             ss_timestamps := (if TOOL_SEQUENCE_CAP < length sequence then drop excess times else times)\<rparr>,
          (case shared_scope st of None \<Rightarrow> db | Some scope \<Rightarrow> snd (store_recordCall up scope toolName now db))))"

definition callsInLastMs :: "nat \<Rightarrow> nat \<Rightarrow> SessionState \<Rightarrow> nat" where
  "callsInLastMs now windowMs st = length (filter (\<lambda>t. now - windowMs \<le> t) (ss_timestamps st))"

definition capped :: "string list \<Rightarrow> string list" where
  "capped nxt = (if TOOL_SEQUENCE_CAP < length nxt then drop (length nxt - TOOL_SEQUENCE_CAP) nxt else nxt)"

definition prospectiveSequence :: "string \<Rightarrow> SessionState \<Rightarrow> string list" where
  "prospectiveSequence toolName st = capped (ss_sequence st @ [toolName])"

record SessionWindow =
  wd_prospective :: "string list"
  wd_callsLast60s :: nat
  wd_shared :: bool

definition loadWindow :: "bool \<Rightarrow> string \<Rightarrow> nat \<Rightarrow> SessionState \<Rightarrow> session_db \<Rightarrow> SessionWindow" where
  "loadWindow up toolName now st db =
     (case Option.bind (shared_scope st) (\<lambda>scope. readWindow up scope now CALLS_WINDOW_MS db) of
        Some snapshot \<Rightarrow>
          \<lparr>wd_prospective = capped (sw_sequence snapshot @ [toolName]), wd_callsLast60s = sw_callsLast60s snapshot, wd_shared = True\<rparr>
      | None \<Rightarrow>
          \<lparr>wd_prospective = prospectiveSequence toolName st, wd_callsLast60s = callsInLastMs now CALLS_WINDOW_MS st, wd_shared = False\<rparr>)"

definition getReaskAttempts :: "string \<Rightarrow> SessionState \<Rightarrow> nat" where
  "getReaskAttempts key st = (case map_of (ss_reaskAttempts st) key of None \<Rightarrow> 0 | Some n \<Rightarrow> n)"

definition incrReaskAttempt :: "string \<Rightarrow> SessionState \<Rightarrow> nat \<times> SessionState" where
  "incrReaskAttempt key st =
     (let nxt = getReaskAttempts key st + 1 in (nxt, st\<lparr>ss_reaskAttempts := (key, nxt) # ss_reaskAttempts st\<rparr>))"

definition incrReaskAttemptShared :: "bool \<Rightarrow> string \<Rightarrow> nat \<Rightarrow> SessionState \<Rightarrow> session_db \<Rightarrow> nat \<times> SessionState \<times> session_db" where
  "incrReaskAttemptShared up key now st db =
     (let (local, st') = incrReaskAttempt key st in
      case shared_scope st of
        None \<Rightarrow> (local, st', db)
      | Some scope \<Rightarrow>
          (case store_incrReask up scope key now db of
             (Some shared, db') \<Rightarrow> (shared, st', db')
           | (None, db') \<Rightarrow> (local, st', db')))"

definition setToolContractChanged :: "bool \<Rightarrow> SessionState \<Rightarrow> SessionState" where
  "setToolContractChanged changed st = st\<lparr>ss_toolContractChanged := Some changed\<rparr>"

definition setToolsList :: "ToolsListEntry list \<Rightarrow> SessionState \<Rightarrow> SessionState" where
  "setToolsList tools st = st\<lparr>ss_toolsList := tools\<rparr>"

section \<open>Keeping sessions apart\<close>

text \<open>What a scope stands for: the override, or the parent process and its start token.\<close>

definition scope_override :: "SessionScopeInput \<Rightarrow> string option" where
  "scope_override input = nonempty (map_option (\<lambda>o'. take 64 (filter scope_char o')) (nonempty (map_option trim (sc_envOverride input))))"

definition scope_token :: "SessionScopeInput \<Rightarrow> string option" where
  "scope_token input = nonempty (map_option trim (sc_parentStartToken input))"

lemma scope_chars: "scope_override input = Some s \<Longrightarrow> list_all scope_char s"
  by (auto simp: scope_override_def nonempty_def list_all_iff split: option.splits if_splits dest!: in_set_takeD)

lemma buildSessionScope_cases:
  "buildSessionScope input =
     (case scope_override input of
        Some s \<Rightarrow> Some (sc_workspaceId input @ '':mcp:'' @ ''env'' @ '':'' @ s)
      | None \<Rightarrow> if sc_ppid input \<le> 1 then None
          else Some (sc_workspaceId input @ '':mcp:'' @ nat_str (nat (sc_ppid input))
                       @ (case scope_token input of None \<Rightarrow> '''' | Some t \<Rightarrow> '':'' @ t)))"
  by (simp add: buildSessionScope_def scope_override_def scope_token_def Let_def split: option.split)

definition session_identity :: "SessionScopeInput \<Rightarrow> string + (int \<times> string option)" where
  "session_identity input =
     (case scope_override input of Some s \<Rightarrow> Inl s | None \<Rightarrow> Inr (sc_ppid input, scope_token input))"

lemma env_not_number: "nat_str n \<noteq> ''env''"
proof
  assume "nat_str n = ''env''"
  then have "CHR ''e'' \<in> set (nat_str n)" by simp
  then obtain m :: nat where "m \<in> {48..57}" "CHR ''e'' = char_of m" using nat_str_digits by blast
  then have "of_char (CHR ''e'') = (m :: nat)" by (simp add: of_char_of)
  with \<open>m \<in> {48..57}\<close> show False by simp
qed

lemma colon_tail:
  assumes "CHR '':'' \<notin> set a" "CHR '':'' \<notin> set b"
    and "a @ (case u of None \<Rightarrow> '''' | Some t \<Rightarrow> '':'' @ t) = b @ (case v of None \<Rightarrow> '''' | Some t \<Rightarrow> '':'' @ t)"
  shows "a = b \<and> u = v"
proof (cases u; cases v)
  fix x assume "u = None" "v = Some x"
  with assms show ?thesis by (metis append_Cons append_Nil2 in_set_conv_decomp option.simps(4,5))
next
  fix x assume "u = Some x" "v = None"
  with assms show ?thesis by (metis append_Cons append_Nil2 in_set_conv_decomp option.simps(4,5))
qed (use assms in \<open>auto simp: sep_eq\<close>)

lemma session_identity_separates:
  assumes a: "buildSessionScope a = Some s" and b: "buildSessionScope b = Some s" and ws: "sc_workspaceId a = sc_workspaceId b"
  shows "session_identity a = session_identity b"
proof -
  have mixed: "nat_str n @ (case u of None \<Rightarrow> '''' | Some t \<Rightarrow> '':'' @ t) \<noteq> ''env'' @ '':'' @ r" for n u r
    using colon_tail [of "nat_str n" "''env''" u "Some r"] env_not_number [of n] by (auto simp: colon_nat_str)
  show ?thesis
  proof (cases "scope_override a"; cases "scope_override b")
    assume none: "scope_override a = None" "scope_override b = None"
    with a b ws have ids: "1 < sc_ppid a" "1 < sc_ppid b"
      "nat_str (nat (sc_ppid a)) @ (case scope_token a of None \<Rightarrow> '''' | Some t \<Rightarrow> '':'' @ t) =
       nat_str (nat (sc_ppid b)) @ (case scope_token b of None \<Rightarrow> '''' | Some t \<Rightarrow> '':'' @ t)"
      by (auto simp: buildSessionScope_cases split: if_splits)
    have "nat_str (nat (sc_ppid a)) = nat_str (nat (sc_ppid b)) \<and> scope_token a = scope_token b"
      by (rule colon_tail [OF _ _ ids(3)]) (rule colon_nat_str)+
    with none ids show ?thesis by (auto simp: session_identity_def dest!: nat_str_inj)
  next
    fix x assume "scope_override a = None" "scope_override b = Some x"
    with a b ws mixed show ?thesis by (auto simp: buildSessionScope_cases split: if_splits)
  next
    fix x assume "scope_override a = Some x" "scope_override b = None"
    with a b ws mixed [of "nat (sc_ppid b)" "scope_token b" x] show ?thesis by (auto simp: buildSessionScope_cases split: if_splits)
  next
    fix x y assume "scope_override a = Some x" "scope_override b = Some y"
    with a b ws show ?thesis by (auto simp: buildSessionScope_cases session_identity_def)
  qed
qed

text \<open>
  C0: Sessions are never merged: two proxy processes of one workspace that derive the same shared scope have
  the same override, or the same parent process started at the same time.
\<close>

theorem buildSessionScope_separates:
  assumes "buildSessionScope a = Some s" "buildSessionScope b = Some s" "sc_workspaceId a = sc_workspaceId b"
  shows "session_identity a = session_identity b"
  using assms by (rule session_identity_separates)

lemma buildSessionScope_separates_witness:
  "session_identity \<lparr>sc_workspaceId = ''w'', sc_ppid = 7, sc_parentStartToken = Some ''t'', sc_envOverride = None\<rparr> =
   session_identity \<lparr>sc_workspaceId = ''w'', sc_ppid = 7, sc_parentStartToken = Some '' t '', sc_envOverride = Some '' ''\<rparr>"
  by (rule buildSessionScope_separates [where s = "''w:mcp:'' @ nat_str 7 @ '':t''"])
    (simp_all add: buildSessionScope_def nonempty_def trim_def is_trim_space_def)

section \<open>A window several processes write\<close>

text \<open>
  A store that answers a read at \<open>now\<close> with what the earlier writes kept: a write trims the history as of
  its own moment and lasts \<open>ttl\<close>; a command Valkey does not answer writes nothing.
\<close>

locale shared_window =
  fixes read_at :: "nat \<Rightarrow> 'db \<Rightarrow> 'a list"
    and put :: "bool \<Rightarrow> string \<Rightarrow> nat \<Rightarrow> 'db \<Rightarrow> 'db"
    and entry :: "string \<Rightarrow> nat \<Rightarrow> 'a"
    and keep :: "nat \<Rightarrow> 'a list \<Rightarrow> 'a list"
    and ttl :: nat
  assumes put_down: "put False x now db = db"
    and read_put: "now \<le> now' \<Longrightarrow> now' < now + ttl \<Longrightarrow> read_at now' (put True x now db) = keep now (read_at now db @ [entry x now])"
    and keep_keep: "n \<le> now \<Longrightarrow> keep now (keep n xs @ ys) = keep now (xs @ ys)"
    and keep_Nil: "keep now [] = []"
begin

text \<open>The writes of a history, each with whether Valkey answered, the tool and the time.\<close>

primrec puts :: "(bool \<times> string \<times> nat) list \<Rightarrow> 'db \<Rightarrow> 'db" where
  "puts [] db = db"
| "puts (c # cs) db = puts cs (put (fst c) (fst (snd c)) (snd (snd c)) db)"

lemma puts_append: "puts (cs @ ds) db = puts ds (puts cs db)"
  by (induction cs arbitrary: db) auto

definition answered :: "(bool \<times> string \<times> nat) list \<Rightarrow> 'a list" where
  "answered cs = map (\<lambda>c. entry (fst (snd c)) (snd (snd c))) (filter fst cs)"

lemma read_puts:
  assumes "\<And>t. read_at t db = []" "sorted (map (snd \<circ> snd) cs)" "\<forall>c\<in>set cs. snd (snd c) \<le> now \<and> now < snd (snd c) + ttl"
  shows "\<exists>t. (t = 0 \<or> t \<in> (snd \<circ> snd) ` set cs) \<and> read_at now (puts cs db) = keep t (answered cs)"
  using assms(2,3)
proof (induction cs arbitrary: now rule: rev_induct)
  case Nil
  then show ?case by (auto simp: assms(1) answered_def keep_Nil)
next
  case (snoc c cs)
  obtain up x m where c: "c = (up, x, m)" by (cases c)
  have sorted: "sorted (map (snd \<circ> snd) cs)" "\<forall>d\<in>set cs. snd (snd d) \<le> m"
    using snoc.prems(1) by (auto simp: c sorted_append comp_def)
  have m: "m \<le> now" "now < m + ttl" using snoc.prems(2) by (auto simp: c)
  show ?case
  proof (cases up)
    case False
    from snoc.IH [OF sorted(1), of now] snoc.prems(2)
    obtain t where "t = 0 \<or> t \<in> (snd \<circ> snd) ` set cs" "read_at now (puts cs db) = keep t (answered cs)" by auto
    with False show ?thesis by (auto simp: c puts_append put_down answered_def intro!: exI [of _ t])
  next
    case True
    have "\<forall>d\<in>set cs. snd (snd d) \<le> m \<and> m < snd (snd d) + ttl"
      using sorted(2) snoc.prems(2) m by fastforce
    from snoc.IH [OF sorted(1) this]
    obtain t where t: "t = 0 \<or> t \<in> (snd \<circ> snd) ` set cs" "read_at m (puts cs db) = keep t (answered cs)" by auto
    then have "t \<le> m" using sorted(2) by auto
    then have "read_at now (puts (cs @ [c]) db) = keep m (answered cs @ [entry x m])"
      using True m t(2) by (simp add: c puts_append read_put keep_keep)
    with True show ?thesis by (auto simp: c answered_def intro!: exI [of _ m])
  qed
qed

end

text \<open>The sequence and the call times of one scope are such windows.\<close>

definition read_tools :: "string \<Rightarrow> nat \<Rightarrow> session_db \<Rightarrow> string list" where
  "read_tools scope now db = live_list now (sd_tools db (tools_key scope))"

definition read_times :: "string \<Rightarrow> nat \<Rightarrow> session_db \<Rightarrow> nat list" where
  "read_times scope now db = live_list now (sd_calls db (calls_key scope))"

definition put_call :: "string \<Rightarrow> bool \<Rightarrow> string \<Rightarrow> nat \<Rightarrow> session_db \<Rightarrow> session_db" where
  "put_call scope up x now db = snd (store_recordCall up scope x now db)"

lemmas window_defs = read_tools_def read_times_def put_call_def store_recordCall_def Let_def live_list_def SESSION_WINDOW_TTL_SECS_def

interpretation tools: shared_window "read_tools scope" "put_call scope" "\<lambda>x _. x" "\<lambda>_. last_n TOOL_SEQUENCE_CAP" "SESSION_WINDOW_TTL_SECS * 1000"
  for scope
  by unfold_locales (auto simp: window_defs last_n_append_last_n, auto simp: last_n_def)

interpretation times: shared_window "read_times scope" "put_call scope" "\<lambda>_ t. t" "\<lambda>now. filter (\<lambda>t. now < t + 60000)" "SESSION_WINDOW_TTL_SECS * 1000"
  for scope
  by unfold_locales (auto simp: window_defs intro!: filter_cong)

section \<open>The processes of one harness session\<close>

text \<open>A call recorded by process \<open>p\<close>, with whether Valkey answered.\<close>

primrec sibling_calls :: "(nat \<times> bool \<times> string \<times> nat) list \<Rightarrow> (nat \<Rightarrow> SessionState) \<times> session_db \<Rightarrow> (nat \<Rightarrow> SessionState) \<times> session_db" where
  "sibling_calls [] s = s"
| "sibling_calls (e # es) s =
     (let (p, up, tool, now) = e; (st, db) = recordCall up tool now (fst s p) (snd s) in
      sibling_calls es ((fst s)(p := st), db))"

definition empty_db :: session_db where
  "empty_db = \<lparr>sd_tools = \<lambda>_. None, sd_calls = \<lambda>_. None, sd_reask = \<lambda>_. None\<rparr>"

definition own_calls :: "nat \<Rightarrow> (nat \<times> bool \<times> string \<times> nat) list \<Rightarrow> (nat \<times> bool \<times> string \<times> nat) list" where
  "own_calls p es = filter (\<lambda>e. fst e = p) es"

definition call_names :: "(nat \<times> bool \<times> string \<times> nat) list \<Rightarrow> string list" where
  "call_names es = map (\<lambda>(_, _, tool, _). tool) es"

definition call_times :: "(nat \<times> bool \<times> string \<times> nat) list \<Rightarrow> nat list" where
  "call_times es = map (\<lambda>(_, _, _, now). now) es"

lemma capped_last_n: "capped xs = last_n TOOL_SEQUENCE_CAP xs"
  by (simp add: capped_def last_n_def)

lemma shared_scope_recordCall [simp]: "shared_scope (fst (recordCall up tool now st db)) = shared_scope st"
  by (simp add: recordCall_def Let_def shared_scope_def)

lemma recordCall_shared: "shared_scope st = Some scope \<Longrightarrow> snd (recordCall up tool now st db) = put_call scope up tool now db"
  by (simp add: recordCall_def Let_def put_call_def)

lemma recordCall_local:
  assumes "length (ss_timestamps st) = length (ss_sequence st)"
  shows "ss_sequence (fst (recordCall up tool now st db)) = last_n TOOL_SEQUENCE_CAP (ss_sequence st @ [tool])"
    and "ss_timestamps (fst (recordCall up tool now st db)) = last_n TOOL_SEQUENCE_CAP (ss_timestamps st @ [now])"
  using assms by (auto simp: recordCall_def Let_def last_n_def)

lemma sibling_shared:
  assumes "\<And>p. shared_scope (fst s p) = Some scope"
  shows "shared_scope (fst (sibling_calls es s) p) = Some scope \<and> snd (sibling_calls es s) = tools.puts scope (map snd es) (snd s)"
  using assms
proof (induction es arbitrary: s)
  case (Cons e es)
  obtain q up tool now where e: "e = (q, up, tool, now)" by (cases e)
  let ?r = "recordCall up tool now (fst s q) (snd s)"
  from Cons.prems have "\<And>p. shared_scope (fst ((fst s)(q := fst ?r), snd ?r) p) = Some scope" by simp
  from Cons.IH [OF this] Cons.prems [of q] show ?case
    by (simp add: e case_prod_beta recordCall_shared)
qed simp

lemma sibling_local:
  assumes "ss_sequence (fst s p) = last_n TOOL_SEQUENCE_CAP names" "ss_timestamps (fst s p) = last_n TOOL_SEQUENCE_CAP ts" "length ts = length names"
  shows "ss_sequence (fst (sibling_calls es s) p) = last_n TOOL_SEQUENCE_CAP (names @ call_names (own_calls p es))
       \<and> ss_timestamps (fst (sibling_calls es s) p) = last_n TOOL_SEQUENCE_CAP (ts @ call_times (own_calls p es))"
  using assms
proof (induction es arbitrary: s names ts)
  case Nil
  then show ?case by (simp add: own_calls_def call_names_def call_times_def)
next
  case (Cons e es)
  obtain q up tool now where e: "e = (q, up, tool, now)" by (cases e)
  let ?r = "recordCall up tool now (fst s q) (snd s)"
  show ?case
  proof (cases "q = p")
    case True
    have "length (ss_timestamps (fst s p)) = length (ss_sequence (fst s p))" using Cons.prems by simp
    from recordCall_local [OF this] Cons.prems
    have "ss_sequence (fst ?r) = last_n TOOL_SEQUENCE_CAP (names @ [tool])" "ss_timestamps (fst ?r) = last_n TOOL_SEQUENCE_CAP (ts @ [now])"
      by (simp_all add: True last_n_append_last_n)
    with Cons.IH [of "((fst s)(q := fst ?r), snd ?r)" "names @ [tool]" "ts @ [now]"] Cons.prems True
    show ?thesis by (simp add: e case_prod_beta own_calls_def call_names_def call_times_def)
  next
    case False
    with Cons.IH [of "((fst s)(q := fst ?r), snd ?r)" names ts] Cons.prems
    show ?thesis by (simp add: e case_prod_beta own_calls_def)
  qed
qed

lemma sibling_scope: "ss_scope (fst (sibling_calls es s) p) = ss_scope (fst s p) \<and> ss_store (fst (sibling_calls es s) p) = ss_store (fst s p)"
  by (induction es arbitrary: s) (auto simp: recordCall_def Let_def split: prod.split)

text \<open>A read one moment after the last write sees every call of the window, trimmed or not.\<close>

lemma count_after_trim:
  assumes "t < now \<or> t = 0"
  shows "length (filter (\<lambda>x. t < x + 60000 \<and> now - 60000 \<le> x) xs) = length (filter ((\<le>) (now - 60000)) (xs :: nat list))"
  using assms by (intro arg_cong [where f = length] filter_cong) auto

definition siblings :: "string \<Rightarrow> (nat \<Rightarrow> SessionState) \<times> session_db" where
  "siblings scope = (\<lambda>_. new_SessionState (Some scope) True, empty_db)"

lemma siblings_window:
  assumes "scope \<noteq> ''''" "sorted (call_times es)" "\<forall>t\<in>set (call_times es). t < now \<and> now < t + 86400000"
  defines "s \<equiv> sibling_calls es (siblings scope)" and "seen \<equiv> filter (fst \<circ> snd) es"
  shows "loadWindow True cand now (fst s p) (snd s) =
    \<lparr>wd_prospective = last_n TOOL_SEQUENCE_CAP (call_names seen @ [cand]),
     wd_callsLast60s = length (filter (\<lambda>t. now - 60000 \<le> t) (call_times seen)), wd_shared = True\<rparr>"
proof -
  have "shared_scope (fst (siblings scope) q) = Some scope" for q
    using assms(1) by (simp add: siblings_def new_SessionState_def shared_scope_def nonempty_def)
  from sibling_shared [OF this] have sh: "shared_scope (fst s p) = Some scope"
    and db: "snd s = tools.puts scope (map snd es) empty_db"
    by (auto simp: s_def siblings_def)
  have times: "snd \<circ> snd = (\<lambda>(_, _, now). now)" "map (snd \<circ> snd) (map snd es) = call_times es" by (auto simp: call_times_def)
  have fresh: "read_tools scope t empty_db = []" "read_times scope t empty_db = []" for t
    by (simp_all add: read_tools_def read_times_def empty_db_def live_list_def)
  have range: "\<forall>c\<in>set (map snd es). snd (snd c) \<le> now \<and> now < snd (snd c) + SESSION_WINDOW_TTL_SECS * 1000"
    using assms(3) by (fastforce simp: call_times_def SESSION_WINDOW_TTL_SECS_def)
  have sorted: "sorted (map (snd \<circ> snd) (map snd es))" using assms(2) by (subst times(2))
  have ans: "tools.answered (map snd es) = call_names seen" "times.answered (map snd es) = call_times seen"
    by (simp_all add: tools.answered_def times.answered_def seen_def call_names_def call_times_def filter_map comp_def case_prod_beta)
  from tools.read_puts [OF fresh(1) sorted range]
  have "read_tools scope now (snd s) = last_n TOOL_SEQUENCE_CAP (call_names seen)" by (auto simp: db ans)
  moreover from times.read_puts [OF fresh(2) sorted range]
  obtain t where t: "t = 0 \<or> t \<in> set (call_times es)" "read_times scope now (snd s) = filter (\<lambda>x. t < x + 60000) (call_times seen)"
    by (auto simp: db ans call_times_def image_comp comp_def case_prod_beta)
  moreover have "t < now \<or> t = 0" using t(1) assms(3) by auto
  ultimately show ?thesis
    by (simp add: loadWindow_def sh readWindow_def read_tools_def [symmetric] read_times_def [symmetric] capped_last_n
        last_n_append_last_n count_after_trim CALLS_WINDOW_MS_def)
qed



lemma local_window_own:
  "loadWindow False cand now (fst (sibling_calls es (siblings scope)) p) db =
    \<lparr>wd_prospective = last_n TOOL_SEQUENCE_CAP (call_names (own_calls p es) @ [cand]),
     wd_callsLast60s = length (filter (\<lambda>t. now - 60000 \<le> t) (last_n TOOL_SEQUENCE_CAP (call_times (own_calls p es)))), wd_shared = False\<rparr>"
proof -
  have "ss_sequence (fst (siblings scope) p) = last_n TOOL_SEQUENCE_CAP []" "ss_timestamps (fst (siblings scope) p) = last_n TOOL_SEQUENCE_CAP []"
    by (simp_all add: siblings_def new_SessionState_def last_n_def)
  from sibling_local [OF this, of es]
  show ?thesis
    by (simp add: loadWindow_def readWindow_def prospectiveSequence_def capped_last_n last_n_append_last_n callsInLastMs_def CALLS_WINDOW_MS_def
        split: bind_split)
qed

text \<open>
  C0: The store is never a hard dependency.  When Valkey does not answer, a process evaluates the call against
  its own last 60 calls, whatever was shared before.
\<close>

theorem loadWindow_fallback:
  "loadWindow False cand now (fst (sibling_calls es (siblings scope)) p) db =
    \<lparr>wd_prospective = last_n TOOL_SEQUENCE_CAP (call_names (own_calls p es) @ [cand]),
     wd_callsLast60s = length (filter (\<lambda>t. now - 60000 \<le> t) (last_n TOOL_SEQUENCE_CAP (call_times (own_calls p es)))), wd_shared = False\<rparr>"
  by (rule local_window_own)

section \<open>The reask ladder\<close>

text \<open>A trip of one detector in process \<open>p\<close>, with whether Valkey answered; the attempt it was told.\<close>

primrec sibling_trips :: "string \<Rightarrow> (nat \<times> bool \<times> nat) list \<Rightarrow> (nat \<Rightarrow> SessionState) \<times> session_db \<Rightarrow> nat list \<times> (nat \<Rightarrow> SessionState) \<times> session_db" where
  "sibling_trips key [] s = ([], s)"
| "sibling_trips key (e # es) s =
     (let (p, up, now) = e; (n, st, db) = incrReaskAttemptShared up key now (fst s p) (snd s);
          (ns, s') = sibling_trips key es ((fst s)(p := st), db)
      in (n # ns, s'))"

lemma sibling_trips_append:
  "sibling_trips key (es @ fs) s =
     (let (ns, s') = sibling_trips key es s; (ms, s'') = sibling_trips key fs s' in (ns @ ms, s''))"
  by (induction es arbitrary: s) (auto simp: Let_def split: prod.splits)

lemma incrReask_shared:
  assumes "shared_scope st = Some scope" "incrReaskAttemptShared up key now st db = (n, st', db')"
  shows "shared_scope st' = Some scope" "getReaskAttempts key st' = Suc (getReaskAttempts key st)"
    "\<not> up \<Longrightarrow> db' = db \<and> n = Suc (getReaskAttempts key st)"
    "up \<Longrightarrow> (Some n, db') = store_incrReask True scope key now db"
  using assms
  by (auto simp: incrReaskAttemptShared_def incrReaskAttempt_def Let_def getReaskAttempts_def shared_scope_def store_incrReask_def split: option.splits if_splits prod.splits)

text \<open>What the shared counter holds after \<open>n\<close> trips whose first was at \<open>t0\<close>.\<close>

definition reask_held :: "string \<Rightarrow> string \<Rightarrow> nat \<Rightarrow> nat \<Rightarrow> session_db \<Rightarrow> bool" where
  "reask_held scope key t0 n db \<longleftrightarrow>
     (case sd_reask db (reask_key scope key) of
        None \<Rightarrow> n = 0
      | Some (m, t) \<Rightarrow> 0 < n \<and> m = n \<and> t0 + 3600000 \<le> t)"

lemma store_incrReask_held:
  assumes "reask_held scope key t0 n db" "t0 \<le> now" "now < t0 + 3600000" "store_incrReask True scope key now db = (r, db')"
  shows "r = Some (Suc n) \<and> reask_held scope key t0 (Suc n) db'"
  using assms by (auto simp: reask_held_def store_incrReask_def Let_def REASK_WINDOW_SECS_def split: option.splits if_splits)

lemma sibling_trips_state:
  assumes "scope \<noteq> ''''" "\<forall>(p, up, now)\<in>set es. t0 \<le> now \<and> now < t0 + 3600000"
    "sibling_trips key es (siblings scope) = (ns, s)"
  shows "shared_scope (fst s p) = Some scope \<and> getReaskAttempts key (fst s p) = length (filter (\<lambda>e. fst e = p) es)
    \<and> reask_held scope key t0 (length (filter (fst \<circ> snd) es)) (snd s)"
  using assms(2,3)
proof (induction es arbitrary: ns s p rule: rev_induct)
  case Nil
  then show ?case using assms(1)
    by (auto simp: siblings_def new_SessionState_def shared_scope_def nonempty_def getReaskAttempts_def reask_held_def empty_db_def)
next
  case (snoc e es)
  obtain q up now where e: "e = (q, up, now)" by (cases e)
  obtain ms s1 where s1: "sibling_trips key es (siblings scope) = (ms, s1)" by (cases "sibling_trips key es (siblings scope)")
  obtain n st db where r: "incrReaskAttemptShared up key now (fst s1 q) (snd s1) = (n, st, db)" by (cases "incrReaskAttemptShared up key now (fst s1 q) (snd s1)")
  have s: "s = ((fst s1)(q := st), db)" using snoc.prems(2) by (simp add: sibling_trips_append s1 e r)
  note IH = snoc.IH [OF _ s1]
  have ih: "\<And>p. shared_scope (fst s1 p) = Some scope \<and> getReaskAttempts key (fst s1 p) = length (filter (\<lambda>e. fst e = p) es)
    \<and> reask_held scope key t0 (length (filter (fst \<circ> snd) es)) (snd s1)"
    using IH snoc.prems(1) by (auto simp: comp_def)
  note step = incrReask_shared [OF _ r]
  show ?case
  proof (cases up)
    case True
    from step(4) True ih have "store_incrReask True scope key now (snd s1) = (Some n, db)" by metis
    from store_incrReask_held [OF _ _ _ this, of t0] ih snoc.prems(1) True step(1,2) show ?thesis
      by (auto simp: s e comp_def)
  next
    case False
    with ih step show ?thesis by (auto simp: s e comp_def)
  qed
qed

lemma sibling_trips_last:
  assumes "scope \<noteq> ''''" "\<forall>(p, up, now)\<in>set (es @ [(p, up, now)]). t0 \<le> now \<and> now < t0 + 3600000"
  shows "last (fst (sibling_trips key (es @ [(p, up, now)]) (siblings scope))) =
    (if up then Suc (length (filter (fst \<circ> snd) es)) else Suc (length (filter (\<lambda>e. fst e = p) es)))"
proof -
  obtain ns s where s: "sibling_trips key es (siblings scope) = (ns, s)" by (cases "sibling_trips key es (siblings scope)")
  obtain n st db where r: "incrReaskAttemptShared up key now (fst s p) (snd s) = (n, st, db)"
    by (cases "incrReaskAttemptShared up key now (fst s p) (snd s)")
  from sibling_trips_state [OF assms(1) _ s, of t0 p] assms(2)
  have state: "shared_scope (fst s p) = Some scope" "getReaskAttempts key (fst s p) = length (filter (\<lambda>e. fst e = p) es)"
    "reask_held scope key t0 (length (filter (fst \<circ> snd) es)) (snd s)" by auto
  note step = incrReask_shared [OF state(1) r]
  have "n = (if up then Suc (length (filter (fst \<circ> snd) es)) else Suc (length (filter (\<lambda>e. fst e = p) es)))"
  proof (cases up)
    case True
    then have "store_incrReask True scope key now (snd s) = (Some n, db)" using step(4) by simp
    from store_incrReask_held [OF state(3) _ _ this] assms(2) True show ?thesis by auto
  qed (use step(3) state(2) in simp)
  then show ?thesis by (simp add: sibling_trips_append s r)
qed

text \<open>
  C0: The reask ladder cannot be reset by switching servers.  Within an hour, whichever sibling trips the
  detector, the attempt it is told counts every earlier trip Valkey took; and without Valkey it continues from the
  process's own count.
\<close>

theorem incrReaskAttemptShared_counts:
  assumes "scope \<noteq> ''''" "\<forall>(p, up, now)\<in>set (es @ [(p, up, now)]). t0 \<le> now \<and> now < t0 + 3600000"
  shows "last (fst (sibling_trips key (es @ [(p, up, now)]) (siblings scope))) =
    (if up then Suc (length (filter (fst \<circ> snd) es)) else Suc (length (filter (\<lambda>e. fst e = p) es)))"
  using assms by (rule sibling_trips_last)

lemma incrReaskAttemptShared_counts_witness:
  "last (fst (sibling_trips ''loop'' ([(0, True, 5), (1, True, 6)] @ [(2, True, 7)]) (siblings ''s''))) = 3"
  by (subst incrReaskAttemptShared_counts [where ?t0.0 = 5]; simp)

end
