(* ===== verification/McpAnomaly.thy ===== *)
theory McpAnomaly
  imports McpSession DecideEngine
begin

text \<open>
  The anomaly detectors of the MCP proxy and how their findings are disposed of:
  \<open>packages/mcp-proxy/src/anomaly/detectors.ts\<close> and \<open>anomaly/index.ts\<close>.

  Confidences and scores are exact rationals.  The arrow U+2192 of a cycle's description is CHR 0x92.
  \<open>scanToolDescription\<close> (a list of regular expressions) is a parameter, and so is the text of a JSON number.
\<close>

section \<open>Findings and dispositions\<close>

datatype Disposition = Steer | Reask | Kill

fun DISPOSITION_SEVERITY :: "Disposition \<Rightarrow> nat" where
  "DISPOSITION_SEVERITY Steer = 1"
| "DISPOSITION_SEVERITY Reask = 2"
| "DISPOSITION_SEVERITY Kill = 3"

record AnomalyFinding =
  af_detectorId :: string
  af_kind :: string
  af_reason :: string
  af_confidence :: rat
  af_disposition :: Disposition

definition thresholdConfidence :: "nat \<Rightarrow> nat \<Rightarrow> rat" where
  "thresholdConfidence observed threshold = min (11 / 20 + of_nat (observed - threshold) / 10) (19 / 20)"

section \<open>Repeats and alternations\<close>

definition REPETITION_THRESHOLD :: nat where "REPETITION_THRESHOLD = 5"

fun repeat_loop :: "string \<Rightarrow> nat \<Rightarrow> string list \<Rightarrow> (string \<times> nat) option" where
  "repeat_loop prev run [] = None"
| "repeat_loop prev run (x # xs) =
     (if x = prev then if REPETITION_THRESHOLD \<le> run + 1 then Some (x, run + 1) else repeat_loop x (run + 1) xs
      else repeat_loop x 1 xs)"

definition consecutiveRepeat :: "string list \<Rightarrow> AnomalyFinding option" where
  "consecutiveRepeat calls =
     (case calls of
        [] \<Rightarrow> None
      | x # xs \<Rightarrow>
          map_option (\<lambda>(t, run).
            \<lparr>af_detectorId = ''consecutive_repeat'', af_kind = ''loop_detected'',
             af_reason = ''Loop detected: '' @ [CHR 0x27] @ t @ [CHR 0x27] @ '' called '' @ nat_str run @ '' times consecutively without progress'',
             af_confidence = thresholdConfidence run REPETITION_THRESHOLD, af_disposition = Reask\<rparr>) (repeat_loop x 1 xs))"

definition PING_PONG_CYCLES :: nat where "PING_PONG_CYCLES = 3"

definition pingPongCycle :: "string list \<Rightarrow> AnomalyFinding option" where
  "pingPongCycle calls =
     (let needed = PING_PONG_CYCLES * 2 in
      if length calls < needed then None
      else
        let tail = last_n needed calls; a = tail ! 0; b = tail ! 1 in
        if a = b then None
        else if \<not> list_all (\<lambda>i. tail ! i = (if i mod 2 = 0 then a else b)) [0..<length tail] then None
        else
          Some \<lparr>af_detectorId = ''ping_pong_cycle'', af_kind = ''loop_detected'',
                af_reason = ''Loop detected: '' @ [CHR 0x27] @ a @ [CHR 0x27] @ '' and '' @ [CHR 0x27] @ b @ [CHR 0x27]
                  @ '' alternating for '' @ nat_str PING_PONG_CYCLES @ '' cycles with no other activity'',
                af_confidence = thresholdConfidence PING_PONG_CYCLES PING_PONG_CYCLES, af_disposition = Reask\<rparr>)"

section \<open>Cycles that survive a stray call\<close>

definition LANDMARK_WINDOW :: nat where "LANDMARK_WINDOW = 24"
definition MIN_LANDMARK_ANCHORS :: nat where "MIN_LANDMARK_ANCHORS = 8"
definition MAX_CYCLE_PERIOD :: nat where "MAX_CYCLE_PERIOD = 6"
definition MIN_CYCLE_REPEATS :: nat where "MIN_CYCLE_REPEATS = 4"
definition CYCLE_COVERAGE_FLOOR :: rat where "CYCLE_COVERAGE_FLOOR = 3 / 4"
definition CYCLE_MATCH_RATIO :: rat where "CYCLE_MATCH_RATIO = 3 / 4"
definition ANCHOR_FREQ_SLOTS :: nat where "ANCHOR_FREQ_SLOTS = 256"

text \<open>\<open>symbols.findIndex\<close> of a case-folded name; the length when there is none.\<close>

definition symbol_index :: "string list \<Rightarrow> string \<Rightarrow> nat" where
  "symbol_index symbols lower = length (takeWhile (\<lambda>s. to_lower s \<noteq> lower) symbols)"

fun project_anchors :: "string list \<Rightarrow> string list \<Rightarrow> nat list \<times> string list" where
  "project_anchors symbols [] = ([], symbols)"
| "project_anchors symbols (tok # toks) =
     (let i = symbol_index symbols (to_lower tok);
          symbols' = (if i = length symbols then symbols @ [tok] else symbols);
          (anchors, final) = project_anchors symbols' toks
      in (min i 65535 # anchors, final))"

definition anchorProjection :: "string list \<Rightarrow> nat list \<times> string list" where
  "anchorProjection calls = project_anchors [] calls"

record CycleCoverageSample =
  cs_coverage :: rat
  cs_windowLen :: nat
  cs_survivors :: "nat list"
  cs_symbols :: "string list"

definition anchor_freq :: "nat list \<Rightarrow> nat \<Rightarrow> nat" where
  "anchor_freq win slot = length (filter (\<lambda>i. i mod ANCHOR_FREQ_SLOTS = slot) win)"

definition landmarkCycleCoverage :: "string list \<Rightarrow> CycleCoverageSample option" where
  "landmarkCycleCoverage calls =
     (let (anchors, symbols) = anchorProjection calls in
      if length anchors < MIN_LANDMARK_ANCHORS then None
      else
        let win = last_n LANDMARK_WINDOW anchors;
            survivors = filter (\<lambda>i. 1 < anchor_freq win (i mod ANCHOR_FREQ_SLOTS)) win
        in if length survivors < MIN_LANDMARK_ANCHORS then None
           else Some \<lparr>cs_coverage = of_nat (length survivors) / of_nat (length win), cs_windowLen = length win,
                      cs_survivors = survivors, cs_symbols = symbols\<rparr>)"

definition describeCycle :: "string list \<Rightarrow> nat list \<Rightarrow> nat \<Rightarrow> string" where
  "describeCycle symbols survivors period =
     (if length survivors < period then ''''
      else join_with ('' '' @ [CHR 0x92] @ '' '')
             (map (\<lambda>i. case char_at symbols i of Some s \<Rightarrow> s | None \<Rightarrow> ''?'') (last_n period survivors)))"

definition cycle_matches :: "nat list \<Rightarrow> nat \<Rightarrow> nat" where
  "cycle_matches survivors p = length (filter (\<lambda>i. survivors ! i = survivors ! (i - p)) [p..<length survivors])"

definition cycle_score :: "nat list \<Rightarrow> nat \<Rightarrow> rat" where
  "cycle_score survivors p = of_nat (cycle_matches survivors p) / of_nat (length survivors - p)"

definition cycle_found :: "nat list \<Rightarrow> nat \<Rightarrow> bool" where
  "cycle_found survivors p \<longleftrightarrow>
     max MIN_LANDMARK_ANCHORS (p * MIN_CYCLE_REPEATS) \<le> length survivors \<and> length survivors - p \<noteq> 0
     \<and> CYCLE_MATCH_RATIO \<le> cycle_score survivors p"

text \<open>\<open>(score * 100).toFixed(0)\<close>.\<close>

definition percent :: "rat \<Rightarrow> string" where
  "percent score = nat_str (nat \<lfloor>score * 100 + 1 / 2\<rfloor>)"

definition landmarkCycle :: "string list \<Rightarrow> AnomalyFinding option" where
  "landmarkCycle calls =
     (case landmarkCycleCoverage calls of
        None \<Rightarrow> None
      | Some sample \<Rightarrow>
          if cs_coverage sample < CYCLE_COVERAGE_FLOOR then None
          else
            let survivors = cs_survivors sample in
            map_option (\<lambda>p.
              \<lparr>af_detectorId = ''landmark_cycle'', af_kind = ''loop_detected'',
               af_reason = ''Loop detected: '' @ nat_str (length survivors) @ '' of the last '' @ nat_str (cs_windowLen sample)
                 @ '' concrete tool calls are repeating on a period of '' @ nat_str p @ '' (''
                 @ describeCycle (cs_symbols sample) survivors p @ ''), matching '' @ percent (cycle_score survivors p) @ ''% of the time'',
               af_confidence = cycle_score survivors p, af_disposition = Steer\<rparr>)
              (find (cycle_found survivors) [1..<MAX_CYCLE_PERIOD + 1]))"

section \<open>One tool over and over\<close>

definition DIVERSITY_WINDOW :: nat where "DIVERSITY_WINDOW = 10"
definition DIVERSITY_MIN_DISTINCT :: nat where "DIVERSITY_MIN_DISTINCT = 2"

definition toolDiversityCollapse :: "string list \<Rightarrow> AnomalyFinding option" where
  "toolDiversityCollapse calls =
     (if length calls < DIVERSITY_WINDOW then None
      else
        let tail = last_n DIVERSITY_WINDOW calls in
        if DIVERSITY_MIN_DISTINCT \<le> length (uniq tail) then None
        else Some \<lparr>af_detectorId = ''tool_diversity_collapse'', af_kind = ''token_waste'',
                   af_reason = ''No progress: the last '' @ nat_str DIVERSITY_WINDOW @ '' tool calls used only '' @ [CHR 0x27] @ tail ! 0 @ [CHR 0x27],
                   af_confidence = 4 / 5, af_disposition = Steer\<rparr>)"

section \<open>Code in one call\<close>

definition CODE_EXECUTION_TOOL_MARKERS :: "string list" where
  "CODE_EXECUTION_TOOL_MARKERS =
     [''bash'', ''shell'', ''exec'', ''python'', ''repl'', ''run_code'', ''code_interpreter'', ''jupyter'', ''terminal'', ''eval'']"

definition CODE_SECRET_ACCESS_MARKERS :: "string list" where
  "CODE_SECRET_ACCESS_MARKERS =
     [''.aws/credentials'', ''id_rsa'', ''.ssh/'', ''.env'', ''aws_secret_access_key'',
      ''getenv('' @ [CHR 0x22] @ ''anthropic'', ''getenv('' @ [CHR 0x22] @ ''openai'', ''getenv('' @ [CHR 0x22] @ ''aws'',
      ''process.env.anthropic'', ''process.env.openai'', ''process.env.aws'',
      ''keychain'', ''secretsmanager'']"

definition CODE_EGRESS_MARKERS :: "string list" where
  "CODE_EGRESS_MARKERS =
     [''curl '', ''wget '', ''http.post'', ''requests.post'', ''requests.put'', ''fetch('', ''urlopen'',
      ''httpx.'', ''nc '', ''netcat'', ''scp '', ''rsync '']"

definition CODE_DESTRUCTIVE_MARKERS :: "string list" where
  "CODE_DESTRUCTIVE_MARKERS =
     [''rm -rf /'', ''rm -fr /'', ''mkfs'', ''dd if='', '' of=/dev/'', '':(){'', ''> /dev/sda'']"

definition codeAsAction :: "(rat \<Rightarrow> string) \<Rightarrow> string \<Rightarrow> json option \<Rightarrow> AnomalyFinding option" where
  "codeAsAction numStr toolName toolArguments =
     (if \<not> list_ex (includes_str (to_lower toolName)) CODE_EXECUTION_TOOL_MARKERS then None
      else
        let code = to_lower (stringify numStr (or_object toolArguments)) in
        case find (includes_str code) CODE_DESTRUCTIVE_MARKERS of
          Some destructive \<Rightarrow>
            Some \<lparr>af_detectorId = ''code_as_action'', af_kind = ''tool_abuse'',
                  af_reason = ''Code-execution call '' @ [CHR 0x27] @ toolName @ [CHR 0x27] @ '' contains a destructive operation ('' @ [CHR 0x27]
                    @ trim destructive @ [CHR 0x27] @ ''). Per-call gates cannot see inside a code blob; this one was read.'',
                  af_confidence = 1, af_disposition = Kill\<rparr>
        | None \<Rightarrow>
            (case (find (includes_str code) CODE_SECRET_ACCESS_MARKERS, find (includes_str code) CODE_EGRESS_MARKERS) of
               (Some secretAccess, Some egress) \<Rightarrow>
                 Some \<lparr>af_detectorId = ''code_as_action'', af_kind = ''data_exfiltration'',
                       af_reason = ''Code-execution call '' @ [CHR 0x27] @ toolName @ [CHR 0x27] @ '' bundles credential access ('' @ [CHR 0x27]
                         @ secretAccess @ [CHR 0x27] @ '') with network egress ('' @ [CHR 0x27] @ trim egress @ [CHR 0x27] @ '') in one blob ''
                         @ em_dash @ '' the in-code shape of secret_read -> http_post, which the succession detector cannot see because ''
                         @ ''both halves are inside a single call.'',
                       af_confidence = 1, af_disposition = Kill\<rparr>
             | _ \<Rightarrow> None))"

section \<open>Running the detectors\<close>

definition evaluateSequenceDetectors :: "(rat \<Rightarrow> string) \<Rightarrow> string list \<Rightarrow> string \<Rightarrow> json option \<Rightarrow> AnomalyFinding list" where
  "evaluateSequenceDetectors numStr toolSequence toolName toolArguments =
     sort_key (\<lambda>f. 3 - DISPOSITION_SEVERITY (af_disposition f))
       (List.map_filter id
         [consecutiveRepeat toolSequence, pingPongCycle toolSequence, landmarkCycle toolSequence,
          toolDiversityCollapse toolSequence, codeAsAction numStr toolName toolArguments])"

definition toolPoisoning :: "(string \<Rightarrow> string list) \<Rightarrow> ToolsListEntry list \<Rightarrow> AnomalyFinding option" where
  "toolPoisoning scan tools =
     (let hits = concat (map (\<lambda>tool. case nonempty (te_description tool) of
                               None \<Rightarrow> []
                             | Some d \<Rightarrow> map (\<lambda>technique. te_name tool @ '': '' @ technique) (scan d)) tools)
      in if hits = [] then None
         else Some \<lparr>af_detectorId = ''tool_poisoning'', af_kind = ''prompt_injection'',
                    af_reason = ''Tool description carries model-directed instructions ('' @ join_with ''; '' (uniqueSorted hits)
                      @ ''). The description reaches the model unchanged '' @ em_dash @ '' this is a report, not a block.'',
                    af_confidence = 3 / 5, af_disposition = Steer\<rparr>)"

definition DLP_ESCALATION_THRESHOLD :: nat where "DLP_ESCALATION_THRESHOLD = 3"

definition dlpEscalation :: "string list \<Rightarrow> AnomalyFinding option" where
  "dlpEscalation distinctPatternDescriptions =
     (let distinct' = uniqueSorted distinctPatternDescriptions in
      if length distinct' < DLP_ESCALATION_THRESHOLD then None
      else Some \<lparr>af_detectorId = ''dlp_escalation'', af_kind = ''data_exfiltration'',
                 af_reason = ''Credential sweep: '' @ nat_str (length distinct') @ '' distinct sensitive patterns in one response (''
                   @ join_with '', '' distinct' @ '')'',
                 af_confidence = 1, af_disposition = Kill\<rparr>)"

section \<open>The effective disposition\<close>

definition REASK_MAX_ATTEMPTS :: nat where "REASK_MAX_ATTEMPTS = 3"

definition DETECTOR_BASE_DISPOSITION :: "(string \<times> Disposition) list" where
  "DETECTOR_BASE_DISPOSITION =
     [(''consecutive_repeat'', Reask), (''ping_pong_cycle'', Reask), (''landmark_cycle'', Steer),
      (''tool_diversity_collapse'', Steer), (''code_as_action'', Kill), (''tool_poisoning'', Steer), (''dlp_escalation'', Kill)]"

text \<open>\<^const>\<open>None\<close> is \<open>off\<close>.\<close>

fun SEVERITY :: "Disposition option \<Rightarrow> nat" where
  "SEVERITY None = 0"
| "SEVERITY (Some d) = DISPOSITION_SEVERITY d"

datatype AnomalyMode = ModeEnforce | ModeWarn | ModeOff

definition resolveEffectiveDisposition :: "AnomalyFinding \<Rightarrow> AnomalyMode \<Rightarrow> (string \<times> Disposition option) list \<Rightarrow> Disposition option" where
  "resolveEffectiveDisposition finding mode overrides =
     (if mode = ModeOff then None
      else
        let ceiling = (if mode = ModeWarn then Some Steer else Some (af_disposition finding));
            candidates = [Some (af_disposition finding), ceiling]
              @ (case map_of overrides (af_detectorId finding) of None \<Rightarrow> [] | Some o' \<Rightarrow> [o'])
        in foldl (\<lambda>m c. if SEVERITY c < SEVERITY m then c else m) (hd candidates) (tl candidates))"

section \<open>Repeats\<close>

lemma repeat_loop_Some:
  "repeat_loop prev run xs = Some (t, n) \<Longrightarrow> run < 5 \<Longrightarrow> n = 5 \<and> sublist (replicate 5 t) (replicate run prev @ xs)"
proof (induction prev run xs rule: repeat_loop.induct)
  case (2 prev run x xs)
  show ?case
  proof (cases "x = prev")
    case True
    have eq: "replicate run x @ x # xs = replicate (run + 1) x @ xs" by (simp add: replicate_append_same)
    show ?thesis
    proof (cases "REPETITION_THRESHOLD \<le> run + 1")
      case th: True
      with 2 True have run: "run = 4" "t = x" "n = 5" by (auto simp: REPETITION_THRESHOLD_def)
      then have "replicate run prev @ x # xs = replicate 5 t @ xs" using True eq by simp
      then show ?thesis using run by (metis sublist_append_rightI)
    next
      case False
      with 2 True have "n = 5 \<and> sublist (replicate 5 t) (replicate (run + 1) x @ xs)" by (auto simp: REPETITION_THRESHOLD_def)
      then show ?thesis unfolding eq [symmetric] using True by simp
    qed
  next
    case False
    with 2 have "n = 5 \<and> sublist (replicate 5 t) (x # xs)" by auto
    then show ?thesis by (auto intro: sublist_order.order.trans [OF _ sublist_append_leftI])
  qed
qed simp

lemma repeat_loop_None:
  "repeat_loop prev run xs = None \<Longrightarrow> run < 5 \<Longrightarrow> 0 < run \<Longrightarrow> \<not> sublist (replicate 5 t) (replicate run prev @ xs)"
proof (induction prev run xs rule: repeat_loop.induct)
  case (1 prev run)
  then show ?case using sublist_length_le [of "replicate 5 t" "replicate run prev"] by auto
next
  case (2 prev run x xs)
  show ?case
  proof (cases "x = prev")
    case True
    with 2 have "\<not> sublist (replicate 5 t) (replicate (run + 1) x @ xs)" by (auto simp: REPETITION_THRESHOLD_def split: if_splits)
    moreover have "replicate run x @ x # xs = replicate (run + 1) x @ xs" by (simp add: replicate_append_same)
    ultimately show ?thesis using True by metis
  next
    case False
    with 2 have IH: "\<not> sublist (replicate 5 t) (x # xs)" by auto
    show ?thesis
    proof
      assume "sublist (replicate 5 t) (replicate run prev @ x # xs)"
      with IH have "sublist (replicate 5 t) (replicate run prev)
          \<or> (\<exists>us vs. replicate 5 t = us @ vs \<and> suffix us (replicate run prev) \<and> prefix vs (x # xs))"
        by (auto simp: sublist_append)
      then show False
      proof
        assume "sublist (replicate 5 t) (replicate run prev)"
        from sublist_length_le [OF this] 2(4) show False by simp
      next
        assume "\<exists>us vs. replicate 5 t = us @ vs \<and> suffix us (replicate run prev) \<and> prefix vs (x # xs)"
        then obtain us vs where uv: "replicate 5 t = us @ vs" "suffix us (replicate run prev)" "prefix vs (x # xs)" by blast
        have "set us \<subseteq> {prev}" using set_mono_suffix [OF uv(2)] by auto
        moreover have us: "set us \<subseteq> {t}" "set vs \<subseteq> {t}" using arg_cong [OF uv(1), of set] by auto
        ultimately have "us = [] \<or> t = prev" by (cases us) auto
        moreover have "vs = [] \<or> t = x" using uv(3) us(2) by (cases vs) auto
        ultimately have "us = [] \<or> vs = []" using False by auto
        then show False
        proof
          assume "us = []"
          with uv(1,3) have "prefix (replicate 5 t) (x # xs)" by simp
          with IH show False by (meson prefix_imp_sublist)
        next
          assume "vs = []"
          with uv(1,2) have "suffix (replicate 5 t) (replicate run prev)" by simp
          from suffix_length_le [OF this] 2(4) show False by simp
        qed
      qed
    qed
  qed
qed

lemma consecutiveRepeat_spec:
  "consecutiveRepeat calls \<noteq> None \<longleftrightarrow> list_ex (\<lambda>t. sublist (replicate 5 t) calls) calls"
proof (cases calls)
  case (Cons x xs)
  have "repeat_loop x 1 xs = None \<longleftrightarrow> (\<forall>t. \<not> sublist (replicate 5 t) calls)"
  proof
    assume "repeat_loop x 1 xs = None"
    from repeat_loop_None [OF this] show "\<forall>t. \<not> sublist (replicate 5 t) calls" by (simp add: Cons)
  next
    assume none: "\<forall>t. \<not> sublist (replicate 5 t) calls"
    show "repeat_loop x 1 xs = None"
      using none by (cases "repeat_loop x 1 xs") (auto simp: Cons dest!: repeat_loop_Some)
  qed
  moreover have "sublist (replicate 5 t) calls \<Longrightarrow> t \<in> set calls" for t
    by (auto simp: eval_nat_numeral dest!: set_mono_sublist)
  ultimately show ?thesis by (auto simp: consecutiveRepeat_def Cons list_ex_iff)
qed (simp add: consecutiveRepeat_def)

section \<open>Landmark cycles\<close>

lemma symbol_index_append: "symbol_index symbols lower < length symbols \<Longrightarrow> symbol_index (symbols @ added) lower = symbol_index symbols lower"
  by (induction symbols) (auto simp: symbol_index_def)

lemma symbol_index_le: "symbol_index symbols lower \<le> length symbols"
  by (simp add: symbol_index_def length_takeWhile_le)

lemma symbol_index_absent: "symbol_index symbols lower = length symbols \<Longrightarrow> \<forall>s\<in>set symbols. to_lower s \<noteq> lower"
  by (induction symbols) (auto simp: symbol_index_def split: if_splits)

lemma symbol_index_new: "symbol_index symbols (to_lower tok) = length symbols \<Longrightarrow> symbol_index (symbols @ [tok]) (to_lower tok) = length symbols"
  using symbol_index_absent [of symbols "to_lower tok"] by (simp add: symbol_index_def)

lemma project_anchors_index:
  "project_anchors symbols toks = (anchors, final) \<Longrightarrow>
     (\<exists>added. final = symbols @ added) \<and> anchors = map (\<lambda>tok. min (symbol_index final (to_lower tok)) 65535) toks"
proof (induction symbols toks arbitrary: anchors rule: project_anchors.induct)
  case (2 symbols tok toks)
  define i where "i = symbol_index symbols (to_lower tok)"
  define symbols' where "symbols' = (if i = length symbols then symbols @ [tok] else symbols)"
  obtain as where as: "project_anchors symbols' toks = (as, final)" "anchors = min i 65535 # as"
    using 2(2) by (auto simp: Let_def i_def symbols'_def split: prod.splits)
  from 2(1) [OF i_def [symmetric, THEN sym] _ as(1)] symbols'_def
  have IH: "\<exists>added. final = symbols' @ added" "as = map (\<lambda>tok. min (symbol_index final (to_lower tok)) 65535) toks"
    by (simp_all add: i_def)
  have "symbol_index symbols' (to_lower tok) = i \<and> i < length symbols'"
    using symbol_index_le [of symbols "to_lower tok"] symbol_index_new [of symbols tok] by (auto simp: symbols'_def i_def)
  then have "symbol_index final (to_lower tok) = i" using IH(1) symbol_index_append by metis
  moreover have "\<exists>added. final = symbols @ added" using IH(1) by (auto simp: symbols'_def split: if_splits)
  ultimately show ?case using as(2) IH(2) by simp
qed simp

lemma anchors_folded: "\<exists>f. fst (anchorProjection calls) = map (f \<circ> to_lower) calls"
  using project_anchors_index [of "[]" calls] unfolding anchorProjection_def by (cases "project_anchors [] calls") auto

text \<open>A window in which every call recurs one period away keeps all its anchors.\<close>

lemma periodic_survivors:
  assumes "\<And>i. i + p < length win \<Longrightarrow> win ! i = win ! (i + p)" "0 < p" "2 * p \<le> length win"
  shows "filter (\<lambda>i. 1 < anchor_freq win (i mod ANCHOR_FREQ_SLOTS)) win = win"
proof (rule filter_True, rule ballI)
  fix x assume "x \<in> set win"
  then obtain i where i: "i < length win" "win ! i = x" by (auto simp: in_set_conv_nth)
  obtain j where j: "j < length win" "win ! j = x" "j \<noteq> i"
  proof (cases "i + p < length win")
    case True
    then show ?thesis using that [of "i + p"] assms(1) [of i] i assms(2) by auto
  next
    case False
    then show ?thesis using that [of "i - p"] assms(1) [of "i - p"] i assms(2,3) by auto
  qed
  let ?hit = "\<lambda>k. win ! k mod ANCHOR_FREQ_SLOTS = x mod ANCHOR_FREQ_SLOTS"
  have "anchor_freq win (x mod ANCHOR_FREQ_SLOTS) = card {k. k < length win \<and> ?hit k}"
    by (simp add: anchor_freq_def length_filter_conv_card)
  moreover have "card {i, j} \<le> card {k. k < length win \<and> ?hit k}"
    using i j by (intro card_mono) auto
  ultimately show "1 < anchor_freq win (x mod ANCHOR_FREQ_SLOTS)" using j(3) by simp
qed

lemma periodic_score:
  assumes "\<And>i. i + p < length win \<Longrightarrow> win ! i = win ! (i + p)" "p < length win"
  shows "cycle_score win p = 1"
proof -
  have "filter (\<lambda>i. win ! i = win ! (i - p)) [p..<length win] = [p..<length win]"
    using assms(1) by (intro filter_True) (metis atLeastLessThan_iff le_add_diff_inverse2 set_upt)
  with assms(2) show ?thesis by (simp add: cycle_score_def cycle_matches_def)
qed

lemma landmarkCycle_periodic:
  assumes "1 \<le> p" "p \<le> 6" "24 \<le> length calls"
    and "\<And>i. i + p < 24 \<Longrightarrow> to_lower (last_n 24 calls ! i) = to_lower (last_n 24 calls ! (i + p))"
  shows "landmarkCycle calls \<noteq> None"
proof -
  obtain f where f: "fst (anchorProjection calls) = map (f \<circ> to_lower) calls" using anchors_folded by blast
  define win where "win = last_n LANDMARK_WINDOW (fst (anchorProjection calls))"
  have win: "win = map (f \<circ> to_lower) (last_n 24 calls)"
    by (simp add: win_def f last_n_def LANDMARK_WINDOW_def drop_map)
  have len: "length win = 24" using assms(3) by (simp add: win)
  have per: "win ! i = win ! (i + p)" if "i + p < length win" for i
    using that assms(4) [of i] assms(3) by (simp add: win)
  have surv: "filter (\<lambda>i. 1 < anchor_freq win (i mod ANCHOR_FREQ_SLOTS)) win = win"
    by (rule periodic_survivors [OF per]) (use assms(1,2) len in auto)
  have found: "cycle_found win p"
    using periodic_score [OF per] assms(1,2) len
    by (simp add: cycle_found_def MIN_LANDMARK_ANCHORS_def MIN_CYCLE_REPEATS_def CYCLE_MATCH_RATIO_def)
  have "p \<in> set [1..<MAX_CYCLE_PERIOD + 1]" using assms(1,2) by (auto simp: MAX_CYCLE_PERIOD_def)
  with found have "find (cycle_found win) [1..<MAX_CYCLE_PERIOD + 1] \<noteq> None" by (auto simp: find_None_iff)
  moreover have "length (fst (anchorProjection calls)) = length calls" by (simp add: f)
  then have "landmarkCycleCoverage calls =
      Some \<lparr>cs_coverage = 1, cs_windowLen = 24, cs_survivors = win, cs_symbols = snd (anchorProjection calls)\<rparr>"
    using assms(3) surv len
    by (simp add: landmarkCycleCoverage_def case_prod_beta Let_def win_def [symmetric] MIN_LANDMARK_ANCHORS_def)
  ultimately show ?thesis by (simp add: landmarkCycle_def CYCLE_COVERAGE_FLOOR_def)
qed

section \<open>Markers in serialised arguments\<close>

lemma sublist_across: "c \<notin> set p \<Longrightarrow> sublist p (xs @ c # ys) \<Longrightarrow> sublist p xs \<or> sublist p ys"
proof -
  assume c: "c \<notin> set p" and "sublist p (xs @ c # ys)"
  then obtain us vs where uv: "xs @ c # ys = us @ p @ vs" by (auto simp: sublist_def)
  then consider r where "xs = us @ r" "r @ c # ys = p @ vs" | r where "us = xs @ r" "c # ys = r @ p @ vs"
    by (auto simp: append_eq_append_conv2)
  then show ?thesis
  proof cases
    case 1
    then consider q where "r = p @ q" | q where "p = r @ q" "c # ys = q @ vs" by (auto simp: append_eq_append_conv2)
    then show ?thesis
    proof cases
      case (2 q)
      with c have "q = []" by (cases q) auto
      with 1 2 show ?thesis by auto
    qed (use 1 in auto)
  next
    case 2
    show ?thesis
    proof (cases r)
      case Nil
      with 2 c show ?thesis by (cases p) auto
    next
      case (Cons d r')
      with 2 have "ys = r' @ p @ vs" by simp
      then show ?thesis by simp
    qed
  qed
qed

text \<open>In serialised JSON a quote after an opening parenthesis ends the string.\<close>

definition calm :: "string \<Rightarrow> bool" where
  "calm s \<longleftrightarrow> (\<forall>y. y \<notin> set '',:]}'' \<longrightarrow> y \<noteq> CHR 0x22 \<longrightarrow> \<not> sublist [CHR ''('', CHR 0x22, y] s)"

lemma calm_across: "calm xs \<Longrightarrow> calm ys \<Longrightarrow> c \<in> set '',:]}'' \<Longrightarrow> calm (xs @ c # ys)"
  unfolding calm_def by (intro allI impI notI) (drule sublist_across [rotated], auto)

lemma calm_Nil [simp]: "calm ''''"
  by (simp add: calm_def)

lemma calm_Cons: "calm s \<Longrightarrow> c \<noteq> CHR ''('' \<Longrightarrow> calm (c # s)"
  by (auto simp: calm_def sublist_Cons_right)

lemma calm_no_quote: "CHR 0x22 \<notin> set s \<Longrightarrow> calm s"
  by (auto simp: calm_def dest!: set_mono_sublist)

lemma calm_join: "list_all calm xs \<Longrightarrow> calm (join_with '','' xs)"
  by (induction "'',''" xs rule: join_with.induct) (auto intro: calm_across)

lemma json_char_quote: "json_char c = [CHR ''('' ] \<and> c = CHR ''('' \<or> CHR ''('' \<notin> set (json_char c) \<and> json_char c \<noteq> []"
proof (cases "c = CHR ''(''")
  case True
  then show ?thesis by (simp add: json_char_def)
next
  case False
  have hex: "hex_digit k \<noteq> CHR ''(''" if "k < 16" for k
  proof -
    have "list_all (\<lambda>k. hex_digit k \<noteq> CHR ''('') [0..<16]" by code_simp
    then show ?thesis using that by (simp add: list_all_iff)
  qed
  have "of_char c div 16 < (16 :: nat)" if "of_char c < (32 :: nat)" using that by auto
  moreover have "of_char c mod 16 < (16 :: nat)" by simp
  ultimately show ?thesis using hex hex [symmetric] False by (auto simp: json_char_def Let_def)
qed

lemma body_no_open_quote:
  "(case concat (map json_char s) of [] \<Rightarrow> True | x # _ \<Rightarrow> x \<noteq> CHR 0x22) \<and> \<not> sublist [CHR ''('', CHR 0x22] (concat (map json_char s))"
proof (induction s)
  case (Cons c s)
  have head: "case json_char c of [] \<Rightarrow> False | x # _ \<Rightarrow> x \<noteq> CHR 0x22"
    by (auto simp: json_char_def Let_def split: list.split)
  show ?case
  proof (cases "c = CHR ''(''")
    case True
    have "json_char (CHR ''('') = ''(''" by (simp add: json_char_def)
    moreover obtain b where b: "concat (map json_char s) = b" by simp
    ultimately show ?thesis using Cons [unfolded b] True by (cases b) (auto simp: b sublist_Cons_right)
  next
    case False
    with json_char_quote [of c] have open_free: "CHR ''('' \<notin> set (json_char c)" by auto
    have "\<not> sublist [CHR ''('', CHR 0x22] (json_char c @ concat (map json_char s))"
    proof
      assume "sublist [CHR ''('', CHR 0x22] (json_char c @ concat (map json_char s))"
      with Cons obtain us vs where uv: "[CHR ''('', CHR 0x22] = us @ vs" "suffix us (json_char c)" "prefix vs (concat (map json_char s))"
        using open_free by (auto simp: sublist_append dest: set_mono_sublist)
      then have "us = []" using open_free set_mono_suffix [OF uv(2)] by (cases us) auto
      with uv Cons show False by (auto dest: prefix_imp_sublist)
    qed
    with head show ?thesis by (auto split: list.splits)
  qed
qed simp

lemma calm_json_quote: "calm (json_quote s)"
  unfolding calm_def
proof (intro allI impI notI)
  fix y assume y: "y \<notin> set '',:]}''" "y \<noteq> CHR 0x22" and "sublist [CHR ''('', CHR 0x22, y] (json_quote s)"
  let ?b = "concat (map json_char s)"
  from \<open>sublist _ (json_quote s)\<close> have "sublist [CHR ''('', CHR 0x22, y] (?b @ [CHR 0x22])"
    by (simp add: json_quote_def sublist_Cons_right)
  then obtain us vs where "?b @ [CHR 0x22] = us @ [CHR ''('', CHR 0x22, y] @ vs" by (auto simp: sublist_def)
  then obtain ws where "?b = us @ [CHR ''('', CHR 0x22, y] @ ws" using y(2)
    by (cases vs rule: rev_cases) auto
  then have "sublist [CHR ''('', CHR 0x22] ?b" by (auto simp: sublist_def)
  with body_no_open_quote [of s] show False by simp
qed

lemma calm_stringify:
  assumes "\<And>r. CHR 0x22 \<notin> set (numStr r)"
  shows "calm (stringify numStr v)"
proof (induction v rule: json.induct)
  case (JNum r)
  then show ?case using assms by (simp add: calm_no_quote)
next
  case (JArr xs)
  then have "calm (join_with '','' (map (stringify numStr) xs))" by (intro calm_join) (auto simp: list_all_iff)
  from calm_across [OF this calm_Nil, of "CHR '']''"] show ?case by (auto intro: calm_Cons)
next
  case (JObj kvs)
  have "list_all calm (map (\<lambda>(k, v). json_quote k @ '':'' @ stringify numStr v) kvs)"
    using JObj calm_across [OF calm_json_quote, of _ "CHR '':''"] by (fastforce simp: list_all_iff)
  from calm_across [OF calm_join [OF this] calm_Nil, of "CHR ''}''"] show ?case by (auto intro: calm_Cons)
qed (auto simp: calm_json_quote intro: calm_no_quote)

lemma lower_char_code:
  "(of_char (lower_char c) :: nat) =
     (let n = of_char c in if 65 \<le> n \<and> n \<le> 90 \<or> 192 \<le> n \<and> n \<le> 222 \<and> n \<noteq> 215 then n + 32 else n)"
  by (auto simp: lower_char_def Let_def of_char_of)

lemma lower_char_punctuation: "lower_char c = CHR ''('' \<longleftrightarrow> c = CHR ''(''" "lower_char c = CHR 0x22 \<longleftrightarrow> c = CHR 0x22"
  "c \<in> set '',:]}'' \<Longrightarrow> lower_char c = c"
proof -
  have code: "d = CHR ''('' \<longleftrightarrow> (of_char d :: nat) = 40" "d = CHR 0x22 \<longleftrightarrow> (of_char d :: nat) = 34" for d
    using of_char_eq_iff [where 'a = nat, of d "CHR ''(''"] of_char_eq_iff [where 'a = nat, of d "CHR 0x22"] by simp_all
  show "lower_char c = CHR ''('' \<longleftrightarrow> c = CHR ''(''" "lower_char c = CHR 0x22 \<longleftrightarrow> c = CHR 0x22"
    unfolding code lower_char_code Let_def by auto
  show "c \<in> set '',:]}'' \<Longrightarrow> lower_char c = c" by (auto simp: lower_char_def Let_def)
qed

lemma quoted_marker_absent:
  assumes "calm s" "y \<notin> set '',:]}''" "y \<noteq> CHR 0x22"
  shows "\<not> includes_str (to_lower s) (us @ [CHR ''('', CHR 0x22, y] @ vs)"
proof
  assume "includes_str (to_lower s) (us @ [CHR ''('', CHR 0x22, y] @ vs)"
  then have "sublist [CHR ''('', CHR 0x22, y] (to_lower s)"
    by (auto simp: includes_iff sublist_def) (metis append.assoc append_Cons append_Nil)
  then obtain as bs where "map lower_char s = as @ [CHR ''('', CHR 0x22, y] @ bs" by (auto simp: sublist_def to_lower_def)
  then obtain as' c d e bs' where s: "s = as' @ [c, d, e] @ bs'" "lower_char c = CHR ''(''" "lower_char d = CHR 0x22" "lower_char e = y"
    by (auto simp: map_eq_append_conv)
  have "e \<notin> set '',:]}''" "e \<noteq> CHR 0x22" using s(4) assms(2,3) lower_char_punctuation(2) [of e] lower_char_punctuation(3) [of e] by auto
  moreover have "sublist [CHR ''('', CHR 0x22, e] s" using s lower_char_punctuation(1,2) by (auto simp: sublist_def)
  ultimately show False using assms(1) by (simp add: calm_def)
qed

section \<open>Dispositions\<close>

lemma resolve_le:
  "resolveEffectiveDisposition finding mode overrides = e \<Longrightarrow>
     SEVERITY e \<le> DISPOSITION_SEVERITY (af_disposition finding)
   \<and> (mode = ModeWarn \<longrightarrow> SEVERITY e \<le> 1) \<and> (mode = ModeOff \<longrightarrow> e = None)
   \<and> (\<forall>o'. map_of overrides (af_detectorId finding) = Some o' \<longrightarrow> SEVERITY e \<le> SEVERITY o')"
  by (cases mode) (auto simp: resolveEffectiveDisposition_def Let_def split: option.splits)

lemma severity_bounds: "1 \<le> DISPOSITION_SEVERITY d" "DISPOSITION_SEVERITY d \<le> 3"
  by (cases d; simp)+

lemma resolve_exact:
  "mode \<noteq> ModeOff \<Longrightarrow> SEVERITY (resolveEffectiveDisposition finding mode overrides) =
     Min ({DISPOSITION_SEVERITY (af_disposition finding)} \<union> (if mode = ModeWarn then {1} else {})
          \<union> (case map_of overrides (af_detectorId finding) of None \<Rightarrow> {} | Some o' \<Rightarrow> {SEVERITY o'}))"
  using severity_bounds [of "af_disposition finding"]
  by (auto simp: resolveEffectiveDisposition_def Let_def min_def split: option.splits)

lemma detector_bases:
  "consecutiveRepeat calls = Some f \<Longrightarrow> (af_detectorId f, af_disposition f) = (''consecutive_repeat'', Reask)"
  "pingPongCycle calls = Some f \<Longrightarrow> (af_detectorId f, af_disposition f) = (''ping_pong_cycle'', Reask)"
  "landmarkCycle calls = Some f \<Longrightarrow> (af_detectorId f, af_disposition f) = (''landmark_cycle'', Steer)"
  "toolDiversityCollapse calls = Some f \<Longrightarrow> (af_detectorId f, af_disposition f) = (''tool_diversity_collapse'', Steer)"
  "codeAsAction numStr name args = Some f \<Longrightarrow> (af_detectorId f, af_disposition f) = (''code_as_action'', Kill)"
      by (auto simp: consecutiveRepeat_def split: list.splits)
     (auto simp: pingPongCycle_def landmarkCycle_def toolDiversityCollapse_def codeAsAction_def Let_def split: if_splits option.splits)

lemma evaluate_members:
  "f \<in> set (evaluateSequenceDetectors numStr calls name args) \<longleftrightarrow>
     Some f \<in> {consecutiveRepeat calls, pingPongCycle calls, landmarkCycle calls, toolDiversityCollapse calls, codeAsAction numStr name args}"
  by (auto simp: evaluateSequenceDetectors_def List.map_filter_def)

lemma evaluate_base:
  "f \<in> set (evaluateSequenceDetectors numStr calls name args) \<Longrightarrow> map_of DETECTOR_BASE_DISPOSITION (af_detectorId f) = Some (af_disposition f)"
  by (auto simp: evaluate_members DETECTOR_BASE_DISPOSITION_def dest!: detector_bases sym [of "Some f"])

section \<open>Properties\<close>

text \<open>
  C0: The repeat detector fires exactly on a run of five: some tool is called five times in a row somewhere in
  the window.
\<close>

theorem consecutiveRepeat_iff: "consecutiveRepeat calls \<noteq> None \<longleftrightarrow> list_ex (\<lambda>t. sublist (replicate 5 t) calls) calls"
  by (rule consecutiveRepeat_spec)

text \<open>
  C0: Every loop of up to six calls is found: when the last 24 calls repeat with such a period, whatever the
  case of their names, the landmark detector fires.
\<close>

theorem landmarkCycle_complete:
  assumes "1 \<le> p" "p \<le> 6" "24 \<le> length calls"
    and "\<And>i. i + p < 24 \<Longrightarrow> to_lower (last_n 24 calls ! i) = to_lower (last_n 24 calls ! (i + p))"
  shows "landmarkCycle calls \<noteq> None"
  using assms by (rule landmarkCycle_periodic)

lemma landmarkCycle_complete_witness: "landmarkCycle (concat (replicate 12 [''Read'', ''Write''])) \<noteq> None"
proof (rule landmarkCycle_complete [where p = 2])
  have "list_all (\<lambda>i. to_lower (last_n 24 (concat (replicate 12 [''Read'', ''Write''])) ! i) =
      to_lower (last_n 24 (concat (replicate 12 [''Read'', ''Write''])) ! (i + 2))) [0..<22]" by code_simp
  then show "to_lower (last_n 24 (concat (replicate 12 [''Read'', ''Write''])) ! i) =
      to_lower (last_n 24 (concat (replicate 12 [''Read'', ''Write''])) ! (i + 2))" if "i + 2 < 24" for i
    using that by (simp add: list_all_iff)
qed (simp_all add: length_concat sum_list_replicate)

text \<open>
  C0: Configuration only demotes.  The effective disposition is the least severe of what the detector declares,
  what the mode allows and the operator's override, and what a detector declares is its entry in the table.
\<close>

theorem resolveEffectiveDisposition_demotes:
  assumes "f \<in> set (evaluateSequenceDetectors numStr calls name args)" "mode \<noteq> ModeOff"
  shows "map_of DETECTOR_BASE_DISPOSITION (af_detectorId f) = Some (af_disposition f)
    \<and> SEVERITY (resolveEffectiveDisposition f mode overrides) =
        Min ({DISPOSITION_SEVERITY (af_disposition f)} \<union> (if mode = ModeWarn then {1} else {})
          \<union> (case map_of overrides (af_detectorId f) of None \<Rightarrow> {} | Some o' \<Rightarrow> {SEVERITY o'}))"
  using evaluate_base [OF assms(1)] resolve_exact [OF assms(2)] by blast

lemma resolveEffectiveDisposition_demotes_witness:
  "\<exists>f. f \<in> set (evaluateSequenceDetectors (\<lambda>_. ''0'') (replicate 5 ''Bash'') ''Bash'' None)
     \<and> SEVERITY (resolveEffectiveDisposition f ModeWarn [(''consecutive_repeat'', None)]) = 0"
proof -
  have "\<exists>f. consecutiveRepeat (replicate 5 ''Bash'') = Some f \<and> af_detectorId f = ''consecutive_repeat'' \<and> af_disposition f = Reask"
    by (simp add: consecutiveRepeat_def eval_nat_numeral REPETITION_THRESHOLD_def)
  then obtain f where f0: "consecutiveRepeat (replicate 5 ''Bash'') = Some f" and
    f: "af_detectorId f = ''consecutive_repeat''" "af_disposition f = Reask" by blast
  have mem: "f \<in> set (evaluateSequenceDetectors (\<lambda>_. ''0'') (replicate 5 ''Bash'') ''Bash'' None)"
    unfolding evaluate_members f0 by simp
  from resolveEffectiveDisposition_demotes [OF mem, of ModeWarn "[(''consecutive_repeat'', None)]"] f mem show ?thesis by auto
qed

text \<open>
  C0: Three of the thirteen credential markers never match.  The arguments are searched as serialised JSON, where
  the quote of \<open>getenv("\<close> is escaped, so no arguments whatever contain a marker with that quote.
\<close>

theorem codeAsAction_quoted_markers_dead:
  assumes "\<And>r. CHR 0x22 \<notin> set (numStr r)"
  shows "list_all (\<lambda>vendor. (''getenv('' @ [CHR 0x22] @ vendor) \<in> set CODE_SECRET_ACCESS_MARKERS
           \<and> \<not> includes_str (to_lower (stringify numStr (or_object args))) (''getenv('' @ [CHR 0x22] @ vendor)) [''anthropic'', ''openai'', ''aws'']"
  using quoted_marker_absent [OF calm_stringify [OF assms], where y = "CHR ''a''" and us = "''getenv''" and vs = "''nthropic''"]
    quoted_marker_absent [OF calm_stringify [OF assms], where y = "CHR ''o''" and us = "''getenv''" and vs = "''penai''"]
    quoted_marker_absent [OF calm_stringify [OF assms], where y = "CHR ''a''" and us = "''getenv''" and vs = "''ws''"]
  by (simp add: CODE_SECRET_ACCESS_MARKERS_def)

definition sample_code :: "json option" where
  "sample_code = Some (JObj [(''code'', JStr (''os.getenv('' @ [CHR 0x22] @ ''OPENAI_API_KEY''))])"

lemma codeAsAction_quoted_markers_dead_witness:
  "\<not> includes_str (to_lower (stringify (\<lambda>_. ''0'') (or_object sample_code))) (''getenv('' @ [CHR 0x22] @ ''openai'')"
  using codeAsAction_quoted_markers_dead [where numStr = "\<lambda>_. ''0''" and args = sample_code]
  by (simp only: list.pred_inject) simp

end
