(* ===== verification/McpAccess.thy ===== *)
theory McpAccess
  imports DecideRecord
begin

text \<open>
  Who may call what: the MCP server registry and allowlist with their snapshot lines
  (\<open>packages/shared-types/src/mcpRegistryRecord.ts\<close>), SSO group clearance
  (\<open>packages/shared-types/src/ssoGroupClearance.ts\<close>), refusal codes (\<open>packages/mcp-proxy/src/refusals.ts\<close>,
  \<open>packages/shared-types/src/opaqueRefusal.ts\<close>) and approval holds (\<open>packages/mcp-proxy/src/approvalHold.ts\<close>,
  \<open>packages/shared-types/src/holdMessages.ts\<close>).

  A value that may be undefined is an option.  \<open>JSON.parse\<close>, the text of a number, SHA-256 and \<open>Date.parse\<close> are
  parameters.  What the control plane answers to a request is an argument; \<^const>\<open>None\<close> when it did not answer.
\<close>

section \<open>The registry\<close>

definition stringList :: "json option \<Rightarrow> string list" where
  "stringList v = (case v of None \<Rightarrow> [] | Some j \<Rightarrow> json_strings j)"

definition field :: "json option \<Rightarrow> string \<Rightarrow> json option" where
  "field v k = Option.bind v (\<lambda>j. json_field j k)"

datatype DefaultPolicy = DefaultAllow | DefaultDeny

record McpRegistryRecord =
  mr_defaultPolicy :: DefaultPolicy
  mr_approvedServers :: "string list"
  mr_blockedServers :: "string list"
  mr_heldServers :: "string list"
  mr_disabledTools :: "(string \<times> string list) list"

datatype RegistryCode = SERVER_BLOCKED | SERVER_HELD | SERVER_NOT_APPROVED | TOOL_DISABLED

record McpRegistryRefusal =
  mf_code :: RegistryCode
  mf_ruleId :: string
  mf_reason :: string

definition quoted :: "string \<Rightarrow> string" where
  "quoted s = [CHR 0x22] @ s @ [CHR 0x22]"

definition evaluateMcpRegistry :: "McpRegistryRecord \<Rightarrow> string \<Rightarrow> string \<Rightarrow> McpRegistryRefusal option" where
  "evaluateMcpRegistry registry serverName toolName =
     (if serverName \<in> set (mr_blockedServers registry) then
        Some \<lparr>mf_code = SERVER_BLOCKED, mf_ruleId = ''mcp_registry.'' @ serverName,
              mf_reason = ''MCP server '' @ quoted serverName @ '' is blocked in this workspace'' @ [CHR 0x27]
                @ ''s MCP server registry. An owner or admin can change that on the MCP Servers page.''\<rparr>
      else if serverName \<in> set (mr_heldServers registry) then
        Some \<lparr>mf_code = SERVER_HELD, mf_ruleId = ''mcp_registry.'' @ serverName,
              mf_reason = ''MCP server '' @ quoted serverName @ '' changed its tools in a way scored high risk, and this workspace ''
                @ ''holds such a server until it is approved again. It is waiting in the approval queue on the MCP ''
                @ ''Servers page for an owner or admin.''\<rparr>
      else if mr_defaultPolicy registry = DefaultDeny \<and> serverName \<notin> set (mr_approvedServers registry) then
        Some \<lparr>mf_code = SERVER_NOT_APPROVED, mf_ruleId = ''mcpDefaultPolicy'',
              mf_reason = ''MCP server '' @ quoted serverName @ '' is not approved in this workspace'' @ [CHR 0x27]
                @ ''s MCP server registry, and the workspace refuses unapproved servers (mcpDefaultPolicy: deny). It is waiting in ''
                @ ''the approval queue on the MCP Servers page for an owner or admin.''\<rparr>
      else
        (case map_of (mr_disabledTools registry) serverName of
           Some disabled \<Rightarrow>
             if toolName \<in> set disabled then
               Some \<lparr>mf_code = TOOL_DISABLED, mf_ruleId = ''mcp_registry.'' @ serverName @ ''.'' @ toolName,
                     mf_reason = ''Tool '' @ quoted toolName @ '' is disabled on MCP server '' @ quoted serverName @ '' in this workspace''
                       @ [CHR 0x27] @ ''s MCP server registry. An owner or admin can re-enable it on the MCP Servers page.''\<rparr>
             else None
         | None \<Rightarrow> None))"

text \<open>Assigning to the key \<open>__proto__\<close> of an object literal sets its prototype: no own property appears.\<close>

definition own_key :: "string \<Rightarrow> bool" where
  "own_key k \<longleftrightarrow> k \<noteq> ''__proto__''"

definition disabled_entries :: "json option \<Rightarrow> (string \<times> string list) list" where
  "disabled_entries v =
     (case v of
        Some (JObj kvs) \<Rightarrow>
          filter (\<lambda>(server, list). list \<noteq> [] \<and> own_key server) (map (\<lambda>(server, tools). (server, json_strings tools)) kvs)
      | _ \<Rightarrow> [])"

definition parseMcpRegistryRecord :: "json option \<Rightarrow> McpRegistryRecord option" where
  "parseMcpRegistryRecord v =
     (case v of
        Some (JObj kvs) \<Rightarrow>
          Some \<lparr>mr_defaultPolicy = (if field v ''defaultPolicy'' = Some (JStr ''deny'') then DefaultDeny else DefaultAllow),
                mr_approvedServers = stringList (field v ''approvedServers''),
                mr_blockedServers = stringList (field v ''blockedServers''),
                mr_heldServers = stringList (field v ''heldServers''),
                mr_disabledTools = disabled_entries (field v ''disabledTools'')\<rparr>
      | _ \<Rightarrow> None)"

definition isUnrestrictedMcpRegistry :: "McpRegistryRecord \<Rightarrow> bool" where
  "isUnrestrictedMcpRegistry registry \<longleftrightarrow>
     mr_defaultPolicy registry = DefaultAllow \<and> mr_blockedServers registry = [] \<and> mr_heldServers registry = []
     \<and> mr_disabledTools registry = []"

definition MCP_REGISTRY_RECORD_TAG :: string where "MCP_REGISTRY_RECORD_TAG = ''@mcp_registry''"

definition strings_json :: "string list \<Rightarrow> json" where
  "strings_json xs = JArr (map JStr xs)"

definition registry_json :: "McpRegistryRecord \<Rightarrow> json" where
  "registry_json r = JObj
     [(''defaultPolicy'', JStr (case mr_defaultPolicy r of DefaultAllow \<Rightarrow> ''allow'' | DefaultDeny \<Rightarrow> ''deny'')),
      (''approvedServers'', strings_json (mr_approvedServers r)),
      (''blockedServers'', strings_json (mr_blockedServers r)),
      (''heldServers'', strings_json (mr_heldServers r)),
      (''disabledTools'', JObj (map (\<lambda>(s, ts). (s, strings_json ts)) (mr_disabledTools r)))]"

definition encodeMcpRegistryRecord :: "(rat \<Rightarrow> string) \<Rightarrow> McpRegistryRecord \<Rightarrow> string" where
  "encodeMcpRegistryRecord numStr registry =
     MCP_REGISTRY_RECORD_TAG @ [tab] @ decideToBase64 (stringify numStr (registry_json registry))"

definition decodeMcpRegistryRecord :: "(string \<Rightarrow> json option) \<Rightarrow> string \<Rightarrow> McpRegistryRecord option" where
  "decodeMcpRegistryRecord jsonParse line =
     (case split_on tab line of
        [tag, b64] \<Rightarrow>
          if tag \<noteq> MCP_REGISTRY_RECORD_TAG \<or> b64 = '''' then None
          else Option.bind (Option.bind (decideFromBase64 b64) jsonParse) (\<lambda>v. parseMcpRegistryRecord (Some v))
      | _ \<Rightarrow> None)"

section \<open>The server allowlist\<close>

datatype AllowSeverity = SevBlock | SevShadow

record McpAllowlistRecord =
  al_severity :: AllowSeverity
  al_servers :: "string list"

definition evaluateMcpAllowlist :: "McpAllowlistRecord \<Rightarrow> string \<Rightarrow> string option" where
  "evaluateMcpAllowlist allowlist serverName =
     (if serverName \<in> set (al_servers allowlist) then None
      else Some (''MCP server '' @ quoted serverName @ '' is not on the MCP server allowlist for this workspace''))"

definition mcpSnapshotUnverifiedRefusal :: "string \<Rightarrow> string" where
  "mcpSnapshotUnverifiedRefusal serverName =
     ''MCP server '' @ quoted serverName @ '' is refused because the policy snapshot on this machine failed its ''
     @ ''integrity check, so its MCP server registry and allowlist admit no server until the sync daemon ''
     @ ''restores a verified snapshot''"

definition MCP_ALLOWLIST_RECORD_TAG :: string where "MCP_ALLOWLIST_RECORD_TAG = ''@mcp_allowlist''"

definition encodeMcpAllowlistRecord :: "McpAllowlistRecord \<Rightarrow> string" where
  "encodeMcpAllowlistRecord allowlist =
     MCP_ALLOWLIST_RECORD_TAG @ [tab] @ (case al_severity allowlist of SevBlock \<Rightarrow> ''block'' | SevShadow \<Rightarrow> ''shadow'') @ [tab]
     @ join_with '','' (al_servers allowlist)"

definition decodeMcpAllowlistRecord :: "string \<Rightarrow> McpAllowlistRecord option" where
  "decodeMcpAllowlistRecord line =
     (case split_on tab line of
        [tag, severity, servers] \<Rightarrow>
          if tag \<noteq> MCP_ALLOWLIST_RECORD_TAG then None
          else Some \<lparr>al_severity = (if severity = ''shadow'' then SevShadow else SevBlock),
                     al_servers = filter (\<lambda>s. s \<noteq> '''') (split_on (CHR '','') servers)\<rparr>
      | _ \<Rightarrow> None)"

section \<open>SSO group clearance\<close>

record SsoGroupPolicy =
  sg_highRiskTools :: "string list"
  sg_requiredGroups :: "string list"
  sg_requireOboFor :: "string list"

datatype SsoGroupClearance = GRANTED | DENIED | REQUIRES_OBO

record SsoGroupDecision =
  sd_clearance :: SsoGroupClearance
  sd_ruleId :: "string option"
  sd_reason :: string

text \<open>The schema: an optional list of at most 500 names of 1 to 256 characters, and no other key.\<close>

definition name_list :: "json option \<Rightarrow> string list option" where
  "name_list v =
     (case v of
        None \<Rightarrow> Some []
      | Some (JArr xs) \<Rightarrow>
          if length xs \<le> 500 \<and> list_all (\<lambda>x. case x of JStr s \<Rightarrow> 1 \<le> length s \<and> length s \<le> 256 | _ \<Rightarrow> False) xs
          then Some (json_strings (JArr xs)) else None
      | _ \<Rightarrow> None)"

definition SSO_FIELDS :: "string list" where
  "SSO_FIELDS = [''highRiskTools'', ''requiredGroups'', ''requireOboFor'']"

definition SsoGroupPolicySchema :: "json option \<Rightarrow> SsoGroupPolicy option" where
  "SsoGroupPolicySchema v =
     (case v of
        Some (JObj kvs) \<Rightarrow>
          if list_all (\<lambda>(k, _). k \<in> set SSO_FIELDS) kvs then
            (case (name_list (field v ''highRiskTools''), name_list (field v ''requiredGroups''), name_list (field v ''requireOboFor'')) of
               (Some a, Some b, Some c) \<Rightarrow> Some \<lparr>sg_highRiskTools = a, sg_requiredGroups = b, sg_requireOboFor = c\<rparr>
             | _ \<Rightarrow> None)
          else None
      | _ \<Rightarrow> None)"

definition parseSsoGroupPolicy :: "json option \<Rightarrow> SsoGroupPolicy option" where
  "parseSsoGroupPolicy v =
     (case SsoGroupPolicySchema v of
        Some p \<Rightarrow> Some p
      | None \<Rightarrow>
          (case v of
             Some (JObj kvs) \<Rightarrow>
               Some \<lparr>sg_highRiskTools = stringList (field v ''highRiskTools''), sg_requiredGroups = stringList (field v ''requiredGroups''),
                     sg_requireOboFor = stringList (field v ''requireOboFor'')\<rparr>
           | _ \<Rightarrow> None))"

definition rule_char :: "char \<Rightarrow> char" where
  "rule_char c = (if is_az c \<or> is_AZ c \<or> is_digit c \<or> c \<in> set ''_.:-'' then c else CHR ''_'')"

definition ssoGroupRuleId :: "string \<Rightarrow> string \<Rightarrow> string" where
  "ssoGroupRuleId kind toolName = ''sso_group.'' @ kind @ ''.'' @ map rule_char toolName"

definition ssoGroupToolMatches :: "string \<Rightarrow> string \<Rightarrow> bool" where
  "ssoGroupToolMatches entry name \<longleftrightarrow>
     name = entry
     \<or> (\<not> prefix ''mcp__'' entry \<and> prefix ''mcp__'' name
        \<and> length ''mcp__'' + length (''__'' @ entry) < length name \<and> suffix (''__'' @ entry) name)"

definition matchingEntry :: "string list \<Rightarrow> string list \<Rightarrow> string option" where
  "matchingEntry entries names =
     (case find (\<lambda>n. n \<in> set entries) names of
        Some exact \<Rightarrow> Some exact
      | None \<Rightarrow>
          (case List.map_filter (\<lambda>n. find (\<lambda>e. ssoGroupToolMatches e n) entries) names of
             [] \<Rightarrow> None | e # _ \<Rightarrow> Some e))"

definition granted :: SsoGroupDecision where
  "granted = \<lparr>sd_clearance = GRANTED, sd_ruleId = None, sd_reason = ''''\<rparr>"

definition evaluateSsoGroupClearance :: "SsoGroupPolicy option \<Rightarrow> string list \<Rightarrow> string list option \<Rightarrow> SsoGroupDecision" where
  "evaluateSsoGroupClearance policy names memberGroups =
     (case policy of
        None \<Rightarrow> granted
      | Some p \<Rightarrow>
          (case matchingEntry (sg_requireOboFor p) names of
             Some obo \<Rightarrow>
               \<lparr>sd_clearance = REQUIRES_OBO, sd_ruleId = Some (ssoGroupRuleId ''require_obo'' obo),
                sd_reason = ''SSO group policy: '' @ obo @ '' is on-behalf-of only, and a tool-call gate has no OBO token to present''\<rparr>
           | None \<Rightarrow>
               (case matchingEntry (sg_highRiskTools p) names of
                  None \<Rightarrow> granted
                | Some risky \<Rightarrow>
                    if (case memberGroups of None \<Rightarrow> False | Some gs \<Rightarrow> list_ex (\<lambda>g. g \<in> set gs) (sg_requiredGroups p)) then granted
                    else
                      let groups = (if sg_requiredGroups p \<noteq> [] then join_with '', '' (sg_requiredGroups p) else ''(none configured)'') in
                      \<lparr>sd_clearance = DENIED, sd_ruleId = Some (ssoGroupRuleId ''high_risk'' risky),
                       sd_reason = ''SSO group policy: '' @ risky @ '' requires one of the SSO groups '' @ groups
                         @ (case memberGroups of
                              Some _ \<Rightarrow> '', and this member holds none of them''
                            | None \<Rightarrow> '', and this gate does not know the member'' @ [CHR 0x27] @ ''s groups'')\<rparr>)))"

record SsoMember =
  sm_memberId :: string
  sm_ssoGroups :: "string list"

record SsoGroupRecord =
  sr_policy :: SsoGroupPolicy
  sr_member :: "SsoMember option"
  sr_issuedAt :: string

definition SSO_GROUP_RECORD_TAG :: string where "SSO_GROUP_RECORD_TAG = ''@sso_groups''"

definition sso_policy_json :: "SsoGroupPolicy \<Rightarrow> json" where
  "sso_policy_json p = JObj
     [(''highRiskTools'', strings_json (sg_highRiskTools p)), (''requiredGroups'', strings_json (sg_requiredGroups p)),
      (''requireOboFor'', strings_json (sg_requireOboFor p))]"

definition sso_record_json :: "SsoGroupRecord \<Rightarrow> json" where
  "sso_record_json r = JObj
     [(''policy'', sso_policy_json (sr_policy r)),
      (''member'', (case sr_member r of
         None \<Rightarrow> JNull
       | Some m \<Rightarrow> JObj [(''memberId'', JStr (sm_memberId m)), (''ssoGroups'', strings_json (sm_ssoGroups m))])),
      (''issuedAt'', JStr (sr_issuedAt r))]"

definition encodeSsoGroupRecord :: "(rat \<Rightarrow> string) \<Rightarrow> SsoGroupRecord \<Rightarrow> string" where
  "encodeSsoGroupRecord numStr r = SSO_GROUP_RECORD_TAG @ [tab] @ decideToBase64 (stringify numStr (sso_record_json r))"

definition sso_member :: "json option \<Rightarrow> SsoMember option" where
  "sso_member m =
     (case field m ''memberId'' of
        Some (JStr i) \<Rightarrow> Some \<lparr>sm_memberId = i, sm_ssoGroups = stringList (field m ''ssoGroups'')\<rparr>
      | _ \<Rightarrow> None)"

definition decodeSsoGroupRecord :: "(string \<Rightarrow> json option) \<Rightarrow> string \<Rightarrow> SsoGroupRecord option" where
  "decodeSsoGroupRecord jsonParse line =
     (case split_on tab line of
        [tag, b64] \<Rightarrow>
          if tag \<noteq> SSO_GROUP_RECORD_TAG \<or> b64 = '''' then None
          else
            Option.bind (Option.bind (decideFromBase64 b64) jsonParse) (\<lambda>raw.
              case (parseSsoGroupPolicy (json_field raw ''policy''), json_field raw ''issuedAt'') of
                (Some policy, Some (JStr issuedAt)) \<Rightarrow>
                  Some \<lparr>sr_policy = policy, sr_member = sso_member (json_field raw ''member''), sr_issuedAt = issuedAt\<rparr>
              | _ \<Rightarrow> None)
      | _ \<Rightarrow> None)"

section \<open>Refusals\<close>

datatype McpRefusalCode =
    REGISTRY_UNAVAILABLE | RegistryRefusal RegistryCode | SERVER_NOT_ALLOWED | TOOL_NOT_ALLOWED | SSO_GROUP | DLP | SOP_RULE
  | COMMAND_NOT_ALLOWED | HELD | INJECTION | ANOMALY | WASM_RULE | REASK | REASK_EXHAUSTED | BUDGET_EXCEEDED
  | BUDGET_UNAVAILABLE | GOVERNANCE_UNAVAILABLE | TOFU_UNAVAILABLE | TOOL_DEFINITIONS_CHANGED | RESULT_WITHHELD_DLP
  | RESULT_WITHHELD_INJECTION

record RefusalData =
  rd_code :: McpRefusalCode
  rd_ruleId :: string
  rd_detail :: "(string \<times> json) list"

definition OPAQUE_REFUSAL_CODES :: "McpRefusalCode list" where
  "OPAQUE_REFUSAL_CODES =
     [RegistryRefusal SERVER_BLOCKED, RegistryRefusal SERVER_HELD, RegistryRefusal SERVER_NOT_APPROVED, RegistryRefusal TOOL_DISABLED,
      SERVER_NOT_ALLOWED, TOOL_NOT_ALLOWED, SSO_GROUP, DLP, SOP_RULE, COMMAND_NOT_ALLOWED, HELD, INJECTION, ANOMALY, WASM_RULE,
      REASK, REASK_EXHAUSTED, RESULT_WITHHELD_DLP, RESULT_WITHHELD_INJECTION]"

definition isOpaqueRefusal :: "RefusalData \<Rightarrow> bool" where
  "isOpaqueRefusal d \<longleftrightarrow>
     rd_code d \<in> set OPAQUE_REFUSAL_CODES \<or> (rd_code d = GOVERNANCE_UNAVAILABLE \<and> prefix ''wasm:'' (rd_ruleId d))"

definition detail_of :: "RefusalData \<Rightarrow> string \<Rightarrow> (string \<times> json) list" where
  "detail_of d k = (case map_of (rd_detail d) k of None \<Rightarrow> [] | Some v \<Rightarrow> [(k, v)])"

definition opaqueRefusalData :: "RefusalData \<Rightarrow> RefusalData" where
  "opaqueRefusalData d =
     (if rd_code d = HELD then \<lparr>rd_code = HELD, rd_ruleId = '''', rd_detail = detail_of d ''status'' @ detail_of d ''holdId''\<rparr>
      else \<lparr>rd_code = rd_code d, rd_ruleId = '''', rd_detail = []\<rparr>)"

definition isOpaqueInterventionMode :: "json option \<Rightarrow> bool" where
  "isOpaqueInterventionMode mode =
     (case mode of Some (JStr s) \<Rightarrow> map ascii_upper_char (trim s) = ''OPAQUE'' | _ \<Rightarrow> False)"

section \<open>Approval holds\<close>

definition holdApprovalHint :: "string \<Rightarrow> string" where
  "holdApprovalHint holdId =
     ''An Owner, Admin or EM can approve it with: intutic decision approve '' @ holdId
     @ '' (or reject it: intutic decision reject '' @ holdId @ ''). Retrying this exact call passes ''
     @ ''after approval only if the workspace has turned on the review-hold bypass; ''
     @ ''otherwise it is held again.''"

datatype HoldOutcome = Bypassed string string | HoldRecorded string bool

record HoldKey =
  hk_toolNameNormalized :: string
  hk_targetHash :: string

definition hold_canonicalJson :: "(rat \<Rightarrow> string) \<Rightarrow> json \<Rightarrow> string" where
  "hold_canonicalJson numStr v = canonicalJson numStr v"

record ApprovalHolds =
  ah_workspaceId :: string
  ah_serverName :: string
  ah_numStr :: "rat \<Rightarrow> string"
  ah_sha256Hex :: "string \<Rightarrow> string"
  ah_dateParse :: "string \<Rightarrow> int option"
  ah_isoTime :: "int \<Rightarrow> string"
  ah_identity :: "json option"

definition holdKey :: "ApprovalHolds \<Rightarrow> string \<Rightarrow> json option \<Rightarrow> HoldKey" where
  "holdKey ah toolName toolInput =
     \<lparr>hk_toolNameNormalized = to_lower (trim (''mcp__'' @ ah_serverName ah @ ''__'' @ toolName)),
      hk_targetHash = ah_sha256Hex ah (hold_canonicalJson (ah_numStr ah) (or_object toolInput))\<rparr>"

definition str_field :: "json \<Rightarrow> string \<Rightarrow> string" where
  "str_field v k = (case json_field v k of Some (JStr s) \<Rightarrow> s | _ \<Rightarrow> '''')"

definition bypass_matches :: "ApprovalHolds \<Rightarrow> string \<Rightarrow> HoldKey \<Rightarrow> int \<Rightarrow> json \<Rightarrow> bool" where
  "bypass_matches ah ruleId key now raw \<longleftrightarrow>
     json_field raw ''workspaceId'' = Some (JStr (ah_workspaceId ah)) \<and> json_field raw ''sopRuleId'' = Some (JStr ruleId)
     \<and> json_field raw ''toolNameNormalized'' = Some (JStr (hk_toolNameNormalized key))
     \<and> json_field raw ''targetHash'' = Some (JStr (hk_targetHash key))
     \<and> (case json_field raw ''expiresAt'' of
          Some (JStr s) \<Rightarrow> (case ah_dateParse ah s of None \<Rightarrow> False | Some expires \<Rightarrow> now < expires)
        | _ \<Rightarrow> False)"

text \<open>Reading a field of a null entry throws.\<close>

fun bypass_loop :: "ApprovalHolds \<Rightarrow> string \<Rightarrow> HoldKey \<Rightarrow> int \<Rightarrow> json list \<Rightarrow> unit + HoldOutcome option" where
  "bypass_loop ah ruleId key now [] = Inr None"
| "bypass_loop ah ruleId key now (raw # rest) =
     (if raw = JNull then Inl ()
      else if \<not> bypass_matches ah ruleId key now raw then bypass_loop ah ruleId key now rest
      else Inr (Some (Bypassed (str_field raw ''holdId'') (str_field raw ''decidedBy''))))"

definition findBypass :: "ApprovalHolds \<Rightarrow> string \<Rightarrow> HoldKey \<Rightarrow> int \<Rightarrow> json option \<Rightarrow> unit + HoldOutcome option" where
  "findBypass ah ruleId key now body =
     (case field body ''bypasses'' of
        Some (JArr entries) \<Rightarrow> bypass_loop ah ruleId key now entries
      | _ \<Rightarrow> Inr None)"

text \<open>The record posted for a new hold.\<close>

definition HOLD_RECORD_VERSION :: rat where "HOLD_RECORD_VERSION = 1"

definition hold_record :: "ApprovalHolds \<Rightarrow> string \<Rightarrow> string \<Rightarrow> string \<Rightarrow> HoldKey \<Rightarrow> string \<Rightarrow> int \<Rightarrow> json" where
  "hold_record ah ruleId ruleReason toolName key holdId now = JObj
     [(''v'', JNum HOLD_RECORD_VERSION), (''holdId'', JStr holdId), (''reason'', JStr ruleId), (''tool'', JStr (hk_toolNameNormalized key)),
      (''sessionId'', JStr ''''), (''at'', JStr (ah_isoTime ah now)), (''toolNameNormalized'', JStr (hk_toolNameNormalized key)),
      (''targetHash'', JStr (hk_targetHash key)),
      (''context'', JObj ([(''source'', JStr ''mcp_proxy''), (''server'', JStr (ah_serverName ah)), (''tool'', JStr toolName), (''rule'', JStr ruleReason)]
         @ (case ah_identity ah of None \<Rightarrow> [] | Some i \<Rightarrow> [(''principal'', i)])))]"

text \<open>The outcome, and the record sent when no bypass was found; \<open>posted\<close> is whether sending succeeded.\<close>

definition hold_request :: "ApprovalHolds \<Rightarrow> string \<Rightarrow> string \<Rightarrow> string \<Rightarrow> json option \<Rightarrow> int \<Rightarrow> json option \<Rightarrow> bool \<Rightarrow> string
    \<Rightarrow> unit + HoldOutcome \<times> json option" where
  "hold_request ah ruleId ruleReason toolName toolInput now body posted newHoldId =
     (let key = holdKey ah toolName toolInput in
      try_then (findBypass ah ruleId key now body) (\<lambda>bypass.
        case bypass of
          Some b \<Rightarrow> Inr (b, None)
        | None \<Rightarrow> Inr (HoldRecorded newHoldId posted, Some (hold_record ah ruleId ruleReason toolName key newHoldId now))))"

section \<open>Snapshot lines\<close>

lemma two_columns:
  assumes "tab \<notin> set tag"
  shows "split_on tab (tag @ [tab] @ decideToBase64 t) = [tag, decideToBase64 t]"
  using split_on_join [of "[tag, decideToBase64 t]" tab] assms tab_not_in_base64 [of t] by simp

lemma json_strings_strings [simp]: "json_strings (strings_json xs) = xs"
  by (induction xs) (simp_all add: strings_json_def List.map_filter_simps)

lemma field_Some [simp]: "field (Some j) k = json_field j k"
  by (simp add: field_def)

lemma stringList_strings [simp]: "stringList (Some (strings_json xs)) = xs"
  by (simp add: stringList_def)

definition registry_ok :: "McpRegistryRecord \<Rightarrow> bool" where
  "registry_ok r \<longleftrightarrow> list_all (\<lambda>(server, tools). tools \<noteq> [] \<and> own_key server) (mr_disabledTools r)"

lemma parsed_registry_ok: "parseMcpRegistryRecord v = Some r \<Longrightarrow> registry_ok r"
  by (auto simp: parseMcpRegistryRecord_def registry_ok_def disabled_entries_def list_all_iff split: option.splits json.splits)

lemma parse_registry_json:
  assumes "registry_ok r"
  shows "parseMcpRegistryRecord (Some (registry_json r)) = Some r"
proof -
  have "(\<lambda>(server :: string, tools). (server, json_strings tools)) \<circ> (\<lambda>(s, ts). (s, strings_json ts)) = id"
    by auto
  then have "disabled_entries (Some (JObj (map (\<lambda>(s, ts). (s, strings_json ts)) (mr_disabledTools r)))) = mr_disabledTools r"
    using assms by (simp add: disabled_entries_def registry_ok_def list_all_iff filter_id_conv)
  then show ?thesis
    by (cases "mr_defaultPolicy r") (simp_all add: parseMcpRegistryRecord_def registry_json_def)
qed

lemma decode_encode_registry:
  assumes "registry_ok r" "jsonParse (stringify numStr (registry_json r)) = Some (registry_json r)"
  shows "decodeMcpRegistryRecord jsonParse (encodeMcpRegistryRecord numStr r) = Some r"
proof -
  have tag: "tab \<notin> set MCP_REGISTRY_RECORD_TAG" by code_simp
  have "decideToBase64 (stringify numStr (registry_json r)) \<noteq> ''''"
    by (rule decideToBase64_nonempty) (simp add: registry_json_def)
  moreover have "decideFromBase64 (decideToBase64 t) = Some t" for t using decideFromBase64_iff by blast
  ultimately show ?thesis using assms parse_registry_json [OF assms(1)]
    by (simp add: decodeMcpRegistryRecord_def encodeMcpRegistryRecord_def two_columns [OF tag, simplified])
qed

text \<open>A server that is refused nothing anywhere.\<close>

lemma registry_passes:
  "evaluateMcpRegistry r server tool = None \<longleftrightarrow>
     server \<notin> set (mr_blockedServers r) \<and> server \<notin> set (mr_heldServers r)
     \<and> (mr_defaultPolicy r = DefaultAllow \<or> server \<in> set (mr_approvedServers r))
     \<and> (case map_of (mr_disabledTools r) server of None \<Rightarrow> True | Some tools \<Rightarrow> tool \<notin> set tools)"
  by (cases "mr_defaultPolicy r") (auto simp: evaluateMcpRegistry_def split: option.splits)

lemma unrestricted_iff:
  assumes "registry_ok r"
  shows "isUnrestrictedMcpRegistry r \<longleftrightarrow> (\<forall>server tool. evaluateMcpRegistry r server tool = None)"
proof
  assume all: "\<forall>server tool. evaluateMcpRegistry r server tool = None"
  obtain fresh where "fresh \<notin> set (mr_approvedServers r)"
    using ex_new_if_finite [OF infinite_UNIV_listI, of "set (mr_approvedServers r)"] by auto
  with all have "mr_defaultPolicy r = DefaultAllow" by (metis registry_passes)
  moreover have "mr_blockedServers r = []" "mr_heldServers r = []"
    using all by (metis registry_passes list.set_intros(1) neq_Nil_conv)+
  moreover have "mr_disabledTools r = []"
  proof (cases "mr_disabledTools r")
    case (Cons d ds)
    obtain server tools where d: "d = (server, tools)" by (cases d)
    with Cons assms obtain tool where "tool \<in> set tools" by (cases tools) (auto simp: registry_ok_def)
    with Cons d all show ?thesis using registry_passes [of r server tool] by simp
  qed
  ultimately show "isUnrestrictedMcpRegistry r" by (simp add: isUnrestrictedMcpRegistry_def)
qed (simp add: isUnrestrictedMcpRegistry_def registry_passes)

definition names_ok :: "string list \<Rightarrow> bool" where
  "names_ok xs = list_all (\<lambda>s. s \<noteq> '''' \<and> tab \<notin> set s \<and> CHR '','' \<notin> set s) xs"

lemma split_join_names: "names_ok xs \<Longrightarrow> filter (\<lambda>s. s \<noteq> '''') (split_on (CHR '','') (join_with '','' xs)) = xs"
proof (cases xs)
  case Nil
  then show ?thesis by simp
next
  case Cons
  assume ok: "names_ok xs"
  with Cons have "split_on (CHR '','') (join_with '','' xs) = xs"
    by (intro split_on_join) (auto simp: names_ok_def list_all_iff)
  with ok show ?thesis by (simp add: names_ok_def list_all_iff filter_id_conv)
qed

lemma join_chars: "c \<in> set (join_with sep xs) \<Longrightarrow> c \<in> set sep \<or> (\<exists>x\<in>set xs. c \<in> set x)"
  by (induction sep xs rule: join_with.induct) auto

lemma decode_encode_allowlist:
  assumes "names_ok (al_servers a)"
  shows "decodeMcpAllowlistRecord (encodeMcpAllowlistRecord a) = Some a"
proof -
  have "tab \<notin> set (join_with '','' (al_servers a))"
    using assms by (auto simp: names_ok_def list_all_iff tab_def dest!: join_chars)
  moreover have "tab \<notin> set MCP_ALLOWLIST_RECORD_TAG" by code_simp
  moreover have "tab \<notin> set (case al_severity a of SevBlock \<Rightarrow> ''block'' | SevShadow \<Rightarrow> ''shadow'')"
    by (cases "al_severity a") (simp_all add: tab_def)
  ultimately have "split_on tab (encodeMcpAllowlistRecord a) =
      [MCP_ALLOWLIST_RECORD_TAG, (case al_severity a of SevBlock \<Rightarrow> ''block'' | SevShadow \<Rightarrow> ''shadow''), join_with '','' (al_servers a)]"
    using split_on_join [of "[MCP_ALLOWLIST_RECORD_TAG, (case al_severity a of SevBlock \<Rightarrow> ''block'' | SevShadow \<Rightarrow> ''shadow''), join_with '','' (al_servers a)]" tab]
    by (simp add: encodeMcpAllowlistRecord_def)
  with split_join_names [OF assms] show ?thesis
    by (cases a; cases "al_severity a") (simp_all add: decodeMcpAllowlistRecord_def)
qed

section \<open>Clearance\<close>

lemma matchingEntry_None: "matchingEntry entries names = None \<longleftrightarrow> list_all (\<lambda>n. list_all (\<lambda>e. \<not> ssoGroupToolMatches e n) entries) names"
proof -
  have "find (\<lambda>n. n \<in> set entries) names = Some x \<Longrightarrow> \<exists>n\<in>set names. \<exists>e\<in>set entries. ssoGroupToolMatches e n" for x
    by (metis find_Some_iff nth_mem ssoGroupToolMatches_def)
  moreover have "List.map_filter (\<lambda>n. find (\<lambda>e. ssoGroupToolMatches e n) entries) names = [] \<longleftrightarrow>
      (\<forall>n\<in>set names. \<forall>e\<in>set entries. \<not> ssoGroupToolMatches e n)"
    by (induction names) (auto simp: List.map_filter_simps find_None_iff find_Some_iff split: option.splits)
  ultimately show ?thesis
    by (auto simp: matchingEntry_def list_all_iff split: option.splits list.splits)
qed

lemma hook_name_matches:
  assumes "server \<noteq> ''''" "\<not> prefix ''mcp__'' tool"
  shows "ssoGroupToolMatches e tool \<Longrightarrow> ssoGroupToolMatches e (''mcp__'' @ server @ ''__'' @ tool)"
  using assms by (auto simp: ssoGroupToolMatches_def suffix_def)

lemma matchingEntry_hook:
  assumes "server \<noteq> ''''" "\<not> prefix ''mcp__'' tool"
  shows "matchingEntry entries [tool, ''mcp__'' @ server @ ''__'' @ tool] = None \<longleftrightarrow>
         matchingEntry entries [''mcp__'' @ server @ ''__'' @ tool] = None"
  using hook_name_matches [OF assms] unfolding matchingEntry_None by (auto simp: list_all_iff simp del: append.simps)

lemma clearance_cases:
  "sd_clearance (evaluateSsoGroupClearance policy names groups) =
     (case policy of
        None \<Rightarrow> GRANTED
      | Some p \<Rightarrow>
          if matchingEntry (sg_requireOboFor p) names \<noteq> None then REQUIRES_OBO
          else if matchingEntry (sg_highRiskTools p) names = None then GRANTED
          else if (case groups of None \<Rightarrow> False | Some gs \<Rightarrow> list_ex (\<lambda>g. g \<in> set gs) (sg_requiredGroups p)) then GRANTED
          else DENIED)"
  by (auto simp: evaluateSsoGroupClearance_def granted_def Let_def split: option.splits)

section \<open>Bypasses\<close>

lemma bypass_loop_sound:
  "bypass_loop ah ruleId key now entries = Inr (Some b) \<Longrightarrow> list_ex (bypass_matches ah ruleId key now) entries"
  by (induction entries) (auto split: if_splits)

lemma hold_request_bypassed:
  assumes "hold_request ah ruleId ruleReason toolName toolInput now body posted newHoldId = Inr (Bypassed holdId by', sent)"
  shows "\<exists>entries. field body ''bypasses'' = Some (JArr entries)
     \<and> list_ex (bypass_matches ah ruleId (holdKey ah toolName toolInput) now) entries"
  using assms bypass_loop_sound
  by (fastforce simp: hold_request_def findBypass_def try_then_Inr Let_def split: option.splits json.splits)

lemma canonicalJson_permuted:
  assumes "mset kvs = mset kvs'" "distinct (map fst kvs)"
  shows "canonicalJson numStr (JObj kvs) = canonicalJson numStr (JObj kvs')"
proof -
  let ?f = "\<lambda>(k, v). (k, canonicalJson numStr v)"
  have "mset (map ?f kvs) = mset (map ?f kvs')" using assms(1) by (metis mset_map)
  moreover have "inj_on fst (set (map ?f kvs))"
    by (auto simp: inj_on_def) (metis eq_key_imp_eq_value assms(2))
  ultimately have "sort_key fst (map ?f kvs) = sort_key fst (map ?f kvs')"
    by (intro sort_key_inj_key_eq) simp_all
  then show ?thesis by simp
qed

section \<open>Properties\<close>

text \<open>
  C0: A registry read from the control plane survives the policy snapshot: its line decodes to the same
  registry, and a registry gets no line exactly when it refuses no call at all.
\<close>

theorem registry_snapshot_line:
  assumes "parseMcpRegistryRecord v = Some r"
    and "jsonParse (stringify numStr (registry_json r)) = Some (registry_json r)"
  shows "decodeMcpRegistryRecord jsonParse (encodeMcpRegistryRecord numStr r) = Some r
    \<and> (isUnrestrictedMcpRegistry r \<longleftrightarrow> (\<forall>server tool. evaluateMcpRegistry r server tool = None))"
  using decode_encode_registry [where jsonParse = jsonParse and numStr = numStr, OF parsed_registry_ok [OF assms(1)] assms(2)] unrestricted_iff [OF parsed_registry_ok [OF assms(1)]]
  by blast

definition sample_registry :: json where
  "sample_registry = JObj [(''defaultPolicy'', JStr ''deny''), (''approvedServers'', JArr [JStr ''gh'']),
     (''disabledTools'', JObj [(''gh'', JArr [JStr ''delete_repo''])])]"

definition sample_registry_record :: McpRegistryRecord where
  "sample_registry_record = \<lparr>mr_defaultPolicy = DefaultDeny, mr_approvedServers = [''gh''], mr_blockedServers = [], mr_heldServers = [],
     mr_disabledTools = [(''gh'', [''delete_repo''])]\<rparr>"

lemma registry_snapshot_line_witness:
  "decodeMcpRegistryRecord (\<lambda>_. Some (registry_json sample_registry_record)) (encodeMcpRegistryRecord (\<lambda>_. ''0'') sample_registry_record)
   = Some sample_registry_record"
proof -
  have "parseMcpRegistryRecord (Some sample_registry) = Some sample_registry_record" by code_simp
  from registry_snapshot_line [OF this, where jsonParse = "\<lambda>_. Some (registry_json sample_registry_record)" and numStr = "\<lambda>_. ''0''"]
  show ?thesis by simp
qed

text \<open>
  C0: The proxy and the hook gates clear a tool call alike: knowing the tool's own name beside its harness name
  \<open>mcp__<server>__<tool>\<close> changes no decision, for any policy and any groups.
\<close>

theorem clearance_proxy_hook:
  assumes "server \<noteq> ''''" "\<not> prefix ''mcp__'' tool"
  shows "sd_clearance (evaluateSsoGroupClearance policy [tool, ''mcp__'' @ server @ ''__'' @ tool] groups) =
         sd_clearance (evaluateSsoGroupClearance policy [''mcp__'' @ server @ ''__'' @ tool] groups)"
  using matchingEntry_hook [OF assms] by (simp only: clearance_cases split: option.split)

lemma clearance_proxy_hook_witness:
  "sd_clearance (evaluateSsoGroupClearance (Some \<lparr>sg_highRiskTools = [''run''], sg_requiredGroups = [''dba''], sg_requireOboFor = []\<rparr>)
     [''mcp__'' @ ''pg'' @ ''__'' @ ''run''] (Some [])) = DENIED"
proof -
  let ?p = "Some \<lparr>sg_highRiskTools = [''run''], sg_requiredGroups = [''dba''], sg_requireOboFor = []\<rparr>"
  have "\<not> prefix ''mcp__'' ''run''" by simp
  from clearance_proxy_hook [OF _ this, of "''pg''" ?p "Some []"]
  have "sd_clearance (evaluateSsoGroupClearance ?p [''mcp__'' @ ''pg'' @ ''__'' @ ''run''] (Some [])) =
      sd_clearance (evaluateSsoGroupClearance ?p [''run'', ''mcp__'' @ ''pg'' @ ''__'' @ ''run''] (Some []))" by simp
  also have "\<dots> = DENIED" by (simp add: clearance_cases matchingEntry_def)
  finally show ?thesis .
qed


definition sample_holds :: ApprovalHolds where
  "sample_holds = \<lparr>ah_workspaceId = ''w'', ah_serverName = ''gh'', ah_numStr = (\<lambda>_. ''0''), ah_sha256Hex = (\<lambda>_. ''h''), ah_dateParse = (\<lambda>_. Some 100),
     ah_isoTime = (\<lambda>_. ''''), ah_identity = None\<rparr>"

definition sample_bypasses :: json where
  "sample_bypasses = JObj [(''bypasses'', JArr [JObj [(''workspaceId'', JStr ''w''), (''sopRuleId'', JStr ''r''),
     (''toolNameNormalized'', JStr ''mcp__gh__run''), (''targetHash'', JStr ''h''), (''expiresAt'', JStr ''t''), (''holdId'', JStr ''hold_1'')]])]"


text \<open>A null in the list of bypasses makes the request throw, whatever else the list holds.\<close>

lemma hold_request_throws:
  "hold_request ah ruleId ruleReason toolName toolInput now (Some (JObj [(''bypasses'', JArr [JNull])])) posted newHoldId = Inl ()"
  by (simp add: hold_request_def findBypass_def field_def Let_def)

text \<open>A tool disabled on a server named \<open>__proto__\<close> stays callable there.\<close>

lemma registry_loses_proto:
  "\<exists>r. parseMcpRegistryRecord (Some (JObj [(''disabledTools'', JObj [(''__proto__'', JArr [JStr ''run''])])])) = Some r
     \<and> evaluateMcpRegistry r ''__proto__'' ''run'' = None"
  by (simp add: parseMcpRegistryRecord_def disabled_entries_def own_key_def evaluateMcpRegistry_def stringList_def)

end
