(* ===== verification/PiiDetectors.thy ===== *)
theory PiiDetectors
  imports Js_Prelude "HOL-Library.AList"
begin

text \<open>
  The workspace's PII detector actions (\<open>packages/shared-types/src/piiDetectors.ts\<close>): reading the
  control plane's field, and the action each detector has for a workspace's traffic on one machine.
  The detectors' ids and default actions are those of \<open>piiDetectors.json\<close>; its patterns and
  validators are not modelled.
\<close>

section \<open>Actions\<close>

datatype PiiAction = PiiOff | PiiRedact | PiiBlock

text \<open>\<open>PII_ACTIONS.indexOf\<close>: least to most strict.\<close>

fun pii_rank :: "PiiAction \<Rightarrow> nat" where
  "pii_rank PiiOff = 0"
| "pii_rank PiiRedact = 1"
| "pii_rank PiiBlock = 2"

instantiation PiiAction :: linorder
begin

definition less_eq_PiiAction :: "PiiAction \<Rightarrow> PiiAction \<Rightarrow> bool" where
  "less_eq_PiiAction a b \<longleftrightarrow> pii_rank a \<le> pii_rank b"

definition less_PiiAction :: "PiiAction \<Rightarrow> PiiAction \<Rightarrow> bool" where
  "less_PiiAction a b \<longleftrightarrow> pii_rank a < pii_rank b"

instance
proof
  fix a b :: PiiAction
  assume "a \<le> b" "b \<le> a"
  then show "a = b" by (cases a; cases b) (simp_all add: less_eq_PiiAction_def)
qed (auto simp: less_eq_PiiAction_def less_PiiAction_def)

end

definition PII_ACTIONS :: "(string \<times> PiiAction) list" where
  "PII_ACTIONS = [(''off'', PiiOff), (''redact'', PiiRedact), (''block'', PiiBlock)]"

definition PII_DETECTOR_IDS :: "string list" where
  "PII_DETECTOR_IDS = [''pii.card'', ''pii.iban'', ''pii.ssn'', ''pii.email'', ''pii.phone'']"

text \<open>\<open>PII_DEFINITION.detectors.map((d) => [d.id, d.default_action])\<close>\<close>

definition PII_DEFAULTS :: "(string \<times> PiiAction) list" where
  "PII_DEFAULTS =
     [(''pii.card'', PiiRedact), (''pii.iban'', PiiRedact), (''pii.ssn'', PiiRedact), (''pii.email'', PiiOff), (''pii.phone'', PiiOff)]"

type_synonym PiiDetectorSettings = "(string \<times> PiiAction) list"

datatype WorkspacePiiDetectors = PiiNone | PiiSet PiiDetectorSettings | PiiUnreadable string

section \<open>Reading the field\<close>

definition isPiiAction :: "json \<Rightarrow> PiiAction option" where
  "isPiiAction v = (case v of JStr s \<Rightarrow> map_of PII_ACTIONS s | _ \<Rightarrow> None)"

definition in_quotes :: "string \<Rightarrow> string" where
  "in_quotes s = [CHR 0x27] @ s @ [CHR 0x27]"

text \<open>The loop over the entries: the reason it stops with, or the actions read.\<close>

fun read_actions :: "(rat \<Rightarrow> string) \<Rightarrow> (string \<times> json) list \<Rightarrow> PiiDetectorSettings \<Rightarrow> string + PiiDetectorSettings" where
  "read_actions numStr [] actions = Inr actions"
| "read_actions numStr ((i, action) # rest) actions =
     (if i \<notin> set PII_DETECTOR_IDS then read_actions numStr rest actions
      else case isPiiAction action of
        None \<Rightarrow>
          Inl (''the workspace'' @ [CHR 0x27] @ ''s piiDetectors setting sets '' @ in_quotes i @ '' to '' @ stringify numStr action
               @ ''; only '' @ in_quotes ''off'' @ '', '' @ in_quotes ''redact'' @ '' and '' @ in_quotes ''block'' @ '' exist'')
      | Some a \<Rightarrow> read_actions numStr rest (AList.update i a actions))"

definition parseWorkspacePiiDetectors :: "(rat \<Rightarrow> string) \<Rightarrow> json option \<Rightarrow> WorkspacePiiDetectors" where
  "parseWorkspacePiiDetectors numStr v =
     (case v of
        None \<Rightarrow> PiiNone
      | Some JNull \<Rightarrow> PiiUnreadable (''the control plane could not read the workspace'' @ [CHR 0x27] @ ''s PII detector actions'')
      | Some (JObj kvs) \<Rightarrow>
          (case read_actions numStr kvs [] of
             Inl reason \<Rightarrow> PiiUnreadable reason
           | Inr actions \<Rightarrow> if actions \<noteq> [] then PiiSet actions else PiiNone)
      | Some w \<Rightarrow> PiiUnreadable (''the workspace'' @ [CHR 0x27] @ ''s PII detector actions are not an object: '' @ stringify numStr w))"

section \<open>The action of each detector\<close>

definition set_baseline :: "PiiDetectorSettings \<Rightarrow> string \<times> PiiAction \<Rightarrow> PiiDetectorSettings \<Rightarrow> PiiDetectorSettings" where
  "set_baseline locals e table =
     (case e of (i, baseline) \<Rightarrow>
        AList.update i
          (case map_of locals i of
             Some mine \<Rightarrow> if pii_rank mine > pii_rank baseline then mine else baseline
           | None \<Rightarrow> baseline) table)"

definition effectivePiiActions :: "PiiDetectorSettings \<Rightarrow> PiiDetectorSettings option \<Rightarrow> PiiDetectorSettings" where
  "effectivePiiActions locals workspace =
     fold (set_baseline locals) (case workspace of None \<Rightarrow> [] | Some w \<Rightarrow> w)
       (fold (\<lambda>(i, a). AList.update i a) locals PII_DEFAULTS)"

section \<open>Lemmas\<close>

lemma map_of_updates:
  "distinct (map fst kvs) \<Longrightarrow>
   map_of (fold (\<lambda>(i, a). AList.update i a) kvs table) k = (case map_of kvs k of Some a \<Rightarrow> Some a | None \<Rightarrow> map_of table k)"
proof (induction kvs arbitrary: table)
  case (Cons e kvs)
  obtain i a where e: "e = (i, a)" by (cases e)
  with Cons.prems have "map_of kvs i = None" by (simp add: map_of_eq_None_iff)
  with Cons e show ?case by (cases "k = i") (simp_all add: update_conv' split: option.split)
qed simp

lemma map_of_baselines:
  "distinct (map fst ws) \<Longrightarrow>
   map_of (fold (set_baseline locals) ws table) k =
     (case map_of ws k of
        None \<Rightarrow> map_of table k
      | Some b \<Rightarrow> Some (case map_of locals k of Some mine \<Rightarrow> max mine b | None \<Rightarrow> b))"
proof (induction ws arbitrary: table)
  case (Cons e ws)
  obtain i b where e: "e = (i, b)" by (cases e)
  with Cons.prems have new: "map_of ws i = None" by (simp add: map_of_eq_None_iff)
  have "map_of (set_baseline locals e table) k =
      (if k = i then Some (case map_of locals i of Some mine \<Rightarrow> max mine b | None \<Rightarrow> b) else map_of table k)"
    by (cases "map_of locals i") (auto simp: e set_baseline_def update_conv' max_def less_eq_PiiAction_def)
  with Cons e new show ?case by (cases "k = i") (simp_all split: option.split)
qed simp

text \<open>A machine can tighten what the workspace sets for a detector and never loosen it: where the
  workspace names the detector, the action is the stricter of its own and the machine's; elsewhere
  it is the machine's, else the default.\<close>

theorem effectivePiiActions_exact:
  assumes "distinct (map fst locals)" "distinct (map fst ws)"
  shows "map_of (effectivePiiActions locals (Some ws)) d =
     (case map_of ws d of
        Some b \<Rightarrow> Some (case map_of locals d of Some mine \<Rightarrow> max mine b | None \<Rightarrow> b)
      | None \<Rightarrow> (case map_of locals d of Some mine \<Rightarrow> Some mine | None \<Rightarrow> map_of PII_DEFAULTS d))"
proof -
  have "map_of (fold (\<lambda>(i, a). AList.update i a) locals PII_DEFAULTS) d =
      (case map_of locals d of Some mine \<Rightarrow> Some mine | None \<Rightarrow> map_of PII_DEFAULTS d)"
    by (rule map_of_updates [OF assms(1)])
  then show ?thesis
    by (simp add: effectivePiiActions_def map_of_baselines [OF assms(2)] split: option.split)
qed

theorem effectivePiiActions_exact_witness:
  "map_of (effectivePiiActions [(''pii.card'', PiiOff)] (Some [(''pii.card'', PiiBlock)])) ''pii.card'' = Some PiiBlock"
  using effectivePiiActions_exact [of "[(''pii.card'', PiiOff)]" "[(''pii.card'', PiiBlock)]" "''pii.card''"]
  by (simp add: max_def less_eq_PiiAction_def)

text \<open>What is read as a setting names known detectors only, each once.\<close>

lemma read_actions_ids:
  "read_actions numStr kvs actions = Inr out \<Longrightarrow> distinct (map fst actions) \<Longrightarrow> fst ` set actions \<subseteq> set PII_DETECTOR_IDS \<Longrightarrow>
     distinct (map fst out) \<and> fst ` set out \<subseteq> set PII_DETECTOR_IDS"
  by (induction numStr kvs actions rule: read_actions.induct)
    (auto simp: distinct_update dom_update split: if_splits option.splits)

lemma parsed_actions_ids:
  assumes "parseWorkspacePiiDetectors numStr v = PiiSet actions"
  shows "actions \<noteq> [] \<and> distinct (map fst actions) \<and> fst ` set actions \<subseteq> set PII_DETECTOR_IDS"
proof -
  from assms obtain kvs where "read_actions numStr kvs [] = Inr actions" "actions \<noteq> []"
    by (auto simp: parseWorkspacePiiDetectors_def split: option.splits json.splits sum.splits if_splits)
  then show ?thesis using read_actions_ids [of numStr kvs "[]" actions] by simp
qed

end
