(* ===== verification/PiiScan.thy ===== *)
theory PiiScan
  imports JsRegex PiiDetectors
begin

text \<open>
  The validated PII detectors of the MCP proxy: \<open>packages/mcp-proxy/src/dlpPii.ts\<close>, with the
  detectors' patterns, the card brands and the IBAN lengths of
  \<open>packages/shared-types/src/piiDetectors.json\<close>, which it reads.

  Text is measured in code units.  \<open>findPii\<close>'s loop has fuel, one more than the text is long;
  \<open>findPii_spans\<close> shows that every detector ends within it, so the value without fuel is never
  reached.
\<close>

section \<open>Validators\<close>

type_synonym CardBrand = "(string \<times> string) list \<times> nat list"

definition CARD_BRANDS :: "CardBrand list" where
  "CARD_BRANDS =
     [([(''4'', ''4'')], [13, 16, 19]),
      ([(''51'', ''55''), (''2221'', ''2720'')], [16]),
      ([(''34'', ''34''), (''37'', ''37'')], [15]),
      ([(''6011'', ''6011''), (''644'', ''649''), (''65'', ''65''), (''622126'', ''622925'')], [16, 17, 18, 19]),
      ([(''3528'', ''3589'')], [16, 17, 18, 19]),
      ([(''300'', ''305''), (''3095'', ''3095''), (''36'', ''36''), (''38'', ''39'')], [14, 15, 16, 17, 18, 19]),
      ([(''62'', ''62''), (''81'', ''81'')], [16, 17, 18, 19])]"

definition IBAN_LENGTHS :: "(string \<times> nat) list" where
  "IBAN_LENGTHS =
     [(''AD'', 24), (''AE'', 23), (''AL'', 28), (''AT'', 20), (''AZ'', 28), (''BA'', 20), (''BE'', 16), (''BG'', 22),
      (''BH'', 22), (''BI'', 27), (''BR'', 29), (''BY'', 28), (''CH'', 21), (''CR'', 22), (''CY'', 28), (''CZ'', 24),
      (''DE'', 22), (''DJ'', 27), (''DK'', 18), (''DO'', 28), (''EE'', 20), (''EG'', 29), (''ES'', 24), (''FI'', 18),
      (''FK'', 18), (''FO'', 18), (''FR'', 27), (''GB'', 22), (''GE'', 22), (''GI'', 23), (''GL'', 18), (''GR'', 27),
      (''GT'', 28), (''HN'', 28), (''HR'', 21), (''HU'', 28), (''IE'', 22), (''IL'', 23), (''IQ'', 23), (''IS'', 26),
      (''IT'', 27), (''JO'', 30), (''KW'', 30), (''KZ'', 20), (''LB'', 28), (''LC'', 32), (''LI'', 21), (''LT'', 20),
      (''LU'', 20), (''LV'', 21), (''LY'', 25), (''MC'', 27), (''MD'', 24), (''ME'', 22), (''MK'', 19), (''MN'', 20),
      (''MR'', 27), (''MT'', 31), (''MU'', 30), (''NI'', 28), (''NL'', 18), (''NO'', 15), (''OM'', 23), (''PK'', 24),
      (''PL'', 28), (''PS'', 29), (''PT'', 25), (''QA'', 29), (''RO'', 24), (''RS'', 22), (''RU'', 33), (''SA'', 24),
      (''SC'', 31), (''SD'', 18), (''SE'', 24), (''SI'', 19), (''SK'', 24), (''SM'', 27), (''SO'', 23), (''ST'', 25),
      (''SV'', 28), (''TL'', 23), (''TN'', 24), (''TR'', 26), (''UA'', 29), (''VA'', 22), (''VG'', 24), (''XK'', 20),
      (''YE'', 30)]"

definition digit_of :: "char \<Rightarrow> nat" where
  "digit_of c = of_char c - 48"

text \<open>The digits from the last one; every second one is doubled, less nine when that has two digits.\<close>

definition doubled :: "nat \<Rightarrow> nat" where
  "doubled d = (if 9 < d * 2 then d * 2 - 9 else d * 2)"

fun luhn_sum :: "nat \<Rightarrow> nat list \<Rightarrow> nat" where
  "luhn_sum i [] = 0"
| "luhn_sum i (d # ds) = (if i mod 2 = 1 then doubled d else d) + luhn_sum (i + 1) ds"

definition luhn :: "string \<Rightarrow> bool" where
  "luhn digits \<longleftrightarrow> luhn_sum 0 (map digit_of (rev digits)) mod 10 = 0"

definition in_prefix_range :: "string \<Rightarrow> string \<times> string \<Rightarrow> bool" where
  "in_prefix_range digits r \<longleftrightarrow>
     (case r of (lo, hi) \<Rightarrow> let head = take (length lo) digits in lo \<le> head \<and> head \<le> hi)"

definition card_number :: "string \<Rightarrow> bool" where
  "card_number sp \<longleftrightarrow>
     (let digits = filter is_digit sp in
      list_ex (\<lambda>(prefixes, lengths). length digits \<in> set lengths \<and> list_ex (in_prefix_range digits) prefixes) CARD_BRANDS
      \<and> luhn digits)"

text \<open>The loop over the sp: \<^const>\<open>None\<close> is its early \<open>return null\<close>, else the characters taken and
  where they end.\<close>

fun iban_loop :: "nat \<Rightarrow> char option \<Rightarrow> string \<Rightarrow> nat \<Rightarrow> string \<Rightarrow> nat \<Rightarrow> (string \<times> nat) option" where
  "iban_loop want before [] i chars fin = Some (chars, fin)"
| "iban_loop want before (c # cs) i chars fin =
     (if c = CHR '' '' then iban_loop want (Some c) cs (i + 1) chars fin
      else if length chars = want then (if before \<noteq> Some (CHR '' '') then None else Some (chars, fin))
      else iban_loop want (Some c) cs (i + 1) (chars @ [c]) (i + 1))"

definition iban_value :: "char \<Rightarrow> nat" where
  "iban_value c = (if is_digit c then of_char c - 48 else of_char c - 65 + 10)"

definition iban_rem :: "string \<Rightarrow> nat" where
  "iban_rem cs = foldl (\<lambda>rem c. let v = iban_value c in if 10 \<le> v then (rem * 100 + v) mod 97 else (rem * 10 + v) mod 97) 0 cs"

definition iban :: "string \<Rightarrow> nat option" where
  "iban sp =
     (case map_of IBAN_LENGTHS (take 2 sp) of
        None \<Rightarrow> None
      | Some want \<Rightarrow>
          (case iban_loop want None sp 0 '''' (length sp) of
             None \<Rightarrow> None
           | Some (chars, fin) \<Rightarrow>
               if length chars \<noteq> want then None
               else if iban_rem (drop 4 chars @ take 4 chars) = 1 then Some fin else None))"

definition ssn :: "string \<Rightarrow> bool" where
  "ssn sp \<longleftrightarrow>
     (let area = take 3 sp; grp = slice 4 6 sp; serial = slice 7 11 sp in
      area \<noteq> ''000'' \<and> area \<noteq> ''666'' \<and> char_at area 0 \<noteq> Some (CHR ''9'') \<and> grp \<noteq> ''00'' \<and> serial \<noteq> ''0000'')"

definition email :: "string \<Rightarrow> bool" where
  "email sp \<longleftrightarrow>
     (case index_of ''@'' sp of
        None \<Rightarrow> False
      | Some at' \<Rightarrow>
          let local = take at' sp; labels = split_on (CHR ''.'') (drop (at' + 1) sp); tld = last labels; first = hd labels in
          \<not> prefix ''.'' local \<and> \<not> suffix ''.'' local \<and> \<not> includes_str local ''..''
          \<and> \<not> list_ex (\<lambda>l. l = '''' \<or> prefix ''-'' l \<or> suffix ''-'' l) labels
          \<and> 2 \<le> length tld \<and> list_all (\<lambda>c. is_az c \<or> is_AZ c) tld
          \<and> \<not> (suffix ''x'' first \<and> butlast first \<noteq> '''' \<and> list_all is_digit (butlast first)))"

definition phone :: "string \<Rightarrow> bool" where
  "phone sp \<longleftrightarrow> (let n = length (filter is_digit sp) in 10 \<le> n \<and> n \<le> 15)"

definition whole :: "(string \<Rightarrow> bool) \<Rightarrow> string \<Rightarrow> nat option" where
  "whole check sp = (if check sp then Some (length sp) else None)"

section \<open>Detectors\<close>

record PiiDetector =
  pd_id :: string
  pd_description :: string
  pd_regex :: regexp
  pd_numeric :: bool
  pd_validate :: "string \<Rightarrow> nat option"

definition digits_n :: "nat \<Rightarrow> regexp" where
  "digits_n n = Rep n 0 (Cls is_digit)"

definition card_regex :: regexp where
  "card_regex =
     (let sep = cls_of '' -'' in
      alts [seqs [digits_n 4, sep, digits_n 4, sep, digits_n 4, sep, digits_n 4],
            seqs [digits_n 4, sep, digits_n 6, sep, Rep 4 1 (Cls is_digit)],
            Rep 13 6 (Cls is_digit)])"

definition iban_regex :: regexp where
  "iban_regex =
     seqs [Rep 2 0 (Cls is_AZ), digits_n 2, Rep 11 19 (Seq (opt (lit '' '')) (Cls (\<lambda>c. is_AZ c \<or> is_digit c)))]"

definition ssn_regex :: regexp where
  "ssn_regex = seqs [digits_n 3, lit ''-'', digits_n 2, lit ''-'', digits_n 4]"

definition email_regex :: regexp where
  "email_regex =
     (let label = Rep 1 62 (Cls (\<lambda>c. is_az c \<or> is_AZ c \<or> is_digit c \<or> c = CHR ''-'')) in
      seqs [Rep 1 63 (Cls (\<lambda>c. is_az c \<or> is_AZ c \<or> is_digit c \<or> c \<in> set ''._%+-'')), lit ''@'', label,
            Rep 1 7 (Seq (lit ''.'') label)])"

definition phone_regex :: regexp where
  "phone_regex =
     (let sep = cls_of '' .-''; two_nine = Cls (\<lambda>c. is_digit c \<and> c \<notin> set ''01'') in
      alts [seqs [lit ''+'', Cls (\<lambda>c. is_digit c \<and> c \<noteq> CHR ''0''), Rep 0 2 (Cls is_digit),
                  Rep 2 5 (alts [seqs [opt sep, lit ''('', Rep 1 3 (Cls is_digit), lit '')''], seqs [opt sep, Rep 1 3 (Cls is_digit)]])],
            seqs [opt (seqs [lit ''1'', sep]),
                  alts [seqs [lit ''('', two_nine, digits_n 2, lit '')'', opt (lit '' '')], seqs [two_nine, digits_n 2, sep]],
                  two_nine, digits_n 2, sep, digits_n 4]])"

definition PII_DETECTORS :: "PiiDetector list" where
  "PII_DETECTORS =
     [\<lparr>pd_id = ''pii.card'', pd_description = ''Payment card number'', pd_regex = card_regex, pd_numeric = True, pd_validate = whole card_number\<rparr>,
      \<lparr>pd_id = ''pii.iban'', pd_description = ''IBAN'', pd_regex = iban_regex, pd_numeric = False, pd_validate = iban\<rparr>,
      \<lparr>pd_id = ''pii.ssn'', pd_description = ''US Social Security Number'', pd_regex = ssn_regex, pd_numeric = True, pd_validate = whole ssn\<rparr>,
      \<lparr>pd_id = ''pii.email'', pd_description = ''Email address'', pd_regex = email_regex, pd_numeric = False, pd_validate = whole email\<rparr>,
      \<lparr>pd_id = ''pii.phone'', pd_description = ''Phone number'', pd_regex = phone_regex, pd_numeric = True, pd_validate = whole phone\<rparr>]"

section \<open>Finding\<close>

definition bounded :: "string \<Rightarrow> nat \<Rightarrow> nat \<Rightarrow> bool \<Rightarrow> bool" where
  "bounded s start fin numeric \<longleftrightarrow>
     (start = 0
      \<or> (let p = s ! (start - 1);
             escaped = (p \<in> {CHR ''n'', CHR ''r'', CHR ''t''} \<and> 2 \<le> start \<and> s ! (start - 2) = CHR 0x5C) in
         p \<noteq> CHR 0x5C \<and> \<not> (is_word p \<and> \<not> escaped)
         \<and> \<not> (numeric \<and> (p = CHR ''.'' \<or> p = CHR ''-'') \<and> 2 \<le> start \<and> is_digit (s ! (start - 2)))))
     \<and> (length s \<le> fin
        \<or> (let q = s ! fin in
           \<not> is_word q \<and> \<not> (numeric \<and> (q = CHR ''.'' \<or> q = CHR ''-'') \<and> fin + 1 < length s \<and> is_digit (s ! (fin + 1)))))"

fun findPii_loop :: "nat \<Rightarrow> PiiDetector \<Rightarrow> string \<Rightarrow> nat \<Rightarrow> (nat \<times> nat) list option" where
  "findPii_loop 0 det s pos = None"
| "findPii_loop (Suc fuel) det s pos =
     (if length s \<le> pos then Some []
      else case exec_from (pd_regex det) s pos of
        None \<Rightarrow> Some []
      | Some (start, e) \<Rightarrow>
          (case pd_validate det (slice start e s) of
             None \<Rightarrow> findPii_loop fuel det s (start + 1)
           | Some len \<Rightarrow>
               if bounded s start (start + len) (pd_numeric det)
               then map_option (\<lambda>out. (start, start + len) # out) (findPii_loop fuel det s (start + len))
               else findPii_loop fuel det s (start + 1)))"

definition findPii :: "PiiDetector \<Rightarrow> string \<Rightarrow> (nat \<times> nat) list" where
  "findPii det s = (case findPii_loop (length s + 1) det s 0 of Some out \<Rightarrow> out | None \<Rightarrow> [])"

definition detectPii :: "string \<Rightarrow> (string \<times> nat \<times> nat) list" where
  "detectPii s = concat (map (\<lambda>det. map (Pair (pd_id det)) (findPii det s)) PII_DETECTORS)"

section \<open>The machine's own actions\<close>

text \<open>\<open>String(action)\<close>: as text is joined, but for \<open>null\<close>.\<close>

definition string_of :: "(json \<Rightarrow> string) \<Rightarrow> json \<Rightarrow> string" where
  "string_of joinText v = (if v = JNull then ''null'' else joinText v)"

fun read_local_actions :: "(json \<Rightarrow> string) \<Rightarrow> (string \<times> json) list \<Rightarrow> PiiDetectorSettings \<Rightarrow> string list \<Rightarrow> PiiDetectorSettings \<times> string list" where
  "read_local_actions joinText [] configured problems = (configured, problems)"
| "read_local_actions joinText ((i, action) # rest) configured problems =
     (if i \<notin> set PII_DETECTOR_IDS then
        read_local_actions joinText rest configured
          (problems @ [''INTUTIC_MCP_DLP_DETECTORS names unknown detector '' @ i @ ''; known: '' @ join_with '', '' PII_DETECTOR_IDS])
      else case isPiiAction action of
        None \<Rightarrow>
          read_local_actions joinText rest configured
            (problems @ [''INTUTIC_MCP_DLP_DETECTORS sets '' @ i @ '' to '' @ string_of joinText action @ ''; only off, redact and block exist''])
      | Some a \<Rightarrow> read_local_actions joinText rest (AList.update i a configured) problems)"

definition parseLocalPiiActions :: "(json \<Rightarrow> string) \<Rightarrow> (string \<Rightarrow> json option) \<Rightarrow> string option \<Rightarrow> PiiDetectorSettings \<times> string list" where
  "parseLocalPiiActions joinText jsonParse raw =
     (case raw of
        None \<Rightarrow> ([], [])
      | Some s \<Rightarrow>
          if s = '''' then ([], [])
          else (case jsonParse s of
                  None \<Rightarrow> ([], [''INTUTIC_MCP_DLP_DETECTORS is not valid JSON; using the defaults''])
                | Some (JObj kvs) \<Rightarrow> read_local_actions joinText kvs [] []
                | Some _ \<Rightarrow> ([], [''INTUTIC_MCP_DLP_DETECTORS is not a JSON object; using the defaults''])))"

section \<open>Checksums\<close>

text \<open>The number an IBAN's rotated characters spell: a letter is two digits.\<close>

definition iban_number :: "string \<Rightarrow> nat" where
  "iban_number cs = foldl (\<lambda>n c. n * (if 10 \<le> iban_value c then 100 else 10) + iban_value c) 0 cs"

lemma iban_rem_step:
  "foldl (\<lambda>rem c. let v = iban_value c in if 10 \<le> v then (rem * 100 + v) mod 97 else (rem * 10 + v) mod 97) (n mod 97) cs =
   foldl (\<lambda>n c. n * (if 10 \<le> iban_value c then 100 else 10) + iban_value c) n cs mod 97"
proof (induction cs arbitrary: n)
  case (Cons c cs)
  have "(n mod 97 * k + v) mod 97 = (n * k + v) mod 97" for k v :: nat
    by (metis mod_add_left_eq mod_mult_left_eq)
  then show ?case using Cons by (simp add: Let_def)
qed simp

text \<open>The running remainder of the IBAN check is the remainder by 97 of the whole number the
  characters spell, however long the IBAN is.\<close>

theorem iban_rem_exact: "iban_rem cs = iban_number cs mod 97"
  using iban_rem_step [of 0 cs] by (simp add: iban_rem_def iban_number_def)

lemma luhn_sum_append: "luhn_sum i (xs @ ys) = luhn_sum i xs + luhn_sum (i + length xs) ys"
  by (induction i xs rule: luhn_sum.induct) simp_all

lemma doubled_inj: "a < 10 \<Longrightarrow> b < 10 \<Longrightarrow> doubled a mod 10 = doubled b mod 10 \<Longrightarrow> a = b"
proof -
  assume "a < 10" "b < 10" "doubled a mod 10 = doubled b mod 10"
  moreover have "list_all (\<lambda>a. list_all (\<lambda>b. doubled a mod 10 = doubled b mod 10 \<longrightarrow> a = b) [0..<10]) [0..<10]" by code_simp
  then have "\<forall>a\<in>{0..<10}. \<forall>b\<in>{0..<10}. doubled a mod 10 = doubled b mod 10 \<longrightarrow> a = b"
    by (simp only: list_all_iff set_upt)
  ultimately show ?thesis by (metis atLeastLessThan_iff zero_le)
qed

lemma add_mod_cancel: "((r::nat) + x) mod 10 = (r + y) mod 10 \<Longrightarrow> x mod 10 = y mod 10"
proof -
  assume "(r + x) mod 10 = (r + y) mod 10"
  then have "(int r + int x) mod 10 = (int r + int y) mod 10" by (metis of_nat_add of_nat_mod of_nat_numeral)
  then have "((int r + int x) - int r) mod 10 = ((int r + int y) - int r) mod 10" by (rule mod_diff_cong) simp
  then have "int (x mod 10) = int (y mod 10)" by (simp add: zmod_int)
  then show ?thesis by simp
qed

lemma digit_of_digit: "is_digit c \<Longrightarrow> digit_of c < 10 \<and> c = char_of (48 + digit_of c)"
proof -
  assume "is_digit c"
  then have n: "48 \<le> (of_char c :: nat) \<and> of_char c \<le> (57::nat)"
    by (auto simp: is_digit_def less_eq_char_def)
  then have "48 + digit_of c = of_char c" by (simp add: digit_of_def)
  then have "char_of (48 + digit_of c) = c" by simp
  moreover from n have "digit_of c < 10" unfolding digit_of_def by linarith
  ultimately show ?thesis by simp
qed

lemma luhn_one_digit:
  assumes "luhn (a @ [c] @ b)" "luhn (a @ [d] @ b)" "is_digit c" "is_digit d"
  shows "c = d"
proof -
  let ?i = "length b"
  let ?rest = "luhn_sum 0 (map digit_of (rev b)) + luhn_sum (?i + 1) (map digit_of (rev a))"
  have s: "luhn_sum 0 (map digit_of (rev (a @ [x] @ b))) = ?rest + (if ?i mod 2 = 1 then doubled (digit_of x) else digit_of x)" for x
    by (simp add: luhn_sum_append)
  let ?v = "\<lambda>x. if ?i mod 2 = 1 then doubled (digit_of x) else digit_of x"
  from assms(1,2) have "(?rest + ?v c) mod 10 = (?rest + ?v d) mod 10" by (simp only: luhn_def s)
  then have "?v c mod 10 = ?v d mod 10" by (rule add_mod_cancel)
  moreover note d10 = digit_of_digit [OF assms(3), THEN conjunct1] digit_of_digit [OF assms(4), THEN conjunct1]
  ultimately have "digit_of c = digit_of d"
    using doubled_inj [OF d10] d10 by (simp split: if_splits)
  then show ?thesis using digit_of_digit [OF assms(3)] digit_of_digit [OF assms(4)] by metis
qed

text \<open>A card number with one digit mistyped is not taken for a card number: the Luhn check fails for
  every other digit in that place.\<close>

theorem luhn_detects_one_digit:
  assumes "luhn (a @ [c] @ b)" "is_digit c" "is_digit d" "c \<noteq> d"
  shows "\<not> luhn (a @ [d] @ b)"
  using luhn_one_digit [OF assms(1) _ assms(2,3)] assms(4) by blast

theorem luhn_detects_one_digit_witness: "\<not> luhn (''411111111111111'' @ [CHR ''2''] @ '''')"
proof (rule luhn_detects_one_digit [where c = "CHR ''1''"])
  show "luhn (''411111111111111'' @ [CHR ''1''] @ '''')" by code_simp
qed (simp_all add: is_digit_def)

section \<open>Every search ends, and its spans are apart\<close>

lemma iban_loop_range:
  "iban_loop want before cs i chars fin = Some (chars', fin') \<Longrightarrow> (chars' = chars \<and> fin' = fin) \<or> (i < fin' \<and> fin' \<le> i + length cs)"
  by (induction want before cs i chars fin rule: iban_loop.induct) (fastforce split: if_splits)+

lemma IBAN_LENGTHS_positive: "map_of IBAN_LENGTHS k = Some n \<Longrightarrow> 0 < n"
proof -
  have "list_all (\<lambda>e. 0 < snd e) IBAN_LENGTHS" by code_simp
  then show "map_of IBAN_LENGTHS k = Some n \<Longrightarrow> 0 < n" by (auto simp: list_all_iff dest!: map_of_SomeD)
qed

text \<open>A detector whose pattern never matches the empty string, and whose validator accepts a
  non-empty part of what the pattern matched.\<close>

definition detector_ok :: "PiiDetector \<Rightarrow> bool" where
  "detector_ok det \<longleftrightarrow>
     1 \<le> min_len (pd_regex det) \<and> (\<forall>sp n. sp \<noteq> '''' \<longrightarrow> pd_validate det sp = Some n \<longrightarrow> 0 < n \<and> n \<le> length sp)"

lemma whole_ok: "sp \<noteq> '''' \<Longrightarrow> whole f sp = Some n \<Longrightarrow> 0 < n \<and> n \<le> length sp"
  by (auto simp: whole_def split: if_splits)

lemma iban_ok: "iban sp = Some n \<Longrightarrow> 0 < n \<and> n \<le> length sp"
  using iban_loop_range [of _ None sp 0 "''''" "length sp"]
  by (fastforce simp: iban_def dest: IBAN_LENGTHS_positive split: option.splits if_splits)

lemma detectors_ok: "det \<in> set PII_DETECTORS \<Longrightarrow> detector_ok det"
proof -
  have "1 \<le> min_len card_regex" "1 \<le> min_len iban_regex" "1 \<le> min_len ssn_regex" "1 \<le> min_len email_regex" "1 \<le> min_len phone_regex"
    by (simp_all add: card_regex_def iban_regex_def ssn_regex_def email_regex_def phone_regex_def digits_n_def cls_of_def lit_def opt_def Let_def)
  then show "det \<in> set PII_DETECTORS \<Longrightarrow> detector_ok det"
    using whole_ok iban_ok by (auto simp: PII_DETECTORS_def detector_ok_def)
qed

text \<open>The spans of one search: in text order, none overlapping the next, each inside the text, at a
  boundary, and of the length its validator accepted.\<close>

fun spans_from :: "PiiDetector \<Rightarrow> string \<Rightarrow> nat \<Rightarrow> (nat \<times> nat) list \<Rightarrow> bool" where
  "spans_from det s pos [] \<longleftrightarrow> True"
| "spans_from det s pos ((a, b) # spans) \<longleftrightarrow>
     pos \<le> a \<and> a < b \<and> b \<le> length s \<and> bounded s a b (pd_numeric det)
     \<and> (\<exists>e. pd_validate det (slice a e s) = Some (b - a)) \<and> spans_from det s b spans"

lemma spans_from_mono: "spans_from det s q spans \<Longrightarrow> p \<le> q \<Longrightarrow> spans_from det s p spans"
  by (cases spans) auto

lemma findPii_loop_ok:
  assumes "detector_ok det"
  shows "length s < fuel + pos \<Longrightarrow> pos \<le> length s \<Longrightarrow> \<exists>out. findPii_loop fuel det s pos = Some out \<and> spans_from det s pos out"
proof (induction fuel arbitrary: pos)
  case 0
  then show ?case by simp
next
  case (Suc fuel)
  show ?case
  proof (cases "length s \<le> pos \<or> exec_from (pd_regex det) s pos = None")
    case True
    then show ?thesis by auto
  next
    case False
    then obtain a e where m: "exec_from (pd_regex det) s pos = Some (a, e)" and pos: "pos < length s" by auto
    from exec_from_range [OF m] exec_from_min [OF m] assms
    have r: "pos \<le> a" "a < e" "e \<le> length s" by (auto simp: detector_ok_def)
    have skip: "\<exists>out. findPii_loop fuel det s (a + 1) = Some out \<and> spans_from det s pos out"
      using Suc.IH [of "a + 1"] Suc.prems r spans_from_mono by fastforce
    show ?thesis
    proof (cases "pd_validate det (slice a e s)")
      case None
      with skip m pos show ?thesis by simp
    next
      case (Some len)
      have "slice a e s \<noteq> ''''" "length (slice a e s) = e - a" using r by (auto simp: slice_def)
      with Some assms have "0 < len" "len \<le> length (slice a e s)" by (auto simp: detector_ok_def)
      with \<open>length (slice a e s) = e - a\<close> have len: "0 < len" "a + len \<le> e" using r by simp_all
      from Suc.IH [of "a + len"] Suc.prems r len
      obtain out where out: "findPii_loop fuel det s (a + len) = Some out" "spans_from det s (a + len) out" by auto
      show ?thesis
      proof (cases "bounded s a (a + len) (pd_numeric det)")
        case True
        with out Some m pos r len show ?thesis by auto
      next
        case False
        with skip Some m pos show ?thesis by simp
      qed
    qed
  qed
qed

lemma findPii_spans:
  assumes "det \<in> set PII_DETECTORS"
  shows "findPii_loop (length s + 1) det s 0 = Some (findPii det s) \<and> spans_from det s 0 (findPii det s)"
  using findPii_loop_ok [OF detectors_ok [OF assms], of s "length s + 1" 0] by (auto simp: findPii_def)

text \<open>C28: Every detector's search of any text ends, and what it finds can be cut out of the text: the
  spans lie inside it, in order and apart, each at a boundary and of a length its validator
  accepted.\<close>

theorem findPii_bounds:
  assumes "det \<in> set PII_DETECTORS"
  shows "findPii_loop (length s + 1) det s 0 = Some (findPii det s) \<and> spans_from det s 0 (findPii det s)"
  using assms by (rule findPii_spans)

theorem findPii_bounds_witness: "spans_from (PII_DETECTORS ! 2) ''x 123-45-6789'' 0 (findPii (PII_DETECTORS ! 2) ''x 123-45-6789'')"
  using findPii_bounds [of "PII_DETECTORS ! 2" "''x 123-45-6789''"] by (simp add: PII_DETECTORS_def)

end
