(* ===== verification/McpPolicy.thy ===== *)
theory McpPolicy
  imports GateRules McpAccess McpAnomaly McpBudgets PiiDetectors
begin

text \<open>
  The policy a proxied MCP server is governed by: \<open>packages/mcp-proxy/src/policy.ts\<close>
  (\<open>PolicyClient\<close>, its parsers, its refresh and \<open>matchRule\<close>) and the rule descriptors of
  \<open>packages/shared-types/src/wasmRuleDescriptor.ts\<close>.

  The client is a record of its private fields.  A refresh is a function of the client and of what
  the daemon and the control plane answered; a thrown error is an \<^const>\<open>Inl\<close>.  Rules stay JSON
  values, as the HTTP path casts them without a check.  \<open>new RegExp\<close> is the parameter \<open>regex\<close>:
  \<^const>\<open>None\<close> when the pattern does not compile, and it is asked with \<^const>\<open>None\<close> for
  \<open>undefined\<close>.  \<open>JSON.parse\<close> and the text of a number are parameters.  The timers of
  \<open>start\<close> and \<open>stop\<close> are not modelled, and an action named like a member of
  \<open>Object.prototype\<close> is taken to have no severity.
\<close>

section \<open>Rules\<close>

definition is_string :: "json option \<Rightarrow> bool" where
  "is_string v \<longleftrightarrow> (case v of Some (JStr s) \<Rightarrow> True | _ \<Rightarrow> False)"

definition isSopRule :: "json \<Rightarrow> bool" where
  "isSopRule v \<longleftrightarrow>
     is_string (json_field v ''id'') \<and> is_string (json_field v ''toolPattern'') \<and> is_string (json_field v ''reason'')
     \<and> (json_field v ''argPattern'' = None \<or> is_string (json_field v ''argPattern''))
     \<and> json_field v ''action'' \<in> {Some (JStr ''block''), Some (JStr ''warn''), Some (JStr ''require_approval'')}"

text \<open>The property key a value is read as.\<close>

definition action_key :: "json option \<Rightarrow> string" where
  "action_key v = (case v of None \<Rightarrow> ''undefined'' | Some JNull \<Rightarrow> ''null'' | Some w \<Rightarrow> join_text (\<lambda>_. ''0'') w)"

definition RULE_SEVERITY :: "json option \<Rightarrow> nat" where
  "RULE_SEVERITY v =
     (let k = action_key v in
      if k = ''block'' then 3 else if k = ''require_approval'' then 2 else if k = ''warn'' then 1 else 0)"

definition truthy :: "json option \<Rightarrow> bool" where
  "truthy v \<longleftrightarrow>
     (case v of
        None \<Rightarrow> False | Some JNull \<Rightarrow> False | Some (JBool b) \<Rightarrow> b | Some (JNum r) \<Rightarrow> r \<noteq> 0 | Some (JStr s) \<Rightarrow> s \<noteq> ''''
      | Some _ \<Rightarrow> True)"

type_synonym regex = "json option \<Rightarrow> (string \<Rightarrow> bool) option"

text \<open>The body of the \<open>try\<close>: a pattern that does not compile matches nothing.\<close>

definition rule_matches :: "regex \<Rightarrow> string \<Rightarrow> string \<Rightarrow> json \<Rightarrow> bool" where
  "rule_matches regex toolName toolInputJson rule \<longleftrightarrow>
     rule \<noteq> JNull
     \<and> (case regex (json_field rule ''toolPattern'') of
          None \<Rightarrow> False
        | Some t \<Rightarrow>
            t toolName
            \<and> (truthy (json_field rule ''argPattern'') \<longrightarrow>
                 (case regex (json_field rule ''argPattern'') of None \<Rightarrow> False | Some a \<Rightarrow> a toolInputJson)))"

text \<open>Reading \<open>action\<close> of \<open>null\<close> outside the \<open>try\<close> throws.\<close>

fun match_loop :: "regex \<Rightarrow> string \<Rightarrow> string \<Rightarrow> json list \<Rightarrow> json option \<Rightarrow> unit + json option" where
  "match_loop regex toolName toolInputJson [] decided = Inr decided"
| "match_loop regex toolName toolInputJson (rule # rules) decided =
     (if decided \<noteq> None \<and> rule = JNull then Inl ()
      else if (case decided of
                 None \<Rightarrow> False
               | Some d \<Rightarrow> RULE_SEVERITY (json_field rule ''action'') \<le> RULE_SEVERITY (json_field d ''action''))
      then match_loop regex toolName toolInputJson rules decided
      else if \<not> rule_matches regex toolName toolInputJson rule
      then match_loop regex toolName toolInputJson rules decided
      else if json_field rule ''action'' = Some (JStr ''block'') then Inr (Some rule)
      else match_loop regex toolName toolInputJson rules (Some rule))"

section \<open>Parsers\<close>

record McpPrincipal =
  mp_memberId :: string
  mp_email :: string
  mp_role :: string
  mp_ssoGroups :: "string list"

definition UNRESTRICTED_REGISTRY :: McpRegistryRecord where
  "UNRESTRICTED_REGISTRY =
     \<lparr>mr_defaultPolicy = DefaultAllow, mr_approvedServers = [], mr_blockedServers = [], mr_heldServers = [], mr_disabledTools = []\<rparr>"

definition parseRegistry :: "json option \<Rightarrow> McpRegistryRecord option" where
  "parseRegistry v =
     (case v of
        Some (JObj kvs) \<Rightarrow>
          Some \<lparr>mr_defaultPolicy = (if field v ''defaultPolicy'' = Some (JStr ''deny'') then DefaultDeny else DefaultAllow),
                mr_approvedServers = stringList (field v ''approvedServers''),
                mr_blockedServers = stringList (field v ''blockedServers''),
                mr_heldServers = stringList (field v ''heldServers''),
                mr_disabledTools = disabled_entries (field v ''disabledTools'')\<rparr>
      | _ \<Rightarrow> None)"

definition string_or_empty :: "json option \<Rightarrow> string" where
  "string_or_empty v = (case v of Some (JStr s) \<Rightarrow> s | _ \<Rightarrow> '''')"

definition parsePrincipal :: "json option \<Rightarrow> McpPrincipal option" where
  "parsePrincipal v =
     (case field v ''memberId'' of
        Some (JStr m) \<Rightarrow>
          if m = '''' then None
          else Some \<lparr>mp_memberId = m, mp_email = string_or_empty (field v ''email''),
                     mp_role = string_or_empty (field v ''role''), mp_ssoGroups = stringList (field v ''ssoGroups'')\<rparr>
      | _ \<Rightarrow> None)"

definition mcp_parseSsoGroupPolicy :: "json option \<Rightarrow> SsoGroupPolicy option" where
  "mcp_parseSsoGroupPolicy v =
     (case v of
        Some (JObj kvs) \<Rightarrow>
          Some \<lparr>sg_highRiskTools = stringList (field v ''highRiskTools''), sg_requiredGroups = stringList (field v ''requiredGroups''),
                sg_requireOboFor = stringList (field v ''requireOboFor'')\<rparr>
      | _ \<Rightarrow> None)"

datatype WasmRuleMode = WasmEnforce | WasmShadow

record WasmRuleDescriptor =
  wd_ruleId :: string
  wd_name :: string
  wd_sha256 :: string
  wd_priority :: nat
  wd_mode :: WasmRuleMode

definition parseMode :: "json option \<Rightarrow> WasmRuleMode option" where
  "parseMode v =
     (if v = None then Some WasmEnforce
      else if v \<in> {Some (JStr ''ENFORCE''), Some (JStr ''enforce'')} then Some WasmEnforce
      else if v \<in> {Some (JStr ''SHADOW''), Some (JStr ''shadow'')} then Some WasmShadow
      else None)"

definition whole_number :: "json option \<Rightarrow> nat option" where
  "whole_number v =
     (case v of Some (JNum r) \<Rightarrow> if of_int \<lfloor>r\<rfloor> = r \<and> 0 \<le> r then Some (nat \<lfloor>r\<rfloor>) else None | _ \<Rightarrow> None)"

definition read_descriptor :: "nat \<Rightarrow> json \<Rightarrow> string + WasmRuleDescriptor" where
  "read_descriptor index entry =
     (case entry of
        JObj e \<Rightarrow>
          (case map_of e ''ruleId'' of
             Some (JStr ruleId) \<Rightarrow>
               if ruleId = '''' then Inl (''entry '' @ nat_str index @ '' has no ruleId'')
               else (case map_of e ''name'' of
                 Some (JStr name) \<Rightarrow>
                   (case map_of e ''sha256'' of
                      Some (JStr sha256) \<Rightarrow>
                        (case whole_number (map_of e ''priority'') of
                           None \<Rightarrow> Inl (''rule '' @ ruleId @ '' has no priority'')
                         | Some priority \<Rightarrow>
                             (case parseMode (map_of e ''mode'') of
                                None \<Rightarrow> Inl (''rule '' @ ruleId @ '' has an unknown mode'')
                              | Some mode \<Rightarrow>
                                  Inr \<lparr>wd_ruleId = ruleId, wd_name = name, wd_sha256 = sha256, wd_priority = priority, wd_mode = mode\<rparr>))
                    | _ \<Rightarrow> Inl (''rule '' @ ruleId @ '' has no SHA-256''))
               | _ \<Rightarrow> Inl (''rule '' @ ruleId @ '' has no name''))
           | _ \<Rightarrow> Inl (''entry '' @ nat_str index @ '' has no ruleId''))
      | _ \<Rightarrow> Inl (''entry '' @ nat_str index @ '' is not an object''))"

fun read_descriptors :: "nat \<Rightarrow> json list \<Rightarrow> string + WasmRuleDescriptor list" where
  "read_descriptors index [] = Inr []"
| "read_descriptors index (entry # entries) =
     try_then (read_descriptor index entry) (\<lambda>d. try_then (read_descriptors (index + 1) entries) (\<lambda>ds. Inr (d # ds)))"

definition parseWasmRuleDescriptors :: "json \<Rightarrow> string + WasmRuleDescriptor list" where
  "parseWasmRuleDescriptors v =
     (case v of JArr entries \<Rightarrow> read_descriptors 0 entries | _ \<Rightarrow> Inl ''the rule list is not an array'')"

section \<open>The client\<close>

datatype InjectionAction = InjWarn | InjBlock

record PolicyClient =
  pc_rules :: "json list"
  pc_commandRecords :: "GateRuleRecord list"
  pc_injectionPatterns :: "string list"
  pc_allowedTools :: "string list"
  pc_toolDescriptionOverrides :: "(string \<times> string) list"
  pc_allowedServers :: "string list"
  pc_injectionAction :: "InjectionAction option"
  pc_anomalyMode :: "AnomalyMode option"
  pc_anomalyOverrides :: "(string \<times> Disposition option) list"
  pc_registry :: "McpRegistryRecord option"
  pc_principal :: "McpPrincipal option"
  pc_failOpen :: "bool option"
  pc_ssoGroupPolicy :: "SsoGroupPolicy option"
  pc_mcpBudgets :: McpBudgetPolicy
  pc_piiDetectors :: WorkspacePiiDetectors
  pc_wasmRules :: "WasmRuleDescriptor list option"
  pc_opaque :: bool
  pc_lastRefreshAttemptAt :: int
  pc_loadedFromControlPlane :: bool

definition parse_budgets_field :: "json option \<Rightarrow> McpBudgetPolicy" where
  "parse_budgets_field v = parseMcpBudgetPolicy (case v of None \<Rightarrow> JNull | Some w \<Rightarrow> w)"

definition new_policy_client :: PolicyClient where
  "new_policy_client =
     \<lparr>pc_rules = [], pc_commandRecords = [], pc_injectionPatterns = [], pc_allowedTools = [],
      pc_toolDescriptionOverrides = [], pc_allowedServers = [], pc_injectionAction = None, pc_anomalyMode = None,
      pc_anomalyOverrides = [], pc_registry = None, pc_principal = None, pc_failOpen = None, pc_ssoGroupPolicy = None,
      pc_mcpBudgets = parse_budgets_field None, pc_piiDetectors = PiiNone, pc_wasmRules = None, pc_opaque = False,
      pc_lastRefreshAttemptAt = 0, pc_loadedFromControlPlane = False\<rparr>"

definition nullish :: "json option \<Rightarrow> json option \<Rightarrow> json option" where
  "nullish a b = (case a of None \<Rightarrow> b | Some JNull \<Rightarrow> b | Some w \<Rightarrow> Some w)"

definition own_entries :: "(json \<Rightarrow> 'a option) \<Rightarrow> json option \<Rightarrow> (string \<times> 'a) list" where
  "own_entries read v =
     (case v of
        Some (JObj kvs) \<Rightarrow>
          List.map_filter (\<lambda>(k, w). if own_key k then map_option (Pair k) (read w) else None) kvs
      | _ \<Rightarrow> [])"

definition read_string :: "json \<Rightarrow> string option" where
  "read_string v = (case v of JStr s \<Rightarrow> Some s | _ \<Rightarrow> None)"

definition read_disposition :: "json \<Rightarrow> Disposition option option" where
  "read_disposition v =
     (if v = JStr ''steer'' then Some (Some Steer)
      else if v = JStr ''reask'' then Some (Some Reask)
      else if v = JStr ''kill'' then Some (Some Kill)
      else if v = JStr ''off'' then Some None
      else None)"

definition read_injection_action :: "json option \<Rightarrow> InjectionAction option" where
  "read_injection_action v =
     (if v = Some (JStr ''warn'') then Some InjWarn else if v = Some (JStr ''block'') then Some InjBlock else None)"

definition read_anomaly_mode :: "json option \<Rightarrow> AnomalyMode option" where
  "read_anomaly_mode v =
     (if v = Some (JStr ''enforce'') then Some ModeEnforce
      else if v = Some (JStr ''warn'') then Some ModeWarn
      else if v = Some (JStr ''off'') then Some ModeOff
      else None)"

definition read_fail_behavior :: "json option \<Rightarrow> bool option" where
  "read_fail_behavior v =
     (if v = Some (JStr ''open'') then Some True else if v = Some (JStr ''closed'') then Some False else None)"

definition absorbCuration :: "(rat \<Rightarrow> string) \<Rightarrow> json \<Rightarrow> PolicyClient \<Rightarrow> PolicyClient" where
  "absorbCuration numStr source s =
     s\<lparr>pc_allowedTools := stringList (nullish (json_field source ''allowedTools'') (json_field source ''mcpAllowedTools'')),
       pc_toolDescriptionOverrides :=
         own_entries read_string (nullish (json_field source ''toolDescriptionOverrides'') (json_field source ''mcpToolDescriptionOverrides'')),
       pc_allowedServers := stringList (nullish (json_field source ''allowedServers'') (json_field source ''mcpAllowedServers'')),
       pc_injectionPatterns := stringList (json_field source ''mcpInjectionPatterns''),
       pc_injectionAction := read_injection_action (json_field source ''mcpInjectionAction''),
       pc_anomalyMode := read_anomaly_mode (json_field source ''mcpAnomalyMode''),
       pc_anomalyOverrides := own_entries read_disposition (json_field source ''mcpAnomalyOverrides''),
       pc_principal := parsePrincipal (json_field source ''principal''),
       pc_ssoGroupPolicy := mcp_parseSsoGroupPolicy (json_field source ''ssoGroupPolicy''),
       pc_mcpBudgets := parse_budgets_field (json_field source ''mcpBudgets''),
       pc_failOpen := read_fail_behavior (json_field source ''mcpProxyFailBehavior''),
       pc_piiDetectors := parseWorkspacePiiDetectors numStr (json_field source ''piiDetectors''),
       pc_opaque := isOpaqueInterventionMode (json_field source ''interventionMode'')\<rparr>"

definition absorbWasmRules :: "json option \<Rightarrow> PolicyClient \<Rightarrow> PolicyClient" where
  "absorbWasmRules v s =
     (case v of
        None \<Rightarrow> s\<lparr>pc_wasmRules := Some []\<rparr>
      | Some w \<Rightarrow>
          (case parseWasmRuleDescriptors w of
             Inr rules \<Rightarrow> s\<lparr>pc_wasmRules := Some rules\<rparr>
           | Inl reason \<Rightarrow> s))"

definition UNREADABLE_ENTRY :: string where "UNREADABLE_ENTRY = ''(unreadable rule)''"

text \<open>What \<open>'...' + v\<close> writes for a value.\<close>

definition text_of :: "(rat \<Rightarrow> string) \<Rightarrow> json option \<Rightarrow> string" where
  "text_of numStr v = (case v of None \<Rightarrow> ''undefined'' | Some JNull \<Rightarrow> ''null'' | Some w \<Rightarrow> join_text numStr w)"

definition unreadable_record :: "(rat \<Rightarrow> string) \<Rightarrow> json \<Rightarrow> GateRuleRecord" where
  "unreadable_record numStr r =
     \<lparr>gr_ref = '''',
      gr_sopTitle =
        (case field (json_field r ''payload'') ''sopTitle'' of
           Some (JStr t) \<Rightarrow> t
         | _ \<Rightarrow> text_of numStr (json_field r ''sopId'')),
      gr_fallbackId = None,
      gr_rollout = (if json_field r ''rollout'' = Some (JStr ''shadow'') then Shadow else Enforce),
      gr_body = AllowCommands [UNREADABLE_ENTRY]\<rparr>"

definition served_record :: "(rat \<Rightarrow> string) \<Rightarrow> (string \<Rightarrow> json option) \<Rightarrow> json \<Rightarrow> GateRuleRecord" where
  "served_record numStr jsonParse r =
     (case fromServedGateRecord numStr jsonParse r of Some record \<Rightarrow> record | None \<Rightarrow> unreadable_record numStr r)"

definition absorbGateRecords :: "(rat \<Rightarrow> string) \<Rightarrow> (string \<Rightarrow> json option) \<Rightarrow> json option \<Rightarrow> PolicyClient \<Rightarrow> PolicyClient" where
  "absorbGateRecords numStr jsonParse v s =
     s\<lparr>pc_commandRecords :=
         map (served_record numStr jsonParse)
           (filter (\<lambda>r. json_field r ''kind'' = Some (JStr ''allow_commands''))
              (case v of Some (JArr rs) \<Rightarrow> rs | _ \<Rightarrow> []))\<rparr>"

definition matchRule :: "regex \<Rightarrow> PolicyClient \<Rightarrow> string \<Rightarrow> string \<Rightarrow> unit + json option" where
  "matchRule regex s toolName toolInputJson = match_loop regex toolName toolInputJson (pc_rules s) None"

definition commandCall :: "string \<Rightarrow> json option \<Rightarrow> GateRuleCall" where
  "commandCall tool input =
     \<lparr>gc_tool = tool, gc_input = (case input of None \<Rightarrow> JNull | Some v \<Rightarrow> v), gc_actions = [], gc_cwd = '''', gc_root = '''',
      gc_sessionId = '''', gc_harness = ''mcp-proxy'', gc_outcomes = None, gc_observable = False, gc_plan = PlanNone, gc_nowMs = 0\<rparr>"

definition checkCommands :: "PolicyClient \<Rightarrow> string \<Rightarrow> json option \<Rightarrow> GateRuleEvaluation" where
  "checkCommands s tool input = evaluateGateRuleRecords (pc_commandRecords s) (commandCall tool input)"

section \<open>Refreshing\<close>

text \<open>What the daemon socket answered: it failed, or a value (\<^const>\<open>JNull\<close>: no policy).  What the
  control plane answered: a refused status, no answer, or a body, \<^const>\<open>None\<close> when it does not
  parse.\<close>

datatype DaemonAnswer = DaemonFailed | DaemonPolicy json
datatype HttpAnswer = HttpStatus nat | HttpFailed | HttpBody "json option"

text \<open>\<open>policy.sopRules ?? []\<close> and the loop over it: \<^const>\<open>None\<close> when it cannot be iterated.  The
  characters of a string are no rules.\<close>

definition daemon_rules :: "json \<Rightarrow> json list option" where
  "daemon_rules policy =
     (case json_field policy ''sopRules'' of
        None \<Rightarrow> Some [] | Some JNull \<Rightarrow> Some []
      | Some (JArr xs) \<Rightarrow> Some (filter isSopRule xs)
      | Some (JStr s) \<Rightarrow> Some []
      | Some _ \<Rightarrow> None)"

definition from_snapshot :: "json \<Rightarrow> bool" where
  "from_snapshot policy = truthy (json_field policy ''fromSnapshot'')"

definition absorb_daemon :: "(rat \<Rightarrow> string) \<Rightarrow> (string \<Rightarrow> json option) \<Rightarrow> json \<Rightarrow> json list \<Rightarrow> PolicyClient \<Rightarrow> PolicyClient" where
  "absorb_daemon numStr jsonParse policy accepted s =
     (let s1 = absorbGateRecords numStr jsonParse (json_field policy ''gateRecords'') (s\<lparr>pc_rules := accepted\<rparr>) in
      if from_snapshot policy \<and> pc_loadedFromControlPlane s1 then s1
      else
        let s2 = absorbCuration numStr policy s1;
            reg = json_field policy ''mcpRegistry'';
            s3 = (if truthy reg then s2\<lparr>pc_registry := (case parseRegistry reg of None \<Rightarrow> pc_registry s2 | Some r \<Rightarrow> Some r)\<rparr> else s2)
        in if from_snapshot policy then s3
           else (absorbWasmRules (json_field policy ''wasmRules'') s3)\<lparr>pc_loadedFromControlPlane := True\<rparr>)"

definition absorb_http :: "(rat \<Rightarrow> string) \<Rightarrow> (string \<Rightarrow> json option) \<Rightarrow> json \<Rightarrow> PolicyClient \<Rightarrow> PolicyClient" where
  "absorb_http numStr jsonParse parsed s =
     (let s1 = s\<lparr>pc_rules := (case json_field parsed ''rules'' of Some (JArr rs) \<Rightarrow> rs | _ \<Rightarrow> [])\<rparr>;
          s2 = absorbGateRecords numStr jsonParse (json_field parsed ''gateRecords'') s1;
          s3 = absorbCuration numStr parsed s2;
          s4 = s3\<lparr>pc_registry := Some (case parseRegistry (json_field parsed ''mcpRegistry'') of
                                         None \<Rightarrow> UNRESTRICTED_REGISTRY | Some r \<Rightarrow> r)\<rparr>
      in (absorbWasmRules (json_field parsed ''wasmRules'') s4)\<lparr>pc_loadedFromControlPlane := True\<rparr>)"

definition refresh_http :: "(rat \<Rightarrow> string) \<Rightarrow> (string \<Rightarrow> json option) \<Rightarrow> HttpAnswer \<Rightarrow> PolicyClient \<Rightarrow> (unit + unit) \<times> PolicyClient" where
  "refresh_http numStr jsonParse answer s =
     (case answer of
        HttpStatus code \<Rightarrow> (Inl (), if code = 401 \<or> code = 403 then s\<lparr>pc_principal := None\<rparr> else s)
      | HttpFailed \<Rightarrow> (Inl (), s)
      | HttpBody None \<Rightarrow> (Inl (), s)
      | HttpBody (Some parsed) \<Rightarrow> if parsed = JNull then (Inl (), s) else (Inr (), absorb_http numStr jsonParse parsed s))"

text \<open>The daemon's policy when it can be taken; a falsy one, and one whose rules cannot be iterated,
  go on to the control plane.\<close>

definition daemon_taken :: "DaemonAnswer \<Rightarrow> (json \<times> json list) option" where
  "daemon_taken answer =
     (case answer of
        DaemonFailed \<Rightarrow> None
      | DaemonPolicy policy \<Rightarrow> if truthy (Some policy) then map_option (Pair policy) (daemon_rules policy) else None)"

definition refresh ::
    "(rat \<Rightarrow> string) \<Rightarrow> (string \<Rightarrow> json option) \<Rightarrow> bool \<Rightarrow> int \<Rightarrow> DaemonAnswer \<Rightarrow> HttpAnswer \<Rightarrow> PolicyClient
     \<Rightarrow> (unit + unit) \<times> PolicyClient" where
  "refresh numStr jsonParse daemonMode now daemon http s0 =
     (let s = s0\<lparr>pc_lastRefreshAttemptAt := now\<rparr> in
      case (if daemonMode then daemon_taken daemon else None) of
        Some (policy, accepted) \<Rightarrow> (Inr (), absorb_daemon numStr jsonParse policy accepted s)
      | None \<Rightarrow> refresh_http numStr jsonParse http s)"

definition UNKNOWN_REGISTRY_RETRY_MS :: int where "UNKNOWN_REGISTRY_RETRY_MS = 5000"

text \<open>\<open>ready\<close>, once the first refresh has settled.\<close>

definition ready_client ::
    "(rat \<Rightarrow> string) \<Rightarrow> (string \<Rightarrow> json option) \<Rightarrow> bool \<Rightarrow> int \<Rightarrow> DaemonAnswer \<Rightarrow> HttpAnswer \<Rightarrow> PolicyClient \<Rightarrow> PolicyClient" where
  "ready_client numStr jsonParse daemonMode now daemon http s =
     (if pc_registry s \<noteq> None then s
      else if now - pc_lastRefreshAttemptAt s < UNKNOWN_REGISTRY_RETRY_MS then s
      else snd (refresh numStr jsonParse daemonMode now daemon http s))"

section \<open>The rule that decides\<close>

text \<open>The first rule, in list order, that matches the call and has the action.\<close>

definition first_with :: "string \<Rightarrow> regex \<Rightarrow> string \<Rightarrow> string \<Rightarrow> json list \<Rightarrow> json option" where
  "first_with action regex t j rules =
     List.find (\<lambda>r. rule_matches regex t j r \<and> json_field r ''action'' = Some (JStr action)) rules"

lemma first_with_simps [simp]:
  "first_with action regex t j [] = None"
  "first_with action regex t j (r # rules) =
     (if rule_matches regex t j r \<and> json_field r ''action'' = Some (JStr action) then Some r else first_with action regex t j rules)"
  by (simp_all add: first_with_def)

lemma severity_of_action:
  "RULE_SEVERITY (Some (JStr ''block'')) = 3" "RULE_SEVERITY (Some (JStr ''require_approval'')) = 2" "RULE_SEVERITY (Some (JStr ''warn'')) = 1"
  by (simp_all add: RULE_SEVERITY_def action_key_def)

lemma isSopRule_cases:
  assumes "isSopRule r"
  obtains "r \<noteq> JNull" "json_field r ''action'' = Some (JStr ''block'')"
    | "r \<noteq> JNull" "json_field r ''action'' = Some (JStr ''require_approval'')"
    | "r \<noteq> JNull" "json_field r ''action'' = Some (JStr ''warn'')"
  using assms by (cases r) (auto simp: isSopRule_def)

lemma match_loop_hold:
  "list_all isSopRule rules \<Longrightarrow> json_field d ''action'' = Some (JStr ''require_approval'') \<Longrightarrow>
   match_loop regex t j rules (Some d) = Inr (or_else (first_with ''block'' regex t j rules) (Some d))"
proof (induction rules)
  case (Cons r rules)
  then show ?case by (auto elim!: isSopRule_cases simp: severity_of_action)
qed simp

lemma match_loop_warn:
  "list_all isSopRule rules \<Longrightarrow> json_field d ''action'' = Some (JStr ''warn'') \<Longrightarrow>
   match_loop regex t j rules (Some d) =
     Inr (or_else (first_with ''block'' regex t j rules) (or_else (first_with ''require_approval'' regex t j rules) (Some d)))"
proof (induction rules)
  case (Cons r rules)
  then show ?case by (auto elim!: isSopRule_cases simp: severity_of_action match_loop_hold)
qed simp

lemma match_loop_none:
  "list_all isSopRule rules \<Longrightarrow>
   match_loop regex t j rules None =
     Inr (or_else (first_with ''block'' regex t j rules)
          (or_else (first_with ''require_approval'' regex t j rules) (first_with ''warn'' regex t j rules)))"
proof (induction rules)
  case (Cons r rules)
  then show ?case by (auto elim!: isSopRule_cases simp: severity_of_action match_loop_hold match_loop_warn)
qed simp

text \<open>C16: The one pass over the rules finds what three passes would: the first matching \<open>block\<close>
  rule, else the first matching \<open>require_approval\<close> rule, else the first matching \<open>warn\<close> rule.
  So no flag or hold listed earlier lets a call past a rule that refuses it.\<close>

theorem matchRule_most_severe:
  assumes "list_all isSopRule (pc_rules s)"
  shows "matchRule regex s toolName toolInputJson =
     Inr (or_else (first_with ''block'' regex toolName toolInputJson (pc_rules s))
          (or_else (first_with ''require_approval'' regex toolName toolInputJson (pc_rules s))
                   (first_with ''warn'' regex toolName toolInputJson (pc_rules s))))"
  unfolding matchRule_def by (rule match_loop_none [OF assms])

definition sample_sop_rule :: "string \<Rightarrow> json" where
  "sample_sop_rule action = JObj [(''id'', JStr action), (''toolPattern'', JStr ''x''), (''action'', JStr action), (''reason'', JStr '''')]"

theorem matchRule_most_severe_witness:
  "matchRule (\<lambda>_. Some (\<lambda>_. True)) (new_policy_client\<lparr>pc_rules := [sample_sop_rule ''warn'', sample_sop_rule ''block'']\<rparr>) ''Bash'' ''{}''
   = Inr (Some (sample_sop_rule ''block''))"
  by (subst matchRule_most_severe)
    (simp_all add: isSopRule_def is_string_def sample_sop_rule_def rule_matches_def truthy_def)

text \<open>A rule the daemon would drop: through \<open>GET /api/v1/sop/rules\<close> it is kept unchecked, and as it has
  no \<open>toolPattern\<close>, \<open>new RegExp(undefined)\<close> makes it refuse every call.\<close>

definition patternless_rule :: json where
  "patternless_rule = JObj [(''id'', JStr ''r''), (''action'', JStr ''block''), (''reason'', JStr '''')]"

lemma http_rule_unchecked:
  assumes "regex None = Some (\<lambda>_. True)"
  shows "\<not> isSopRule patternless_rule"
    and "matchRule regex (snd (refresh numStr jsonParse False now daemon
             (HttpBody (Some (JObj [(''rules'', JArr [patternless_rule])]))) s)) toolName toolInputJson = Inr (Some patternless_rule)"
    and "pc_rules (snd (refresh numStr jsonParse True now
             (DaemonPolicy (JObj [(''sopRules'', JArr [patternless_rule])])) http s)) = []"
  using assms
  by (simp_all add: isSopRule_def is_string_def patternless_rule_def refresh_def refresh_http_def absorb_http_def absorb_daemon_def
      absorbCuration_def absorbGateRecords_def absorbWasmRules_def matchRule_def rule_matches_def truthy_def Let_def daemon_taken_def
      daemon_rules_def from_snapshot_def split: option.split)

section \<open>What a refresh keeps\<close>

record PolicyRound =
  pr_now :: int
  pr_daemon :: DaemonAnswer
  pr_http :: HttpAnswer

definition refresh_round :: "(rat \<Rightarrow> string) \<Rightarrow> (string \<Rightarrow> json option) \<Rightarrow> bool \<Rightarrow> PolicyRound \<Rightarrow> PolicyClient \<Rightarrow> PolicyClient" where
  "refresh_round numStr jsonParse daemonMode r s = snd (refresh numStr jsonParse daemonMode (pr_now r) (pr_daemon r) (pr_http r) s)"

text \<open>The round ends with a policy of the control plane: the daemon's own fetch, or a body.\<close>

definition from_control_plane :: "bool \<Rightarrow> PolicyRound \<Rightarrow> bool" where
  "from_control_plane daemonMode r \<longleftrightarrow>
     (case (if daemonMode then daemon_taken (pr_daemon r) else None) of
        Some (policy, accepted) \<Rightarrow> \<not> from_snapshot policy
      | None \<Rightarrow> (case pr_http r of HttpBody (Some parsed) \<Rightarrow> parsed \<noteq> JNull | _ \<Rightarrow> False))"

text \<open>Everything but the rules, the command records, the member and the clock.\<close>

definition restrictions :: "PolicyClient \<Rightarrow> PolicyClient" where
  "restrictions s = s\<lparr>pc_rules := [], pc_commandRecords := [], pc_principal := None, pc_lastRefreshAttemptAt := 0\<rparr>"

lemma refresh_round_keeps:
  assumes "pc_loadedFromControlPlane s" "\<not> from_control_plane daemonMode r"
  shows "restrictions (refresh_round numStr jsonParse daemonMode r s) = restrictions s
       \<and> pc_principal (refresh_round numStr jsonParse daemonMode r s) \<in> {pc_principal s, None}"
proof (cases "if daemonMode then daemon_taken (pr_daemon r) else None")
  case None
  then show ?thesis
    using assms(2)
    by (cases "pr_http r")
      (auto simp: refresh_round_def refresh_def refresh_http_def from_control_plane_def restrictions_def Let_def split: option.splits)
next
  case (Some p)
  then show ?thesis
    using assms
    by (cases p)
      (simp add: refresh_round_def refresh_def from_control_plane_def absorb_daemon_def absorbGateRecords_def Let_def restrictions_def)
qed

lemma restrictions_loaded: "restrictions s = restrictions s' \<Longrightarrow> pc_loadedFromControlPlane s = pc_loadedFromControlPlane s'"
  by (metis restrictions_def PolicyClient.select_convs(19) PolicyClient.surjective PolicyClient.update_convs(1,2,11,18))

lemma rounds_keep:
  "pc_loadedFromControlPlane s \<Longrightarrow> list_all (Not \<circ> from_control_plane daemonMode) rs \<Longrightarrow>
     restrictions (fold (refresh_round numStr jsonParse daemonMode) rs s) = restrictions s
   \<and> pc_principal (fold (refresh_round numStr jsonParse daemonMode) rs s) \<in> {pc_principal s, None}"
proof (induction rs arbitrary: s)
  case (Cons r rs)
  let ?s = "refresh_round numStr jsonParse daemonMode r s"
  have k: "restrictions ?s = restrictions s" "pc_principal ?s \<in> {pc_principal s, None}"
    using refresh_round_keeps [OF Cons.prems(1), of daemonMode r numStr jsonParse] Cons.prems(2) by simp_all
  with Cons.IH [of ?s] Cons.prems restrictions_loaded [OF k(1)] show ?case by auto
qed simp



section \<open>The client's invariant\<close>

inductive policy_reachable :: "(rat \<Rightarrow> string) \<Rightarrow> (string \<Rightarrow> json option) \<Rightarrow> bool \<Rightarrow> PolicyClient \<Rightarrow> bool"
  for numStr jsonParse daemonMode where
  start: "policy_reachable numStr jsonParse daemonMode new_policy_client"
| round: "policy_reachable numStr jsonParse daemonMode s \<Longrightarrow>
    policy_reachable numStr jsonParse daemonMode (refresh_round numStr jsonParse daemonMode r s)"

definition command_record_ok :: "GateRuleRecord \<Rightarrow> bool" where
  "command_record_ok r \<longleftrightarrow> gr_kind r = KindAllowCommands \<and> (record_ok r \<or> record_commands r = [UNREADABLE_ENTRY])"

definition client_ok :: "bool \<Rightarrow> PolicyClient \<Rightarrow> bool" where
  "client_ok daemonMode s \<longleftrightarrow>
     list_all command_record_ok (pc_commandRecords s)
     \<and> (pc_wasmRules s = None \<or> pc_loadedFromControlPlane s)
     \<and> (pc_registry s \<noteq> None \<or> daemonMode \<or> \<not> pc_loadedFromControlPlane s)
     \<and> (case pc_principal s of None \<Rightarrow> True | Some p \<Rightarrow> mp_memberId p \<noteq> '''')
     \<and> (case pc_piiDetectors s of PiiSet actions \<Rightarrow> actions \<noteq> [] \<and> distinct (map fst actions) | _ \<Rightarrow> True)"

lemma split_on_singleton: "length (split_on c s) = 1 \<Longrightarrow> split_on c s = [s]"
  using join_split_on [of c s] by (cases "split_on c s") auto

lemma split_on_five:
  assumes "length (split_on c (join_with [c] [a, b, d, e, f])) = 5"
  shows "split_on c (join_with [c] [a, b, d, e, f]) = [a, b, d, e, f]"
proof -
  have s: "split_on c (join_with [c] [a, b, d, e, f]) = split_on c a @ split_on c b @ split_on c d @ split_on c e @ split_on c f"
    by (simp add: split_on_append)
  have "1 \<le> length (split_on c x)" for x by (simp add: Suc_le_eq)
  from this [of a] this [of b] this [of d] this [of e] this [of f] assms
  have "length (split_on c a) = 1" "length (split_on c b) = 1" "length (split_on c d) = 1" "length (split_on c e) = 1" "length (split_on c f) = 1"
    unfolding s by auto
  from this [THEN split_on_singleton] show ?thesis unfolding s by simp
qed

lemma fromServed_ok:
  assumes "fromServedGateRecord numStr jsonParse served = Some r" "json_field served ''kind'' = Some (JStr k)"
  shows "record_ok r \<and> kind_name (gr_kind r) = k"
proof -
  from assms(1) obtain payload where p: "json_field served ''payload'' = Some (JObj payload)"
    by (auto simp: fromServedGateRecord_def split: option.splits json.splits)
  obtain fcol where f: "fcol = (case json_field served ''fallbackId'' of None \<Rightarrow> ''-'' | Some JNull \<Rightarrow> ''-'' | Some f \<Rightarrow> join_text numStr f)"
    by blast
  obtain ro where ro: "ro = join_text_opt numStr (json_field served ''rollout'')" by blast
  obtain b where b: "b = ruleToBase64 (ruleCanonicalJson numStr (JObj payload))" by blast
  have "join_text_opt numStr (json_field served ''kind'') = k" by (simp add: assms(2) join_text_opt_def)
  then have d: "decodeGateRuleRecord jsonParse (join_with [tab] [RULE_RECORD_TAG, fcol, k, ro, b]) = Some r"
    using assms(1) unfolding fromServedGateRecord_def p f [symmetric] ro [symmetric]
    by (simp add: b del: join_with.simps split: if_splits)
  then have "length (split_on tab (join_with [tab] [RULE_RECORD_TAG, fcol, k, ro, b])) = 5"
    by (auto simp: decodeGateRuleRecord_def split: list.splits)
  from split_on_five [OF this] decode_ok [OF d] show ?thesis by simp
qed

lemma served_record_ok:
  assumes "json_field r ''kind'' = Some (JStr ''allow_commands'')"
  shows "command_record_ok (served_record numStr jsonParse r)"
proof (cases "fromServedGateRecord numStr jsonParse r")
  case None
  then show ?thesis by (simp add: served_record_def command_record_ok_def unreadable_record_def record_commands_def)
next
  case (Some d)
  from fromServed_ok [OF this assms] have "record_ok d" "kind_name (gr_kind d) = kind_name KindAllowCommands" by simp_all
  then show ?thesis by (simp only: kind_name_inj) (simp add: served_record_def Some command_record_ok_def)
qed

lemma absorbGateRecords_ok: "list_all command_record_ok (pc_commandRecords (absorbGateRecords numStr jsonParse v s))"
  by (auto simp: absorbGateRecords_def list_all_iff intro!: served_record_ok)

lemma parsePrincipal_ok: "parsePrincipal v = Some p \<Longrightarrow> mp_memberId p \<noteq> ''''"
  by (auto simp: parsePrincipal_def split: option.splits json.splits if_splits)

lemma curation_ok: "client_ok m s \<Longrightarrow> client_ok m (absorbCuration numStr source s)"
  by (auto simp: client_ok_def absorbCuration_def dest: parsePrincipal_ok parsed_actions_ids split: option.splits WorkspacePiiDetectors.splits)

lemma wasm_ok: "client_ok m s \<Longrightarrow> m \<or> pc_registry s \<noteq> None \<Longrightarrow> client_ok m ((absorbWasmRules v s)\<lparr>pc_loadedFromControlPlane := True\<rparr>)"
  by (auto simp: client_ok_def absorbWasmRules_def split: option.splits sum.splits)

lemma client_ok_frame:
  "client_ok m (s\<lparr>pc_rules := x\<rparr>) = client_ok m s" "client_ok m (s\<lparr>pc_lastRefreshAttemptAt := n\<rparr>) = client_ok m s"
  "client_ok m s \<Longrightarrow> client_ok m (s\<lparr>pc_principal := None\<rparr>)" "client_ok m s \<Longrightarrow> client_ok m (s\<lparr>pc_registry := Some r\<rparr>)"
  by (simp_all add: client_ok_def)

lemma gate_records_ok: "client_ok m s \<Longrightarrow> client_ok m (absorbGateRecords numStr jsonParse v s)"
  using absorbGateRecords_ok [of numStr jsonParse v s] by (simp add: client_ok_def absorbGateRecords_def)

lemma absorb_http_ok: "client_ok m s \<Longrightarrow> client_ok m (absorb_http numStr jsonParse parsed s)"
  unfolding absorb_http_def Let_def
  by (intro wasm_ok client_ok_frame(4) curation_ok gate_records_ok) (simp_all add: client_ok_frame)

lemma absorb_daemon_ok: "client_ok True s \<Longrightarrow> client_ok True (absorb_daemon numStr jsonParse policy accepted s)"
proof -
  assume "client_ok True s"
  then have s1: "client_ok True (absorbGateRecords numStr jsonParse v (s\<lparr>pc_rules := accepted\<rparr>))" for v
    by (simp add: client_ok_frame gate_records_ok)
  have reg: "client_ok True t \<Longrightarrow> client_ok True (t\<lparr>pc_registry := x\<rparr>)" for t x by (simp add: client_ok_def)
  show ?thesis
    unfolding absorb_daemon_def Let_def
    by (auto intro!: wasm_ok reg curation_ok s1)
qed

lemma round_ok:
  assumes "client_ok daemonMode s"
  shows "client_ok daemonMode (refresh_round numStr jsonParse daemonMode r s)"
proof (cases "if daemonMode then daemon_taken (pr_daemon r) else None")
  case None
  with assms show ?thesis
    by (auto simp: refresh_round_def refresh_def refresh_http_def Let_def client_ok_frame absorb_http_ok split: HttpAnswer.split option.split)
next
  case (Some p)
  with assms show ?thesis
    by (cases p) (auto simp: refresh_round_def refresh_def client_ok_frame absorb_daemon_ok Let_def split: if_splits)
qed



section \<open>Records that cannot be read\<close>

lemma unreadable_not_entry: "\<not> isAllowEntry UNREADABLE_ENTRY"
  by code_simp

text \<open>A served \<open>allow_commands\<close> record that does not decode does not lapse: unless it is a shadow
  record, every call of a shell tool is refused, whatever the command and the other records.\<close>

theorem unreadable_record_refuses:
  assumes "r \<in> set rs" "json_field r ''kind'' = Some (JStr ''allow_commands'')" "fromServedGateRecord numStr jsonParse r = None"
    and "json_field r ''rollout'' \<noteq> Some (JStr ''shadow'')" "scopeToolIs tool SCOPE_SHELL_TOOLS"
  shows "ev_refusal (checkCommands (absorbGateRecords numStr jsonParse (Some (JArr rs)) s) tool input) \<noteq> None"
proof
  let ?records = "pc_commandRecords (absorbGateRecords numStr jsonParse (Some (JArr rs)) s)"
  let ?u = "unreadable_record numStr r"
  let ?allow = "of_kind KindAllowCommands (filter (\<lambda>r. gr_rollout r = Enforce) ?records)"
  assume "ev_refusal (checkCommands (absorbGateRecords numStr jsonParse (Some (JArr rs)) s) tool input) = None"
  then have met: "commands_met ?allow (commandCall tool input)"
    by (simp add: checkCommands_def tier_r_refusal rules_met_def)
  have "?u \<in> set ?records"
    using assms(1-3) by (force simp: absorbGateRecords_def served_record_def)
  then have u: "?u \<in> set ?allow"
    using assms(4) by (simp add: of_kind_def unreadable_record_def)
  then have "UNREADABLE_ENTRY \<in> set (concat (map record_commands ?allow))"
    by (auto simp: record_commands_def unreadable_record_def intro!: bexI [of _ ?u])
  then have "\<not> command_covered (concat (map record_commands ?allow)) c" for c
    using unreadable_not_entry by (auto simp: command_covered_def list_all_iff)
  moreover have "call_commands (gc_input (commandCall tool input)) \<noteq> []"
    "list_all (command_covered (concat (map record_commands ?allow))) (call_commands (gc_input (commandCall tool input)))"
    using met u assms(5) by (auto simp: commands_met_def commandCall_def)
  ultimately show False by (cases "call_commands (gc_input (commandCall tool input))") simp_all
qed

definition damaged_record :: json where
  "damaged_record = JObj [(''sopId'', JStr ''s''), (''kind'', JStr ''allow_commands''), (''rollout'', JStr ''enforce''), (''payload'', JNull)]"

theorem unreadable_record_refuses_witness:
  "ev_refusal (checkCommands (absorbGateRecords (\<lambda>_. '''') (\<lambda>_. None) (Some (JArr [damaged_record])) new_policy_client) ''Bash''
     (Some (JObj [(''command'', JStr ''ls'')]))) \<noteq> None"
proof (rule unreadable_record_refuses [of damaged_record])
  show "scopeToolIs ''Bash'' SCOPE_SHELL_TOOLS" by code_simp
qed (simp_all add: damaged_record_def fromServedGateRecord_def)

end
