(* ===== verification/McpScan.thy ===== *)
theory McpScan
  imports PiiScan Phrases
begin

text \<open>
  The scanners of the MCP proxy: prompt injection (\<open>packages/mcp-proxy/src/injection.ts\<close>), poisoned
  tool descriptions (\<open>packages/shared-types/src/toolPoison.ts\<close>), destructive SQL
  (\<open>packages/shared-types/src/destructiveSql.ts\<close>) and DLP (\<open>packages/mcp-proxy/src/dlp.ts\<close>).

  The built-in patterns are \<open>regexp\<close>s.  A workspace's own pattern source is compiled by the
  parameter \<open>compile\<close>, \<^const>\<open>None\<close> when \<open>new RegExp(src, 'i')\<close> throws.  The text of a number
  is a parameter.  The bullet U+2022 of a block reason is CHR 0x95.
\<close>

section \<open>Prompt injection\<close>

definition INJECTION_PATTERNS :: "(string \<times> regexp) list" where
  "INJECTION_PATTERNS =
     [(''override-instructions'',
       seqs [WordBound, words_i [''ignore'', ''disregard'', ''forget''], spaces,
             opt (alts [seqs [lit_i ''all'', spaces], seqs [lit_i ''any'', spaces]]),
             words_i [''previous'', ''prior'', ''earlier'', ''above'', ''preceding''], spaces,
             words_i [''instruction'', ''direction'', ''prompt'', ''rule'', ''command''], opt (lit_i ''s''), WordBound]),
      (''reveal-system-prompt'',
       seqs [WordBound, words_i [''reveal'', ''repeat'', ''print'', ''show'', ''output'', ''display''], spaces,
             opt (seqs [lit_i ''me'', spaces]), words_i [''your'', ''the''], spaces,
             alts [seqs [lit_i ''system'', spaces, lit_i ''prompt''], seqs [lit_i ''initial'', spaces, lit_i ''instructions''],
                   seqs [lit_i ''original'', spaces, lit_i ''instructions'']], WordBound]),
      (''role-reassignment'',
       alts [seqs [WordBound, lit_i ''you'', spaces, lit_i ''are'', spaces, lit_i ''now'', spaces, words_i [''a'', ''an'', ''in''], WordBound],
             seqs [WordBound, lit_i ''from'', spaces, lit_i ''now'', spaces, lit_i ''on'', opt (lit '',''), spaces, lit_i ''you'', spaces,
                   words_i [''are'', ''will'', ''must''], WordBound]]),
      (''guardrail-bypass'',
       alts [seqs [WordBound, words_i [''developer'', ''debug'', ''god''], spaces, lit_i ''mode'', WordBound],
             seqs [WordBound, lit_i ''DAN'', spaces, lit_i ''mode'', WordBound],
             seqs [WordBound, lit_i ''without'', spaces, lit_i ''any'', spaces, words_i [''restrictions'', ''filters'', ''guardrails''], WordBound]]),
      (''instruction-boundary-forgery'',
       seqs [alts [AtStart, lit [CHR 0x0A]], maybe_spaces,
             alts [seqs [lit ''['', opt (lit ''/''), words_i [''INST'', ''SYSTEM''], lit '']''],
                   seqs [lit ''<'', opt (lit ''|''), words_i [''im_start'', ''system''], opt (lit ''|''), lit ''>''],
                   seqs [lit ''###'', maybe_spaces, lit_i ''system'', WordBound]]])]"

definition KILL_THRESHOLD :: nat where "KILL_THRESHOLD = 2"

text \<open>The module's compiled workspace patterns, and the sources they were compiled from as one key.\<close>

record DynamicPatterns =
  dy_patterns :: "(string \<times> (string \<Rightarrow> bool)) list"
  dy_key :: string

definition no_dynamic :: DynamicPatterns where
  "no_dynamic = \<lparr>dy_patterns = [], dy_key = ''''\<rparr>"

fun compile_sources :: "(string \<Rightarrow> (string \<Rightarrow> bool) option) \<Rightarrow> nat \<Rightarrow> string list \<Rightarrow> (string \<times> (string \<Rightarrow> bool)) list" where
  "compile_sources compile i [] = []"
| "compile_sources compile i (src # rest) =
     (case compile src of
        None \<Rightarrow> compile_sources compile (i + 1) rest
      | Some t \<Rightarrow> (''workspace:'' @ nat_str (i + 1), t) # compile_sources compile (i + 1) rest)"

definition sources_key :: "string list \<Rightarrow> string" where
  "sources_key sources = join_with [CHR 0x00] sources"

text \<open>How many were dropped, and the patterns after.\<close>

definition setDynamicInjectionPatterns ::
    "(string \<Rightarrow> (string \<Rightarrow> bool) option) \<Rightarrow> string list \<Rightarrow> DynamicPatterns \<Rightarrow> nat \<times> DynamicPatterns" where
  "setDynamicInjectionPatterns compile sources st =
     (if sources_key sources = dy_key st then (0, st)
      else (length (filter (\<lambda>src. compile src = None) sources),
            \<lparr>dy_patterns = compile_sources compile 0 sources, dy_key = sources_key sources\<rparr>))"

definition scanText :: "DynamicPatterns \<Rightarrow> string \<Rightarrow> string list" where
  "scanText st s =
     (if s = '''' then []
      else map fst (filter (\<lambda>(name, re). re_test re s) INJECTION_PATTERNS)
           @ map fst (filter (\<lambda>(name, t). t s) (dy_patterns st)))"

datatype InjectionSource = SrcToolResult | SrcToolDescription | SrcToolInput
datatype InjectionSeverity = InjLow | InjHigh

definition injectionSeverity :: "string list \<Rightarrow> InjectionSource \<Rightarrow> InjectionSeverity" where
  "injectionSeverity findings source =
     (if KILL_THRESHOLD \<le> length findings \<or> source \<in> {SrcToolResult, SrcToolDescription} then InjHigh else InjLow)"

section \<open>Poisoned tool descriptions\<close>

definition no_stop :: "nat \<Rightarrow> regexp" where
  "no_stop n = Rep 0 n (none_of ''.!?'')"

definition word_char :: regexp where "word_char = Cls is_word"

definition rm_command :: regexp where
  "rm_command =
     (let flag = Cls (\<lambda>c. is_az c \<or> is_AZ c \<or> c = CHR ''-'');
          quote = cls_of ([CHR 0x22, CHR 0x27, CHR 0x60]) in
      seqs [WordBound, lit_i ''rm'', spaces, lit ''-'', Many 0 flag, Cls (\<lambda>c. ascii_lower_char c \<in> set ''rf''), Many 0 flag, spaces,
            Rep 0 4 (seqs [lit ''-'', Many 1 (Cls (\<lambda>c. \<not> is_trim_space c)), spaces]), opt quote,
            alts [seqs [lit ''/'', opt (lit ''*'')],
                  seqs [lit ''~'', opt (lit ''/''), opt (lit ''*'')],
                  seqs [lit ''$'', opt (lit ''{''), lit_i ''home'', opt (lit ''}''), opt (lit ''/''), opt (lit ''*'')]],
            alts [Cls (\<lambda>c. c \<in> {CHR 0x22, CHR 0x27, CHR 0x60} \<or> c \<in> set '';&|)'' \<or> is_trim_space c), AtEnd]])"

definition destructive_command :: regexp where
  "destructive_command =
     seqs [WordBound, words_i [''run'', ''execute'', ''exec'', ''invoke'', ''issue'', ''type'', ''enter'', ''paste''], WordBound, no_stop 40,
           alts [rm_command,
                 seqs [WordBound, lit_i ''mkfs'', WordBound],
                 seqs [WordBound, lit_i ''dd'', Cls is_trim_space, no_stop 60, WordBound, lit_i ''of=/dev/''],
                 seqs [WordBound, lit_i ''drop'', spaces, words_i [''database'', ''schema''], WordBound],
                 seqs [WordBound, words_i [''curl'', ''wget''], Cls is_trim_space, Rep 0 120 (none_of [CHR ''|'', CHR 0x0A]), lit ''|'', maybe_spaces,
                       opt (seqs [lit_i ''sudo'', spaces]), opt (words_i [''ba'', ''z'', ''da'', ''k'']), lit_i ''sh'', WordBound],
                 seqs [lit '':()'', maybe_spaces, lit ''{'', maybe_spaces, lit '':'', maybe_spaces, lit ''|'', maybe_spaces, lit '':'']]]"

definition TOOL_POISON_PATTERNS :: "(string \<times> regexp) list" where
  "TOOL_POISON_PATTERNS =
     [(''hidden-instruction-block'',
       seqs [lit ''<'', maybe_spaces,
             alts [lit_i ''important'', lit_i ''secret'', lit_i ''system'', lit_i ''hidden'', seqs [lit_i ''instruction'', opt (lit_i ''s'')]],
             maybe_spaces, lit ''>'']),
      (''conceal-from-user'',
       alts [seqs [WordBound, lit_i ''do'', spaces, lit_i ''not'', spaces,
                   words_i [''mention'', ''tell'', ''inform'', ''reveal'', ''disclose'', ''show''], WordBound, no_stop 40, WordBound, lit_i ''user'', WordBound],
             seqs [WordBound, lit_i ''without'', spaces, words_i [''informing'', ''telling'', ''notifying'', ''alerting''], spaces,
                   lit_i ''the'', spaces, lit_i ''user'', WordBound]]),
      (''sidechannel-exfil'',
       seqs [WordBound, words_i [''pass'', ''send'', ''include'', ''append'', ''forward'', ''provide''], WordBound, no_stop 60, WordBound,
             words_i [''content'', ''value'', ''text''], opt (lit_i ''s''), spaces, lit_i ''of'', WordBound, no_stop 40,
             alts [lit ''~/'', lit_i ''.env'', lit_i ''.ssh'', lit_i ''id_rsa'', lit_i ''credential'', lit_i ''secret'', lit_i ''token'',
                   seqs [lit_i ''api'', opt (cls_of ''_ ''), lit_i ''key'']]]),
      (''read-sensitive-path'',
       seqs [WordBound, words_i [''read'', ''open'', ''cat'', ''load'', ''access''], WordBound, no_stop 30,
             alts [seqs [lit ''~/.'', Many 1 word_char], lit_i ''.ssh/'', lit_i ''id_rsa'', seqs [lit_i ''.env'', WordBound], lit_i ''.aws/'',
                   lit_i ''mcp.json'', lit_i ''/etc/passwd'']]),
      (''cross-tool-shadowing'',
       alts [seqs [WordBound, lit_i ''use'', spaces, lit_i ''this'', spaces, lit_i ''tool'', spaces, lit_i ''instead'', spaces, lit_i ''of'', WordBound],
             seqs [WordBound, lit_i ''do'', spaces, lit_i ''not'', spaces, lit_i ''use'', spaces, lit_i ''the'', spaces, Many 1 word_char, spaces,
                   lit_i ''tool'', WordBound],
             seqs [WordBound, lit_i ''this'', spaces, lit_i ''tool'', spaces, lit_i ''supersedes'', WordBound]]),
      (''agent-directed-precondition'',
       seqs [WordBound, lit_i ''before'', spaces, words_i [''using'', ''calling'', ''invoking''], spaces, words_i [''this'', ''the''], spaces,
             lit_i ''tool'', WordBound, no_stop 80, WordBound,
             alts [seqs [lit_i ''you'', spaces, lit_i ''must''], seqs [lit_i ''first'', spaces, lit_i ''read''],
                   seqs [lit_i ''first'', spaces, lit_i ''call'']], WordBound]),
      (''tool-scoped-instruction-override'',
       seqs [WordBound, words_i [''ignore'', ''disregard'', ''override''], WordBound, no_stop 40, WordBound,
             alts [seqs [lit_i ''other'', spaces, lit_i ''tool'', opt (lit_i ''s'')], seqs [lit_i ''previous'', spaces, lit_i ''tool'', opt (lit_i ''s'')],
                   seqs [lit_i ''system'', spaces, lit_i ''prompt'']], WordBound]),
      (''destructive-command-instruction'', destructive_command)]"

definition scanToolDescription :: "string \<Rightarrow> string list" where
  "scanToolDescription description =
     (if description = '''' then [] else map fst (filter (\<lambda>(name, re). re_test re description) TOOL_POISON_PATTERNS))"

section \<open>Destructive SQL\<close>

record SqlStatement =
  sq_statement :: string
  sq_phrase :: string
  sq_description :: string

definition DESTRUCTIVE_SQL_STATEMENTS :: "SqlStatement list" where
  "DESTRUCTIVE_SQL_STATEMENTS =
     [\<lparr>sq_statement = ''DROP TABLE'', sq_phrase = ''drop table'', sq_description = ''SQL DROP TABLE statement''\<rparr>,
      \<lparr>sq_statement = ''DROP DATABASE'', sq_phrase = ''drop database'', sq_description = ''SQL DROP DATABASE statement''\<rparr>,
      \<lparr>sq_statement = ''DROP SCHEMA'', sq_phrase = ''drop schema'', sq_description = ''SQL DROP SCHEMA statement''\<rparr>,
      \<lparr>sq_statement = ''TRUNCATE TABLE'', sq_phrase = ''truncate table'', sq_description = ''SQL TRUNCATE TABLE statement''\<rparr>]"

definition findDestructiveSql :: "string \<Rightarrow> SqlStatement list" where
  "findDestructiveSql s = filter (\<lambda>st. hasPhrase (phraseText s) (sq_phrase st) True) DESTRUCTIVE_SQL_STATEMENTS"

section \<open>DLP\<close>

text \<open>A value or command pattern with its \<open>regex.source\<close>, or a SQL phrase.\<close>

datatype DlpPattern = DlpRegex string regexp string bool | DlpPhrase string string

record DlpFinding =
  dl_pattern :: string
  dl_description :: string

definition bs :: string where "bs = [CHR 0x5C]"

definition token_class :: "string \<Rightarrow> char \<Rightarrow> bool" where
  "token_class extra c \<longleftrightarrow> is_az c \<or> is_AZ c \<or> is_digit c \<or> c \<in> set extra"

definition pem_key :: "regexp \<Rightarrow> regexp" where
  "pem_key kind = seqs [lit ''-----BEGIN'', spaces, kind, lit ''PRIVATE KEY-----'']"

definition DLP_PATTERNS :: "DlpPattern list" where
  "DLP_PATTERNS =
     [DlpRegex ''sk-[A-Za-z0-9]{20,}'' (Seq (lit ''sk-'') (Many 20 (Cls (token_class '''')))) ''OpenAI API key pattern'' True,
      DlpRegex (''sk-ant-[A-Za-z0-9'' @ bs @ ''-_]{20,}'') (Seq (lit ''sk-ant-'') (Many 20 (Cls (token_class ''-_'')))) ''Anthropic API key pattern'' True,
      DlpRegex (''AIza[A-Za-z0-9'' @ bs @ ''-_]{35}'') (Seq (lit ''AIza'') (Rep 35 0 (Cls (token_class ''-_'')))) ''Google API key pattern'' True,
      DlpRegex ''ghp_[A-Za-z0-9]{36}'' (Seq (lit ''ghp_'') (Rep 36 0 (Cls (token_class '''')))) ''GitHub personal access token'' True,
      DlpRegex ''ghs_[A-Za-z0-9]{36}'' (Seq (lit ''ghs_'') (Rep 36 0 (Cls (token_class '''')))) ''GitHub server token'' True,
      DlpRegex ''xoxb-[A-Za-z0-9-]{50,}'' (Seq (lit ''xoxb-'') (Many 50 (Cls (token_class ''-'')))) ''Slack bot token'' True,
      DlpRegex ''xoxp-[A-Za-z0-9-]{50,}'' (Seq (lit ''xoxp-'') (Many 50 (Cls (token_class ''-'')))) ''Slack user token'' True,
      DlpRegex ''AKIA[A-Z0-9]{16}'' (Seq (lit ''AKIA'') (Rep 16 0 (Cls (\<lambda>c. is_AZ c \<or> is_digit c)))) ''AWS Access Key ID'' True,
      DlpRegex ''[0-9a-f]{40,}'' (Many 40 (Cls (\<lambda>c. is_digit c \<or> c \<in> set ''abcdef''))) ''High-entropy hex string (possible secret)'' True,
      DlpRegex (''rm'' @ bs @ ''s+-rf?'' @ bs @ ''s+'' @ bs @ ''/'')
        (seqs [lit ''rm'', spaces, lit ''-r'', opt (lit ''f''), spaces, lit ''/'']) ''Destructive rm -rf / command'' False]
     @ map (\<lambda>st. DlpPhrase (sq_phrase st) (sq_description st)) DESTRUCTIVE_SQL_STATEMENTS
     @ [DlpRegex (''-----BEGIN'' @ bs @ ''s+(RSA'' @ bs @ ''s+)?PRIVATE KEY-----'') (pem_key (opt (seqs [lit ''RSA'', spaces])))
          ''PEM private key material'' True,
        DlpRegex (''-----BEGIN'' @ bs @ ''s+EC'' @ bs @ ''s+PRIVATE KEY-----'') (pem_key (seqs [lit ''EC'', spaces]))
          ''EC private key material'' True]"

text \<open>The module's settings: the machine's own actions, and the workspace's when it has set them.\<close>

record DlpSettings =
  ds_localPii :: PiiDetectorSettings
  ds_workspacePii :: "PiiDetectorSettings option"

definition enabledPii :: "DlpSettings \<Rightarrow> PiiDetector list" where
  "enabledPii st =
     (let actions = effectivePiiActions (ds_localPii st) (ds_workspacePii st) in
      filter (\<lambda>d. map_of actions (pd_id d) \<noteq> Some PiiOff) PII_DETECTORS)"

definition configurePii :: "(json \<Rightarrow> string) \<Rightarrow> (string \<Rightarrow> json option) \<Rightarrow> string option \<Rightarrow> DlpSettings \<Rightarrow> string list \<times> DlpSettings" where
  "configurePii joinText jsonParse raw st =
     (let (configured, problems) = parseLocalPiiActions joinText jsonParse raw in (problems, st\<lparr>ds_localPii := configured\<rparr>))"

definition setWorkspacePii :: "WorkspacePiiDetectors \<Rightarrow> DlpSettings \<Rightarrow> DlpSettings" where
  "setWorkspacePii setting st = st\<lparr>ds_workspacePii := (case setting of PiiSet actions \<Rightarrow> Some actions | _ \<Rightarrow> None)\<rparr>"

text \<open>The spans are replaced from the last to the first, so the earlier ones stay valid.\<close>

definition cut_span :: "string \<Rightarrow> nat \<times> nat \<Rightarrow> string \<Rightarrow> string" where
  "cut_span by' sp s = take (fst sp) s @ by' @ drop (snd sp) s"

definition cut_spans :: "string \<Rightarrow> (nat \<times> nat) list \<Rightarrow> string \<Rightarrow> string" where
  "cut_spans by' spans s = fold (cut_span by') (rev spans) s"

definition redact_pattern :: "DlpPattern \<Rightarrow> string \<times> DlpFinding list \<Rightarrow> string \<times> DlpFinding list" where
  "redact_pattern p r =
     (case p of
        DlpPhrase ph d \<Rightarrow> r
      | DlpRegex source re d redactable \<Rightarrow>
          if redactable \<and> re_test re (fst r)
          then (replace_all re ''[REDACTED_SECRET]'' (fst r), snd r @ [\<lparr>dl_pattern = source, dl_description = d\<rparr>])
          else r)"

definition redact_detector :: "PiiDetector \<Rightarrow> string \<times> DlpFinding list \<Rightarrow> string \<times> DlpFinding list" where
  "redact_detector det r =
     (let spans = findPii det (fst r) in
      if spans = [] then r
      else (cut_spans ''[REDACTED_PII]'' spans (fst r),
            snd r @ [\<lparr>dl_pattern = pd_id det, dl_description = pd_description det\<rparr>]))"

definition redactText :: "DlpSettings \<Rightarrow> string \<Rightarrow> string \<times> DlpFinding list" where
  "redactText st s = fold redact_detector (enabledPii st) (fold redact_pattern DLP_PATTERNS (s, []))"

text \<open>The loop of \<open>argumentStrings\<close>, the top of \<open>pending\<close> first.\<close>

fun nodes :: "json \<Rightarrow> nat" where
  "nodes (JArr xs) = Suc (sum_list (map nodes xs))"
| "nodes (JObj kvs) = Suc (sum_list (map (\<lambda>kv. nodes (snd kv)) kvs))"
| "nodes v = 1"

function (sequential) argument_loop :: "json list \<Rightarrow> string list \<Rightarrow> string list" where
  "argument_loop [] out = out"
| "argument_loop (JStr s # pending) out = argument_loop pending (out @ [s])"
| "argument_loop (JArr xs # pending) out = argument_loop (rev xs @ pending) out"
| "argument_loop (JObj kvs # pending) out = argument_loop (rev (map snd kvs) @ pending) (out @ map fst kvs)"
| "argument_loop (v # pending) out = argument_loop pending out"
  by pat_completeness auto
termination
  by (relation "measure (\<lambda>(pending, out). sum_list (map nodes pending))") (auto simp: rev_map [symmetric] comp_def sum_list_rev)

definition argumentStrings :: "json option \<Rightarrow> string list" where
  "argumentStrings v = (case v of None \<Rightarrow> [] | Some w \<Rightarrow> argument_loop [w] [])"

definition pattern_hit :: "string \<Rightarrow> string list \<Rightarrow> DlpPattern \<Rightarrow> bool" where
  "pattern_hit serialized strings p \<longleftrightarrow>
     (case p of
        DlpPhrase ph d \<Rightarrow> list_ex (\<lambda>s. hasPhrase (phraseText s) ph True) strings
      | DlpRegex source re d redactable \<Rightarrow> if redactable then re_test re serialized else list_ex (re_test re) strings)"

definition pattern_finding :: "DlpPattern \<Rightarrow> DlpFinding" where
  "pattern_finding p =
     (case p of
        DlpPhrase ph d \<Rightarrow> \<lparr>dl_pattern = ph, dl_description = d\<rparr>
      | DlpRegex source re d redactable \<Rightarrow> \<lparr>dl_pattern = source, dl_description = d\<rparr>)"

definition scanToolInput :: "(rat \<Rightarrow> string) \<Rightarrow> DlpSettings \<Rightarrow> json option \<Rightarrow> DlpFinding list" where
  "scanToolInput numStr st toolInput =
     (let serialized = stringify numStr (or_object toolInput); strings = argumentStrings toolInput in
      map pattern_finding (filter (pattern_hit serialized strings) DLP_PATTERNS)
      @ map (\<lambda>d. \<lparr>dl_pattern = pd_id d, dl_description = pd_description d\<rparr>)
          (filter (\<lambda>d. findPii d serialized \<noteq> []) (enabledPii st)))"

definition formatDlpBlockReason :: "DlpFinding list \<Rightarrow> string" where
  "formatDlpBlockReason findings =
     ''Tool call blocked by Intutic DLP scanner. Sensitive data detected:'' @ [CHR 0x0A]
     @ join_with [CHR 0x0A] (map (\<lambda>f. [CHR 0x95] @ '' '' @ dl_description f) findings)"

section \<open>What is scanned, and what redaction keeps\<close>

text \<open>Every text of a JSON value: its strings at any depth, and the keys of its objects.\<close>

fun json_texts :: "json \<Rightarrow> string set" where
  "json_texts (JStr s) = {s}"
| "json_texts (JArr xs) = \<Union> (set (map json_texts xs))"
| "json_texts (JObj kvs) = fst ` set kvs \<union> \<Union> (set (map (\<lambda>kv. json_texts (snd kv)) kvs))"
| "json_texts _ = {}"

lemma argument_loop_texts: "set (argument_loop pending out) = set out \<union> \<Union> (json_texts ` set pending)"
  by (induction pending out rule: argument_loop.induct) (auto simp: image_iff)

text \<open>No string an agent sends escapes the command scan by being nested: the loop over the arguments
  ends, and it visits exactly the strings and object keys at every depth.\<close>

theorem argumentStrings_exact:
  "set (argumentStrings (Some v)) = json_texts v"
  by (simp add: argumentStrings_def argument_loop_texts)

text \<open>The text cut into the parts between the spans.\<close>

fun cut_pieces :: "string \<Rightarrow> nat \<Rightarrow> (nat \<times> nat) list \<Rightarrow> string \<Rightarrow> string" where
  "cut_pieces by' pos [] s = drop pos s"
| "cut_pieces by' pos ((a, b) # spans) s = slice pos a s @ by' @ cut_pieces by' b spans s"

fun apart :: "nat \<Rightarrow> (nat \<times> nat) list \<Rightarrow> nat \<Rightarrow> bool" where
  "apart pos [] n \<longleftrightarrow> pos \<le> n"
| "apart pos ((a, b) # spans) n \<longleftrightarrow> pos \<le> a \<and> a \<le> b \<and> apart b spans n"

lemma apart_le: "apart pos spans n \<Longrightarrow> pos \<le> n"
  by (induction pos spans n rule: apart.induct) auto

lemma cut_spans_pieces: "apart pos spans (length s) \<Longrightarrow> fold (cut_span by') (rev spans) s = take pos s @ cut_pieces by' pos spans s"
proof (induction by' pos spans s rule: cut_pieces.induct)
  case (2 by' pos a b spans s)
  from "2.prems" have r: "pos \<le> a" "a \<le> b" "b \<le> length s" by (auto dest: apart_le)
  from 2 have "fold (cut_span by') (rev spans) s = take b s @ cut_pieces by' b spans s" by simp
  then have "fold (cut_span by') (rev ((a, b) # spans)) s = cut_span by' (a, b) (take b s @ cut_pieces by' b spans s)" by simp
  also have "\<dots> = take a s @ by' @ cut_pieces by' b spans s"
    using r by (simp add: cut_span_def min_def)
  also have "take a s = take pos s @ slice pos a s"
    using r by (simp add: slice_def) (metis le_add_diff_inverse take_add)
  finally show ?case by simp
qed simp

lemma spans_from_apart: "spans_from det s pos spans \<Longrightarrow> pos \<le> length s \<Longrightarrow> apart pos spans (length s)"
  by (induction det s pos spans rule: spans_from.induct) auto

text \<open>C29: Redaction is exact: cutting a detector's spans out one by one, from the last to the first,
  leaves what lies between them as it was, in order, with one placeholder for each.\<close>

theorem redact_pii_exact:
  assumes "det \<in> set PII_DETECTORS"
  shows "cut_spans by' (findPii det s) s = cut_pieces by' 0 (findPii det s) s"
  using cut_spans_pieces [OF spans_from_apart [of det s 0 "findPii det s"]] findPii_spans [OF assms, of s]
  by (simp add: cut_spans_def)

theorem redact_pii_exact_witness:
  "cut_spans ''#'' (findPii (PII_DETECTORS ! 2) ''my 123-45-6789.'') ''my 123-45-6789.''
   = cut_pieces ''#'' 0 (findPii (PII_DETECTORS ! 2) ''my 123-45-6789.'') ''my 123-45-6789.''"
  by (rule redact_pii_exact) (simp add: PII_DETECTORS_def)

section \<open>The compiled workspace patterns\<close>

definition plain_sources :: "string list \<Rightarrow> bool" where
  "plain_sources sources \<longleftrightarrow> list_all (\<lambda>s. s \<noteq> '''' \<and> CHR 0x00 \<notin> set s) sources"

lemma sources_key_inj:
  assumes "sources_key xs = sources_key ys" "plain_sources xs" "plain_sources ys"
  shows "xs = ys"
proof -
  have nil: "sources_key zs = '''' \<Longrightarrow> plain_sources zs \<Longrightarrow> zs = []" for zs
    by (cases zs rule: remdups_adj.cases) (auto simp: sources_key_def plain_sources_def)
  have split: "zs \<noteq> [] \<Longrightarrow> plain_sources zs \<Longrightarrow> split_on (CHR 0x00) (sources_key zs) = zs" for zs
    unfolding sources_key_def by (rule split_on_join) (auto simp: plain_sources_def list_all_iff)
  show ?thesis
  proof (cases "xs = [] \<or> ys = []")
    case True
    with nil [of xs] nil [of ys] assms show ?thesis by (auto simp: sources_key_def)
  next
    case False
    then have "split_on (CHR 0x00) (sources_key xs) = xs" "split_on (CHR 0x00) (sources_key ys) = ys"
      using split assms(2,3) by blast+
    with assms(1) show ?thesis by metis
  qed
qed

text \<open>What the module holds is what it last compiled.\<close>

definition dynamic_ok :: "(string \<Rightarrow> (string \<Rightarrow> bool) option) \<Rightarrow> DynamicPatterns \<Rightarrow> bool" where
  "dynamic_ok compile st \<longleftrightarrow>
     (\<exists>sources. plain_sources sources \<and> dy_key st = sources_key sources \<and> dy_patterns st = compile_sources compile 0 sources)"

lemma set_dynamic_ok:
  assumes "dynamic_ok compile st" "plain_sources sources"
  shows "dy_patterns (snd (setDynamicInjectionPatterns compile sources st)) = compile_sources compile 0 sources
       \<and> dynamic_ok compile (snd (setDynamicInjectionPatterns compile sources st))"
  using assms sources_key_inj [OF _ assms(2)]
  by (auto simp: setDynamicInjectionPatterns_def dynamic_ok_def)

text \<open>Comparing the joined sources is enough to know whether to compile again: after any sequence of
  policies, the patterns in force are those of the last policy's sources (which hold no NUL and none
  of which is empty).\<close>

theorem dynamic_patterns_current:
  assumes "list_all plain_sources policies" "plain_sources sources"
  shows "dy_patterns (snd (setDynamicInjectionPatterns compile sources
           (fold (\<lambda>p st. snd (setDynamicInjectionPatterns compile p st)) policies no_dynamic)))
       = compile_sources compile 0 sources"
proof -
  have start: "dynamic_ok compile no_dynamic"
    by (auto simp: dynamic_ok_def no_dynamic_def plain_sources_def sources_key_def intro!: exI [of _ "[]"])
  have "dynamic_ok compile st \<Longrightarrow> dynamic_ok compile (fold (\<lambda>p st. snd (setDynamicInjectionPatterns compile p st)) policies st)" for st
    using assms(1) by (induction policies arbitrary: st) (auto dest: set_dynamic_ok)
  with start set_dynamic_ok [OF _ assms(2)] show ?thesis by blast
qed

theorem dynamic_patterns_current_witness:
  "dy_patterns (snd (setDynamicInjectionPatterns (\<lambda>p. Some (\<lambda>s. s = p)) [''b'']
     (fold (\<lambda>p st. snd (setDynamicInjectionPatterns (\<lambda>p. Some (\<lambda>s. s = p)) p st)) [[''a''], [''a'', ''b'']] no_dynamic)))
   = compile_sources (\<lambda>p. Some (\<lambda>s. s = p)) 0 [''b'']"
  by (rule dynamic_patterns_current) (simp_all add: plain_sources_def)

end
