(* ===== verification/McpWasm.thy ===== *)
theory McpWasm
  imports McpPolicy McpSession RegoRules
begin

text \<open>
  The custom rules of the MCP proxy: the rules of this machine (\<open>packages/mcp-proxy/src/wasm/loader.ts\<close>), those
  of the workspace (\<open>wasm/cloudRules.ts\<close>), the document a rule reads (\<open>wasm/context.ts\<close>) and the runner that evaluates
  both (\<open>wasm/runner.ts\<close>).

  A binary is of type \<open>'b\<close>.  What compiling it, reading a file, fetching a hash and evaluating a rule
  answer are arguments: the worker thread runs WebAssembly, which is not under \<open>src/\<close>.  A reply that did not come
  before its deadline is \<^const>\<open>None\<close>.  Requests are answered one after the other, as the code awaits each; the
  respawned worker recompiles what was loaded and keeps no state of ours.
\<close>

section \<open>Compiling\<close>

datatype CompileFailureReason = CompileError | UnsupportedImport | LoadError

datatype CompileOutcome =
    Compiled (co_readsReferencedFiles: bool) (co_rego: bool)
  | NotCompiled CompileFailureReason string

text \<open>The worker's reply to a compile message.\<close>

record CompileReply =
  cr_ok :: bool
  cr_readsReferencedFiles :: "bool option"
  cr_rego :: "bool option"
  cr_unsupportedImports :: "string list option"
  cr_reason :: "CompileFailureReason option"
  cr_error :: "string option"

definition COMPILE_TIMEOUT_MS :: nat where "COMPILE_TIMEOUT_MS = 3000"

definition or_default :: "'a \<Rightarrow> 'a option \<Rightarrow> 'a" where
  "or_default d v = (case v of None \<Rightarrow> d | Some x \<Rightarrow> x)"

definition compile_outcome :: "nat \<Rightarrow> CompileReply option \<Rightarrow> CompileOutcome" where
  "compile_outcome compileTimeoutMs reply =
     (case reply of
        None \<Rightarrow> NotCompiled LoadError (''compile timed out after '' @ nat_str compileTimeoutMs @ ''ms'')
      | Some r \<Rightarrow>
          if \<not> cr_ok r then
            NotCompiled (or_default LoadError (cr_reason r))
              (or_default
                (case cr_unsupportedImports r of
                   Some (x # xs) \<Rightarrow> ''imports '' @ join_with '', '' (x # xs) @ '', which this proxy does not provide''
                 | _ \<Rightarrow> ''unknown compile error'')
                (cr_error r))
          else Compiled (or_default False (cr_readsReferencedFiles r)) (or_default False (cr_rego r)))"

section \<open>The rules of this machine\<close>

definition MAX_RULE_FILE_BYTES :: nat where "MAX_RULE_FILE_BYTES = 10 * 1024 * 1024"
definition DEFAULT_PRIORITY :: nat where "DEFAULT_PRIORITY = 100"

definition wasm_stem :: "string \<Rightarrow> string" where
  "wasm_stem fileName = (if suffix ''.wasm'' fileName then take (length fileName - 5) fileName else fileName)"

definition parsePriority :: "string \<Rightarrow> nat \<times> string" where
  "parsePriority fileName =
     (let stem = wasm_stem fileName in
      case index_of ''_'' stem of
        None \<Rightarrow> (DEFAULT_PRIORITY, stem)
      | Some idx \<Rightarrow>
          if 0 < idx \<and> idx < length stem - 1 \<and> list_all is_digit (take idx stem)
          then (digits_value (take idx stem), drop (idx + 1) stem)
          else (DEFAULT_PRIORITY, stem))"

type_synonym FileSignature = "nat \<times> nat"

record 'b LoadedRuleMeta =
  lm_ruleId :: string
  lm_fileName :: string
  lm_name :: string
  lm_priority :: nat
  lm_readsReferencedFiles :: bool
  lm_rego :: bool
  lm_bytes :: 'b

text \<open>Maps keyed by path, in insertion order.\<close>

record 'b WasmLoader =
  wl_signatures :: "(string \<times> FileSignature) list"
  wl_loaded :: "(string \<times> 'b LoadedRuleMeta) list"

definition new_loader :: "'b WasmLoader" where
  "new_loader = \<lparr>wl_signatures = [], wl_loaded = []\<rparr>"

definition loader_rules :: "'b WasmLoader \<Rightarrow> 'b LoadedRuleMeta list" where
  "loader_rules l = sort_key lm_priority (map snd (wl_loaded l))"

definition signaturesEqual :: "(string \<times> FileSignature) list \<Rightarrow> (string \<times> FileSignature) list \<Rightarrow> bool" where
  "signaturesEqual a b \<longleftrightarrow> length a = length b \<and> list_all (\<lambda>(k, sig). map_of b k = Some sig) a"

definition base_name :: "string \<Rightarrow> string" where
  "base_name path = last (split_on (CHR ''/'') path)"

definition local_rule_id :: "string \<Rightarrow> string" where
  "local_rule_id path = ''local:'' @ base_name path"

text \<open>One new or changed file: \<open>bytes\<close> and \<open>outcome\<close> are what reading and compiling it answer.\<close>

definition load_file :: "(string \<Rightarrow> 'b option) \<Rightarrow> (string \<Rightarrow> 'b \<Rightarrow> CompileOutcome) \<Rightarrow> string \<Rightarrow> FileSignature
    \<Rightarrow> (string \<times> 'b LoadedRuleMeta) list \<Rightarrow> (string \<times> 'b LoadedRuleMeta) list" where
  "load_file read compile path sig loaded =
     (if MAX_RULE_FILE_BYTES < snd sig then loaded
      else case read path of
        None \<Rightarrow> loaded
      | Some bytes \<Rightarrow>
          (case compile (local_rule_id path) bytes of
             NotCompiled reason e \<Rightarrow> loaded
           | Compiled refs rego \<Rightarrow>
               AList.update path
                 \<lparr>lm_ruleId = local_rule_id path, lm_fileName = base_name path, lm_name = snd (parsePriority (base_name path)),
                  lm_priority = fst (parsePriority (base_name path)), lm_readsReferencedFiles = refs, lm_rego = rego, lm_bytes = bytes\<rparr>
                 loaded))"

definition file_changed :: "bool \<Rightarrow> (string \<times> FileSignature) list \<Rightarrow> string \<times> FileSignature \<Rightarrow> bool" where
  "file_changed force previous e \<longleftrightarrow> force \<or> map_of previous (fst e) \<noteq> Some (snd e)"

text \<open>\<open>scan\<close>: the directory's signatures, \<^const>\<open>None\<close> when scanning failed.  The rules removed come second.\<close>

definition loader_rescan :: "(string \<Rightarrow> 'b option) \<Rightarrow> (string \<Rightarrow> 'b \<Rightarrow> CompileOutcome) \<Rightarrow> (string \<times> FileSignature) list option \<Rightarrow> bool
    \<Rightarrow> 'b WasmLoader \<Rightarrow> 'b WasmLoader \<times> string list" where
  "loader_rescan read compile scan force l =
     (case scan of
        None \<Rightarrow> (l, [])
      | Some new \<Rightarrow>
          if \<not> force \<and> signaturesEqual new (wl_signatures l) then (l, [])
          else
            let gone = filter (\<lambda>(path, meta). map_of new path = None) (wl_loaded l);
                kept = filter (\<lambda>(path, meta). map_of new path \<noteq> None) (wl_loaded l)
            in (\<lparr>wl_signatures = new,
                 wl_loaded = fold (\<lambda>(path, sig). load_file read compile path sig) (filter (file_changed force (wl_signatures l)) new) kept\<rparr>,
                map (\<lambda>(path, meta). lm_ruleId meta) gone))"


section \<open>The rules of the workspace\<close>

definition CLOUD_RETRY_MS :: int where "CLOUD_RETRY_MS = 5000"

record 'b CloudRuleMeta =
  cm_ruleId :: string
  cm_name :: string
  cm_sha256 :: string
  cm_priority :: nat
  cm_mode :: WasmRuleMode
  cm_readsReferencedFiles :: bool
  cm_rego :: bool
  cm_bytes :: 'b

datatype CloudRuleRefusal = BinaryMissing | HashMismatch string | CannotLoad CompileFailureReason string

record CloudRuleRefusalReport =
  rr_descriptor :: WasmRuleDescriptor
  rr_refusal :: CloudRuleRefusal
  rr_hasPrevious :: bool
  rr_description :: string

definition reason_text :: "CompileFailureReason \<Rightarrow> string" where
  "reason_text r = (case r of CompileError \<Rightarrow> ''compile_error'' | UnsupportedImport \<Rightarrow> ''unsupported_import'' | LoadError \<Rightarrow> ''load_error'')"

definition refusal_kind :: "CloudRuleRefusal \<Rightarrow> string" where
  "refusal_kind r = (case r of BinaryMissing \<Rightarrow> ''missing'' | HashMismatch actual \<Rightarrow> ''hash_mismatch'' | CannotLoad reason e \<Rightarrow> reason_text reason)"

record WasmRuleRefusalDetail =
  wr_ruleId :: string
  wr_name :: string
  wr_sha256 :: string
  wr_refusal :: string
  wr_actualSha256 :: "string option"
  wr_previousInForce :: bool

definition refusalDetail :: "CloudRuleRefusalReport \<Rightarrow> WasmRuleRefusalDetail" where
  "refusalDetail report =
     \<lparr>wr_ruleId = wd_ruleId (rr_descriptor report), wr_name = wd_name (rr_descriptor report), wr_sha256 = wd_sha256 (rr_descriptor report),
      wr_refusal = refusal_kind (rr_refusal report),
      wr_actualSha256 = (case rr_refusal report of HashMismatch actual \<Rightarrow> Some actual | _ \<Rightarrow> None),
      wr_previousInForce = rr_hasPrevious report\<rparr>"

definition binaryMatches :: "('b \<Rightarrow> string) \<Rightarrow> 'b \<Rightarrow> string \<Rightarrow> bool \<times> string" where
  "binaryMatches sha256Hex bytes sha256 = (let actual = sha256Hex bytes in (actual = to_lower sha256, actual))"

definition refusalKey :: "CloudRuleRefusal \<Rightarrow> string" where
  "refusalKey r = (case r of HashMismatch actual \<Rightarrow> actual | _ \<Rightarrow> refusal_kind r)"

definition describeRefusal :: "WasmRuleDescriptor \<Rightarrow> CloudRuleRefusal \<Rightarrow> bool \<Rightarrow> string" where
  "describeRefusal d refusal hasPrevious =
     ''WASM rule '' @ in_quotes (wd_name d) @ '' ('' @ wd_ruleId d @ '') was refused: ''
     @ (case refusal of
          BinaryMissing \<Rightarrow> ''its binary is missing from the control plane''
        | HashMismatch actual \<Rightarrow> ''its binary hashes to '' @ actual @ '' but its descriptor names '' @ wd_sha256 d
        | CannotLoad reason e \<Rightarrow> ''it cannot be loaded: '' @ e)
     @ ''. ''
     @ (if hasPrevious then ''The previously loaded version stays in force.''
        else ''No version of this rule has loaded on this proxy, so it enforces nothing until one does.'')"

record 'b CloudRuleSet =
  cs_rules :: "'b CloudRuleMeta list"
  cs_appliedKey :: "string option"
  cs_attemptedKey :: "string option"
  cs_attemptedAt :: int
  cs_incomplete :: bool
  cs_reported :: "string set"

definition new_cloud_rules :: "'b CloudRuleSet" where
  "new_cloud_rules =
     \<lparr>cs_rules = [], cs_appliedKey = None, cs_attemptedKey = None, cs_attemptedAt = 0, cs_incomplete = False, cs_reported = {}\<rparr>"

definition cloud_isLoaded :: "'b CloudRuleSet \<Rightarrow> bool" where
  "cloud_isLoaded s \<longleftrightarrow> cs_appliedKey s \<noteq> None"

definition mode_text :: "WasmRuleMode \<Rightarrow> string" where
  "mode_text m = (case m of WasmEnforce \<Rightarrow> ''ENFORCE'' | WasmShadow \<Rightarrow> ''SHADOW'')"

definition descriptor_json :: "WasmRuleDescriptor \<Rightarrow> json" where
  "descriptor_json d = JObj
     [(''ruleId'', JStr (wd_ruleId d)), (''name'', JStr (wd_name d)), (''sha256'', JStr (wd_sha256 d)),
      (''priority'', JNum (of_nat (wd_priority d))), (''mode'', JStr (mode_text (wd_mode d)))]"

definition descriptors_key :: "(rat \<Rightarrow> string) \<Rightarrow> WasmRuleDescriptor list \<Rightarrow> string" where
  "descriptors_key numStr ds = stringify numStr (JArr (map descriptor_json ds))"

definition cloud_described :: "WasmRuleDescriptor \<Rightarrow> 'b CloudRuleMeta \<Rightarrow> 'b CloudRuleMeta" where
  "cloud_described d r =
     r\<lparr>cm_ruleId := wd_ruleId d, cm_name := wd_name d, cm_sha256 := wd_sha256 d, cm_priority := wd_priority d, cm_mode := wd_mode d\<rparr>"

definition cloud_reuse :: "(string \<Rightarrow> 'b \<Rightarrow> CompileOutcome) \<Rightarrow> WasmRuleDescriptor \<Rightarrow> 'b CloudRuleMeta \<Rightarrow> CloudRuleRefusal + 'b CloudRuleMeta" where
  "cloud_reuse compile d loaded =
     (if cm_ruleId loaded \<noteq> wd_ruleId d
      then (case compile (wd_ruleId d) (cm_bytes loaded) of
              NotCompiled reason e \<Rightarrow> Inl (CannotLoad reason e)
            | Compiled refs rego \<Rightarrow> Inr (cloud_described d loaded))
      else Inr (cloud_described d loaded))"

definition cloud_load :: "('b \<Rightarrow> string) \<Rightarrow> (string \<Rightarrow> 'b \<Rightarrow> CompileOutcome) \<Rightarrow> WasmRuleDescriptor \<Rightarrow> 'b option \<Rightarrow> CloudRuleRefusal + 'b CloudRuleMeta" where
  "cloud_load sha256Hex compile d bytes =
     (case bytes of
        None \<Rightarrow> Inl BinaryMissing
      | Some b \<Rightarrow>
          (let (matches, actual) = binaryMatches sha256Hex b (wd_sha256 d) in
           if \<not> matches then Inl (HashMismatch actual)
           else case compile (wd_ruleId d) b of
             NotCompiled reason e \<Rightarrow> Inl (CannotLoad reason e)
           | Compiled refs rego \<Rightarrow>
               Inr \<lparr>cm_ruleId = wd_ruleId d, cm_name = wd_name d, cm_sha256 = wd_sha256 d, cm_priority = wd_priority d, cm_mode = wd_mode d,
                    cm_readsReferencedFiles = refs, cm_rego = rego, cm_bytes = b\<rparr>))"

text \<open>A map built from a list: the last entry of a key counts.\<close>

definition last_by :: "('a \<Rightarrow> 'k) \<Rightarrow> 'a list \<Rightarrow> 'k \<Rightarrow> 'a option" where
  "last_by f xs k = find (\<lambda>x. f x = k) (rev xs)"

definition try_load ::
    "('b \<Rightarrow> string) \<Rightarrow> (string \<Rightarrow> 'b option option) \<Rightarrow> (string \<Rightarrow> 'b \<Rightarrow> CompileOutcome) \<Rightarrow> 'b CloudRuleMeta list \<Rightarrow> WasmRuleDescriptor
     \<Rightarrow> CloudRuleRefusal + 'b CloudRuleMeta" where
  "try_load sha256Hex fetch compile rules d =
     (case last_by cm_sha256 rules (wd_sha256 d) of
        Some loaded \<Rightarrow> cloud_reuse compile d loaded
      | None \<Rightarrow> cloud_load sha256Hex compile d (case fetch (wd_sha256 d) of None \<Rightarrow> None | Some b \<Rightarrow> b))"

text \<open>One descriptor of the list: the rule kept for it, if any, and what it reports; \<open>reported\<close> are the ids of the
  reports already sent.\<close>

definition report_id :: "WasmRuleDescriptor \<Rightarrow> CloudRuleRefusal \<Rightarrow> string" where
  "report_id d refusal = join_with [CHR 0x00] [wd_sha256 d, refusalKey refusal]"

definition refusal_report :: "WasmRuleDescriptor \<Rightarrow> CloudRuleRefusal \<Rightarrow> bool \<Rightarrow> CloudRuleRefusalReport" where
  "refusal_report d refusal hasPrevious =
     \<lparr>rr_descriptor = d, rr_refusal = refusal, rr_hasPrevious = hasPrevious, rr_description = describeRefusal d refusal hasPrevious\<rparr>"

fun apply_loop ::
    "('b \<Rightarrow> string) \<Rightarrow> (string \<Rightarrow> 'b option option) \<Rightarrow> (string \<Rightarrow> 'b \<Rightarrow> CompileOutcome) \<Rightarrow> 'b CloudRuleMeta list \<Rightarrow> WasmRuleDescriptor list
     \<Rightarrow> string set \<Rightarrow> 'b CloudRuleMeta list \<times> bool \<times> string set \<times> CloudRuleRefusalReport list \<times> string list" where
  "apply_loop sha256Hex fetch compile rules [] reported = ([], False, reported, [], [])"
| "apply_loop sha256Hex fetch compile rules (d # ds) reported =
     (let previous = last_by cm_ruleId rules (wd_ruleId d) in
      case try_load sha256Hex fetch compile rules d of
        Inl refusal \<Rightarrow>
          (let i = report_id d refusal;
               (nxt, incomplete, reported', reports, changed) = apply_loop sha256Hex fetch compile rules ds (insert i reported)
           in ((case previous of None \<Rightarrow> nxt | Some r \<Rightarrow> r # nxt), True, reported',
               (if i \<in> reported then reports else refusal_report d refusal (previous \<noteq> None) # reports), changed))
      | Inr r \<Rightarrow>
          (let (nxt, incomplete, reported', reports, changed) = apply_loop sha256Hex fetch compile rules ds reported
           in (r # nxt, incomplete, reported', reports,
               (if map_option cm_sha256 previous \<noteq> Some (wd_sha256 d) then wd_ruleId d # changed else changed))))"

text \<open>\<open>apply\<close>: the set after it, the reports sent, and the rules whose old version no longer counts (replaced, or
  removed from the worker).  \<open>fetch\<close> answers \<^const>\<open>None\<close> when the control plane could not be asked.\<close>

definition cloud_apply ::
    "('b \<Rightarrow> string) \<Rightarrow> (string \<Rightarrow> 'b option option) \<Rightarrow> (string \<Rightarrow> 'b \<Rightarrow> CompileOutcome) \<Rightarrow> int \<Rightarrow> WasmRuleDescriptor list \<Rightarrow> string
     \<Rightarrow> 'b CloudRuleSet \<Rightarrow> 'b CloudRuleSet \<times> CloudRuleRefusalReport list \<times> string list" where
  "cloud_apply sha256Hex fetch compile now ds key s0 =
     (let s = s0\<lparr>cs_attemptedKey := Some key, cs_attemptedAt := now\<rparr>;
          wanted = filter (\<lambda>sha. last_by cm_sha256 (cs_rules s) sha = None) (map wd_sha256 ds)
      in if list_ex (\<lambda>sha. fetch sha = None) wanted then (s, [], [])
         else
           let (nxt, incomplete, reported, reports, changed) = apply_loop sha256Hex fetch compile (cs_rules s) ds (cs_reported s);
               removed = filter (\<lambda>i. i \<notin> set (map cm_ruleId nxt)) (map cm_ruleId (cs_rules s))
           in (s\<lparr>cs_rules := nxt, cs_appliedKey := Some key, cs_incomplete := incomplete, cs_reported := reported\<rparr>, reports, changed @ removed))"

definition cloud_sync ::
    "('b \<Rightarrow> string) \<Rightarrow> (rat \<Rightarrow> string) \<Rightarrow> (string \<Rightarrow> 'b option option) \<Rightarrow> (string \<Rightarrow> 'b \<Rightarrow> CompileOutcome) \<Rightarrow> int \<Rightarrow> WasmRuleDescriptor list
     \<Rightarrow> 'b CloudRuleSet \<Rightarrow> 'b CloudRuleSet \<times> CloudRuleRefusalReport list \<times> string list" where
  "cloud_sync sha256Hex numStr fetch compile now ds s =
     (let key = descriptors_key numStr ds; due = (CLOUD_RETRY_MS \<le> now - cs_attemptedAt s) in
      if Some key = cs_appliedKey s
      then (if cs_incomplete s \<and> due then cloud_apply sha256Hex fetch compile now ds key s else (s, [], []))
      else if Some key = cs_attemptedKey s \<and> \<not> due then (s, [], [])
      else cloud_apply sha256Hex fetch compile now ds key s)"


section \<open>What a rule reads\<close>

record WasmContextInput =
  wi_sessionId :: string
  wi_workspaceId :: string
  wi_tools :: "ToolsListEntry list"
  wi_toolCallId :: string
  wi_toolName :: string
  wi_toolArguments :: "json option"
  wi_toolSequence :: "string list"
  wi_callsLast60s :: nat
  wi_dlpFindingDescriptions :: "string list"
  wi_injectionFindings :: "string list"
  wi_injectionSources :: "string list"
  wi_corroboratingDetectors :: nat
  wi_toolContractChanged :: "bool option"
  wi_serverName :: "string option"

definition foldToolCallCounts :: "string list \<Rightarrow> (string \<times> nat) list" where
  "foldToolCallCounts calls =
     fold (\<lambda>tool counts. AList.update tool ((case map_of counts tool of None \<Rightarrow> 0 | Some n \<Rightarrow> n) + 1) counts) calls []"

definition jnat :: "nat \<Rightarrow> json" where
  "jnat n = JNum (of_nat n)"

definition pattern_names :: "string list \<Rightarrow> json" where
  "pattern_names ds = JArr (map (\<lambda>d. JObj [(''pattern_name'', JStr d)]) ds)"

definition buildWasmContext :: "WasmContextInput \<Rightarrow> json" where
  "buildWasmContext i = JObj
     ([(''session_id'', JStr (wi_sessionId i)), (''workspace_id'', JStr (wi_workspaceId i)),
       (''tools'', JArr (map (\<lambda>t. JObj [(''name'', JStr (te_name t)), (''description'', JStr (or_default '''' (te_description t)))]) (wi_tools i))),
       (''tool_calls'', JArr [JObj [(''id'', JStr (wi_toolCallId i)), (''name'', JStr (wi_toolName i)), (''arguments'', or_object (wi_toolArguments i))]]),
       (''tool_sequence'', strings_json (wi_toolSequence i)),
       (''tool_call_counts'', JArr (map (\<lambda>(t, n). JArr [JStr t, jnat n]) (foldToolCallCounts (wi_toolSequence i)))),
       (''calls_last_60s'', jnat (wi_callsLast60s i)),
       (''dlp_findings'', pattern_names (wi_dlpFindingDescriptions i)),
       (''injection_findings'', strings_json (wi_injectionFindings i)),
       (''injection_sources'', strings_json (wi_injectionSources i)),
       (''corroborating_detectors'', jnat (wi_corroboratingDetectors i))]
      @ (case wi_toolContractChanged i of None \<Rightarrow> [] | Some b \<Rightarrow> [(''tool_contract_changed'', JBool b)]))"

definition buildRegoInput :: "(rat \<Rightarrow> string) \<Rightarrow> WasmContextInput \<Rightarrow> string" where
  "buildRegoInput numStr i = boundedRegoInput numStr
     ([(''v'', JNum REGO_INPUT_VERSION), (''host'', JStr ''mcp''), (''tool'', JStr (wi_toolName i)), (''args'', or_object (wi_toolArguments i))]
      @ (case nonempty (wi_serverName i) of None \<Rightarrow> [] | Some s \<Rightarrow> [(''server'', JStr s)])
      @ [(''session'', JObj
           [(''id'', JStr (wi_sessionId i)), (''workspace_id'', JStr (wi_workspaceId i)), (''tool_sequence'', strings_json (wi_toolSequence i)),
            (''calls_last_60s'', jnat (wi_callsLast60s i))]),
         (''request'', JObj
           [(''dlp_findings'', pattern_names (wi_dlpFindingDescriptions i)), (''injection_findings'', strings_json (wi_injectionFindings i))])])"

section \<open>The runner\<close>

definition EVALUATE_TIMEOUT_MS :: nat where "EVALUATE_TIMEOUT_MS = 1000"
definition REGO_EVALUATE_TIMEOUT_MS :: nat where "REGO_EVALUATE_TIMEOUT_MS = 10000"
definition MAX_CONSECUTIVE_RUNAWAYS :: nat where "MAX_CONSECUTIVE_RUNAWAYS = 3"

datatype RuleStop = StopDeadline | StopBudget | StopError | StopResult | StopQuarantined

datatype WasmVerdict =
    WasmAllow
  | WasmBlock string string
  | WasmReask string string
  | WasmHold string string "RegoRiskTier option"
  | WasmUnavailable string string RuleStop

datatype RegoAnswer = AnsAllow | AnsDeny | AnsHold | AnsReask

datatype RuleResult =
    NativeCode int "string option"
  | RegoAnswered RegoAnswer "string option" "RegoRiskTier option"

record RuleFailure =
  rf_stop :: RuleStop
  rf_detail :: string

record ShadowReport =
  sh_ruleId :: string
  sh_wouldAct :: bool

record ActiveRule =
  ar_ruleId :: string
  ar_priority :: nat
  ar_rego :: bool
  ar_readsReferencedFiles :: bool
  ar_shadow :: bool

text \<open>The worker's reply to an evaluate message.\<close>

record EvalReply =
  er_ok :: bool
  er_code :: "int option"
  er_decision :: "RegoAnswer option"
  er_reason :: "string option"
  er_riskTier :: "RegoRiskTier option"
  er_error :: "string option"
  er_fuelExhausted :: bool
  er_notADecision :: bool

record 'b WasmRunner =
  rn_loader :: "'b WasmLoader"
  rn_cloud :: "'b CloudRuleSet option"
  rn_runaways :: "string \<Rightarrow> nat"
  rn_quarantined :: "string set"

definition new_runner :: "'b CloudRuleSet option \<Rightarrow> 'b WasmRunner" where
  "new_runner cloud = \<lparr>rn_loader = new_loader, rn_cloud = cloud, rn_runaways = (\<lambda>_. 0), rn_quarantined = {}\<rparr>"

definition cloud_active :: "'b CloudRuleMeta \<Rightarrow> ActiveRule" where
  "cloud_active r =
     \<lparr>ar_ruleId = cm_ruleId r, ar_priority = cm_priority r, ar_rego = cm_rego r, ar_readsReferencedFiles = cm_readsReferencedFiles r,
      ar_shadow = (cm_mode r = WasmShadow)\<rparr>"

definition local_active :: "'b LoadedRuleMeta \<Rightarrow> ActiveRule" where
  "local_active r =
     \<lparr>ar_ruleId = lm_ruleId r, ar_priority = lm_priority r, ar_rego = lm_rego r, ar_readsReferencedFiles = lm_readsReferencedFiles r,
      ar_shadow = False\<rparr>"

definition activeRules :: "'b WasmRunner \<Rightarrow> ActiveRule list" where
  "activeRules rn =
     sort_key ar_priority
       (map cloud_active (case rn_cloud rn of None \<Rightarrow> [] | Some c \<Rightarrow> cs_rules c) @ map local_active (loader_rules (rn_loader rn)))"

definition getLoadedRuleIds :: "'b WasmRunner \<Rightarrow> string list" where
  "getLoadedRuleIds rn = map ar_ruleId (activeRules rn)"

definition forget_rule :: "string \<Rightarrow> 'b WasmRunner \<Rightarrow> 'b WasmRunner" where
  "forget_rule i rn = rn\<lparr>rn_runaways := (rn_runaways rn)(i := 0), rn_quarantined := rn_quarantined rn - {i}\<rparr>"

definition syncCloudRules ::
    "('b \<Rightarrow> string) \<Rightarrow> (rat \<Rightarrow> string) \<Rightarrow> (string \<Rightarrow> 'b option option) \<Rightarrow> (string \<Rightarrow> 'b \<Rightarrow> CompileOutcome) \<Rightarrow> int
     \<Rightarrow> WasmRuleDescriptor list option \<Rightarrow> 'b WasmRunner \<Rightarrow> 'b WasmRunner \<times> CloudRuleRefusalReport list" where
  "syncCloudRules sha256Hex numStr fetch compile now descriptors rn =
     (case (rn_cloud rn, descriptors) of
        (Some cloud, Some ds) \<Rightarrow>
          (let (cloud', reports, changed) = cloud_sync sha256Hex numStr fetch compile now ds cloud
           in (fold forget_rule changed (rn\<lparr>rn_cloud := Some cloud'\<rparr>), reports))
      | _ \<Rightarrow> (rn, []))"

definition cloudRulesLoaded :: "'b WasmRunner \<Rightarrow> bool" where
  "cloudRulesLoaded rn \<longleftrightarrow> (case rn_cloud rn of None \<Rightarrow> True | Some c \<Rightarrow> cloud_isLoaded c)"

definition runner_rescan ::
    "(string \<Rightarrow> 'b option) \<Rightarrow> (string \<Rightarrow> 'b \<Rightarrow> CompileOutcome) \<Rightarrow> (string \<times> FileSignature) list option \<Rightarrow> 'b WasmRunner \<Rightarrow> 'b WasmRunner" where
  "runner_rescan read compile scan rn =
     rn\<lparr>rn_loader := fst (loader_rescan read compile scan False (rn_loader rn)), rn_quarantined := {}, rn_runaways := (\<lambda>_. 0)\<rparr>"

definition countRunaway :: "string \<Rightarrow> 'b WasmRunner \<Rightarrow> 'b WasmRunner" where
  "countRunaway i rn =
     (let runaways = rn_runaways rn i + 1; rn' = rn\<lparr>rn_runaways := (rn_runaways rn)(i := runaways)\<rparr> in
      if MAX_CONSECUTIVE_RUNAWAYS \<le> runaways then rn'\<lparr>rn_quarantined := insert i (rn_quarantined rn')\<rparr> else rn')"

text \<open>What \<open>evaluateOne\<close> returns, and what it does to the counts.\<close>

definition reply_outcome :: "nat \<Rightarrow> EvalReply option \<Rightarrow> RuleFailure + RuleResult" where
  "reply_outcome timeoutMs reply =
     (case reply of
        None \<Rightarrow> Inl \<lparr>rf_stop = StopDeadline, rf_detail = ''it ran past its '' @ nat_str timeoutMs @ '' ms deadline''\<rparr>
      | Some r \<Rightarrow>
          if \<not> er_ok r \<and> er_fuelExhausted r then Inl \<lparr>rf_stop = StopBudget, rf_detail = ''it used up its instruction budget''\<rparr>
          else if \<not> er_ok r then
            Inl (if er_notADecision r
                 then \<lparr>rf_stop = StopResult, rf_detail = or_default ''it returned a result that is not a decision'' (er_error r)\<rparr>
                 else \<lparr>rf_stop = StopError, rf_detail = ''it failed while running: '' @ or_default ''unknown error'' (er_error r)\<rparr>)
          else
            Inr (case er_decision r of
                   Some d \<Rightarrow> RegoAnswered d (nonempty (er_reason r)) (er_riskTier r)
                 | None \<Rightarrow> NativeCode (or_default (- 1) (er_code r)) (er_reason r)))"

definition is_runaway :: "EvalReply option \<Rightarrow> bool" where
  "is_runaway reply \<longleftrightarrow> (case reply of None \<Rightarrow> True | Some r \<Rightarrow> \<not> er_ok r \<and> er_fuelExhausted r)"

definition is_clean :: "EvalReply option \<Rightarrow> bool" where
  "is_clean reply \<longleftrightarrow> (case reply of None \<Rightarrow> False | Some r \<Rightarrow> er_ok r)"

definition evaluateOne :: "nat \<Rightarrow> EvalReply option \<Rightarrow> string \<Rightarrow> 'b WasmRunner \<Rightarrow> (RuleFailure + RuleResult) \<times> 'b WasmRunner" where
  "evaluateOne timeoutMs reply ruleId rn =
     (reply_outcome timeoutMs reply,
      if is_runaway reply then countRunaway ruleId rn
      else if is_clean reply then rn\<lparr>rn_runaways := (rn_runaways rn)(ruleId := 0)\<rparr>
      else rn)"

definition int_str :: "int \<Rightarrow> string" where
  "int_str i = (if i < 0 then ''-'' @ nat_str (nat (- i)) else nat_str (nat i))"

definition undefinedVerdict :: "RuleResult \<Rightarrow> RuleFailure option" where
  "undefinedVerdict result =
     (case result of
        RegoAnswered d r t \<Rightarrow> None
      | NativeCode c r \<Rightarrow>
          if c \<in> {0, 1, 2, 3} then None
          else Some \<lparr>rf_stop = StopResult,
                     rf_detail = ''it returned '' @ int_str c @ '', which is not a verdict code (0 allow, 1 block, 3 reask)''\<rparr>)"

text \<open>\<open>'stop' in outcome ? outcome : undefinedVerdict(outcome)\<close>: a failure, or a result that is a verdict.\<close>

definition settle :: "RuleFailure + RuleResult \<Rightarrow> RuleFailure + RuleResult" where
  "settle outcome =
     (case outcome of
        Inl f \<Rightarrow> Inl f
      | Inr r \<Rightarrow> (case undefinedVerdict r of Some f \<Rightarrow> Inl f | None \<Rightarrow> Inr r))"

definition describeResult :: "RuleResult \<Rightarrow> string option" where
  "describeResult result =
     (case result of
        RegoAnswered d r t \<Rightarrow>
          (case d of AnsAllow \<Rightarrow> None | AnsDeny \<Rightarrow> Some ''deny'' | AnsHold \<Rightarrow> Some ''hold'' | AnsReask \<Rightarrow> Some ''reask'')
      | NativeCode c r \<Rightarrow> if c = 0 then None else Some (if c = 3 then ''reask'' else ''block''))"

definition stop_text :: "RuleStop \<Rightarrow> string" where
  "stop_text s =
     (case s of StopDeadline \<Rightarrow> ''deadline'' | StopBudget \<Rightarrow> ''budget'' | StopError \<Rightarrow> ''error'' | StopResult \<Rightarrow> ''result''
      | StopQuarantined \<Rightarrow> ''quarantined'')"

definition noVerdictReason :: "string \<Rightarrow> RuleStop \<Rightarrow> string \<Rightarrow> string" where
  "noVerdictReason ruleId stop detail =
     ''Custom rule '' @ ruleId @ '' reached no verdict ('' @ stop_text stop @ ''): '' @ detail @ ''. Tool call blocked: a ''
     @ ''rule that cannot decide never allows.''"

definition would_do :: "RuleFailure + RuleResult \<Rightarrow> string option" where
  "would_do settled =
     (case settled of
        Inl f \<Rightarrow> Some (''no verdict ('' @ stop_text (rf_stop f) @ ''): '' @ rf_detail f)
      | Inr r \<Rightarrow> describeResult r)"

text \<open>The \<open>pending\<close> variables of the loop.\<close>

record Pending =
  pe_unavailable :: "WasmVerdict option"
  pe_hold :: "WasmVerdict option"
  pe_reask :: "WasmVerdict option"

definition rule_timeout :: "ActiveRule \<Rightarrow> nat" where
  "rule_timeout rule = (if ar_rego rule then REGO_EVALUATE_TIMEOUT_MS else EVALUATE_TIMEOUT_MS)"

definition note_failure :: "string \<Rightarrow> RuleFailure \<Rightarrow> bool \<Rightarrow> Pending \<Rightarrow> Pending" where
  "note_failure ruleId f quarantinedNow p =
     (if pe_unavailable p \<noteq> None then p
      else
        let detail = (if quarantinedNow
                      then rf_detail f @ ''; it is now quarantined until the next rescan, after '' @ nat_str MAX_CONSECUTIVE_RUNAWAYS
                           @ '' runaway evaluations in a row''
                      else rf_detail f)
        in p\<lparr>pe_unavailable := Some (WasmUnavailable (noVerdictReason ruleId (rf_stop f) detail) ruleId (rf_stop f))\<rparr>)"

text \<open>An enforcing rule's verdict ends the loop with a block, or adds to what is pending.\<close>

definition note_result :: "string \<Rightarrow> RuleResult \<Rightarrow> Pending \<Rightarrow> WasmVerdict + Pending" where
  "note_result ruleId result p =
     (case result of
        RegoAnswered d r tier \<Rightarrow>
          (let reason = or_default ''Refused by Rego policy'' r in
           case d of
             AnsAllow \<Rightarrow> Inr p
           | AnsDeny \<Rightarrow> Inl (WasmBlock reason ruleId)
           | AnsHold \<Rightarrow> Inr (if pe_hold p = None then p\<lparr>pe_hold := Some (WasmHold reason ruleId tier)\<rparr> else p)
           | AnsReask \<Rightarrow> Inr (if pe_reask p = None then p\<lparr>pe_reask := Some (WasmReask reason ruleId)\<rparr> else p))
      | NativeCode c r \<Rightarrow>
          if c = 1 then Inl (WasmBlock (or_default ''Blocked by custom WASM governance rule'' r) ruleId)
          else if c = 2 then Inl (WasmBlock (or_default ''Blocked by custom WASM governance rule (legacy code 2)'' r) ruleId)
          else if c = 3 then
            Inr (if pe_reask p = None
                 then p\<lparr>pe_reask := Some (WasmReask (or_default (''Refused by custom WASM governance rule '' @ em_dash @ '' revise and retry'') r) ruleId)\<rparr>
                 else p)
          else Inr p)"

definition pending_verdict :: "Pending \<Rightarrow> WasmVerdict" where
  "pending_verdict p =
     (case or_else (pe_unavailable p) (or_else (pe_hold p) (pe_reask p)) of Some v \<Rightarrow> v | None \<Rightarrow> WasmAllow)"

fun eval_loop :: "(ActiveRule \<times> EvalReply option) list \<Rightarrow> ShadowReport list \<Rightarrow> Pending \<Rightarrow> 'b WasmRunner
    \<Rightarrow> WasmVerdict \<times> ShadowReport list \<times> 'b WasmRunner" where
  "eval_loop [] shadow p rn = (pending_verdict p, shadow, rn)"
| "eval_loop ((rule, reply) # rest) shadow p rn =
     (if ar_shadow rule \<and> ar_ruleId rule \<in> rn_quarantined rn then eval_loop rest shadow p rn
      else
        let (outcome, rn') = evaluateOne (rule_timeout rule) reply (ar_ruleId rule) rn; settled = settle outcome in
        if ar_shadow rule
        then eval_loop rest (shadow @ [\<lparr>sh_ruleId = ar_ruleId rule, sh_wouldAct = (would_do settled \<noteq> None)\<rparr>]) p rn'
        else case settled of
          Inl f \<Rightarrow> eval_loop rest shadow (note_failure (ar_ruleId rule) f (ar_ruleId rule \<in> rn_quarantined rn') p) rn'
        | Inr result \<Rightarrow>
            (case note_result (ar_ruleId rule) result p of
               Inl verdict \<Rightarrow> (verdict, shadow, rn')
             | Inr p' \<Rightarrow> eval_loop rest shadow p' rn'))"

definition nothing_pending :: Pending where
  "nothing_pending = \<lparr>pe_unavailable = None, pe_hold = None, pe_reask = None\<rparr>"

definition enforce_quarantined :: "'b WasmRunner \<Rightarrow> ActiveRule \<Rightarrow> bool" where
  "enforce_quarantined rn r \<longleftrightarrow> \<not> ar_shadow r \<and> ar_ruleId r \<in> rn_quarantined rn"

text \<open>\<open>evaluate\<close>; \<open>reply i\<close> is what the worker answers for the rule at position \<open>i\<close>.\<close>

definition runner_evaluate :: "(nat \<Rightarrow> EvalReply option) \<Rightarrow> 'b WasmRunner \<Rightarrow> WasmVerdict \<times> ShadowReport list \<times> 'b WasmRunner" where
  "runner_evaluate reply rn =
     (let rules = activeRules rn in
      case find (enforce_quarantined rn) rules of
        Some held \<Rightarrow>
          (WasmUnavailable
             (noVerdictReason (ar_ruleId held) StopQuarantined
                (''it is quarantined after '' @ nat_str MAX_CONSECUTIVE_RUNAWAYS
                 @ '' runaway evaluations in a row (deadline or budget), until the next rescan''))
             (ar_ruleId held) StopQuarantined, [], rn)
      | None \<Rightarrow> eval_loop (map (\<lambda>i. (rules ! i, reply i)) [0..<length rules]) [] nothing_pending rn)"


section \<open>The verdict\<close>

datatype Decided = DAllow | DBlock string | DHold string | DReask string | DUnavailable string RuleStop

fun brief :: "WasmVerdict \<Rightarrow> Decided" where
  "brief WasmAllow = DAllow"
| "brief (WasmBlock reason i) = DBlock i"
| "brief (WasmReask reason i) = DReask i"
| "brief (WasmHold reason i tier) = DHold i"
| "brief (WasmUnavailable reason i stop) = DUnavailable i stop"

text \<open>What a rule's reply asks for.\<close>

definition rule_asks :: "ActiveRule \<times> EvalReply option \<Rightarrow> Decided" where
  "rule_asks x =
     (let i = ar_ruleId (fst x) in
      case settle (reply_outcome (rule_timeout (fst x)) (snd x)) of
        Inl f \<Rightarrow> DUnavailable i (rf_stop f)
      | Inr (RegoAnswered AnsDeny r t) \<Rightarrow> DBlock i
      | Inr (RegoAnswered AnsHold r t) \<Rightarrow> DHold i
      | Inr (RegoAnswered AnsReask r t) \<Rightarrow> DReask i
      | Inr (RegoAnswered AnsAllow r t) \<Rightarrow> DAllow
      | Inr (NativeCode c r) \<Rightarrow> if c = 1 \<or> c = 2 then DBlock i else if c = 3 then DReask i else DAllow)"

fun is_block :: "Decided \<Rightarrow> bool" where "is_block (DBlock i) = True" | "is_block _ = False"
fun is_hold :: "Decided \<Rightarrow> bool" where "is_hold (DHold i) = True" | "is_hold _ = False"
fun is_reask :: "Decided \<Rightarrow> bool" where "is_reask (DReask i) = True" | "is_reask _ = False"
fun is_unavailable :: "Decided \<Rightarrow> bool" where "is_unavailable (DUnavailable i stop) = True" | "is_unavailable _ = False"

text \<open>What the enforcing rules ask for, in their order.\<close>

definition enforced :: "(ActiveRule \<times> EvalReply option) list \<Rightarrow> Decided list" where
  "enforced xs = map rule_asks (filter (\<lambda>x. \<not> ar_shadow (fst x)) xs)"

text \<open>The most restrictive of several: a block, else no verdict, else a hold, else a reask; the first of its kind.\<close>

definition most_restrictive :: "Decided list \<Rightarrow> Decided" where
  "most_restrictive ds =
     (case or_else (find is_block ds) (or_else (find is_unavailable ds) (or_else (find is_hold ds) (find is_reask ds))) of
        Some d \<Rightarrow> d | None \<Rightarrow> DAllow)"

lemma or_else_assoc: "or_else (or_else a b) c = or_else a (or_else b c)"
  by (cases a) simp_all

definition pended :: "Pending \<Rightarrow> Decided list \<Rightarrow> Decided" where
  "pended p ds =
     (case or_else (find is_block ds)
        (or_else (or_else (map_option brief (pe_unavailable p)) (find is_unavailable ds))
          (or_else (or_else (map_option brief (pe_hold p)) (find is_hold ds))
            (or_else (map_option brief (pe_reask p)) (find is_reask ds)))) of
        Some d \<Rightarrow> d | None \<Rightarrow> DAllow)"

lemma pended_nil: "brief (pending_verdict p) = pended p []"
  by (cases "pe_unavailable p"; cases "pe_hold p"; cases "pe_reask p") (simp_all add: pending_verdict_def pended_def)

lemma pended_failure:
  "pended (note_failure i f q p) ds = pended p (DUnavailable i (rf_stop f) # ds)"
  by (cases "pe_unavailable p") (simp_all add: pended_def note_failure_def Let_def)

lemma pended_result:
  assumes "settle (reply_outcome (rule_timeout rule) reply) = Inr result"
  shows "(case note_result (ar_ruleId rule) result p of
            Inl v \<Rightarrow> is_block (rule_asks (rule, reply)) \<and> brief v = rule_asks (rule, reply)
          | Inr p' \<Rightarrow> \<not> is_block (rule_asks (rule, reply)) \<and> pended p' ds = pended p (rule_asks (rule, reply) # ds))"
  using assms
  by (cases "pe_hold p"; cases "pe_reask p")
    (auto simp: rule_asks_def note_result_def pended_def Let_def or_else_assoc split: RuleResult.splits RegoAnswer.splits)

lemma eval_loop_pended: "brief (fst (eval_loop xs shadow p rn)) = pended p (enforced xs)"
proof (induction xs arbitrary: shadow p rn)
  case Nil
  then show ?case by (simp add: pended_nil enforced_def)
next
  case (Cons x rest)
  obtain rule reply where x: "x = (rule, reply)" by force
  obtain outcome rn' where one: "evaluateOne (rule_timeout rule) reply (ar_ruleId rule) rn = (outcome, rn')" by force
  then have outcome: "outcome = reply_outcome (rule_timeout rule) reply" by (simp add: evaluateOne_def)
  show ?case
  proof (cases "ar_shadow rule")
    case True
    with Cons one x show ?thesis by (simp add: enforced_def)
  next
    case enforcing: False
    show ?thesis
    proof (cases "settle outcome")
      case (Inl f)
      with Cons enforcing one outcome x show ?thesis by (simp add: enforced_def pended_failure rule_asks_def)
    next
      case settled: (Inr result)
      with outcome have "settle (reply_outcome (rule_timeout rule) reply) = Inr result" by simp
      note r = pended_result [OF this, where p = p and ds = "enforced rest"]
      show ?thesis
      proof (cases "note_result (ar_ruleId rule) result p")
        case (Inl v)
        with r enforcing one settled x show ?thesis by (auto simp: enforced_def pended_def)
      next
        case (Inr p')
        with r Cons enforcing one settled x show ?thesis by (simp add: enforced_def)
      qed
    qed
  qed
qed

lemma runner_evaluate_spec:
  "brief (fst (runner_evaluate reply rn)) =
     (case find (enforce_quarantined rn) (activeRules rn) of
        Some r \<Rightarrow> DUnavailable (ar_ruleId r) StopQuarantined
      | None \<Rightarrow> most_restrictive (enforced (map (\<lambda>i. (activeRules rn ! i, reply i)) [0..<length (activeRules rn)])))"
  by (simp add: runner_evaluate_def Let_def eval_loop_pended pended_def nothing_pending_def most_restrictive_def split: option.split)

text \<open>C5: Custom rules can only tighten a call, and their order cannot hide one: the runner's verdict is the most
  restrictive of what the enforcing rules ask for (a block, else a rule that reached no verdict, else a hold,
  else a reask, the first of its kind deciding), whatever the shadowed rules answer; a quarantined rule
  refuses before any is asked.\<close>

theorem runner_evaluate_most_restrictive:
  "brief (fst (runner_evaluate reply rn)) =
     (case find (enforce_quarantined rn) (activeRules rn) of
        Some r \<Rightarrow> DUnavailable (ar_ruleId r) StopQuarantined
      | None \<Rightarrow> most_restrictive (enforced (map (\<lambda>i. (activeRules rn ! i, reply i)) [0..<length (activeRules rn)])))"
  by (rule runner_evaluate_spec)


lemma most_restrictive_allow: "most_restrictive ds = DAllow \<longleftrightarrow> list_all (\<lambda>d. d = DAllow) ds"
proof (induction ds)
  case (Cons d ds)
  have found: "find P xs = Some y \<Longrightarrow> P y" for P xs and y :: Decided by (auto simp: find_Some_iff)
  have kinds: "is_block d \<longleftrightarrow> (\<exists>i. d = DBlock i)" "is_hold d \<longleftrightarrow> (\<exists>i. d = DHold i)" "is_reask d \<longleftrightarrow> (\<exists>i. d = DReask i)"
    "is_unavailable d \<longleftrightarrow> (\<exists>i st. d = DUnavailable i st)" for d by (cases d; simp)+
  show ?case
    using Cons
    by (cases d; cases "find is_block ds"; cases "find is_unavailable ds"; cases "find is_hold ds"; cases "find is_reask ds")
      (auto simp: most_restrictive_def kinds dest!: found)
qed (simp add: most_restrictive_def)

lemma brief_allow: "brief v = DAllow \<longleftrightarrow> v = WasmAllow"
  by (cases v) simp_all

lemma runner_allows_iff:
  "fst (runner_evaluate reply rn) = WasmAllow \<longleftrightarrow>
     find (enforce_quarantined rn) (activeRules rn) = None
     \<and> list_all (\<lambda>i. ar_shadow (activeRules rn ! i) \<or> rule_asks (activeRules rn ! i, reply i) = DAllow) [0..<length (activeRules rn)]"
  unfolding brief_allow [symmetric] runner_evaluate_spec
  by (auto simp: most_restrictive_allow enforced_def list_all_iff split: option.split)

section \<open>Quarantine\<close>

definition quarantine_ok :: "'b WasmRunner \<Rightarrow> bool" where
  "quarantine_ok rn \<longleftrightarrow> rn_quarantined rn = {i. MAX_CONSECUTIVE_RUNAWAYS \<le> rn_runaways rn i}"

lemma evaluateOne_keeps:
  assumes "quarantine_ok rn" "i \<notin> rn_quarantined rn"
  shows "quarantine_ok (snd (evaluateOne t reply i rn))"
    and "rn_quarantined (snd (evaluateOne t reply i rn)) \<subseteq> insert i (rn_quarantined rn)"
  using assms
  by (auto simp: quarantine_ok_def evaluateOne_def countRunaway_def Let_def MAX_CONSECUTIVE_RUNAWAYS_def)

lemma eval_loop_quarantine:
  "quarantine_ok rn \<Longrightarrow> distinct (map (\<lambda>x. ar_ruleId (fst x)) xs)
   \<Longrightarrow> list_all (\<lambda>x. ar_shadow (fst x) \<or> ar_ruleId (fst x) \<notin> rn_quarantined rn) xs
   \<Longrightarrow> quarantine_ok (snd (snd (eval_loop xs shadow p rn)))"
proof (induction xs arbitrary: shadow p rn)
  case (Cons x xs)
  obtain rule reply where x: "x = (rule, reply)" by force
  obtain outcome rn' where one: "evaluateOne (rule_timeout rule) reply (ar_ruleId rule) rn = (outcome, rn')" by force
  show ?case
  proof (cases "ar_ruleId rule \<in> rn_quarantined rn")
    case True
    with Cons x show ?thesis by simp
  next
    case False
    from evaluateOne_keeps [OF Cons.prems(1) False, of "rule_timeout rule" reply] one
    have q: "quarantine_ok rn'" "rn_quarantined rn' \<subseteq> insert (ar_ruleId rule) (rn_quarantined rn)" by simp_all
    have others: "ar_ruleId (fst y) \<noteq> ar_ruleId rule" if "y \<in> set xs" for y
      using that Cons.prems(2) x by (metis (no_types, lifting) distinct.simps(2) fst_conv image_eqI list.set_map list.simps(9))
    have "list_all (\<lambda>x. ar_shadow (fst x) \<or> ar_ruleId (fst x) \<notin> rn_quarantined rn') xs"
      using Cons.prems(3) q(2) others unfolding list_all_iff by fastforce
    with Cons.IH [of rn'] q(1) Cons.prems(2) False one x show ?thesis
      by (auto simp: Let_def split: sum.split)
  qed
qed simp

text \<open>The steps of a runner's life; the ids of the rules evaluated together are distinct.\<close>

inductive runner_reachable :: "('b \<Rightarrow> string) \<Rightarrow> (rat \<Rightarrow> string) \<Rightarrow> 'b WasmRunner \<Rightarrow> bool" for sha256Hex numStr where
  runner_start: "runner_reachable sha256Hex numStr (new_runner cloud)" if "cloud \<in> {None, Some new_cloud_rules}"
| runner_synced: "runner_reachable sha256Hex numStr (fst (syncCloudRules sha256Hex numStr fetch compile now ds rn))"
    if "runner_reachable sha256Hex numStr rn"
| runner_rescanned: "runner_reachable sha256Hex numStr (runner_rescan read compile scan rn)" if "runner_reachable sha256Hex numStr rn"
| runner_evaluated: "runner_reachable sha256Hex numStr (snd (snd (runner_evaluate reply rn)))"
    if "runner_reachable sha256Hex numStr rn" "distinct (map ar_ruleId (activeRules rn))"

lemma forget_quarantine: "quarantine_ok rn \<Longrightarrow> quarantine_ok (fold forget_rule is rn)"
proof (induction "is" arbitrary: rn)
  case (Cons i "is")
  from Cons.prems have "quarantine_ok (forget_rule i rn)"
    by (auto simp: quarantine_ok_def forget_rule_def MAX_CONSECUTIVE_RUNAWAYS_def)
  with Cons.IH show ?case by simp
qed simp

lemma sync_quarantine:
  assumes "quarantine_ok rn"
  shows "quarantine_ok (fst (syncCloudRules sha256Hex numStr fetch compile now ds rn))"
proof -
  have "quarantine_ok (fold forget_rule is (rn\<lparr>rn_cloud := c\<rparr>))" for "is" c
    using assms by (intro forget_quarantine) (simp add: quarantine_ok_def)
  with assms show ?thesis
    by (simp add: syncCloudRules_def Let_def case_prod_beta split: option.split)
qed

lemma runner_evaluate_quarantine:
  assumes "quarantine_ok rn" "distinct (map ar_ruleId (activeRules rn))"
  shows "quarantine_ok (snd (snd (runner_evaluate reply rn)))"
proof (cases "find (enforce_quarantined rn) (activeRules rn)")
  case None
  let ?xs = "map (\<lambda>i. (activeRules rn ! i, reply i)) [0..<length (activeRules rn)]"
  have ids: "map (\<lambda>x. ar_ruleId (fst x)) ?xs = map ar_ruleId (activeRules rn)"
    by (rule nth_equalityI) simp_all
  from None have "list_all (\<lambda>x. ar_shadow (fst x) \<or> ar_ruleId (fst x) \<notin> rn_quarantined rn) ?xs"
    by (auto simp: find_None_iff enforce_quarantined_def list_all_iff)
  with None eval_loop_quarantine [OF assms(1), of ?xs] assms(2) ids show ?thesis
    by (simp add: runner_evaluate_def Let_def)
next
  case (Some r)
  with assms show ?thesis by (simp add: runner_evaluate_def Let_def)
qed



definition no_rules :: "nat WasmRunner" where
  "no_rules = new_runner None"


section \<open>The workspace's rules\<close>

lemma last_by_Some: "last_by f xs k = Some x \<Longrightarrow> x \<in> set xs \<and> f x = k"
  by (auto simp: last_by_def find_Some_iff) (metis length_rev nth_mem set_rev)

lemma last_by_None: "last_by f xs k = None \<longleftrightarrow> k \<notin> f ` set xs"
  by (auto simp: last_by_def find_None_iff)

text \<open>Whether a descriptor's version loads.\<close>

definition loads :: "('b \<Rightarrow> string) \<Rightarrow> (string \<Rightarrow> 'b option option) \<Rightarrow> (string \<Rightarrow> 'b \<Rightarrow> CompileOutcome) \<Rightarrow> 'b CloudRuleMeta list \<Rightarrow> WasmRuleDescriptor \<Rightarrow> bool" where
  "loads sha256Hex fetch compile rules d \<longleftrightarrow> \<not> isl (try_load sha256Hex fetch compile rules d)"

lemma try_load_Inr:
  assumes "try_load sha256Hex fetch compile rules d = Inr r"
  shows "cm_ruleId r = wd_ruleId d" "cm_sha256 r = wd_sha256 d"
    and "list_all (\<lambda>r. sha256Hex (cm_bytes r) = to_lower (cm_sha256 r)) rules \<Longrightarrow> sha256Hex (cm_bytes r) = to_lower (cm_sha256 r)"
  using assms
  by (auto simp: try_load_def cloud_reuse_def cloud_load_def cloud_described_def binaryMatches_def list_all_iff Let_def
      split: option.splits if_splits CompileOutcome.splits dest!: last_by_Some)

lemma apply_loop_rules:
  "map cm_ruleId (fst (apply_loop sha256Hex fetch compile rules ds reported)) =
     map wd_ruleId (filter (\<lambda>d. loads sha256Hex fetch compile rules d \<or> wd_ruleId d \<in> cm_ruleId ` set rules) ds)"
proof (induction ds arbitrary: reported)
  case (Cons d ds)
  show ?case
  proof (cases "try_load sha256Hex fetch compile rules d")
    case (Inl refusal)
    show ?thesis
    proof (cases "last_by cm_ruleId rules (wd_ruleId d)")
      case None
      with Inl Cons last_by_None [of cm_ruleId rules "wd_ruleId d"] show ?thesis
        by (simp add: loads_def Let_def case_prod_beta)
    next
      case (Some r)
      with last_by_Some [OF Some] have "wd_ruleId d \<in> cm_ruleId ` set rules" "cm_ruleId r = wd_ruleId d"
        by (metis image_eqI)+
      with Some Inl Cons show ?thesis by (simp add: loads_def Let_def case_prod_beta)
    qed
  next
    case (Inr r)
    with Cons try_load_Inr(1) [OF Inr] show ?thesis by (simp add: loads_def Let_def case_prod_beta)
  qed
qed simp

lemma apply_loop_verified:
  assumes "list_all (\<lambda>r. sha256Hex (cm_bytes r) = to_lower (cm_sha256 r)) rules"
  shows "list_all (\<lambda>r. sha256Hex (cm_bytes r) = to_lower (cm_sha256 r)) (fst (apply_loop sha256Hex fetch compile rules ds reported))"
proof (induction ds arbitrary: reported)
  case (Cons d ds)
  show ?case
  proof (cases "try_load sha256Hex fetch compile rules d")
    case (Inl refusal)
    show ?thesis
    proof (cases "last_by cm_ruleId rules (wd_ruleId d)")
      case None
      with Inl Cons show ?thesis by (simp add: Let_def case_prod_beta)
    next
      case (Some r)
      with last_by_Some [OF Some] assms have "sha256Hex (cm_bytes r) = to_lower (cm_sha256 r)" by (simp add: list_all_iff)
      with Some Inl Cons show ?thesis by (simp add: Let_def case_prod_beta)
    qed
  next
    case (Inr r)
    with Cons try_load_Inr(3) [OF Inr assms] show ?thesis by (simp add: Let_def case_prod_beta)
  qed
qed simp


lemma apply_loop_reports:
  "distinct (map (\<lambda>r. report_id (rr_descriptor r) (rr_refusal r)) (fst (snd (snd (snd (apply_loop sha256Hex fetch compile rules ds reported))))))
   \<and> (\<lambda>r. report_id (rr_descriptor r) (rr_refusal r)) ` set (fst (snd (snd (snd (apply_loop sha256Hex fetch compile rules ds reported))))) \<inter> reported = {}
   \<and> fst (snd (snd (apply_loop sha256Hex fetch compile rules ds reported)))
     = reported \<union> (\<lambda>r. report_id (rr_descriptor r) (rr_refusal r)) ` set (fst (snd (snd (snd (apply_loop sha256Hex fetch compile rules ds reported)))))"
proof (induction ds arbitrary: reported)
  case (Cons d ds)
  show ?case
  proof (cases "try_load sha256Hex fetch compile rules d")
    case (Inl refusal)
    let ?i = "report_id d refusal"
    obtain nxt incomplete reported' reports changed where
      r: "apply_loop sha256Hex fetch compile rules ds (insert ?i reported) = (nxt, incomplete, reported', reports, changed)"
      by (metis prod_cases5)
    from Cons.IH [of "insert ?i reported"] r show ?thesis
      by (cases "?i \<in> reported") (auto simp: Inl Let_def refusal_report_def insert_absorb)
  next
    case (Inr r)
    with Cons show ?thesis by (simp add: Let_def case_prod_beta)
  qed
qed simp

text \<open>A synchronisation either leaves the loaded set as it was, or applies the list.\<close>

definition unchanged :: "'b CloudRuleSet \<Rightarrow> 'b CloudRuleSet \<times> CloudRuleRefusalReport list \<times> string list \<Rightarrow> bool" where
  "unchanged s out \<longleftrightarrow>
     cs_rules (fst out) = cs_rules s \<and> cs_reported (fst out) = cs_reported s \<and> cs_appliedKey (fst out) = cs_appliedKey s
     \<and> fst (snd out) = []"

definition applied ::
    "('b \<Rightarrow> string) \<Rightarrow> (string \<Rightarrow> 'b option option) \<Rightarrow> (string \<Rightarrow> 'b \<Rightarrow> CompileOutcome) \<Rightarrow> WasmRuleDescriptor list \<Rightarrow> string
     \<Rightarrow> 'b CloudRuleSet \<Rightarrow> 'b CloudRuleSet \<times> CloudRuleRefusalReport list \<times> string list \<Rightarrow> bool" where
  "applied sha256Hex fetch compile ds key s out \<longleftrightarrow>
     (let r = apply_loop sha256Hex fetch compile (cs_rules s) ds (cs_reported s) in
      cs_rules (fst out) = fst r \<and> cs_reported (fst out) = fst (snd (snd r)) \<and> cs_appliedKey (fst out) = Some key
      \<and> fst (snd out) = fst (snd (snd (snd r))))"

lemma cloud_apply_cases:
  "unchanged s (cloud_apply sha256Hex fetch compile now ds key s) \<or> applied sha256Hex fetch compile ds key s (cloud_apply sha256Hex fetch compile now ds key s)"
  by (simp add: cloud_apply_def unchanged_def applied_def Let_def case_prod_beta)

lemma cloud_sync_cases:
  "unchanged s (cloud_sync sha256Hex numStr fetch compile now ds s)
   \<or> applied sha256Hex fetch compile ds (descriptors_key numStr ds) s (cloud_sync sha256Hex numStr fetch compile now ds s)"
proof -
  have "unchanged s (s, [], [])" by (simp add: unchanged_def)
  with cloud_apply_cases [of s sha256Hex fetch compile now ds "descriptors_key numStr ds"] show ?thesis
    by (auto simp: cloud_sync_def Let_def)
qed

text \<open>A descriptor list is applied whole or not at all: when a synchronisation applies it, the rules loaded are, in
  the list's order, those whose version loads and those with an earlier version, which stays in force; a rule
  the list does not name is gone.  A control plane that cannot be asked leaves the loaded set as it was.\<close>

theorem cloud_sync_rules:
  "let out = fst (cloud_sync sha256Hex numStr fetch compile now ds s) in
   cs_rules out = cs_rules s \<and> cs_appliedKey out = cs_appliedKey s
   \<or> cs_appliedKey out = Some (descriptors_key numStr ds)
     \<and> map cm_ruleId (cs_rules out) =
         map wd_ruleId (filter (\<lambda>d. loads sha256Hex fetch compile (cs_rules s) d \<or> wd_ruleId d \<in> cm_ruleId ` set (cs_rules s)) ds)"
  using cloud_sync_cases [of s sha256Hex numStr fetch compile now ds]
  by (auto simp: unchanged_def applied_def Let_def apply_loop_rules)

text \<open>The synchronisations of a process, each with what its control plane and worker answer.\<close>

record 'b SyncStep =
  sy_fetch :: "string \<Rightarrow> 'b option option"
  sy_compile :: "string \<Rightarrow> 'b \<Rightarrow> CompileOutcome"
  sy_now :: int
  sy_descriptors :: "WasmRuleDescriptor list"

fun run_syncs :: "('b \<Rightarrow> string) \<Rightarrow> (rat \<Rightarrow> string) \<Rightarrow> 'b SyncStep list \<Rightarrow> 'b CloudRuleSet \<Rightarrow> 'b CloudRuleSet \<times> CloudRuleRefusalReport list" where
  "run_syncs sha256Hex numStr [] s = (s, [])"
| "run_syncs sha256Hex numStr (st # sts) s =
     (let (s', reports, changed) = cloud_sync sha256Hex numStr (sy_fetch st) (sy_compile st) (sy_now st) (sy_descriptors st) s;
          (s'', more_reports) = run_syncs sha256Hex numStr sts s'
      in (s'', reports @ more_reports))"

lemma cloud_sync_verified:
  assumes "list_all (\<lambda>r. sha256Hex (cm_bytes r) = to_lower (cm_sha256 r)) (cs_rules s)"
  shows "list_all (\<lambda>r. sha256Hex (cm_bytes r) = to_lower (cm_sha256 r)) (cs_rules (fst (cloud_sync sha256Hex numStr fetch compile now ds s)))"
  using cloud_sync_cases [of s sha256Hex numStr fetch compile now ds] apply_loop_verified [OF assms] assms
  by (auto simp: unchanged_def applied_def Let_def)

lemma run_syncs_verified:
  "list_all (\<lambda>r. sha256Hex (cm_bytes r) = to_lower (cm_sha256 r)) (cs_rules s)
   \<Longrightarrow> list_all (\<lambda>r. sha256Hex (cm_bytes r) = to_lower (cm_sha256 r)) (cs_rules (fst (run_syncs sha256Hex numStr sts s)))"
  by (induction sts arbitrary: s) (simp_all add: Let_def case_prod_beta cloud_sync_verified)


lemma run_syncs_reports:
  "distinct (map (\<lambda>r. report_id (rr_descriptor r) (rr_refusal r)) (snd (run_syncs sha256Hex numStr sts s)))
   \<and> (\<lambda>r. report_id (rr_descriptor r) (rr_refusal r)) ` set (snd (run_syncs sha256Hex numStr sts s)) \<inter> cs_reported s = {}"
proof (induction sts arbitrary: s)
  case (Cons st sts)
  let ?out = "cloud_sync sha256Hex numStr (sy_fetch st) (sy_compile st) (sy_now st) (sy_descriptors st) s"
  let ?id = "\<lambda>r. report_id (rr_descriptor r) (rr_refusal r)"
  note r = apply_loop_reports [of sha256Hex "sy_fetch st" "sy_compile st" "cs_rules s" "sy_descriptors st" "cs_reported s"]
  from cloud_sync_cases [of s sha256Hex numStr "sy_fetch st" "sy_compile st" "sy_now st" "sy_descriptors st"]
  have "distinct (map ?id (fst (snd ?out))) \<and> ?id ` set (fst (snd ?out)) \<inter> cs_reported s = {}
      \<and> cs_reported (fst ?out) = cs_reported s \<union> ?id ` set (fst (snd ?out))"
  proof
    assume "unchanged s ?out"
    then show ?thesis by (simp add: unchanged_def)
  next
    assume "applied sha256Hex (sy_fetch st) (sy_compile st) (sy_descriptors st) (descriptors_key numStr (sy_descriptors st)) s ?out"
    with r show ?thesis by (simp add: applied_def Let_def)
  qed
  with Cons.IH [of "fst ?out"] show ?case by (auto simp: Let_def case_prod_beta)
qed simp

text \<open>A refused version is reported once: over any sequence of synchronisations no two reports name the same
  hash and the same reason.\<close>

theorem cloud_refusals_reported_once:
  "distinct (map (\<lambda>r. report_id (rr_descriptor r) (rr_refusal r)) (snd (run_syncs sha256Hex numStr sts new_cloud_rules)))"
  by (rule conjunct1 [OF run_syncs_reports])


section \<open>The rules of this machine\<close>

text \<open>The rule a file's bytes give, if they load.\<close>

definition file_rule :: "(string \<Rightarrow> 'b option) \<Rightarrow> (string \<Rightarrow> 'b \<Rightarrow> CompileOutcome) \<Rightarrow> string \<Rightarrow> FileSignature \<Rightarrow> 'b LoadedRuleMeta option" where
  "file_rule read compile path sig = map_of (load_file read compile path sig []) path"

lemma load_file_lookup:
  "map_of (load_file read compile path sig loaded) k =
     (if k = path then or_else (file_rule read compile path sig) (map_of loaded path) else map_of loaded k)"
  by (auto simp: load_file_def file_rule_def update_conv' split: option.split CompileOutcome.split)

lemma load_files_lookup:
  "distinct (map fst es) \<Longrightarrow>
   map_of (fold (\<lambda>(path, sig). load_file read compile path sig) es loaded) k =
     (case map_of es k of None \<Rightarrow> map_of loaded k | Some sig \<Rightarrow> or_else (file_rule read compile k sig) (map_of loaded k))"
proof (induction es arbitrary: loaded)
  case (Cons e es)
  obtain path sig where e: "e = (path, sig)" by (cases e) blast
  with Cons.prems have "map_of es path = None" by (simp add: map_of_eq_None_iff)
  with Cons e show ?case by (cases "k = path") (simp_all add: load_file_lookup split: option.split)
qed simp

lemma map_of_filter_keys: "map_of (filter (\<lambda>(k, v). P k) xs) k = (if P k then map_of xs k else None)"
  by (induction xs) auto

lemma map_of_filter_distinct:
  "distinct (map fst entries) \<Longrightarrow>
     map_of (filter keep entries) key = (case map_of entries key of Some w \<Rightarrow> if keep (key, w) then Some w else None | None \<Rightarrow> None)"
proof (induction entries)
  case (Cons e entries)
  obtain a w where e: "e = (a, w)" by force
  with Cons.prems have "map_of entries a = None" by (simp add: map_of_eq_None_iff)
  with Cons e show ?case by (cases "key = a") (simp_all split: option.split)
qed simp

text \<open>A broken file never disarms a rule: after a rescan that saw a change, each file in the directory has the rule
  of its new contents, or, when it is too large, cannot be read or does not load, the rule it had; a file that is gone
  has none.\<close>

theorem loader_rescan_rules:
  assumes "distinct (map fst new)" "force \<or> \<not> signaturesEqual new (wl_signatures l)"
  shows "map_of (wl_loaded (fst (loader_rescan read compile (Some new) force l))) path =
     (case map_of new path of
        None \<Rightarrow> None
      | Some sig \<Rightarrow>
          if file_changed force (wl_signatures l) (path, sig)
          then or_else (file_rule read compile path sig) (map_of (wl_loaded l) path)
          else map_of (wl_loaded l) path)"
proof -
  have d: "distinct (map fst (filter (file_changed force (wl_signatures l)) new))"
    using assms(1) by (simp add: distinct_map_filter)
  have kept: "map_of (filter (\<lambda>(path, meta). map_of new path \<noteq> None) (wl_loaded l)) path = (if map_of new path \<noteq> None then map_of (wl_loaded l) path else None)"
    by (rule map_of_filter_keys)
  have "wl_loaded (fst (loader_rescan read compile (Some new) force l)) =
      fold (\<lambda>(path, sig). load_file read compile path sig) (filter (file_changed force (wl_signatures l)) new)
        (filter (\<lambda>(path, meta). map_of new path \<noteq> None) (wl_loaded l))"
    using assms(2) by (auto simp: loader_rescan_def Let_def)
  then show ?thesis
    by (simp only: load_files_lookup [OF d] map_of_filter_distinct [OF assms(1)] kept) (simp split: option.split)
qed

theorem loader_rescan_rules_witness:
  "map_of (wl_loaded (fst (loader_rescan (\<lambda>_. None) (\<lambda>_ _. Compiled False False) (Some [(''/w/10_a.wasm'', (1, 2))]) True (new_loader :: nat WasmLoader)))) ''/w/b.wasm'' = None"
  using loader_rescan_rules [of "[(''/w/10_a.wasm'', (1, 2))]" True "new_loader :: nat WasmLoader" "\<lambda>_. None" "\<lambda>_ _. Compiled False False" "''/w/b.wasm''"]
  by simp

text \<open>Nothing is retried while the directory does not change: a file that could not be read once, or did not compile
  in time, is not looked at again.\<close>

lemma loader_no_retry:
  assumes "distinct (map fst new)"
  shows "loader_rescan read' compile' (Some new) False (fst (loader_rescan read compile (Some new) False l))
       = (fst (loader_rescan read compile (Some new) False l), [])"
proof -
  have "signaturesEqual new new"
    using assms by (auto simp: signaturesEqual_def list_all_iff)
  then show ?thesis by (simp add: loader_rescan_def Let_def)
qed

text \<open>\<open>NN_name.wasm\<close> is rule \<open>name\<close> at priority \<open>NN\<close>.\<close>

lemma index_of_sep: "c \<notin> set a \<Longrightarrow> index_of [c] (a @ c # b) = Some (length a)"
  by (induction a) auto

lemma underscore_not_digit: "list_all is_digit s \<Longrightarrow> CHR ''_'' \<notin> set s"
  by (auto simp: list_all_iff is_digit_def less_eq_char_def)

lemma parsePriority_named:
  assumes "rule_name \<noteq> ''''"
  shows "parsePriority (nat_str n @ ''_'' @ rule_name @ ''.wasm'') = (n, rule_name)"
proof -
  let ?stem = "nat_str n @ CHR ''_'' # rule_name"
  have "wasm_stem (nat_str n @ ''_'' @ rule_name @ ''.wasm'') = ?stem"
    by (simp add: wasm_stem_def suffix_def)
  moreover have "index_of ''_'' ?stem = Some (length (nat_str n))"
    using index_of_sep [OF underscore_not_digit [OF digits_nat_str]] .
  ultimately show ?thesis
    using nat_str_not_nil [of n] assms by (simp add: parsePriority_def Let_def)
qed

end
