(* ===== verification/McpInterceptor.thy ===== *)
theory McpInterceptor
  imports McpWasm McpBudgetStore McpScan
begin

text \<open>
  The decision on one \<open>tools/call\<close>: \<open>packages/mcp-proxy/src/interceptor.ts\<close> (\<open>ToolCallInterceptor\<close>) and the events of
  \<open>packages/mcp-proxy/src/emitter.ts\<close> it emits.

  The interceptor's collaborators are a record of what the process keeps (the policy client, the session, the two
  Valkey stores, the scanners' module state, the rule runner); a check is a function from it to a decision, if
  the check makes one, and the record after it.  What the daemon, the control plane, the worker and Valkey answer
  while a call is decided is part of the call, and a call reads one clock.  A thrown error that is caught is
  a branch.  An id or a reason of a rule that is not a string is carried as the text a template writes of it.
  Logging has no effect here.
\<close>

section \<open>Events\<close>

datatype EventKind =
    ToolAllowed | ToolBlocked | ToolRedacted | ToolFlagged | McpServerDefinitionChanged | InjectionDetected | AnomalyDetected
  | ToolHeld | HoldApprovedBypassUsed | McpBudgetThreshold | McpBudgetExceeded | WasmRuleRefused | WasmShadowEvaluated

datatype EventSeverity = SeverityLow | SeverityMedium | SeverityHigh

record DetectionFinding =
  df_detectorId :: string
  df_kind :: string
  df_disposition :: Disposition
  df_severity :: EventSeverity
  df_confidence :: rat

definition detectionFinding :: "AnomalyFinding \<Rightarrow> Disposition \<Rightarrow> EventSeverity \<Rightarrow> DetectionFinding" where
  "detectionFinding finding disposition severity =
     \<lparr>df_detectorId = af_detectorId finding, df_kind = af_kind finding, df_disposition = disposition, df_severity = severity,
      df_confidence = af_confidence finding\<rparr>"

record GovernanceEvent =
  ge_kind :: EventKind
  ge_toolName :: string
  ge_toolInput :: "json option"
  ge_reason :: "string option"
  ge_finding :: "DetectionFinding option"
  ge_budget :: "BudgetEventDetail option"
  ge_wasmShadowReports :: "ShadowReport list"

section \<open>The interceptor and a call\<close>

datatype RefusalDetail = NoDetail | BudgetDetail BudgetEventDetail | BudgetIds "string list"

datatype Decision =
    AllowCall
  | BlockCall McpRefusalCode string string RefusalDetail
  | HoldCall string string string

record 'b Interceptor =
  ic_numStr :: "rat \<Rightarrow> string"
  ic_jsonParse :: "string \<Rightarrow> json option"
  ic_regex :: regex
  ic_compilePattern :: "string \<Rightarrow> (string \<Rightarrow> bool) option"
  ic_encodeURIComponent :: "string \<Rightarrow> string"
  ic_isoTime :: "nat \<Rightarrow> string"
  ic_sha256Hex :: "'b \<Rightarrow> string"
  ic_daemonMode :: bool
  ic_localFailOpen :: bool
  ic_serverName :: string
  ic_injectionActionDefault :: InjectionAction
  ic_anomalyModeDefault :: AnomalyMode
  ic_anomalyOverridesDefault :: "(string \<times> Disposition option) list"
  ic_workspaceId :: string
  ic_sessionId :: string
  ic_holds :: "ApprovalHolds option"
  ic_budgets :: "McpBudgetEnforcer option"

text \<open>What answers a hold request: the bypasses listed, whether the record was taken, and the id made for it.\<close>

record HoldAnswer =
  ho_body :: "json option"
  ho_posted :: bool
  ho_newId :: string

text \<open>A call, and what is answered while it is decided.  \<open>ca_ruleHold\<close> answers the hold of a SOP rule, \<open>ca_wasmHold\<close>
  that of a custom rule; \<open>ca_runnerError\<close> is the message of an error the runner itself throws.\<close>

record 'b McpCall =
  ca_toolName :: string
  ca_toolInput :: "json option"
  ca_now :: nat
  ca_daemon :: DaemonAnswer
  ca_http :: HttpAnswer
  ca_ruleHold :: HoldAnswer
  ca_wasmHold :: HoldAnswer
  ca_sessionUp :: bool
  ca_budgetUp :: bool
  ca_fetch :: "string \<Rightarrow> 'b option option"
  ca_compile :: "string \<Rightarrow> 'b \<Rightarrow> CompileOutcome"
  ca_reply :: "WasmContextInput \<Rightarrow> nat \<Rightarrow> EvalReply option"
  ca_runnerError :: "string option"
  ca_typeError :: string
  ca_toolCallId :: string

text \<open>What the process keeps, and the variables of the call being decided.\<close>

record 'b World =
  iw_policy :: PolicyClient
  iw_session :: SessionState
  iw_sessionDb :: session_db
  iw_valkey :: valkey
  iw_dlp :: DlpSettings
  iw_dynamic :: DynamicPatterns
  iw_runner :: "'b WasmRunner option"
  iw_budgetsUncheckedWarned :: bool
  iw_events :: "GovernanceEvent list"
  iw_refusedRules :: "CloudRuleRefusalReport list"
  iw_dlpFindings :: "DlpFinding list"
  iw_injectionFindings :: "string list"
  iw_injectionSources :: "string list"
  iw_corroborating :: nat
  iw_window :: "SessionWindow option"

definition emit_event :: "GovernanceEvent \<Rightarrow> 'b World \<Rightarrow> 'b World" where
  "emit_event e w = w\<lparr>iw_events := iw_events w @ [e]\<rparr>"

definition plain_event :: "EventKind \<Rightarrow> 'b McpCall \<Rightarrow> string option \<Rightarrow> GovernanceEvent" where
  "plain_event kind c reason =
     \<lparr>ge_kind = kind, ge_toolName = ca_toolName c, ge_toolInput = ca_toolInput c, ge_reason = reason, ge_finding = None, ge_budget = None,
      ge_wasmShadowReports = []\<rparr>"

definition emit_reason :: "EventKind \<Rightarrow> 'b McpCall \<Rightarrow> string \<Rightarrow> 'b World \<Rightarrow> 'b World" where
  "emit_reason kind c reason w = emit_event (plain_event kind c (Some reason)) w"

definition refuse :: "'b McpCall \<Rightarrow> McpRefusalCode \<Rightarrow> string \<Rightarrow> string \<Rightarrow> 'b World \<Rightarrow> Decision option \<times> 'b World" where
  "refuse c code ruleId reason w = (Some (BlockCall code ruleId reason NoDetail), emit_reason ToolBlocked c reason w)"

definition failOpen :: "'b Interceptor \<Rightarrow> 'b World \<Rightarrow> bool" where
  "failOpen ic w = or_default (ic_localFailOpen ic) (pc_failOpen (iw_policy w))"

definition opaque :: "'b World \<Rightarrow> bool" where
  "opaque w = pc_opaque (iw_policy w)"

definition holdReason :: "string \<Rightarrow> string \<Rightarrow> string" where
  "holdReason held holdId =
     (if holdId \<noteq> '''' then ''HELD for approval: '' @ held @ ''. Hold id: '' @ holdId @ ''. '' @ holdApprovalHint holdId
      else ''HELD for approval: '' @ held @ '', but the hold could not be recorded ''
           @ ''(Intutic control plane unreachable), so there is nothing to approve yet. Retry once the ''
           @ ''control plane is reachable to request approval.'')"

definition FAIL_CLOSED_REASON :: string where
  "FAIL_CLOSED_REASON =
     ''Governance check failed '' @ em_dash @ '' Intutic control plane unreachable. ''
     @ ''Tool call blocked by workspace policy (fail-closed mode). ''
     @ ''Contact your administrator or update mcpProxyFailBehavior to open.''"

text \<open>What a check that cannot complete does.\<close>

definition fail_setting :: "'b Interceptor \<Rightarrow> 'b World \<Rightarrow> Decision option \<times> 'b World" where
  "fail_setting ic w =
     (if failOpen ic w then (None, w) else (Some (BlockCall GOVERNANCE_UNAVAILABLE ''mcpProxyFailBehavior'' FAIL_CLOSED_REASON NoDetail), w))"

section \<open>The ladder and holds\<close>

definition applyReaskLadder :: "'b McpCall \<Rightarrow> string \<Rightarrow> string \<Rightarrow> 'b World \<Rightarrow> Decision option \<times> 'b World" where
  "applyReaskLadder c key baseReason w =
     (let (attempts, session, db) = incrReaskAttemptShared (ca_sessionUp c) key (ca_now c) (iw_session w) (iw_sessionDb w);
          w' = w\<lparr>iw_session := session, iw_sessionDb := db\<rparr>
      in if REASK_MAX_ATTEMPTS < attempts then
           refuse c REASK_EXHAUSTED key
             (baseReason @ '' '' @ em_dash @ '' hardened to an unconditional block after '' @ nat_str REASK_MAX_ATTEMPTS
              @ '' reask attempts with no correction.'') w'
         else
           refuse c REASK key
             (baseReason @ '' (attempt '' @ nat_str attempts @ ''/'' @ nat_str REASK_MAX_ATTEMPTS @ '' '' @ em_dash
              @ '' will become an unconditional block if this keeps tripping)'') w')"

definition flagged :: "string \<Rightarrow> string \<Rightarrow> string" where
  "flagged reason ruleId = reason @ '' ['' @ ruleId @ '']''"

text \<open>\<open>hold\<close>: an error it throws is an \<^const>\<open>Inl\<close>.\<close>

definition hold_outcome :: "'b Interceptor \<Rightarrow> 'b McpCall \<Rightarrow> HoldAnswer \<Rightarrow> string \<Rightarrow> string \<Rightarrow> unit + HoldOutcome \<times> json option" where
  "hold_outcome ic c ans ruleId ruleReason =
     (case ic_holds ic of
        None \<Rightarrow> Inr (HoldRecorded '''' False, None)
      | Some ah \<Rightarrow> hold_request ah ruleId ruleReason (ca_toolName c) (ca_toolInput c) (int (ca_now c)) (ho_body ans) (ho_posted ans) (ho_newId ans))"

definition hold :: "'b Interceptor \<Rightarrow> 'b McpCall \<Rightarrow> HoldAnswer \<Rightarrow> string \<Rightarrow> string \<Rightarrow> 'b World \<Rightarrow> unit + Decision option \<times> 'b World" where
  "hold ic c ans ruleId ruleReason w =
     try_then (hold_outcome ic c ans ruleId ruleReason)
       (\<lambda>(outcome, posted).
          case outcome of
            Bypassed holdId decidedBy \<Rightarrow>
              Inr (None, emit_reason HoldApprovedBypassUsed c
                (''Approved bypass for '' @ ruleId @ '' '' @ em_dash @ '' approved by '' @ (if decidedBy \<noteq> '''' then decidedBy else ''an approver'')
                 @ '' on hold '' @ holdId) w)
          | HoldRecorded holdId recorded \<Rightarrow>
              (let shown = (if recorded then holdId else '''') in
               Inr (Some (HoldCall (holdReason (flagged ruleReason ruleId) shown) shown ruleId),
                    emit_reason ToolHeld c (flagged ruleReason ruleId) w)))"


section \<open>The checks\<close>

type_synonym 'b Check = "'b World \<Rightarrow> Decision option \<times> 'b World"

definition checkRegistry :: "'b Interceptor \<Rightarrow> 'b McpCall \<Rightarrow> 'b Check" where
  "checkRegistry ic c w0 =
     (let w = w0\<lparr>iw_policy := ready_client (ic_numStr ic) (ic_jsonParse ic) (ic_daemonMode ic) (int (ca_now c)) (ca_daemon c) (ca_http c) (iw_policy w0)\<rparr> in
      case pc_registry (iw_policy w) of
        None \<Rightarrow>
          if failOpen ic w then (None, w)
          else refuse c REGISTRY_UNAVAILABLE ''mcpProxyFailBehavior''
            (''MCP server registry for this workspace has not loaded (Intutic control plane unreachable ''
             @ ''since this proxy started), so whether '' @ quoted (ic_serverName ic) @ '' is approved is unknown. ''
             @ ''Tool call blocked (fail-closed mode: mcpProxyFailBehavior or INTUTIC_MCP_FAIL_OPEN=false).'') w
      | Some registry \<Rightarrow>
          (case evaluateMcpRegistry registry (ic_serverName ic) (ca_toolName c) of
             None \<Rightarrow> (None, w)
           | Some r \<Rightarrow> refuse c (RegistryRefusal (mf_code r)) (mf_ruleId r) (mf_reason r) w))"

definition check_servers :: "'b Interceptor \<Rightarrow> 'b McpCall \<Rightarrow> 'b Check" where
  "check_servers ic c w =
     (let allowed = pc_allowedServers (iw_policy w) in
      if allowed \<noteq> [] \<and> ic_serverName ic \<notin> set allowed then
        refuse c SERVER_NOT_ALLOWED ''mcpAllowedServers''
          (''MCP server '' @ quoted (ic_serverName ic) @ '' is not in this workspace'' @ [CHR 0x27] @ ''s MCP server allowlist (''
           @ nat_str (length allowed) @ '' server(s) permitted). An operator can widen the ''
           @ ''allowlist in workspace settings (mcpAllowedServers).'') w
      else (None, w))"

definition check_tools :: "'b Interceptor \<Rightarrow> 'b McpCall \<Rightarrow> 'b Check" where
  "check_tools ic c w =
     (let allowed = pc_allowedTools (iw_policy w) in
      if allowed \<noteq> [] \<and> ca_toolName c \<notin> set allowed then
        refuse c TOOL_NOT_ALLOWED ''mcpAllowedTools''
          (''Tool '' @ quoted (ca_toolName c) @ '' is not in this workspace'' @ [CHR 0x27] @ ''s MCP tool allowlist (''
           @ nat_str (length allowed) @ '' tool(s) permitted). An operator can widen the ''
           @ ''allowlist in workspace settings (mcpAllowedTools).'') w
      else (None, w))"

definition clearance_of :: "'b Interceptor \<Rightarrow> 'b McpCall \<Rightarrow> PolicyClient \<Rightarrow> SsoGroupDecision" where
  "clearance_of ic c pc =
     evaluateSsoGroupClearance (pc_ssoGroupPolicy pc) [ca_toolName c, ''mcp__'' @ ic_serverName ic @ ''__'' @ ca_toolName c]
       (map_option mp_ssoGroups (pc_principal pc))"

definition checkSsoGroupClearance :: "'b Interceptor \<Rightarrow> 'b McpCall \<Rightarrow> 'b Check" where
  "checkSsoGroupClearance ic c w =
     (let decision = clearance_of ic c (iw_policy w) in
      if sd_clearance decision = GRANTED then (None, w)
      else refuse c SSO_GROUP (or_default ''sso_group'' (sd_ruleId decision))
        (flagged (sd_reason decision) (or_default ''undefined'' (sd_ruleId decision))) w)"

definition check_pii :: "'b Interceptor \<Rightarrow> 'b McpCall \<Rightarrow> 'b Check" where
  "check_pii ic c w =
     (let go = (None, w\<lparr>iw_dlp := setWorkspacePii (pc_piiDetectors (iw_policy w)) (iw_dlp w)\<rparr>) in
      case pc_piiDetectors (iw_policy w) of
        PiiUnreadable reason \<Rightarrow>
          if failOpen ic w then go
          else refuse c GOVERNANCE_UNAVAILABLE ''piiDetectors''
            (''This workspace'' @ [CHR 0x27] @ ''s PII detector actions could not be read ('' @ reason @ ''), so which ''
             @ ''detectors apply is unknown. Tool call blocked (fail-closed mode: mcpProxyFailBehavior or ''
             @ ''INTUTIC_MCP_FAIL_OPEN=false).'') w
      | _ \<Rightarrow> go)"

definition check_dlp :: "'b Interceptor \<Rightarrow> 'b McpCall \<Rightarrow> 'b Check" where
  "check_dlp ic c w0 =
     (let findings = scanToolInput (ic_numStr ic) (iw_dlp w0) (ca_toolInput c); w = w0\<lparr>iw_dlpFindings := findings\<rparr> in
      case findings of
        [] \<Rightarrow> (None, w)
      | f # fs \<Rightarrow> refuse c DLP (''dlp.'' @ dl_pattern f) (formatDlpBlockReason findings) w)"

definition rule_field :: "'b Interceptor \<Rightarrow> json \<Rightarrow> string \<Rightarrow> string" where
  "rule_field ic rule k = text_of (ic_numStr ic) (json_field rule k)"

definition input_json :: "'b Interceptor \<Rightarrow> 'b McpCall \<Rightarrow> string" where
  "input_json ic c = stringify (ic_numStr ic) (or_object (ca_toolInput c))"

definition check_rules :: "'b Interceptor \<Rightarrow> 'b McpCall \<Rightarrow> 'b Check" where
  "check_rules ic c w =
     (case matchRule (ic_regex ic) (iw_policy w) (ca_toolName c) (input_json ic c) of
        Inl e \<Rightarrow> fail_setting ic w
      | Inr None \<Rightarrow> (None, w)
      | Inr (Some rule) \<Rightarrow>
          let action = json_field rule ''action''; ruleId = rule_field ic rule ''id''; reason = rule_field ic rule ''reason'' in
          if \<not> truthy (Some rule) then (None, w)
          else if action = Some (JStr ''block'') then refuse c SOP_RULE ruleId reason w
          else if action = Some (JStr ''warn'') then (None, emit_reason ToolFlagged c (flagged reason ruleId) w)
          else if action = Some (JStr ''require_approval'') then
            (case hold ic c (ca_ruleHold c) ruleId reason w of
               Inl e \<Rightarrow> fail_setting ic w
             | Inr r \<Rightarrow> r)
          else (None, w))"

definition check_commands :: "'b Interceptor \<Rightarrow> 'b McpCall \<Rightarrow> 'b Check" where
  "check_commands ic c w0 =
     (let commands = checkCommands (iw_policy w0) (ca_toolName c) (ca_toolInput c);
          w = fold (\<lambda>finding. emit_reason ToolFlagged c (flagged (fi_reason finding) (fi_ruleId finding))) (ev_shadow commands) w0
      in case ev_refusal commands of
           None \<Rightarrow> (None, w)
         | Some r \<Rightarrow> refuse c COMMAND_NOT_ALLOWED (fi_ruleId r) (fi_reason r) w)"

definition injection_severity :: "InjectionSeverity \<Rightarrow> EventSeverity" where
  "injection_severity s = (case s of InjLow \<Rightarrow> SeverityLow | InjHigh \<Rightarrow> SeverityHigh)"

definition injectionAction :: "'b Interceptor \<Rightarrow> 'b World \<Rightarrow> InjectionAction" where
  "injectionAction ic w = or_default (ic_injectionActionDefault ic) (pc_injectionAction (iw_policy w))"

definition injection_finding :: "InjectionAction \<Rightarrow> string list \<Rightarrow> DetectionFinding" where
  "injection_finding action findings =
     \<lparr>df_detectorId = ''injection:tool_input'', df_kind = ''prompt_injection'',
      df_disposition = (if action = InjBlock then Kill else Steer),
      df_severity = injection_severity (injectionSeverity findings SrcToolInput), df_confidence = 1\<rparr>"

definition check_injection :: "'b Interceptor \<Rightarrow> 'b McpCall \<Rightarrow> 'b Check" where
  "check_injection ic c w0 =
     (let w = w0\<lparr>iw_dynamic := snd (setDynamicInjectionPatterns (ic_compilePattern ic) (pc_injectionPatterns (iw_policy w0)) (iw_dynamic w0))\<rparr>;
          findings = scanText (iw_dynamic w) (input_json ic c)
      in if findings = [] then (None, w)
         else
           let reason = ''Prompt-injection pattern(s) detected in tool input: '' @ join_with '', '' findings;
               action = injectionAction ic w;
               w1 = emit_event ((plain_event InjectionDetected c (Some reason))\<lparr>ge_finding := Some (injection_finding action findings)\<rparr>)
                      (w\<lparr>iw_injectionFindings := findings, iw_injectionSources := [''tool_input'']\<rparr>)
           in if action = InjBlock then refuse c INJECTION ''injection.tool_input'' reason w1 else (None, w1))"

definition anomalyMode :: "'b Interceptor \<Rightarrow> 'b World \<Rightarrow> AnomalyMode" where
  "anomalyMode ic w = or_default (ic_anomalyModeDefault ic) (pc_anomalyMode (iw_policy w))"

definition load_window :: "'b Interceptor \<Rightarrow> 'b McpCall \<Rightarrow> 'b Check" where
  "load_window ic c w =
     (None, w\<lparr>iw_window := (if anomalyMode ic w \<noteq> ModeOff \<or> iw_runner w \<noteq> None
                         then Some (loadWindow (ca_sessionUp c) (ca_toolName c) (ca_now c) (iw_session w) (iw_sessionDb w)) else None)\<rparr>)"

text \<open>The policy's overrides win over this process's, key by key.\<close>

definition anomaly_overrides :: "'b Interceptor \<Rightarrow> 'b World \<Rightarrow> (string \<times> Disposition option) list" where
  "anomaly_overrides ic w = pc_anomalyOverrides (iw_policy w) @ ic_anomalyOverridesDefault ic"

definition disposition_severity :: "Disposition \<Rightarrow> EventSeverity" where
  "disposition_severity d = (case d of Kill \<Rightarrow> SeverityHigh | Reask \<Rightarrow> SeverityMedium | Steer \<Rightarrow> SeverityLow)"

fun anomaly_loop :: "'b Interceptor \<Rightarrow> 'b McpCall \<Rightarrow> AnomalyFinding list \<Rightarrow> 'b Check" where
  "anomaly_loop ic c [] w = (None, w)"
| "anomaly_loop ic c (f # fs) w =
     (case resolveEffectiveDisposition f (anomalyMode ic w) (anomaly_overrides ic w) of
        None \<Rightarrow> anomaly_loop ic c fs w
      | Some effective \<Rightarrow>
          let w1 = emit_event ((plain_event AnomalyDetected c (Some (af_reason f)))
                     \<lparr>ge_finding := Some (detectionFinding f effective (disposition_severity effective))\<rparr>) w
          in case effective of
               Kill \<Rightarrow> refuse c ANOMALY (af_detectorId f) (af_reason f) w1
             | Reask \<Rightarrow> applyReaskLadder c (af_detectorId f) (af_reason f) w1
             | Steer \<Rightarrow> anomaly_loop ic c fs w1)"

definition check_anomalies :: "'b Interceptor \<Rightarrow> 'b McpCall \<Rightarrow> 'b Check" where
  "check_anomalies ic c w =
     (case iw_window w of
        Some window \<Rightarrow>
          if anomalyMode ic w = ModeOff then (None, w)
          else
            let findings = evaluateSequenceDetectors (ic_numStr ic) (wd_prospective window) (ca_toolName c) (ca_toolInput c)
            in anomaly_loop ic c findings (w\<lparr>iw_corroborating := length findings\<rparr>)
      | None \<Rightarrow> (None, w))"


definition checkCloudRulesLoaded :: "'b Interceptor \<Rightarrow> 'b McpCall \<Rightarrow> 'b WasmRunner \<Rightarrow> 'b Check" where
  "checkCloudRulesLoaded ic c rn w0 =
     (let (rn', reports) = syncCloudRules (ic_sha256Hex ic) (ic_numStr ic) (ca_fetch c) (ca_compile c) (int (ca_now c))
                             (pc_wasmRules (iw_policy w0)) rn;
          w = w0\<lparr>iw_runner := Some rn', iw_refusedRules := iw_refusedRules w0 @ reports\<rparr>
      in if cloudRulesLoaded rn' \<or> failOpen ic w then (None, w)
         else refuse c GOVERNANCE_UNAVAILABLE ''mcpProxyFailBehavior''
           (''This workspace'' @ [CHR 0x27] @ ''s custom rules have not loaded (Intutic control plane unreachable since this ''
            @ ''proxy started), so whether one of them refuses this call is unknown. Tool call blocked ''
            @ ''(fail-closed mode: mcpProxyFailBehavior or INTUTIC_MCP_FAIL_OPEN=false).'') w)"

definition wasm_input :: "'b Interceptor \<Rightarrow> 'b McpCall \<Rightarrow> 'b World \<Rightarrow> WasmContextInput" where
  "wasm_input ic c w =
     \<lparr>wi_sessionId = ic_sessionId ic, wi_workspaceId = ic_workspaceId ic, wi_tools = ss_toolsList (iw_session w), wi_toolCallId = ca_toolCallId c,
      wi_toolName = ca_toolName c, wi_toolArguments = ca_toolInput c,
      wi_toolSequence = (case iw_window w of Some win \<Rightarrow> wd_prospective win | None \<Rightarrow> prospectiveSequence (ca_toolName c) (iw_session w)),
      wi_callsLast60s = (case iw_window w of Some win \<Rightarrow> wd_callsLast60s win
                                           | None \<Rightarrow> callsInLastMs (ca_now c) CALLS_WINDOW_MS (iw_session w)),
      wi_dlpFindingDescriptions = map dl_description (iw_dlpFindings w), wi_injectionFindings = iw_injectionFindings w,
      wi_injectionSources = iw_injectionSources w, wi_corroboratingDetectors = iw_corroborating w,
      wi_toolContractChanged = ss_toolContractChanged (iw_session w), wi_serverName = Some (ic_serverName ic)\<rparr>"

text \<open>The \<open>catch\<close> around the custom rules.\<close>

definition runner_failed :: "string \<Rightarrow> 'b Check" where
  "runner_failed message w =
     (Some (BlockCall GOVERNANCE_UNAVAILABLE ''wasm''
        (''Custom rules could not be evaluated: '' @ message @ ''. Tool call blocked: a rule '' @ ''that cannot decide never allows.'') NoDetail), w)"

definition act_on_verdict :: "'b Interceptor \<Rightarrow> 'b McpCall \<Rightarrow> WasmVerdict \<Rightarrow> 'b Check" where
  "act_on_verdict ic c verdict w =
     (case verdict of
        WasmAllow \<Rightarrow> (None, w)
      | WasmUnavailable reason ruleId stop \<Rightarrow>
          (Some (BlockCall GOVERNANCE_UNAVAILABLE (''wasm:'' @ ruleId) reason NoDetail),
           if stop \<noteq> StopQuarantined then emit_reason ToolBlocked c reason w else w)
      | WasmBlock reason ruleId \<Rightarrow> refuse c WASM_RULE (''wasm:'' @ ruleId) reason w
      | WasmReask reason ruleId \<Rightarrow> applyReaskLadder c (''wasm:'' @ ruleId) reason w
      | WasmHold reason ruleId tier \<Rightarrow>
          (case hold ic c (ca_wasmHold c) ruleId reason w of
             Inl e \<Rightarrow> runner_failed (ca_typeError c) w
           | Inr r \<Rightarrow> r))"

definition evaluate_rules :: "'b Interceptor \<Rightarrow> 'b McpCall \<Rightarrow> 'b WasmRunner \<Rightarrow> 'b Check" where
  "evaluate_rules ic c rn w =
     (case ca_runnerError c of
        Some message \<Rightarrow> runner_failed message w
      | None \<Rightarrow>
          let (verdict, shadow, rn') = runner_evaluate (ca_reply c (wasm_input ic c w)) rn;
              w1 = w\<lparr>iw_runner := Some rn'\<rparr>;
              w2 = (if shadow \<noteq> [] then emit_event ((plain_event WasmShadowEvaluated c None)\<lparr>ge_wasmShadowReports := shadow\<rparr>) w1 else w1)
          in act_on_verdict ic c verdict w2)"

definition check_wasm :: "'b Interceptor \<Rightarrow> 'b McpCall \<Rightarrow> 'b Check" where
  "check_wasm ic c w =
     (case iw_runner w of
        None \<Rightarrow> (None, w)
      | Some rn \<Rightarrow>
          (case checkCloudRulesLoaded ic c rn w of
             (Some d, w1) \<Rightarrow> (Some d, w1)
           | (None, w1) \<Rightarrow> (case iw_runner w1 of None \<Rightarrow> (None, w1) | Some rn1 \<Rightarrow> evaluate_rules ic c rn1 w1)))"

definition budget_finding :: "Disposition \<Rightarrow> EventSeverity \<Rightarrow> DetectionFinding" where
  "budget_finding d s = \<lparr>df_detectorId = ''budget'', df_kind = ''budget_breach'', df_disposition = d, df_severity = s, df_confidence = 1\<rparr>"

definition budget_event :: "'b Interceptor \<Rightarrow> 'b McpCall \<Rightarrow> EventKind \<Rightarrow> string \<Rightarrow> DetectionFinding \<Rightarrow> BudgetStanding \<Rightarrow> GovernanceEvent" where
  "budget_event ic c kind reason finding s =
     \<lparr>ge_kind = kind, ge_toolName = ca_toolName c, ge_toolInput = None, ge_reason = Some reason, ge_finding = Some finding,
      ge_budget = Some (budgetEventDetail (ic_isoTime ic) s), ge_wasmShadowReports = []\<rparr>"

definition budget_verdict :: "'b Interceptor \<Rightarrow> 'b McpCall \<Rightarrow> BudgetVerdict \<Rightarrow> 'b Check" where
  "budget_verdict ic c verdict w =
     (let policy = pc_mcpBudgets (iw_policy w) in
      case verdict of
        Unlimited \<Rightarrow> (None, w)
      | Allowed warnings \<Rightarrow>
          (None, fold (\<lambda>s. emit_event (budget_event ic c McpBudgetThreshold (warningReason (ic_isoTime ic) s (bp_warnAtPct policy))
                                         (budget_finding Steer SeverityLow) s)) warnings w)
      | Exceeded s notify \<Rightarrow>
          (let reason = exceededReason (ic_isoTime ic) s (ca_now c); detail = budgetEventDetail (ic_isoTime ic) s;
               w1 = (if notify then emit_event (budget_event ic c McpBudgetExceeded reason (budget_finding Kill SeverityMedium) s) w else w)
           in (Some (BlockCall BUDGET_EXCEEDED (bd_budgetId detail) reason (BudgetDetail detail)),
               emit_event ((plain_event ToolBlocked c (Some reason))\<lparr>ge_budget := Some detail\<rparr>) w1))
      | Unavailable budgets \<Rightarrow>
          if failOpen ic w then (None, w\<lparr>iw_budgetsUncheckedWarned := True\<rparr>)
          else
            let reason = unavailableReason budgets in
            (Some (BlockCall BUDGET_UNAVAILABLE ''mcpProxyFailBehavior'' reason (BudgetIds (map bg_id budgets))),
             emit_reason ToolBlocked c reason w))"

definition checkBudgets :: "'b Interceptor \<Rightarrow> 'b McpCall \<Rightarrow> 'b Check" where
  "checkBudgets ic c w =
     (case ic_budgets ic of
        None \<Rightarrow> (None, w)
      | Some enf \<Rightarrow>
          let (verdict, db) = check (ca_budgetUp c) (ic_encodeURIComponent ic) enf (pc_mcpBudgets (iw_policy w)) (ca_toolName c)
                                (map_option mp_memberId (pc_principal (iw_policy w))) (ca_now c) (iw_valkey w)
          in budget_verdict ic c verdict (w\<lparr>iw_valkey := db\<rparr>))"

section \<open>The decision\<close>

fun in_turn :: "'b Check list \<Rightarrow> 'b Check" where
  "in_turn [] w = (None, w)"
| "in_turn (f # fs) w = (case f w of (Some d, w1) \<Rightarrow> (Some d, w1) | (None, w1) \<Rightarrow> in_turn fs w1)"

definition fresh_locals :: "'b World \<Rightarrow> 'b World" where
  "fresh_locals w =
     w\<lparr>iw_dlpFindings := [], iw_injectionFindings := [], iw_injectionSources := [], iw_corroborating := 0, iw_window := None\<rparr>"

text \<open>The checks in their order: the built-in ones, then the custom rules and the budgets.\<close>

definition built_in :: "'b Interceptor \<Rightarrow> 'b McpCall \<Rightarrow> 'b Check list" where
  "built_in ic c =
     [checkRegistry ic c, check_servers ic c, check_tools ic c, checkSsoGroupClearance ic c, check_pii ic c, check_dlp ic c,
      check_rules ic c, check_commands ic c, check_injection ic c, load_window ic c, check_anomalies ic c]"

definition decide :: "'b Interceptor \<Rightarrow> 'b McpCall \<Rightarrow> 'b World \<Rightarrow> Decision \<times> 'b World" where
  "decide ic c w =
     (case in_turn (built_in ic c @ [check_wasm ic c, checkBudgets ic c]) (fresh_locals w) of
        (Some d, w1) \<Rightarrow> (d, w1)
      | (None, w1) \<Rightarrow> (AllowCall, emit_event (plain_event ToolAllowed c None) w1))"


section \<open>What a check changes\<close>

lemma emit_event_fields [simp]:
  "iw_policy (emit_event e w) = iw_policy w" "iw_session (emit_event e w) = iw_session w" "iw_sessionDb (emit_event e w) = iw_sessionDb w"
  "iw_valkey (emit_event e w) = iw_valkey w" "iw_dlp (emit_event e w) = iw_dlp w" "iw_dynamic (emit_event e w) = iw_dynamic w"
  "iw_runner (emit_event e w) = iw_runner w" "iw_window (emit_event e w) = iw_window w" "iw_events (emit_event e w) = iw_events w @ [e]"
  by (simp_all add: emit_event_def)

lemma refuse_simps [simp]:
  "fst (refuse c code i r w) = Some (BlockCall code i r NoDetail)" "snd (refuse c code i r w) = emit_event (plain_event ToolBlocked c (Some r)) w"
  by (simp_all add: refuse_def emit_reason_def)

lemma emit_reason_eq: "emit_reason kind c reason = emit_event (plain_event kind c (Some reason))"
  by (simp add: fun_eq_iff emit_reason_def)

lemma failOpen_emit [simp]: "failOpen ic (emit_event e w) = failOpen ic w"
  by (simp add: failOpen_def)

lemma fail_setting_simps [simp]:
  "fst (fail_setting ic w) = None \<longleftrightarrow> failOpen ic w" "snd (fail_setting ic w) = w"
  by (simp_all add: fail_setting_def)

lemma fold_emit_fields [simp]:
  "iw_policy (fold (\<lambda>x. emit_event (e x)) xs w) = iw_policy w" "iw_session (fold (\<lambda>x. emit_event (e x)) xs w) = iw_session w"
  "iw_sessionDb (fold (\<lambda>x. emit_event (e x)) xs w) = iw_sessionDb w" "iw_valkey (fold (\<lambda>x. emit_event (e x)) xs w) = iw_valkey w"
  "iw_dlp (fold (\<lambda>x. emit_event (e x)) xs w) = iw_dlp w" "iw_dynamic (fold (\<lambda>x. emit_event (e x)) xs w) = iw_dynamic w"
  "iw_runner (fold (\<lambda>x. emit_event (e x)) xs w) = iw_runner w" "iw_window (fold (\<lambda>x. emit_event (e x)) xs w) = iw_window w"
  "iw_events (fold (\<lambda>x. emit_event (e x)) xs w) = iw_events w @ map e xs"
  by (induction xs arbitrary: w) simp_all

text \<open>What the later checks read: everything kept but the events and the call's own variables.\<close>

definition kept :: "'b World \<Rightarrow> PolicyClient \<times> DlpSettings \<times> DynamicPatterns \<times> SessionState \<times> session_db \<times> 'b WasmRunner option \<times> valkey" where
  "kept w = (iw_policy w, iw_dlp w, iw_dynamic w, iw_session w, iw_sessionDb w, iw_runner w, iw_valkey w)"

lemma kept_emit [simp]: "kept (emit_event e w) = kept w" "kept (fold (\<lambda>x. emit_event (e' x)) xs w) = kept w"
  by (simp_all add: kept_def)

lemma kept_locals [simp]:
  "kept (w\<lparr>iw_dlpFindings := a\<rparr>) = kept w" "kept (w\<lparr>iw_injectionFindings := b, iw_injectionSources := d\<rparr>) = kept w"
  "kept (w\<lparr>iw_corroborating := e\<rparr>) = kept w" "kept (w\<lparr>iw_window := f\<rparr>) = kept w" "kept (w\<lparr>iw_budgetsUncheckedWarned := g\<rparr>) = kept w"
  "kept (fresh_locals w) = kept w"
  by (simp_all add: kept_def fresh_locals_def)

lemma kept_fields:
  assumes "kept w = kept w'"
  shows "iw_policy w = iw_policy w'" "iw_dlp w = iw_dlp w'" "iw_dynamic w = iw_dynamic w'" "iw_session w = iw_session w'"
    "iw_sessionDb w = iw_sessionDb w'" "iw_runner w = iw_runner w'" "iw_valkey w = iw_valkey w'"
  using assms by (simp_all add: kept_def)

text \<open>A hold emits an event; its decision is that of its outcome.\<close>

definition bypassed :: "unit + HoldOutcome \<times> json option \<Rightarrow> bool" where
  "bypassed r \<longleftrightarrow> (case r of Inr (Bypassed holdId decidedBy, posted) \<Rightarrow> True | _ \<Rightarrow> False)"

lemma hold_cases:
  obtains (thrown) e where "hold_outcome ic c ans i r = Inl e" "hold ic c ans i r w = Inl ()" "\<not> bypassed (hold_outcome ic c ans i r)"
    | (passed) e where "bypassed (hold_outcome ic c ans i r)" "\<not> isl (hold_outcome ic c ans i r)" "hold ic c ans i r w = Inr (None, emit_event e w)"
        "ge_kind e \<noteq> ToolAllowed"
    | (held) reason holdId e where "\<not> bypassed (hold_outcome ic c ans i r)" "\<not> isl (hold_outcome ic c ans i r)"
        "hold ic c ans i r w = Inr (Some (HoldCall reason holdId i), emit_event e w)" "ge_kind e = ToolHeld"
proof (cases "hold_outcome ic c ans i r")
  case (Inl e)
  then show thesis by (intro thrown) (simp_all add: hold_def bypassed_def)
next
  case (Inr x)
  then obtain outcome posted where x: "hold_outcome ic c ans i r = Inr (outcome, posted)" by (cases x) simp
  show thesis
  proof (cases outcome)
    case (Bypassed holdId decidedBy)
    with x show thesis by (intro passed [OF _ _ _ ]) (auto simp: hold_def bypassed_def emit_reason_def plain_event_def)
  next
    case (HoldRecorded holdId recorded)
    with x show thesis
      by (intro held [where e = "plain_event ToolHeld c (Some (flagged r i))"])
        (simp_all add: hold_def bypassed_def emit_reason_def Let_def plain_event_def)
  qed
qed

section \<open>When each check lets the call go on\<close>

lemma checkRegistry_kept:
  "kept (snd (checkRegistry ic c w)) =
     kept (w\<lparr>iw_policy := ready_client (ic_numStr ic) (ic_jsonParse ic) (ic_daemonMode ic) (int (ca_now c)) (ca_daemon c) (ca_http c) (iw_policy w)\<rparr>)"
  by (simp add: checkRegistry_def Let_def split: option.split)

lemma scoping_kept [simp]:
  "kept (snd (check_servers ic c w)) = kept w" "kept (snd (check_tools ic c w)) = kept w" "kept (snd (checkSsoGroupClearance ic c w)) = kept w"
  by (simp_all add: check_servers_def check_tools_def checkSsoGroupClearance_def Let_def)

lemma check_pii_kept:
  "fst (check_pii ic c w) = None \<Longrightarrow> kept (snd (check_pii ic c w)) = kept (w\<lparr>iw_dlp := setWorkspacePii (pc_piiDetectors (iw_policy w)) (iw_dlp w)\<rparr>)"
  by (auto simp: check_pii_def Let_def split: WorkspacePiiDetectors.splits if_splits)

lemma check_pii_valkey: "iw_valkey (snd (check_pii ic c w)) = iw_valkey w"
  by (auto simp: check_pii_def Let_def split: WorkspacePiiDetectors.splits)

lemma check_dlp_kept [simp]: "kept (snd (check_dlp ic c w)) = kept w"
  by (simp add: check_dlp_def Let_def split: list.split)

lemma check_rules_kept [simp]: "kept (snd (check_rules ic c w)) = kept w"
proof -
  have "kept (snd (case hold ic c (ca_ruleHold c) i r w of Inl e \<Rightarrow> fail_setting ic w | Inr x \<Rightarrow> x)) = kept w" for i r
    by (cases rule: hold_cases [of ic c "ca_ruleHold c" i r w]) simp_all
  then show ?thesis
    by (simp add: check_rules_def Let_def emit_reason_def split: sum.split option.split)
qed

lemma check_commands_kept [simp]: "kept (snd (check_commands ic c w)) = kept w"
  by (simp add: check_commands_def Let_def emit_reason_eq split: option.split)

lemma check_injection_kept:
  "kept (snd (check_injection ic c w)) =
     kept (w\<lparr>iw_dynamic := snd (setDynamicInjectionPatterns (ic_compilePattern ic) (pc_injectionPatterns (iw_policy w)) (iw_dynamic w))\<rparr>)"
  by (simp add: check_injection_def Let_def)

lemma load_window_simps [simp]:
  "fst (load_window ic c w) = None" "kept (snd (load_window ic c w)) = kept w"
  by (simp_all add: load_window_def)


lemma anomaly_loop_passes:
  "fst (anomaly_loop ic c fs w) = None \<longleftrightarrow>
     list_all (\<lambda>f. resolveEffectiveDisposition f (anomalyMode ic w) (anomaly_overrides ic w) \<in> {None, Some Steer}) fs"
proof (induction fs arbitrary: w)
  case (Cons f fs)
  have ladder: "fst (applyReaskLadder c k r w) \<noteq> None" for k r w
    by (simp add: applyReaskLadder_def Let_def split: prod.split)
  show ?case
  proof (cases "resolveEffectiveDisposition f (anomalyMode ic w) (anomaly_overrides ic w)")
    case None
    with Cons show ?thesis by simp
  next
    case (Some d)
    with Cons ladder show ?thesis
      by (cases d) (simp_all add: Let_def anomalyMode_def anomaly_overrides_def)
  qed
qed simp

lemma anomaly_loop_kept: "fst (anomaly_loop ic c fs w) = None \<Longrightarrow> kept (snd (anomaly_loop ic c fs w)) = kept w"
proof (induction fs arbitrary: w)
  case (Cons f fs)
  have ladder: "fst (applyReaskLadder c k r w) \<noteq> None" for k r w
    by (simp add: applyReaskLadder_def Let_def split: prod.split)
  show ?case
  proof (cases "resolveEffectiveDisposition f (anomalyMode ic w) (anomaly_overrides ic w)")
    case None
    with Cons show ?thesis by simp
  next
    case (Some d)
    with Cons ladder show ?thesis
      by (cases d) (simp_all add: Let_def)
  qed
qed simp

lemma check_anomalies_kept: "fst (check_anomalies ic c w) = None \<Longrightarrow> kept (snd (check_anomalies ic c w)) = kept w"
  by (auto simp: check_anomalies_def Let_def anomaly_loop_kept split: option.splits if_splits)

section \<open>What a call must pass\<close>

definition fails_open :: "'b Interceptor \<Rightarrow> PolicyClient \<Rightarrow> bool" where
  "fails_open ic pc \<longleftrightarrow> or_default (ic_localFailOpen ic) (pc_failOpen pc)"

text \<open>PII settings the control plane could not read are unknown.\<close>

definition pii_known :: "'b Interceptor \<Rightarrow> PolicyClient \<Rightarrow> bool" where
  "pii_known ic pc \<longleftrightarrow> (case pc_piiDetectors pc of PiiUnreadable reason \<Rightarrow> fails_open ic pc | _ \<Rightarrow> True)"

text \<open>The operator's decisions: the registry, the allowlists, SSO clearance, and PII settings that can be read.\<close>

definition passes_access :: "'b Interceptor \<Rightarrow> 'b McpCall \<Rightarrow> PolicyClient \<Rightarrow> bool" where
  "passes_access ic c pc \<longleftrightarrow>
     (case pc_registry pc of None \<Rightarrow> fails_open ic pc | Some r \<Rightarrow> evaluateMcpRegistry r (ic_serverName ic) (ca_toolName c) = None)
     \<and> (pc_allowedServers pc = [] \<or> ic_serverName ic \<in> set (pc_allowedServers pc))
     \<and> (pc_allowedTools pc = [] \<or> ca_toolName c \<in> set (pc_allowedTools pc))
     \<and> sd_clearance (clearance_of ic c pc) = GRANTED
     \<and> pii_known ic pc"

text \<open>The rules: none that blocks, one that asks for approval only with a bypass, and every command allowed.\<close>

definition passes_rules :: "'b Interceptor \<Rightarrow> 'b McpCall \<Rightarrow> PolicyClient \<Rightarrow> bool" where
  "passes_rules ic c pc \<longleftrightarrow>
     (case matchRule (ic_regex ic) pc (ca_toolName c) (input_json ic c) of
        Inl e \<Rightarrow> fails_open ic pc
      | Inr None \<Rightarrow> True
      | Inr (Some rule) \<Rightarrow>
          (let outcome = hold_outcome ic c (ca_ruleHold c) (rule_field ic rule ''id'') (rule_field ic rule ''reason'') in
           \<not> truthy (Some rule)
           \<or> json_field rule ''action'' \<noteq> Some (JStr ''block'')
             \<and> (json_field rule ''action'' = Some (JStr ''require_approval'') \<longrightarrow> bypassed outcome \<or> isl outcome \<and> fails_open ic pc)))
     \<and> ev_refusal (checkCommands pc (ca_toolName c) (ca_toolInput c)) = None"

definition passes_scans :: "'b Interceptor \<Rightarrow> 'b McpCall \<Rightarrow> PolicyClient \<Rightarrow> DlpSettings \<Rightarrow> DynamicPatterns \<Rightarrow> bool" where
  "passes_scans ic c pc dlp dynamic \<longleftrightarrow>
     scanToolInput (ic_numStr ic) (setWorkspacePii (pc_piiDetectors pc) dlp) (ca_toolInput c) = []
     \<and> (scanText (snd (setDynamicInjectionPatterns (ic_compilePattern ic) (pc_injectionPatterns pc) dynamic)) (input_json ic c) = []
        \<or> or_default (ic_injectionActionDefault ic) (pc_injectionAction pc) \<noteq> InjBlock)"

definition passes_anomalies :: "'b Interceptor \<Rightarrow> 'b McpCall \<Rightarrow> PolicyClient \<Rightarrow> SessionWindow \<Rightarrow> bool" where
  "passes_anomalies ic c pc window \<longleftrightarrow>
     (let mode = or_default (ic_anomalyModeDefault ic) (pc_anomalyMode pc) in
      mode = ModeOff
      \<or> list_all (\<lambda>f. resolveEffectiveDisposition f mode (pc_anomalyOverrides pc @ ic_anomalyOverridesDefault ic) \<in> {None, Some Steer})
          (evaluateSequenceDetectors (ic_numStr ic) (wd_prospective window) (ca_toolName c) (ca_toolInput c)))"

definition passes_wasm :: "'b Interceptor \<Rightarrow> 'b McpCall \<Rightarrow> PolicyClient \<Rightarrow> 'b WasmRunner option \<Rightarrow> WasmContextInput \<Rightarrow> bool" where
  "passes_wasm ic c pc runner input \<longleftrightarrow>
     (case runner of
        None \<Rightarrow> True
      | Some rn \<Rightarrow>
          (let rn' = fst (syncCloudRules (ic_sha256Hex ic) (ic_numStr ic) (ca_fetch c) (ca_compile c) (int (ca_now c)) (pc_wasmRules pc) rn) in
           (cloudRulesLoaded rn' \<or> fails_open ic pc) \<and> ca_runnerError c = None
           \<and> (case fst (runner_evaluate (ca_reply c input) rn') of
                WasmAllow \<Rightarrow> True
              | WasmHold reason i tier \<Rightarrow> bypassed (hold_outcome ic c (ca_wasmHold c) i reason)
              | _ \<Rightarrow> False)))"

definition passes_budgets :: "'b Interceptor \<Rightarrow> 'b McpCall \<Rightarrow> PolicyClient \<Rightarrow> valkey \<Rightarrow> bool" where
  "passes_budgets ic c pc db \<longleftrightarrow>
     (case ic_budgets ic of
        None \<Rightarrow> True
      | Some enf \<Rightarrow>
          (case fst (check (ca_budgetUp c) (ic_encodeURIComponent ic) enf (pc_mcpBudgets pc) (ca_toolName c)
                       (map_option mp_memberId (pc_principal pc)) (ca_now c) db) of
             Unlimited \<Rightarrow> True | Allowed warnings \<Rightarrow> True | Exceeded s notify \<Rightarrow> False | Unavailable budgets \<Rightarrow> fails_open ic pc))"


lemma failOpen_policy: "failOpen ic w \<longleftrightarrow> fails_open ic (iw_policy w)"
  by (simp add: failOpen_def fails_open_def)

lemma access_conditions:
  "fst (checkRegistry ic c w) = None \<longleftrightarrow>
     (let pc = ready_client (ic_numStr ic) (ic_jsonParse ic) (ic_daemonMode ic) (int (ca_now c)) (ca_daemon c) (ca_http c) (iw_policy w) in
      case pc_registry pc of None \<Rightarrow> fails_open ic pc | Some r \<Rightarrow> evaluateMcpRegistry r (ic_serverName ic) (ca_toolName c) = None)"
  "fst (check_servers ic c w) = None \<longleftrightarrow> pc_allowedServers (iw_policy w) = [] \<or> ic_serverName ic \<in> set (pc_allowedServers (iw_policy w))"
  "fst (check_tools ic c w) = None \<longleftrightarrow> pc_allowedTools (iw_policy w) = [] \<or> ca_toolName c \<in> set (pc_allowedTools (iw_policy w))"
  "fst (checkSsoGroupClearance ic c w) = None \<longleftrightarrow> sd_clearance (clearance_of ic c (iw_policy w)) = GRANTED"
  "fst (check_pii ic c w) = None \<longleftrightarrow> pii_known ic (iw_policy w)"
  by (auto simp: pii_known_def checkRegistry_def check_servers_def check_tools_def checkSsoGroupClearance_def check_pii_def failOpen_policy Let_def
      split: option.splits WorkspacePiiDetectors.splits)

lemma rule_condition:
  "fst (check_rules ic c w) = None \<and> ev_refusal (checkCommands (iw_policy w) (ca_toolName c) (ca_toolInput c)) = None
   \<longleftrightarrow> passes_rules ic c (iw_policy w)"
proof -
  have hold: "fst (case hold ic c (ca_ruleHold c) i r w of Inl e \<Rightarrow> fail_setting ic w | Inr x \<Rightarrow> x) = None
      \<longleftrightarrow> bypassed (hold_outcome ic c (ca_ruleHold c) i r) \<or> isl (hold_outcome ic c (ca_ruleHold c) i r) \<and> fails_open ic (iw_policy w)" for i r
    by (cases rule: hold_cases [of ic c "ca_ruleHold c" i r w]) (simp_all add: failOpen_policy)
  then show ?thesis
    by (simp add: check_rules_def passes_rules_def failOpen_policy Let_def split: sum.split option.split)
qed

lemma scan_conditions:
  "fst (check_dlp ic c w) = None \<longleftrightarrow> scanToolInput (ic_numStr ic) (iw_dlp w) (ca_toolInput c) = []"
  "fst (check_commands ic c w) = None \<longleftrightarrow> ev_refusal (checkCommands (iw_policy w) (ca_toolName c) (ca_toolInput c)) = None"
  "fst (check_injection ic c w) = None \<longleftrightarrow>
     scanText (snd (setDynamicInjectionPatterns (ic_compilePattern ic) (pc_injectionPatterns (iw_policy w)) (iw_dynamic w))) (input_json ic c) = []
     \<or> or_default (ic_injectionActionDefault ic) (pc_injectionAction (iw_policy w)) \<noteq> InjBlock"
  by (auto simp: check_dlp_def check_commands_def check_injection_def injectionAction_def Let_def split: list.splits option.splits)

lemma anomaly_condition:
  "fst (check_anomalies ic c (snd (load_window ic c w))) = None \<longleftrightarrow>
     passes_anomalies ic c (iw_policy w) (loadWindow (ca_sessionUp c) (ca_toolName c) (ca_now c) (iw_session w) (iw_sessionDb w))"
  by (simp add: check_anomalies_def load_window_def passes_anomalies_def anomaly_loop_passes anomalyMode_def anomaly_overrides_def Let_def)

lemma wasm_input_reads [simp]: "wasm_input ic c (w\<lparr>iw_runner := r, iw_refusedRules := q\<rparr>) = wasm_input ic c w"
  by (simp add: wasm_input_def split: option.split)

lemma refuse_eq: "refuse c code i r w = (Some (BlockCall code i r NoDetail), emit_event (plain_event ToolBlocked c (Some r)) w)"
  by (simp add: refuse_def emit_reason_eq)

lemma wasm_condition:
  "fst (check_wasm ic c w) = None \<longleftrightarrow> passes_wasm ic c (iw_policy w) (iw_runner w) (wasm_input ic c w)"
proof (cases "iw_runner w")
  case (Some rn)
  obtain rn' reports where s: "syncCloudRules (ic_sha256Hex ic) (ic_numStr ic) (ca_fetch c) (ca_compile c) (int (ca_now c)) (pc_wasmRules (iw_policy w)) rn = (rn', reports)"
    by force
  obtain v shadow rn'' where e: "runner_evaluate (ca_reply c (wasm_input ic c w)) rn' = (v, shadow, rn'')" by (metis prod_cases3)
  have ladder: "fst (applyReaskLadder c k r w) \<noteq> None" for k r w
    by (simp add: applyReaskLadder_def Let_def split: prod.split)
  have act: "fst (act_on_verdict ic c v w') = None
      \<longleftrightarrow> (case v of WasmAllow \<Rightarrow> True | WasmHold reason i tier \<Rightarrow> bypassed (hold_outcome ic c (ca_wasmHold c) i reason) | _ \<Rightarrow> False)" for w'
  proof (cases v)
    case (WasmHold reason i tier)
    show ?thesis
      by (cases rule: hold_cases [of ic c "ca_wasmHold c" i reason w']) (simp_all add: act_on_verdict_def WasmHold runner_failed_def)
  qed (simp_all add: act_on_verdict_def ladder)
  show ?thesis
    by (simp add: check_wasm_def checkCloudRulesLoaded_def Some s Let_def failOpen_policy passes_wasm_def evaluate_rules_def runner_failed_def e act refuse_eq
        split: option.split)
qed (simp add: check_wasm_def passes_wasm_def)

lemma budget_condition: "fst (checkBudgets ic c w) = None \<longleftrightarrow> passes_budgets ic c (iw_policy w) (iw_valkey w)"
  by (simp add: checkBudgets_def passes_budgets_def budget_verdict_def failOpen_policy Let_def split: option.split prod.split BudgetVerdict.split)

text \<open>The custom rules change the runner, the session and what is reported, never the policy or the budget store.\<close>

definition accounts :: "'b World \<Rightarrow> PolicyClient \<times> valkey" where
  "accounts w = (iw_policy w, iw_valkey w)"

lemma accounts_simps [simp]:
  "accounts (emit_event e w) = accounts w" "accounts (w\<lparr>iw_runner := r\<rparr>) = accounts w"
  "accounts (w\<lparr>iw_runner := r, iw_refusedRules := q\<rparr>) = accounts w" "accounts (w\<lparr>iw_session := s, iw_sessionDb := d\<rparr>) = accounts w"
  by (simp_all add: accounts_def)

lemma ladder_accounts [simp]: "accounts (snd (applyReaskLadder c k r w)) = accounts w"
  by (simp add: applyReaskLadder_def Let_def split: prod.split)

lemma check_wasm_accounts: "accounts (snd (check_wasm ic c w)) = accounts w"
proof -
  have act: "accounts (snd (act_on_verdict ic c v w')) = accounts w'" for v w'
  proof (cases v)
    case (WasmHold reason i tier)
    show ?thesis
      by (cases rule: hold_cases [of ic c "ca_wasmHold c" i reason w']) (simp_all add: act_on_verdict_def WasmHold runner_failed_def)
  qed (simp_all add: act_on_verdict_def emit_reason_eq)
  have rules: "accounts (snd (evaluate_rules ic c rn w')) = accounts w'" for rn w'
    by (simp add: evaluate_rules_def runner_failed_def act Let_def split: option.split prod.split)
  have cloud: "accounts (snd (checkCloudRulesLoaded ic c rn w)) = accounts w" for rn
    by (simp add: checkCloudRulesLoaded_def Let_def split: prod.split)
  show ?thesis
  proof (cases "iw_runner w")
    case (Some rn)
    obtain d w1 where one: "checkCloudRulesLoaded ic c rn w = (d, w1)" by force
    with cloud [of rn] have "accounts w1 = accounts w" by simp
    with Some one rules show ?thesis by (simp add: check_wasm_def split: option.split)
  qed (simp add: check_wasm_def)
qed


section \<open>The checks in turn\<close>

lemma in_turn_simps:
  "fst (in_turn (f # fs) w) = None \<longleftrightarrow> fst (f w) = None \<and> fst (in_turn fs (snd (f w))) = None"
  "snd (in_turn (f # fs) w) = (if fst (f w) = None then snd (in_turn fs (snd (f w))) else snd (f w))"
  by (auto split: prod.split option.split)

lemma in_turn_append:
  "in_turn (fs @ gs) w = (if fst (in_turn fs w) = None then in_turn gs (snd (in_turn fs w)) else in_turn fs w)"
  by (induction fs arbitrary: w) (auto split: prod.split option.split)

text \<open>A contract of the checks: what doing nothing satisfies, and a check that passes hands on to the rest.  A row of
  checks inherits it.\<close>

locale check_contract =
  fixes P :: "'b World \<Rightarrow> Decision option \<times> 'b World \<Rightarrow> bool"
  assumes pass: "P w (None, w)"
    and hand_on: "P w (None, w1) \<Longrightarrow> P w1 r \<Longrightarrow> P w r"
begin

lemma in_turn_kept: "list_all (\<lambda>f. \<forall>w. P w (f w)) fs \<Longrightarrow> P w (in_turn fs w)"
proof (induction fs arbitrary: w)
  case (Cons f fs)
  then have f: "P w (f w)" and IH: "P w' (in_turn fs w')" for w' by auto
  obtain d w1 where fw: "f w = (d, w1)" by force
  show ?case
  proof (cases d)
    case None
    with f fw IH hand_on show ?thesis by simp
  next
    case (Some d')
    with f fw show ?thesis by simp
  qed
qed (simp add: pass)

end

definition ready_policy :: "'b Interceptor \<Rightarrow> 'b McpCall \<Rightarrow> 'b World \<Rightarrow> PolicyClient" where
  "ready_policy ic c w =
     ready_client (ic_numStr ic) (ic_jsonParse ic) (ic_daemonMode ic) (int (ca_now c)) (ca_daemon c) (ca_http c) (iw_policy w)"

definition passes_built_in :: "'b Interceptor \<Rightarrow> 'b McpCall \<Rightarrow> 'b World \<Rightarrow> bool" where
  "passes_built_in ic c w \<longleftrightarrow>
     (let pc = ready_policy ic c w in
      passes_access ic c pc \<and> passes_scans ic c pc (iw_dlp w) (iw_dynamic w) \<and> passes_rules ic c pc
      \<and> passes_anomalies ic c pc (loadWindow (ca_sessionUp c) (ca_toolName c) (ca_now c) (iw_session w) (iw_sessionDb w)))"

lemmas kept_defs = kept_def ready_policy_def

lemma built_in_condition:
  "fst (in_turn (built_in ic c) (fresh_locals w)) = None \<longleftrightarrow> passes_built_in ic c w"
  and built_in_kept:
  "fst (in_turn (built_in ic c) (fresh_locals w)) = None \<Longrightarrow>
     accounts (snd (in_turn (built_in ic c) (fresh_locals w))) = (ready_policy ic c w, iw_valkey w)
     \<and> iw_runner (snd (in_turn (built_in ic c) (fresh_locals w))) = iw_runner w"
proof -
  let ?pc = "ready_policy ic c w"
  define w1 where "w1 = snd (checkRegistry ic c (fresh_locals w))"
  define w2 where "w2 = snd (check_servers ic c w1)"
  define w3 where "w3 = snd (check_tools ic c w2)"
  define w4 where "w4 = snd (checkSsoGroupClearance ic c w3)"
  define w5 where "w5 = snd (check_pii ic c w4)"
  define w6 where "w6 = snd (check_dlp ic c w5)"
  define w7 where "w7 = snd (check_rules ic c w6)"
  define w8 where "w8 = snd (check_commands ic c w7)"
  define w9 where "w9 = snd (check_injection ic c w8)"
  define w10 where "w10 = snd (load_window ic c w9)"
  define w11 where "w11 = snd (check_anomalies ic c w10)"
  note ws = w1_def w2_def w3_def w4_def w5_def w6_def w7_def w8_def w9_def w10_def w11_def
  have f0: "iw_policy (fresh_locals w) = iw_policy w" by (simp add: fresh_locals_def)
  have k1: "kept w1 = (?pc, iw_dlp w, iw_dynamic w, iw_session w, iw_sessionDb w, iw_runner w, iw_valkey w)"
    unfolding w1_def checkRegistry_kept by (simp add: kept_defs fresh_locals_def)
  have k4: "kept w4 = kept w1" by (simp add: w2_def w3_def w4_def)
  have k3: "kept w3 = kept w1" "kept w2 = kept w1" by (simp_all add: w2_def w3_def)
  have p1: "iw_policy w1 = ?pc" "iw_policy w2 = ?pc" "iw_policy w3 = ?pc" "iw_policy w4 = ?pc" "iw_dlp w4 = iw_dlp w"
    using k1 k3 k4 by (simp_all add: kept_def)
  let ?dlp = "setWorkspacePii (pc_piiDetectors ?pc) (iw_dlp w)"
  have k5: "kept w5 = (?pc, ?dlp, iw_dynamic w, iw_session w, iw_sessionDb w, iw_runner w, iw_valkey w)" if "fst (check_pii ic c w4) = None"
    using check_pii_kept [OF that] k1 k4 p1 by (simp add: w5_def kept_def)
  have k8: "kept w6 = kept w5" "kept w7 = kept w5" "kept w8 = kept w5" by (simp_all add: w6_def w7_def w8_def)
  let ?dyn = "snd (setDynamicInjectionPatterns (ic_compilePattern ic) (pc_injectionPatterns ?pc) (iw_dynamic w))"
  have k9: "kept w9 = (?pc, ?dlp, ?dyn, iw_session w, iw_sessionDb w, iw_runner w, iw_valkey w)" if "fst (check_pii ic c w4) = None"
    using k5 [OF that] k8 check_injection_kept [of ic c w8] by (simp add: w9_def kept_def)
  have k10: "kept w10 = kept w9" by (simp add: w10_def)
  have chain: "fst (in_turn (built_in ic c) (fresh_locals w)) = None \<longleftrightarrow>
      fst (checkRegistry ic c (fresh_locals w)) = None \<and> fst (check_servers ic c w1) = None \<and> fst (check_tools ic c w2) = None
      \<and> fst (checkSsoGroupClearance ic c w3) = None \<and> fst (check_pii ic c w4) = None \<and> fst (check_dlp ic c w5) = None
      \<and> fst (check_rules ic c w6) = None \<and> fst (check_commands ic c w7) = None \<and> fst (check_injection ic c w8) = None
      \<and> fst (check_anomalies ic c w10) = None"
    unfolding built_in_def in_turn_simps(1) ws by simp
  have rest: "fst (check_dlp ic c w5) = None \<and> fst (check_rules ic c w6) = None \<and> fst (check_commands ic c w7) = None
      \<and> fst (check_injection ic c w8) = None \<and> fst (check_anomalies ic c w10) = None
      \<longleftrightarrow> passes_scans ic c ?pc (iw_dlp w) (iw_dynamic w) \<and> passes_rules ic c ?pc
        \<and> passes_anomalies ic c ?pc (loadWindow (ca_sessionUp c) (ca_toolName c) (ca_now c) (iw_session w) (iw_sessionDb w))"
    if "fst (check_pii ic c w4) = None"
  proof -
    from k5 [OF that] k8 k9 [OF that] have
      "iw_dlp w5 = ?dlp" "iw_policy w6 = ?pc" "iw_policy w7 = ?pc" "iw_policy w8 = ?pc" "iw_dynamic w8 = iw_dynamic w"
      "iw_policy w9 = ?pc" "iw_session w9 = iw_session w" "iw_sessionDb w9 = iw_sessionDb w"
      by (simp_all add: kept_def)
    with rule_condition [of ic c w6] anomaly_condition [of ic c w9] show ?thesis
      by (auto simp: scan_conditions passes_scans_def w10_def)
  qed
  show iff: "fst (in_turn (built_in ic c) (fresh_locals w)) = None \<longleftrightarrow> passes_built_in ic c w"
  proof (cases "fst (check_pii ic c w4) = None")
    case True
    with chain rest p1 show ?thesis
      by (auto simp: passes_built_in_def passes_access_def access_conditions f0 ready_policy_def [symmetric] Let_def)
  next
    case False
    with chain p1 show ?thesis by (simp add: passes_built_in_def passes_access_def access_conditions Let_def)
  qed
  assume all: "fst (in_turn (built_in ic c) (fresh_locals w)) = None"
  then have "snd (in_turn (built_in ic c) (fresh_locals w)) = w11"
    using chain unfolding built_in_def in_turn_simps(2) ws by simp
  moreover from all chain have "fst (check_pii ic c w4) = None" "fst (check_anomalies ic c w10) = None" by simp_all
  with k9 k10 check_anomalies_kept [of ic c w10] have "kept w11 = (?pc, ?dlp, ?dyn, iw_session w, iw_sessionDb w, iw_runner w, iw_valkey w)"
    by (simp add: w11_def)
  ultimately show "accounts (snd (in_turn (built_in ic c) (fresh_locals w))) = (?pc, iw_valkey w)
     \<and> iw_runner (snd (in_turn (built_in ic c) (fresh_locals w))) = iw_runner w"
    by (simp add: accounts_def kept_def)
qed


section \<open>What a decision reports and spends\<close>

definition reported :: "Decision \<Rightarrow> GovernanceEvent list \<Rightarrow> bool" where
  "reported d evs \<longleftrightarrow>
     (case d of
        AllowCall \<Rightarrow> list_ex (\<lambda>e. ge_kind e = ToolAllowed) evs
      | BlockCall code ruleId reason detail \<Rightarrow>
          code = GOVERNANCE_UNAVAILABLE \<or> list_ex (\<lambda>e. ge_kind e = ToolBlocked \<and> ge_reason e = Some reason) evs
      | HoldCall reason holdId ruleId \<Rightarrow> list_ex (\<lambda>e. ge_kind e = ToolHeld) evs)"

text \<open>A check never allows a call itself, only adds events, none of which says that the call was allowed, and reports its
  refusal among them.\<close>

definition says_allowed :: "GovernanceEvent list \<Rightarrow> bool" where
  "says_allowed evs \<longleftrightarrow> list_ex (\<lambda>e. ge_kind e = ToolAllowed) evs"

lemma says_allowed_simps [simp]:
  "\<not> says_allowed []" "says_allowed (e # es) \<longleftrightarrow> ge_kind e = ToolAllowed \<or> says_allowed es"
  "says_allowed (xs @ ys) \<longleftrightarrow> says_allowed xs \<or> says_allowed ys"
  "says_allowed (map f zs) \<longleftrightarrow> (\<exists>z \<in> set zs. ge_kind (f z) = ToolAllowed)"
  by (auto simp: says_allowed_def list_ex_iff)

lemma budget_event_kind [simp]: "ge_kind (budget_event ic c k r f s) = k"
  by (simp add: budget_event_def)

lemma plain_event_kind [simp]: "ge_kind (plain_event k c r) = k"
  by (simp add: plain_event_def)

definition behaves :: "'b World \<Rightarrow> Decision option \<times> 'b World \<Rightarrow> bool" where
  "behaves w r \<longleftrightarrow>
     fst r \<noteq> Some AllowCall
     \<and> (\<exists>new. iw_events (snd r) = iw_events w @ new \<and> \<not> says_allowed new \<and> (case fst r of None \<Rightarrow> True | Some d \<Rightarrow> reported d new))"

lemma reported_later: "reported d new \<Longrightarrow> reported d (old @ new)"
  by (auto simp: reported_def split: Decision.splits)

lemma behaves_trans:
  assumes one: "behaves w (None, w1)" and two: "behaves w1 r"
  shows "behaves w r"
proof -
  from one obtain old where old: "iw_events w1 = iw_events w @ old" "\<not> says_allowed old" by (auto simp: behaves_def)
  from two obtain new where new: "iw_events (snd r) = iw_events w1 @ new" "\<not> says_allowed new" "case fst r of None \<Rightarrow> True | Some d \<Rightarrow> reported d new"
    and "fst r \<noteq> Some AllowCall" by (auto simp: behaves_def)
  with old show ?thesis
    unfolding behaves_def by (intro conjI exI [of _ "old @ new"]) (simp_all add: reported_later split: option.splits)
qed

lemma behaves_after: "iw_events w1 = iw_events w @ evs \<Longrightarrow> \<not> says_allowed evs \<Longrightarrow> behaves w1 r \<Longrightarrow> behaves w r"
  by (rule behaves_trans [of w w1]) (simp_all add: behaves_def)

lemma behaves_pass [simp]: "iw_events w1 = iw_events w @ evs \<Longrightarrow> \<not> says_allowed evs \<Longrightarrow> behaves w (None, w1)"
  by (simp add: behaves_def)

lemma behaves_none [simp]: "behaves w (None, w)"
  by (simp add: behaves_def)

lemma behaves_refuse: "iw_events w1 = iw_events w @ evs \<Longrightarrow> \<not> says_allowed evs \<Longrightarrow> behaves w (refuse c code i r w1)"
  by (rule behaves_after [of w1 w evs]) (simp_all add: behaves_def refuse_eq reported_def plain_event_def)

lemma behaves_refuse_here [simp]: "iw_events w1 = iw_events w \<Longrightarrow> behaves w (refuse c code i r w1)"
  using behaves_refuse [of w1 w "[]"] by simp

lemma behaves_fail_setting [simp]: "behaves w (fail_setting ic w)"
  by (simp add: behaves_def fail_setting_def reported_def)

lemma behaves_ladder: "behaves w (applyReaskLadder c k r w)"
  by (simp add: applyReaskLadder_def Let_def split: prod.split)

lemma behaves_hold: "behaves w (case hold ic c ans i r w of Inl e \<Rightarrow> f | Inr x \<Rightarrow> x)" if "behaves w f"
proof (cases rule: hold_cases [of ic c ans i r w])
  case thrown
  then show ?thesis by (simp add: that)
qed (simp_all add: behaves_def reported_def)

lemma behaves_anomaly_loop: "behaves w (anomaly_loop ic c fs w)"
proof (induction fs arbitrary: w)
  case (Cons f fs)
  show ?case
  proof (cases "resolveEffectiveDisposition f (anomalyMode ic w) (anomaly_overrides ic w)")
    case None
    with Cons show ?thesis by simp
  next
    case (Some d)
    let ?w = "emit_event ((plain_event AnomalyDetected c (Some (af_reason f)))\<lparr>ge_finding := Some (detectionFinding f d (disposition_severity d))\<rparr>) w"
    have "behaves ?w (case d of Kill \<Rightarrow> refuse c ANOMALY (af_detectorId f) (af_reason f) ?w
        | Reask \<Rightarrow> applyReaskLadder c (af_detectorId f) (af_reason f) ?w | Steer \<Rightarrow> anomaly_loop ic c fs ?w)"
      using Cons behaves_ladder by (cases d) simp_all
    from behaves_after [OF _ _ this] Some show ?thesis by (simp add: Let_def)
  qed
qed simp

lemma behaves_act: "behaves w (act_on_verdict ic c v w)"
proof (cases v)
  case (WasmHold reason i tier)
  then show ?thesis
    by (simp add: act_on_verdict_def) (rule behaves_hold, simp add: behaves_def runner_failed_def reported_def)
qed (simp_all add: act_on_verdict_def behaves_ladder, simp_all add: behaves_def emit_reason_eq reported_def)

lemma behaves_wasm: "behaves w (check_wasm ic c w)"
proof -
  have rules: "behaves w' (evaluate_rules ic c rn w')" for rn w'
  proof (cases "ca_runnerError c")
    case None
    obtain v shadow rn' where e: "runner_evaluate (ca_reply c (wasm_input ic c w')) rn = (v, shadow, rn')" by (metis prod_cases3)
    let ?w = "if shadow \<noteq> [] then emit_event ((plain_event WasmShadowEvaluated c None)\<lparr>ge_wasmShadowReports := shadow\<rparr>) (w'\<lparr>iw_runner := Some rn'\<rparr>)
              else w'\<lparr>iw_runner := Some rn'\<rparr>"
    have "behaves w' (act_on_verdict ic c v ?w)"
      by (rule behaves_after [OF _ _ behaves_act, where evs = "if shadow \<noteq> [] then [(plain_event WasmShadowEvaluated c None)\<lparr>ge_wasmShadowReports := shadow\<rparr>] else []"]) simp_all
    with None e show ?thesis by (simp add: evaluate_rules_def Let_def)
  qed (simp add: evaluate_rules_def runner_failed_def behaves_def reported_def)
  have cloud: "behaves w (checkCloudRulesLoaded ic c rn w)" for rn
    by (simp add: checkCloudRulesLoaded_def Let_def behaves_def refuse_eq reported_def split: prod.split)
  show ?thesis
  proof (cases "iw_runner w")
    case (Some rn)
    obtain d w1 where one: "checkCloudRulesLoaded ic c rn w = (d, w1)" by force
    show ?thesis
    proof (cases d)
      case None
      show ?thesis
      proof (cases "iw_runner w1")
        case (Some rn1)
        have "behaves w (evaluate_rules ic c rn1 w1)"
          using cloud [of rn] one None by (intro behaves_trans [OF _ rules]) simp
        with one None \<open>iw_runner w = Some rn\<close> Some show ?thesis by (simp add: check_wasm_def)
      qed (use cloud [of rn] one None \<open>iw_runner w = Some rn\<close> in \<open>simp add: check_wasm_def\<close>)
    qed (use cloud [of rn] one \<open>iw_runner w = Some rn\<close> in \<open>simp add: check_wasm_def\<close>)
  qed (simp add: check_wasm_def)
qed

lemma behaves_budgets: "behaves w (checkBudgets ic c w)"
  by (auto simp: checkBudgets_def budget_verdict_def Let_def behaves_def reported_def emit_reason_eq plain_event_def
      split: option.split prod.split BudgetVerdict.split)

lemma behaves_built_in: "list_all (\<lambda>f. \<forall>w. behaves w (f w)) (built_in ic c)"
proof -
  have scoping: "behaves w (checkRegistry ic c w)" "behaves w (check_servers ic c w)" "behaves w (check_tools ic c w)"
    "behaves w (checkSsoGroupClearance ic c w)" "behaves w (check_pii ic c w)" "behaves w (check_dlp ic c w)" "behaves w (load_window ic c w)" for w
    by (simp_all add: checkRegistry_def check_servers_def check_tools_def checkSsoGroupClearance_def check_pii_def check_dlp_def load_window_def
        Let_def split: option.split WorkspacePiiDetectors.split list.split)
  have commands: "behaves w (check_commands ic c w)" for w
    by (simp add: check_commands_def Let_def emit_reason_eq behaves_refuse split: option.split)
  have injection: "behaves w (check_injection ic c w)" for w
    by (simp add: check_injection_def Let_def behaves_refuse)
  have anomalies: "behaves w (check_anomalies ic c w)" for w
    using behaves_after [OF _ _ behaves_anomaly_loop, of "w\<lparr>iw_corroborating := n\<rparr>" w "[]" for n]
    by (simp add: check_anomalies_def Let_def split: option.split)
  have rules: "behaves w (check_rules ic c w)" for w
    by (auto simp: check_rules_def Let_def emit_reason_eq behaves_hold split: sum.split option.split)
  show ?thesis by (simp add: built_in_def scoping commands injection anomalies rules)
qed


interpretation reporting: check_contract behaves
  by unfold_locales (simp, rule behaves_trans)

text \<open>A check that refuses keeps the counts of the MCP budgets: the earlier checks never touch the store.\<close>

lemma keeps_valkey:
  "kept (snd r) = kept w \<Longrightarrow> iw_valkey (snd r) = iw_valkey w" "accounts (snd r) = accounts w \<Longrightarrow> iw_valkey (snd r) = iw_valkey w"
  by (simp_all add: kept_def accounts_def)

lemma ladder_valkey [simp]: "iw_valkey (snd (applyReaskLadder c k r w)) = iw_valkey w"
  by (rule keeps_valkey(2)) simp

lemma anomaly_loop_valkey: "iw_valkey (snd (anomaly_loop ic c fs w)) = iw_valkey w"
proof (induction fs arbitrary: w)
  case (Cons f fs)
  show ?case
    by (simp add: Cons.IH Let_def split: option.split Disposition.split)
qed simp

lemma built_in_valkey: "list_all (\<lambda>f. \<forall>w. iw_valkey (snd (f w)) = iw_valkey w) (built_in ic c)"
proof -
  have "iw_valkey (snd (checkRegistry ic c w)) = iw_valkey w" for w
    by (simp add: checkRegistry_def Let_def split: option.split)
  moreover have "iw_valkey (snd (check_pii ic c w)) = iw_valkey w" for w
    by (simp add: check_pii_def Let_def split: WorkspacePiiDetectors.split)
  moreover have "iw_valkey (snd (check_injection ic c w)) = iw_valkey w" for w
    by (simp add: check_injection_def Let_def)
  moreover have "iw_valkey (snd (check_anomalies ic c w)) = iw_valkey w" for w
    by (simp add: check_anomalies_def anomaly_loop_valkey Let_def split: option.split)
  moreover have "iw_valkey (snd (f w)) = iw_valkey w"
    if "kept (snd (f w)) = kept w" for f :: "'a Check" and w
    using that by (rule keeps_valkey(1))
  ultimately show ?thesis by (simp add: built_in_def)
qed

interpretation counts: check_contract "\<lambda>w r. iw_valkey (snd r) = iw_valkey w"
  by unfold_locales simp_all

lemma check_keeps_counts:
  assumes "check up enc enf policy toolName memberId nowMs db = (verdict, db')" "\<not> is_allowed verdict"
  shows "vk_held db' = vk_held db"
  using assms vk.refused [of up nowMs "map (budget_counter enc enf policy nowMs) (charges_of enf policy toolName memberId)" db]
    vk.unanswered [of up nowMs "map (budget_counter enc enf policy nowMs) (charges_of enf policy toolName memberId)" db]
  by (auto simp: check_def check_with_def Let_def split: if_splits option.splits CountOutcome.splits prod.splits)

lemma budgets_keep_counts: "fst (checkBudgets ic c w) \<noteq> None \<Longrightarrow> vk_held (iw_valkey (snd (checkBudgets ic c w))) = vk_held (iw_valkey w)"
proof (cases "ic_budgets ic")
  case (Some enf)
  obtain verdict db where run: "check (ca_budgetUp c) (ic_encodeURIComponent ic) enf (pc_mcpBudgets (iw_policy w)) (ca_toolName c)
      (map_option mp_memberId (pc_principal (iw_policy w))) (ca_now c) (iw_valkey w) = (verdict, db)" by force
  assume "fst (checkBudgets ic c w) \<noteq> None"
  with run Some check_keeps_counts [OF run] show ?thesis
    by (cases verdict) (simp_all add: checkBudgets_def budget_verdict_def emit_reason_eq Let_def split: if_splits)
qed (simp add: checkBudgets_def)

lemma decide_keeps_counts:
  assumes "fst (decide ic c w) \<noteq> AllowCall"
  shows "vk_held (iw_valkey (snd (decide ic c w))) = vk_held (iw_valkey w)"
proof -
  let ?w0 = "fresh_locals w" and ?checks = "built_in ic c @ [check_wasm ic c]"
  define w1 where "w1 = snd (in_turn ?checks ?w0)"
  have "iw_valkey (snd (check_wasm ic c v)) = iw_valkey v" for v
    by (rule keeps_valkey(2)) (rule check_wasm_accounts)
  then have w1: "iw_valkey w1 = iw_valkey w"
    unfolding w1_def by (subst counts.in_turn_kept) (simp_all add: built_in_valkey fresh_locals_def)
  have split: "in_turn (built_in ic c @ [check_wasm ic c, checkBudgets ic c]) ?w0
      = (if fst (in_turn ?checks ?w0) = None then in_turn [checkBudgets ic c] w1 else in_turn ?checks ?w0)"
    unfolding w1_def using in_turn_append [of ?checks "[checkBudgets ic c]" ?w0] by simp
  show ?thesis
  proof (cases "fst (in_turn ?checks ?w0)")
    case None
    with assms split have "fst (checkBudgets ic c w1) \<noteq> None" "snd (decide ic c w) = snd (checkBudgets ic c w1)"
      by (auto simp: decide_def split: prod.splits option.splits)
    with budgets_keep_counts [of ic c w1] w1 show ?thesis by simp
  next
    case (Some d)
    with split have "snd (decide ic c w) = w1"
      by (auto simp: decide_def w1_def split: prod.split)
    with w1 show ?thesis by simp
  qed
qed

lemma decide_condition:
  "fst (decide ic c w) = AllowCall \<longleftrightarrow>
     passes_built_in ic c w
     \<and> passes_wasm ic c (ready_policy ic c w) (iw_runner w) (wasm_input ic c (snd (in_turn (built_in ic c) (fresh_locals w))))
     \<and> passes_budgets ic c (ready_policy ic c w) (iw_valkey w)"
proof -
  let ?all = "in_turn (built_in ic c @ [check_wasm ic c, checkBudgets ic c]) (fresh_locals w)"
  define w1 where "w1 = snd (in_turn (built_in ic c) (fresh_locals w))"
  have "behaves (fresh_locals w) ?all"
    by (rule reporting.in_turn_kept) (simp add: behaves_built_in behaves_wasm behaves_budgets)
  then have "fst (decide ic c w) = AllowCall \<longleftrightarrow> fst ?all = None"
    by (auto simp: decide_def behaves_def split: prod.split option.split)
  also have "\<dots> \<longleftrightarrow> passes_built_in ic c w \<and> fst (in_turn [check_wasm ic c, checkBudgets ic c] w1) = None"
    by (simp add: in_turn_append built_in_condition w1_def del: in_turn.simps)
  also have "\<dots> \<longleftrightarrow> passes_built_in ic c w \<and> fst (check_wasm ic c w1) = None \<and> fst (checkBudgets ic c (snd (check_wasm ic c w1))) = None"
    unfolding in_turn_simps(1) by simp
  also have "\<dots> \<longleftrightarrow> passes_built_in ic c w
      \<and> passes_wasm ic c (ready_policy ic c w) (iw_runner w) (wasm_input ic c w1)
      \<and> passes_budgets ic c (ready_policy ic c w) (iw_valkey w)"
  proof (rule conj_cong [OF refl])
    assume "passes_built_in ic c w"
    then have "accounts w1 = (ready_policy ic c w, iw_valkey w)" "iw_runner w1 = iw_runner w"
      using built_in_kept [of ic c w] built_in_condition [of ic c w] by (simp_all add: w1_def)
    moreover from this check_wasm_accounts [of ic c w1]
    have "iw_policy (snd (check_wasm ic c w1)) = ready_policy ic c w" "iw_valkey (snd (check_wasm ic c w1)) = iw_valkey w"
      by (simp_all add: accounts_def)
    ultimately show "(fst (check_wasm ic c w1) = None \<and> fst (checkBudgets ic c (snd (check_wasm ic c w1))) = None)
        = (passes_wasm ic c (ready_policy ic c w) (iw_runner w) (wasm_input ic c w1) \<and> passes_budgets ic c (ready_policy ic c w) (iw_valkey w))"
      by (simp add: wasm_condition budget_condition accounts_def)
  qed
  finally show ?thesis by (simp only: w1_def)
qed

lemma decide_events:
  "\<exists>new. iw_events (snd (decide ic c w)) = iw_events w @ new \<and> reported (fst (decide ic c w)) new
     \<and> (says_allowed new \<longleftrightarrow> fst (decide ic c w) = AllowCall)"
proof -
  let ?r = "in_turn (built_in ic c @ [check_wasm ic c, checkBudgets ic c]) (fresh_locals w)"
  have "behaves (fresh_locals w) ?r"
    by (rule reporting.in_turn_kept) (simp add: behaves_built_in behaves_wasm behaves_budgets)
  then obtain new where new: "iw_events (snd ?r) = iw_events w @ new" "\<not> says_allowed new" "fst ?r \<noteq> Some AllowCall"
    "case fst ?r of None \<Rightarrow> True | Some d \<Rightarrow> reported d new"
    by (auto simp: behaves_def fresh_locals_def)
  show ?thesis
  proof (cases ?r)
    case (Pair d w1)
    with new show ?thesis
      by (cases d) (auto simp: decide_def reported_def)
  qed
qed


text \<open>Repeated trips of one rule on the ladder, and what each is refused with.\<close>

primrec ladder_trips :: "'b McpCall \<Rightarrow> string \<Rightarrow> string \<Rightarrow> nat \<Rightarrow> 'b World \<Rightarrow> McpRefusalCode list" where
  "ladder_trips c key reason 0 w = []"
| "ladder_trips c key reason (Suc n) w =
     (case applyReaskLadder c key reason w of
        (Some (BlockCall code i r d), w1) \<Rightarrow> code # ladder_trips c key reason n w1
      | (d, w1) \<Rightarrow> ladder_trips c key reason n w1)"

lemma ladder_trips_eq:
  "shared_scope (iw_session w) = None \<Longrightarrow>
     ladder_trips c key reason n w =
       map (\<lambda>i. if getReaskAttempts key (iw_session w) + i < REASK_MAX_ATTEMPTS then REASK else REASK_EXHAUSTED) [0..<n]"
proof (induction n arbitrary: w)
  case (Suc n)
  let ?k = "getReaskAttempts key (iw_session w)" and ?s = "snd (incrReaskAttempt key (iw_session w))"
  have s: "shared_scope ?s = None" "getReaskAttempts key ?s = Suc ?k"
    using Suc.prems by (auto simp: incrReaskAttempt_def getReaskAttempts_def shared_scope_def Let_def split: if_splits)
  have one: "applyReaskLadder c key reason w = (Some (BlockCall (if ?k < REASK_MAX_ATTEMPTS then REASK else REASK_EXHAUSTED) i r NoDetail), w1)
      \<Longrightarrow> ladder_trips c key reason (Suc n) w = (if ?k < REASK_MAX_ATTEMPTS then REASK else REASK_EXHAUSTED) # ladder_trips c key reason n w1"
    for i r w1 by simp
  have "\<exists>i r w1. applyReaskLadder c key reason w = (Some (BlockCall (if ?k < REASK_MAX_ATTEMPTS then REASK else REASK_EXHAUSTED) i r NoDetail), w1)
      \<and> iw_session w1 = ?s"
    using Suc.prems
    by (auto simp: applyReaskLadder_def incrReaskAttemptShared_def incrReaskAttempt_def getReaskAttempts_def refuse_def emit_reason_def Let_def)
  then obtain i r w1 where step: "applyReaskLadder c key reason w
      = (Some (BlockCall (if ?k < REASK_MAX_ATTEMPTS then REASK else REASK_EXHAUSTED) i r NoDetail), w1)" and w1: "iw_session w1 = ?s"
    by blast
  from s w1 Suc.IH [of w1] show ?case
    unfolding one [OF step] by (simp add: upt_conv_Cons map_Suc_upt [symmetric] comp_def del: upt_Suc)
qed simp

text \<open>\<open>approvalHold.ts\<close> says that \<open>request\<close> never throws; where it does and the workspace fails open, the call that
  a rule holds goes on.\<close>

lemma thrown_hold_passes:
  "matchRule (ic_regex ic) (iw_policy w) (ca_toolName c) (input_json ic c) = Inr (Some rule) \<Longrightarrow>
   json_field rule ''action'' = Some (JStr ''require_approval'') \<Longrightarrow> ic_holds ic = Some ah \<Longrightarrow>
   ho_body (ca_ruleHold c) = Some (JObj [(''bypasses'', JArr [JNull])]) \<Longrightarrow> failOpen ic w \<Longrightarrow>
   check_rules ic c w = (None, w)"
  by (simp add: check_rules_def hold_def hold_outcome_def hold_request_throws fail_setting_def Let_def)


section \<open>The decision's properties\<close>

text \<open>C1: A call is allowed exactly when it passes each of the checks, each judged on the policy the
  call starts with: the registry, the allowlists and the SSO clearance; the detectors and the content scans; no rule
  that blocks or holds it (unless an approved bypass lets it through); no anomaly above a steer; the custom rules loaded and allowing it;
  and its budgets.  A check that cannot complete counts as passed only when the workspace fails open, and a custom rule that cannot
  decide never does.\<close>

theorem decide_allows_iff:
  "fst (decide ic c w) = AllowCall \<longleftrightarrow>
     passes_built_in ic c w
     \<and> passes_wasm ic c (ready_policy ic c w) (iw_runner w) (wasm_input ic c (snd (in_turn (built_in ic c) (fresh_locals w))))
     \<and> passes_budgets ic c (ready_policy ic c w) (iw_valkey w)"
  by (rule decide_condition)



text \<open>In a process that shares no session store, a rule asks again three times and then refuses each further trip for good.\<close>

theorem reask_ladder_hardens:
  "shared_scope (iw_session w) = None \<Longrightarrow>
     ladder_trips c key reason n w =
       map (\<lambda>i. if getReaskAttempts key (iw_session w) + i < REASK_MAX_ATTEMPTS then REASK else REASK_EXHAUSTED) [0..<n]"
  by (rule ladder_trips_eq)

section \<open>A concrete proxy\<close>

definition sample_interceptor :: "nat Interceptor" where
  "sample_interceptor =
     \<lparr>ic_numStr = (\<lambda>_. ''''), ic_jsonParse = (\<lambda>_. None), ic_regex = (\<lambda>_. None), ic_compilePattern = (\<lambda>_. None), ic_encodeURIComponent = id,
      ic_isoTime = (\<lambda>_. ''''), ic_sha256Hex = (\<lambda>_. ''''), ic_daemonMode = False, ic_localFailOpen = False, ic_serverName = ''gh'',
      ic_injectionActionDefault = InjWarn, ic_anomalyModeDefault = ModeEnforce, ic_anomalyOverridesDefault = [], ic_workspaceId = ''ws'',
      ic_sessionId = ''s'', ic_holds = None, ic_budgets = Some sample_enforcer\<rparr>"

definition sample_answer :: HoldAnswer where
  "sample_answer = \<lparr>ho_body = None, ho_posted = False, ho_newId = ''''\<rparr>"

definition sample_mcp_call :: "nat McpCall" where
  "sample_mcp_call =
     \<lparr>ca_toolName = ''t'', ca_toolInput = None, ca_now = 6, ca_daemon = DaemonFailed, ca_http = HttpFailed, ca_ruleHold = sample_answer,
      ca_wasmHold = sample_answer, ca_sessionUp = True, ca_budgetUp = True, ca_fetch = (\<lambda>_. None), ca_compile = (\<lambda>_ _. NotCompiled CompileError ''''),
      ca_reply = (\<lambda>_ _. None), ca_runnerError = None, ca_typeError = '''', ca_toolCallId = ''1''\<rparr>"

definition sample_mcp_world :: "McpRegistryRecord \<Rightarrow> nat World" where
  "sample_mcp_world registry =
     \<lparr>iw_policy = new_policy_client\<lparr>pc_registry := Some registry\<rparr>, iw_session = new_SessionState None False, iw_sessionDb = empty_db,
      iw_valkey = (\<lambda>_. Some (1, 10 ^ 7)), iw_dlp = \<lparr>ds_localPii = [], ds_workspacePii = None\<rparr>, iw_dynamic = no_dynamic, iw_runner = None,
      iw_budgetsUncheckedWarned = False, iw_events = [], iw_refusedRules = [], iw_dlpFindings = [], iw_injectionFindings = [],
      iw_injectionSources = [], iw_corroborating = 0, iw_window = None\<rparr>"

definition blocking_registry :: McpRegistryRecord where
  "blocking_registry =
     \<lparr>mr_defaultPolicy = DefaultAllow, mr_approvedServers = [], mr_blockedServers = [''gh''], mr_heldServers = [], mr_disabledTools = []\<rparr>"


theorem reask_ladder_hardens_witness:
  "ladder_trips sample_mcp_call ''wasm:r'' ''why'' 5 (sample_mcp_world blocking_registry) = [REASK, REASK, REASK, REASK_EXHAUSTED, REASK_EXHAUSTED]"
proof -
  have "shared_scope (iw_session (sample_mcp_world blocking_registry)) = None"
    by (simp add: sample_mcp_world_def new_SessionState_def shared_scope_def)
  from reask_ladder_hardens [OF this] show ?thesis
    by (simp add: sample_mcp_world_def new_SessionState_def getReaskAttempts_def REASK_MAX_ATTEMPTS_def upt_rec)
qed

end
