(* ===== verification/GateActions.thy ===== *)
theory GateActions
  imports Lanes FileWrites ShellParse
begin

text \<open>
  The command classifier of the gate SDK, \<open>packages/gate-js/src/actions.ts\<close>: the abstract actions
  (\<open>action:deploy\<close>, \<open>action:destroy\<close>, ...) that a tool call performs, which the gate's hold rules,
  prerequisites and reversibility lanes are written over.  The lemmas relate the tokens to the
  lanes of \<open>Lanes\<close>, and the reader of \<open>rm\<close> command lines to what it recognises.
\<close>

section \<open>The tables\<close>

definition ACTION_PREFIX :: string where "ACTION_PREFIX = ''action:''"

definition DEPLOY_PATTERNS :: "string list" where
  "DEPLOY_PATTERNS =
     [''git push'', ''kubectl apply'', ''kubectl rollout'', ''helm upgrade'', ''helm install'', ''terraform apply'',
      ''docker push'', ''serverless deploy'', ''fly deploy'', ''vercel deploy'', ''gcloud run deploy'', ''aws deploy'',
      ''aws s3 sync'', ''eb deploy'']"

definition PUBLISH_PATTERNS :: "string list" where
  "PUBLISH_PATTERNS =
     [''npm publish'', ''pnpm publish'', ''yarn publish'', ''cargo publish'', ''twine upload'', ''poetry publish'',
      ''gem push'', ''docker manifest push'']"

definition RELEASE_PATTERNS :: "string list" where
  "RELEASE_PATTERNS =
     [''gh release create'', ''git tag'', ''npm version'', ''cargo release'', ''goreleaser release'', ''semantic-release'']"

definition TEST_PATTERNS :: "string list" where
  "TEST_PATTERNS =
     [''npm test'', ''npm run test'', ''pnpm test'', ''pnpm run test'', ''yarn test'', ''cargo test'', ''go test'',
      ''pytest'', ''python -m pytest'', ''vitest'', ''jest'', ''mocha'', ''rspec'', ''phpunit'', ''make test'',
      ''gradle test'', ''mvn test'', ''dotnet test'', ''bazel test'', ''tox'']"

definition HTTP_POST_PATTERNS :: "string list" where
  "HTTP_POST_PATTERNS =
     [''curl -x post'', ''curl --request post'', ''curl -d '', ''curl --data'', ''wget --post'', ''http post'']"

definition DB_WRITE_PATTERNS :: "string list" where
  "DB_WRITE_PATTERNS =
     [''insert into'', ''update '', ''delete from'', ''drop table'', ''drop database'', ''drop schema'', ''truncate '',
      ''alter table'']"

definition MIGRATE_PATTERNS :: "string list" where
  "MIGRATE_PATTERNS =
     [''prisma migrate deploy'', ''prisma db push'', ''alembic upgrade'', ''alembic downgrade'', ''rails db:migrate'',
      ''rake db:migrate'', ''manage.py migrate'', ''flyway migrate'', ''liquibase update'', ''knex migrate:latest'',
      ''sequelize db:migrate'']"

definition PROD_WRITE_PATTERNS :: "string list" where
  "PROD_WRITE_PATTERNS =
     [''--prod'', ''rails_env=production'', ''node_env=production'', ''--context prod'', ''--namespace production'',
      ''-n production'', ''--environment production'', ''--stage prod'']"

definition DESTROY_PATTERNS :: "string list" where
  "DESTROY_PATTERNS =
     [''terraform destroy'', ''kubectl delete'', ''helm uninstall'', ''helm delete'', ''drop table'', ''drop database'',
      ''drop schema'', ''truncate '', ''aws s3 rb'', ''aws s3 rm'']"

definition PAYMENT_PATTERNS :: "string list" where
  "PAYMENT_PATTERNS =
     [''api.stripe.com/v1/charges'', ''api.stripe.com/v1/payment_intents'', ''api.stripe.com/v1/transfers'',
      ''api.stripe.com/v1/payouts'', ''api.stripe.com/v1/refunds'', ''stripe charges create'',
      ''stripe payment_intents create'', ''stripe transfers create'', ''stripe payouts create'',
      ''api-m.paypal.com/v2/payments'', ''api.paypal.com/v1/payments'']"

definition FORCE_PUSH_FLAGS :: "string list" where
  "FORCE_PUSH_FLAGS =
     ['' --force '', '' -f '']"

definition SECRET_PATH_FRAGMENTS :: "string list" where
  "SECRET_PATH_FRAGMENTS =
     [''.env'', ''credentials'', ''id_rsa'', ''id_ed25519'', ''.pem'', ''.p12'', ''.pfx'', ''secrets.'', ''.netrc'',
      ''.aws/'', ''.ssh/'', ''kubeconfig'', ''service-account'']"

definition PII_PATH_FRAGMENTS :: "string list" where
  "PII_PATH_FRAGMENTS =
     [''customer'', ''users.csv'', ''pii'', ''personal'', ''gdpr'', ''payroll'']"

definition SHELL_TOOLS :: "string list" where
  "SHELL_TOOLS =
     [''bash'', ''shell'', ''run_command'', ''runcommand'', ''execute_command'', ''run_shell_command'', ''terminal'',
      ''execute'', ''exec'']"

definition READ_TOOLS :: "string list" where
  "READ_TOOLS =
     [''read'', ''readfile'', ''view'', ''cat'', ''open_file'']"

definition FETCH_TOOLS :: "string list" where
  "FETCH_TOOLS =
     [''webfetch'', ''fetch'', ''http_request'', ''browser'', ''web_search'']"

definition INFRA_PATH_FRAGMENTS :: "string list" where
  "INFRA_PATH_FRAGMENTS =
     [''terraform'', ''.tf'', ''k8s/'', ''kubernetes/'', ''helm/'', ''dockerfile'', ''docker-compose'', ''.tfstate'']"
section \<open>Strings and tool names\<close>

text \<open>\<open>s.split(/[...]/)\<close> for a class of separators.\<close>

fun split_by :: "('a \<Rightarrow> bool) \<Rightarrow> 'a list \<Rightarrow> 'a list list" where
  "split_by p [] = [ [] ]"
| "split_by p (c # s) =
     (if p c then [] # split_by p s
      else (case split_by p s of [] \<Rightarrow> [ [c] ] | w # ws \<Rightarrow> (c # w) # ws))"

text \<open>\<open>s.replace(/[...]+/g, ' ')\<close>: the last character of a run of separators becomes its space.\<close>

fun squeeze :: "(char \<Rightarrow> bool) \<Rightarrow> string \<Rightarrow> string" where
  "squeeze p [] = []"
| "squeeze p (c # s) =
     (if \<not> p c then c # squeeze p s
      else case s of d # _ \<Rightarrow> if p d then squeeze p s else CHR '' '' # squeeze p s | [] \<Rightarrow> [CHR '' ''])"

text \<open>\<open>s.split(p).join('')\<close>: the occurrences of \<open>p\<close>, taken from the left, are cut out.\<close>

function cut_all :: "string \<Rightarrow> string \<Rightarrow> string" where
  "cut_all p [] = []"
| "cut_all p (c # s) = (if prefix p (c # s) then cut_all p (drop (length p - 1) s) else c # cut_all p s)"
  by pat_completeness auto
termination by (relation "measure (\<lambda>(p, s). length s)") auto

fun flattenInput :: "(string \<Rightarrow> string) \<Rightarrow> json \<Rightarrow> string" where
  "flattenInput leaf (JStr s) = to_lower (leaf s)"
| "flattenInput leaf (JArr xs) = concat (map (\<lambda>v. '' '' @ flattenInput leaf v) xs)"
| "flattenInput leaf (JObj kvs) = concat (map (\<lambda>(k, v). '' '' @ flattenInput leaf v) kvs)"
| "flattenInput leaf _ = ''''"

definition matchesPhrase :: "PhraseText \<Rightarrow> string list \<Rightarrow> bool" where
  "matchesPhrase ws patterns \<longleftrightarrow> list_ex (\<lambda>p. hasPhrase ws p False) patterns"

definition matchesAny :: "string \<Rightarrow> string list \<Rightarrow> bool" where
  "matchesAny haystack patterns \<longleftrightarrow> list_ex (\<lambda>p. sublist p haystack) patterns"

definition toolIs :: "string \<Rightarrow> string list \<Rightarrow> bool" where
  "toolIs name tools \<longleftrightarrow> list_ex (\<lambda>t. to_lower name = t \<or> suffix t (to_lower name)) tools"

section \<open>The shapes no phrase can say\<close>

definition SQL_UPDATE_WINDOW :: nat where "SQL_UPDATE_WINDOW = 8"

text \<open>A token that ends in the whole word \<open>update\<close>; before a token of six characters
  \<open>charAt(tok.length - 7)\<close> is empty.\<close>

definition update_word :: "string \<Rightarrow> bool" where
  "update_word tok \<longleftrightarrow>
     suffix ''update'' tok \<and> (length tok < 7 \<or> \<not> isWord (tok ! (length tok - 7)))"

definition set_word :: "string \<Rightarrow> bool" where
  "set_word tok \<longleftrightarrow> tok = ''set'' \<or> prefix ''set('' tok"

definition isSqlUpdate :: "PhraseText \<Rightarrow> bool" where
  "isSqlUpdate ws =
     (let toks = map w_tok (pt_words ws) in
      list_ex (\<lambda>i. update_word (toks ! i)
                   \<and> list_ex (\<lambda>j. set_word (toks ! j)) [i + 1..<min (i + SQL_UPDATE_WINDOW) (length toks - 1) + 1])
        [0..<length toks])"

definition isDbWrite :: "PhraseText \<Rightarrow> bool" where
  "isDbWrite ws \<longleftrightarrow> list_ex (\<lambda>p. hasPhrase ws p False \<and> (p \<noteq> ''update '' \<or> isSqlUpdate ws)) DB_WRITE_PATTERNS"

definition is_ascii_space :: "char \<Rightarrow> bool" where
  "is_ascii_space c \<longleftrightarrow> c \<in> {CHR '' '', CHR 0x09, CHR 0x0A, CHR 0x0B, CHR 0x0C, CHR 0x0D}"

definition isForcePush :: "PhraseText \<Rightarrow> string \<Rightarrow> bool" where
  "isForcePush ws args \<longleftrightarrow>
     hasPhrase ws ''git push'' False
     \<and> (let padded = '' '' @ squeeze is_ascii_space args @ '' ''
        in list_ex (\<lambda>f. sublist f padded) FORCE_PUSH_FLAGS)"

definition is_segment_end :: "char \<Rightarrow> bool" where
  "is_segment_end c \<longleftrightarrow> c \<in> set '';&|()'' \<or> c = CHR 0x0A"

definition is_word_gap :: "char \<Rightarrow> bool" where
  "is_word_gap c \<longleftrightarrow> c \<in> {CHR '' '', CHR 0x09, CHR 0x0B, CHR 0x0C, CHR 0x0D}"

definition is_rm :: "string \<Rightarrow> bool" where
  "is_rm w \<longleftrightarrow> w = ''rm'' \<or> suffix ''/rm'' w"

definition is_quote :: "char \<Rightarrow> bool" where
  "is_quote c \<longleftrightarrow> c = CHR 0x22 \<or> c = CHR 0x27"

definition unquoted :: "string \<Rightarrow> string" where
  "unquoted w = rev (dropWhile is_quote (rev (dropWhile is_quote w)))"

record rm_scan =
  rm_recursive :: bool
  rm_force :: bool
  rm_flags :: bool
  rm_targets :: "string list"

definition rm_word :: "string \<Rightarrow> rm_scan \<Rightarrow> rm_scan" where
  "rm_word w st =
     (if rm_flags st \<and> w = ''--'' then st\<lparr>rm_flags := False\<rparr>
      else if rm_flags st \<and> prefix ''--'' w then
        st\<lparr>rm_recursive := rm_recursive st \<or> w = ''--recursive'', rm_force := rm_force st \<or> w = ''--force''\<rparr>
      else if rm_flags st \<and> prefix ''-'' w \<and> 1 < length w then
        st\<lparr>rm_recursive := rm_recursive st \<or> CHR ''r'' \<in> set (to_lower w),
           rm_force := rm_force st \<or> CHR ''f'' \<in> set (to_lower w)\<rparr>
      else st\<lparr>rm_targets := rm_targets st @ [unquoted w]\<rparr>)"

definition rm_init :: rm_scan where
  "rm_init = \<lparr>rm_recursive = False, rm_force = False, rm_flags = True, rm_targets = []\<rparr>"

definition outside_target :: "string \<Rightarrow> bool" where
  "outside_target t \<longleftrightarrow> prefix ''/'' t \<or> prefix ''~'' t \<or> sublist ''..'' t"

definition segment_words :: "string \<Rightarrow> string list" where
  "segment_words segment = filter (\<lambda>w. w \<noteq> '''') (split_by is_word_gap segment)"

definition removes_outside :: "string list \<Rightarrow> bool" where
  "removes_outside ws =
     (case dropWhile (\<lambda>w. \<not> is_rm w) ws of
        [] \<Rightarrow> False
      | rm # rest \<Rightarrow>
          let st = fold rm_word rest rm_init
          in rm_recursive st \<and> rm_force st \<and> list_ex outside_target (rm_targets st))"

definition removesOutsideTree :: "string \<Rightarrow> bool" where
  "removesOutsideTree args \<longleftrightarrow> list_ex (\<lambda>segment. removes_outside (segment_words segment)) (split_by is_segment_end args)"

section \<open>Classifying a call\<close>

definition call_text :: "string \<Rightarrow> json \<Rightarrow> string" where
  "call_text toolName toolInput =
     flattenInput (if toolIs toolName SHELL_TOOLS then dropCarriedText else (\<lambda>s. s)) toolInput"

text \<open>The tests of \<open>classify\<close>, in the order they push.\<close>

definition shell_actions :: "string \<Rightarrow> (string \<times> bool) list" where
  "shell_actions args =
     (let ws = phraseText args in
      [(''run_tests'', matchesPhrase ws TEST_PATTERNS),
       (''deploy'', matchesPhrase ws DEPLOY_PATTERNS),
       (''publish'', matchesPhrase ws PUBLISH_PATTERNS),
       (''release'', matchesPhrase ws RELEASE_PATTERNS),
       (''secret_read'', matchesAny (cut_all ''.environ'' args) SECRET_PATH_FRAGMENTS),
       (''pii_export'', matchesAny args PII_PATH_FRAGMENTS),
       (''http_post'', matchesPhrase ws HTTP_POST_PATTERNS),
       (''db_write'', isDbWrite ws),
       (''migrate'', matchesPhrase ws MIGRATE_PATTERNS),
       (''prod_write'', matchesPhrase ws PROD_WRITE_PATTERNS),
       (''destroy'', matchesPhrase ws DESTROY_PATTERNS \<or> removesOutsideTree args),
       (''force_push'', isForcePush ws args),
       (''payment'', matchesPhrase ws PAYMENT_PATTERNS)])"

definition classify :: "string \<Rightarrow> json \<Rightarrow> string list" where
  "classify toolName toolInput =
     map (\<lambda>(a, _). ACTION_PREFIX @ a)
       (filter snd (if toolIs toolName SHELL_TOOLS then shell_actions (call_text toolName toolInput) else []))"

definition isDeploy :: "string \<Rightarrow> json \<Rightarrow> bool" where
  "isDeploy toolName toolInput \<longleftrightarrow> ACTION_PREFIX @ ''deploy'' \<in> set (classify toolName toolInput)"

definition isTest :: "string \<Rightarrow> json \<Rightarrow> bool" where
  "isTest toolName toolInput \<longleftrightarrow> ACTION_PREFIX @ ''run_tests'' \<in> set (classify toolName toolInput)"

definition touchesInfra :: "string option \<Rightarrow> bool" where
  "touchesInfra path \<longleftrightarrow> matchesAny (to_lower (case path of None \<Rightarrow> '''' | Some p \<Rightarrow> p)) INFRA_PATH_FRAGMENTS"

section \<open>The tokens and their lanes\<close>

definition ACTION_ORDER :: "string list" where
  "ACTION_ORDER = map (\<lambda>(a, _). ACTION_PREFIX @ a) (shell_actions '''')"

lemma shell_action_names: "map (\<lambda>(a, _). ACTION_PREFIX @ a) (shell_actions args) = ACTION_ORDER"
  by (simp add: ACTION_ORDER_def shell_actions_def Let_def)

lemma action_order: "ACTION_ORDER = map (\<lambda>a. ACTION_PREFIX @ a)
    [''run_tests'', ''deploy'', ''publish'', ''release'', ''secret_read'', ''pii_export'', ''http_post'', ''db_write'',
     ''migrate'', ''prod_write'', ''destroy'', ''force_push'', ''payment'']"
  by (simp add: ACTION_ORDER_def shell_actions_def Let_def)

lemma distinct_action_order: "distinct ACTION_ORDER"
  unfolding action_order ACTION_PREFIX_def by code_simp

lemma set_action_order: "set ACTION_ORDER = set (map fst TOKEN_CLASS)"
proof -
  have "set ACTION_ORDER \<subseteq> set (map fst TOKEN_CLASS) \<and> set (map fst TOKEN_CLASS) \<subseteq> set ACTION_ORDER"
    unfolding action_order ACTION_PREFIX_def by code_simp
  then show ?thesis by blast
qed

lemma filter_by_key:
  assumes "distinct (map f xs)"
  shows "filter (\<lambda>a. a \<in> f ` set (filter q xs)) (map f xs) = map f (filter q xs)"
proof -
  have "inj_on f (set xs)" using assms by (simp add: distinct_map)
  then have "f x \<in> f ` set (filter q xs) \<longleftrightarrow> q x" if "x \<in> set xs" for x
    using that by (auto dest: inj_onD)
  then show ?thesis by (auto simp: filter_map intro!: arg_cong [where f = "map f"] filter_cong)
qed

lemma laneOf_None: "set ts \<subseteq> set (map fst TOKEN_CLASS) \<Longrightarrow> laneOf ts = None \<longleftrightarrow> ts = []"
proof (induction ts)
  case (Cons t ts)
  then have "tokenLane t \<noteq> None" by (auto simp: tokenLane_def map_of_eq_None_iff)
  then show ?case
    unfolding laneOf_def by (subst laneOf_loop_Max) (auto simp: List.map_filter_simps Let_def)
qed (simp add: laneOf_def)

lemma in_classify:
  "ACTION_PREFIX @ a \<in> set (classify toolName toolInput) \<longleftrightarrow>
     toolIs toolName SHELL_TOOLS \<and> (a, True) \<in> set (shell_actions (call_text toolName toolInput))"
  by (auto simp: classify_def)

text \<open>The tokens of a call come in one fixed order, each at most once, and each has a lane, so the
  class of a call (\<open>laneOf\<close>) is known exactly when it performs an action; a tool that is no shell
  performs none.\<close>

theorem classify_tokens:
  "classify toolName toolInput = filter (\<lambda>a. a \<in> set (classify toolName toolInput)) ACTION_ORDER
   \<and> distinct ACTION_ORDER \<and> set ACTION_ORDER = set (map fst TOKEN_CLASS)
   \<and> (toolIs toolName SHELL_TOOLS \<or> classify toolName toolInput = [])
   \<and> (laneOf (classify toolName toolInput) = None \<longleftrightarrow> classify toolName toolInput = [])"
proof (intro conjI)
  let ?f = "\<lambda>(a, _ :: bool). ACTION_PREFIX @ a"
  show ordered: "classify toolName toolInput = filter (\<lambda>a. a \<in> set (classify toolName toolInput)) ACTION_ORDER"
  proof (cases "toolIs toolName SHELL_TOOLS")
    case True
    let ?as = "shell_actions (call_text toolName toolInput)"
    have "distinct (map ?f ?as)" using distinct_action_order by (simp only: shell_action_names)
    from filter_by_key [OF this, of snd] True show ?thesis
      by (simp add: classify_def shell_action_names)
  qed (simp add: classify_def)
  from ordered have "set (classify toolName toolInput) \<subseteq> set ACTION_ORDER" by (metis filter_is_subset)
  then show "laneOf (classify toolName toolInput) = None \<longleftrightarrow> classify toolName toolInput = []"
    by (intro laneOf_None) (simp add: set_action_order)
qed (auto simp: distinct_action_order set_action_order classify_def)

section \<open>What the phrase rules of a lane hold\<close>

text \<open>The tokens a call has exactly when one of their lane's phrases is in its text.  The others
  need more than a phrase: a fragment of a path, the shape of an \<open>UPDATE\<close>, an \<open>rm\<close> or a flag.\<close>

definition PHRASE_TOKENS :: "string list" where
  "PHRASE_TOKENS = [''run_tests'', ''deploy'', ''publish'', ''release'', ''http_post'', ''migrate'', ''prod_write'', ''payment'']"

definition action_phrases :: "string \<Rightarrow> string list" where
  "action_phrases a = (case map_of LANE_PHRASES (ACTION_PREFIX @ a) of None \<Rightarrow> [] | Some ps \<Rightarrow> ps)"

lemma phrase_action:
  "a \<in> set PHRASE_TOKENS \<Longrightarrow>
   (a, True) \<in> set (shell_actions args) \<longleftrightarrow> matchesPhrase (phraseText args) (action_phrases a)"
  by (auto simp: PHRASE_TOKENS_def shell_actions_def Let_def action_phrases_def LANE_PHRASES_def ACTION_PREFIX_def
      TEST_PATTERNS_def DEPLOY_PATTERNS_def PUBLISH_PATTERNS_def RELEASE_PATTERNS_def HTTP_POST_PATTERNS_def
      MIGRATE_PATTERNS_def PROD_WRITE_PATTERNS_def PAYMENT_PATTERNS_def)

text \<open>The classifier and the phrase rules of \<open>lanes.ts\<close> read one table: a shell call has one of these
  tokens exactly when one of the phrases its lane's hold rule is compiled from is in its text.\<close>

theorem classify_by_lane_phrases:
  "a \<in> set PHRASE_TOKENS \<Longrightarrow>
   ACTION_PREFIX @ a \<in> set (classify toolName toolInput) \<longleftrightarrow>
     toolIs toolName SHELL_TOOLS
     \<and> (\<exists>p \<in> set (action_phrases a). hasPhrase (phraseText (call_text toolName toolInput)) p False)"
  by (simp add: in_classify phrase_action matchesPhrase_def list_ex_iff)

theorem classify_by_lane_phrases_witness:
  "''action:publish'' \<in> set (classify ''Bash'' (JObj [(''command'', JStr ''npm publish'')]))"
proof -
  have "hasPhrase (phraseText (call_text ''Bash'' (JObj [(''command'', JStr ''npm publish'')]))) ''npm publish'' False"
    by code_simp
  moreover have "toolIs ''Bash'' SHELL_TOOLS" "''npm publish'' \<in> set (action_phrases ''publish'')" by code_simp+
  moreover have "''publish'' \<in> set PHRASE_TOKENS" by (simp add: PHRASE_TOKENS_def)
  ultimately show ?thesis
    using classify_by_lane_phrases [of "''publish''" "''Bash''" "JObj [(''command'', JStr ''npm publish'')]"]
    by (auto simp: ACTION_PREFIX_def)
qed

section \<open>Reading an \<open>rm\<close> command\<close>

definition short_flags :: "string \<Rightarrow> bool" where
  "short_flags w \<longleftrightarrow> prefix ''-'' w \<and> \<not> prefix ''--'' w \<and> 1 < length w"

definition recursive_flag :: "string \<Rightarrow> bool" where
  "recursive_flag w \<longleftrightarrow> w = ''--recursive'' \<or> short_flags w \<and> CHR ''r'' \<in> set (to_lower w)"

definition force_flag :: "string \<Rightarrow> bool" where
  "force_flag w \<longleftrightarrow> w = ''--force'' \<or> short_flags w \<and> CHR ''f'' \<in> set (to_lower w)"

definition flag_part :: "string list \<Rightarrow> string list" where
  "flag_part ws = takeWhile (\<lambda>w. w \<noteq> ''--'') ws"

text \<open>The words that name what is removed: no flags before the \<open>--\<close>, all of them after it.\<close>

definition target_words :: "string list \<Rightarrow> string list" where
  "target_words ws = filter (\<lambda>w. \<not> prefix ''--'' w \<and> \<not> short_flags w) (flag_part ws) @ tl (dropWhile (\<lambda>w. w \<noteq> ''--'') ws)"

lemma rm_word_done: "\<not> rm_flags st \<Longrightarrow> fold rm_word ws st = st\<lparr>rm_targets := rm_targets st @ map unquoted ws\<rparr>"
  by (induction ws arbitrary: st) (simp_all add: rm_word_def)

lemma rm_scan_words:
  "rm_flags st \<Longrightarrow>
   fold rm_word ws st =
     \<lparr>rm_recursive = rm_recursive st \<or> list_ex recursive_flag (flag_part ws),
      rm_force = rm_force st \<or> list_ex force_flag (flag_part ws),
      rm_flags = (''--'' \<notin> set ws),
      rm_targets = rm_targets st @ map unquoted (target_words ws)\<rparr>"
proof (induction ws arbitrary: st)
  case Nil
  then show ?case by (simp add: flag_part_def target_words_def)
next
  case (Cons w ws)
  show ?case
  proof (cases "w = ''--''")
    case True
    have "rm_word ''--'' st = st\<lparr>rm_flags := False\<rparr>" using Cons.prems by (simp add: rm_word_def)
    with True show ?thesis by (simp add: rm_word_done flag_part_def target_words_def)
  next
    case False
    have step: "rm_flags (rm_word w st)"
      "rm_recursive (rm_word w st) = (rm_recursive st \<or> recursive_flag w)"
      "rm_force (rm_word w st) = (rm_force st \<or> force_flag w)"
      "rm_targets (rm_word w st) = rm_targets st @ (if prefix ''--'' w \<or> short_flags w then [] else [unquoted w])"
      using Cons.prems False by (auto simp: rm_word_def recursive_flag_def force_flag_def short_flags_def)
    with False show ?thesis by (simp add: Cons.IH [OF step(1)] flag_part_def target_words_def)
  qed
qed

text \<open>A command line counts as removing outside the working tree exactly when one of its segments holds
  an \<open>rm\<close> whose words after the first such word carry, before any \<open>--\<close>, a recursive and a force flag in any
  spelling and case, and a target that is absolute, under the home directory or climbs by two dots.\<close>

theorem removesOutsideTree_iff:
  "removesOutsideTree args \<longleftrightarrow>
     (\<exists>segment \<in> set (split_by is_segment_end args). \<exists>before rm rest.
        segment_words segment = before @ rm # rest \<and> is_rm rm \<and> list_all (\<lambda>w. \<not> is_rm w) before
        \<and> list_ex recursive_flag (flag_part rest) \<and> list_ex force_flag (flag_part rest)
        \<and> list_ex (\<lambda>w. outside_target (unquoted w)) (target_words rest))"
proof -
  have "removes_outside ws \<longleftrightarrow>
     (\<exists>before rm rest. ws = before @ rm # rest \<and> is_rm rm \<and> list_all (\<lambda>w. \<not> is_rm w) before
        \<and> list_ex recursive_flag (flag_part rest) \<and> list_ex force_flag (flag_part rest)
        \<and> list_ex (\<lambda>w. outside_target (unquoted w)) (target_words rest))" for ws
  proof (cases "dropWhile (\<lambda>w. \<not> is_rm w) ws")
    case Nil
    have "\<not> removes_outside ws" unfolding removes_outside_def by (simp only: Nil list.case not_False_eq_True)
    moreover have "\<forall>w \<in> set ws. \<not> is_rm w" using Nil by (simp add: dropWhile_eq_Nil_conv)
    ultimately show ?thesis by auto
  next
    case (Cons rm rest)
    have unique: "before = takeWhile (\<lambda>w. \<not> is_rm w) ws \<and> rm' = rm \<and> rest' = rest"
      if "ws = before @ rm' # rest'" "is_rm rm'" "list_all (\<lambda>w. \<not> is_rm w) before" for before rm' rest'
      using that Cons by (auto simp: list_all_iff takeWhile_append dropWhile_append)
    have "ws = takeWhile (\<lambda>w. \<not> is_rm w) ws @ rm # rest" using Cons by (metis takeWhile_dropWhile_id)
    moreover have "is_rm rm" using Cons by (metis dropWhile_eq_Cons_conv)
    moreover have "list_all (\<lambda>w. \<not> is_rm w) (takeWhile (\<lambda>w. \<not> is_rm w) ws)"
      by (auto simp: list_all_iff dest: set_takeWhileD)
    moreover have "removes_outside ws \<longleftrightarrow> list_ex recursive_flag (flag_part rest) \<and> list_ex force_flag (flag_part rest)
        \<and> list_ex (\<lambda>w. outside_target (unquoted w)) (target_words rest)"
      using Cons by (simp add: removes_outside_def rm_scan_words rm_init_def list_ex_iff)
    ultimately show ?thesis using unique by metis
  qed
  then show ?thesis
    by (simp only: removesOutsideTree_def) (rule list_ex_iff)
qed

end
