(* ===== verification/GateSnapshot.thy ===== *)
theory GateSnapshot
  imports GateActions SequenceRules McpAccess GateRules DecideEngine
begin

text \<open>
  The policy snapshot as the gate SDK reads and applies it, \<open>packages/gate-js/src/snapshot.ts\<close>,
  with the SDK's own reader of the SSO-group record (\<open>packages/gate-js/src/ssoGroups.ts\<close>) and the
  OPAQUE record (\<open>opaqueRefusal.ts\<close>).

  The file is lines: comments that carry the digest, the workspace and the date; records (\<open>@decide\<close>,
  \<open>@rule\<close>, ...), read by the decoders of the other theories; and tab-separated rules.  A workspace's
  patterns are JavaScript's regular expressions, so \<open>new RegExp\<close>, \<open>test\<close> and \<open>exec\<close> are parameters
  (\<open>Regexes\<close>); so are SHA-256, \<open>JSON.parse\<close>, \<open>Date.parse\<close>, the clock, and \<open>bufferText\<close>, the text of
  Node's \<open>Buffer.from(b64, 'base64')\<close>.
\<close>

section \<open>SSO groups in the SDK\<close>

definition parseSsoGroupPolicy_sdk :: "json option \<Rightarrow> SsoGroupPolicy option" where
  "parseSsoGroupPolicy_sdk v =
     (case v of
        Some (JObj kvs) \<Rightarrow>
          Some \<lparr>sg_highRiskTools = stringList (field v ''highRiskTools''), sg_requiredGroups = stringList (field v ''requiredGroups''),
                sg_requireOboFor = stringList (field v ''requireOboFor'')\<rparr>
      | _ \<Rightarrow> None)"

definition matchingEntry_sdk :: "string list \<Rightarrow> string \<Rightarrow> string option" where
  "matchingEntry_sdk entries toolName =
     (if toolName \<in> set entries then Some toolName else find (\<lambda>e. ssoGroupToolMatches e toolName) entries)"

definition evaluateSsoGroupClearance_sdk :: "SsoGroupPolicy option \<Rightarrow> string \<Rightarrow> string list option \<Rightarrow> SsoGroupDecision" where
  "evaluateSsoGroupClearance_sdk policy toolName memberGroups =
     (case policy of
        None \<Rightarrow> granted
      | Some p \<Rightarrow>
          (case matchingEntry_sdk (sg_requireOboFor p) toolName of
             Some obo \<Rightarrow>
               \<lparr>sd_clearance = REQUIRES_OBO, sd_ruleId = Some (ssoGroupRuleId ''require_obo'' obo),
                sd_reason = ''SSO group policy: '' @ obo @ '' is on-behalf-of only, and a tool-call gate has no OBO token to present''\<rparr>
           | None \<Rightarrow>
               (case matchingEntry_sdk (sg_highRiskTools p) toolName of
                  None \<Rightarrow> granted
                | Some risky \<Rightarrow>
                    if (case memberGroups of None \<Rightarrow> False | Some gs \<Rightarrow> list_ex (\<lambda>g. g \<in> set gs) (sg_requiredGroups p)) then granted
                    else
                      let groups = (if 0 < length (sg_requiredGroups p) then join_with '', '' (sg_requiredGroups p) else ''(none configured)'') in
                      \<lparr>sd_clearance = DENIED, sd_ruleId = Some (ssoGroupRuleId ''high_risk'' risky),
                       sd_reason =
                         (case memberGroups of
                            Some _ \<Rightarrow> ''SSO group policy: '' @ risky @ '' requires one of the SSO groups '' @ groups
                                        @ '', and this member holds none of them''
                          | None \<Rightarrow> ''SSO group policy: '' @ risky @ '' requires one of the SSO groups '' @ groups
                                      @ '', and this gate does not know the member'' @ [CHR 0x27] @ ''s groups'')\<rparr>)))"

definition decodeSsoGroupRecord_sdk :: "(string \<Rightarrow> string) \<Rightarrow> (string \<Rightarrow> json option) \<Rightarrow> string \<Rightarrow> SsoGroupRecord option" where
  "decodeSsoGroupRecord_sdk bufferText jsonParse line =
     (case split_on tab line of
        [tag, b64] \<Rightarrow>
          if tag \<noteq> SSO_GROUP_RECORD_TAG \<or> b64 = '''' then None
          else
            Option.bind (jsonParse (bufferText b64)) (\<lambda>raw.
              case (parseSsoGroupPolicy_sdk (json_field raw ''policy''), json_field raw ''issuedAt'') of
                (Some policy, Some (JStr issuedAt)) \<Rightarrow>
                  Some \<lparr>sr_policy = policy, sr_member = sso_member (json_field raw ''member''), sr_issuedAt = issuedAt\<rparr>
              | _ \<Rightarrow> None)
      | _ \<Rightarrow> None)"

section \<open>The OPAQUE record\<close>

definition OPAQUE_REFUSAL_MESSAGE :: string where
  "OPAQUE_REFUSAL_MESSAGE = ''Blocked by workspace policy. Ask a workspace admin if you need this action.''"

definition INTERVENTION_MODE_RECORD_TAG :: string where "INTERVENTION_MODE_RECORD_TAG = ''@intervention_mode''"

definition encodeInterventionModeRecord :: string where
  "encodeInterventionModeRecord = INTERVENTION_MODE_RECORD_TAG @ [tab] @ ''OPAQUE''"

definition isOpaqueInterventionModeRecord :: "string \<Rightarrow> bool" where
  "isOpaqueInterventionModeRecord line \<longleftrightarrow>
     (case split_on tab line of
        [tag, mode] \<Rightarrow> tag = INTERVENTION_MODE_RECORD_TAG \<and> isOpaqueInterventionMode (Some (JStr mode))
      | _ \<Rightarrow> False)"

section \<open>Rules\<close>

text \<open>The platform's regular expressions: \<open>new RegExp(source, flags)\<close>, \<^const>\<open>None\<close> when it throws, and
  the two searches.\<close>

record 're Regexes =
  rx_new :: "string \<Rightarrow> string \<Rightarrow> 're option"
  rx_test :: "'re \<Rightarrow> string \<Rightarrow> bool"
  rx_exec :: "'re \<Rightarrow> string \<Rightarrow> nat \<Rightarrow> (nat \<times> nat) option"

text \<open>\<open>new RegExp(source).source\<close>: a slash outside a character class comes back escaped, as does a
  line terminator; what a backslash already escapes is left as it is.\<close>

fun regexp_source :: "bool \<Rightarrow> string \<Rightarrow> string" where
  "regexp_source inClass [] = []"
| "regexp_source inClass (c # s) =
     (if c = CHR 0x5C then
        (case s of [] \<Rightarrow> [c]
         | d # r \<Rightarrow> c # (if d = CHR 0x0A then CHR ''n'' else if d = CHR 0x0D then CHR ''r'' else d) # regexp_source inClass r)
      else if c = CHR 0x0A then CHR 0x5C # CHR ''n'' # regexp_source inClass s
      else if c = CHR 0x0D then CHR 0x5C # CHR ''r'' # regexp_source inClass s
      else if inClass then c # regexp_source (c \<noteq> CHR '']'') s
      else if c = CHR ''/'' then CHR 0x5C # c # regexp_source False s
      else c # regexp_source (c = CHR ''['') s)"

record 're Rule =
  ru_id :: string
  ru_severity :: string
  ru_subject :: string
  ru_reason :: string
  ru_source :: string
  ru_pattern :: 're
  ru_steps :: "'re list list option"

datatype SnapshotState = StOk | StAbsent | StInvalid | StEmpty | StStale

record 're Snapshot =
  sn_rules :: "'re Rule list"
  sn_digest :: string
  sn_state :: SnapshotState
  sn_workspaceId :: string
  sn_generatedAt :: string
  sn_ageDays :: int
  sn_droppedRules :: nat
  sn_ssoGroups :: "SsoGroupRecord option"
  sn_mcpRegistry :: "McpRegistryRecord option"
  sn_mcpAllowlist :: "McpAllowlistRecord option"
  sn_opaque :: bool
  sn_formatVersion :: nat
  sn_decideRules :: "DecideRecord list"
  sn_ruleRecords :: "GateRuleRecord list"

definition new_snapshot :: "'re Snapshot" where
  "new_snapshot =
     \<lparr>sn_rules = [], sn_digest = ''none'', sn_state = StAbsent, sn_workspaceId = '''', sn_generatedAt = '''', sn_ageDays = 0,
      sn_droppedRules = 0, sn_ssoGroups = None, sn_mcpRegistry = None, sn_mcpAllowlist = None, sn_opaque = False,
      sn_formatVersion = 1, sn_decideRules = [], sn_ruleRecords = []\<rparr>"

definition days_str :: "int \<Rightarrow> string" where
  "days_str n = (if n < 0 then ''-'' @ nat_str (nat (- n)) else nat_str (nat n))"

definition healthMessage :: "'re Snapshot \<Rightarrow> string" where
  "healthMessage snap =
     (case sn_state snap of
        StAbsent \<Rightarrow> ''No policy snapshot '' @ em_dash @ '' built-in protections only''
      | StInvalid \<Rightarrow> ''Policy snapshot failed its digest or workspace check '' @ em_dash
          @ '' dynamic rules dropped except SSO-group refusals, and every MCP call refused''
      | StEmpty \<Rightarrow> ''Policy snapshot contains no rules '' @ em_dash @ '' the compile produced nothing''
      | StStale \<Rightarrow> ''Policy snapshot is '' @ days_str (sn_ageDays snap) @ '' days old and still enforced''
      | StOk \<Rightarrow> '''')"

section \<open>Reading the file\<close>

definition SNAPSHOT_STALE_AFTER_DAYS :: int where "SNAPSHOT_STALE_AFTER_DAYS = 7"

record 're SnapshotEnv =
  en_regexes :: "'re Regexes"
  en_jsonParse :: "string \<Rightarrow> json option"
  en_bufferText :: "string \<Rightarrow> string"
  en_numStr :: "rat \<Rightarrow> string"
  en_sha256Hex :: "string \<Rightarrow> string"
  en_dateParse :: "string \<Rightarrow> int option"
  en_now :: int

text \<open>A rule's columns; the \<open>try\<close> fails when a pattern, or a step of a sequence, does not compile.\<close>

definition read_steps :: "'re Regexes \<Rightarrow> string \<Rightarrow> bool \<Rightarrow> 're list list option" where
  "read_steps rx source ic =
     (let steps = compileSequence (\<lambda>step ic. rx_new rx step (if ic then ''gi'' else ''g'')) source ic in
      if list_ex (list_ex (\<lambda>s. s = None)) steps then None else Some (map (map the) steps))"

definition read_rule :: "'re Regexes \<Rightarrow> string list \<Rightarrow> 're Rule option" where
  "read_rule rx f =
     (let ic = CHR ''i'' \<in> set (f ! 2) in
      case rx_new rx (f ! 5) (if ic then ''i'' else '''') of
        None \<Rightarrow> None
      | Some pattern \<Rightarrow>
          let rule = (\<lambda>steps. \<lparr>ru_id = f ! 0, ru_severity = f ! 1, ru_subject = (if f ! 3 = '''' then ''any'' else f ! 3),
                                ru_reason = f ! 4, ru_source = f ! 5, ru_pattern = pattern, ru_steps = steps\<rparr>)
          in if CHR ''s'' \<in> set (f ! 2) then map_option (\<lambda>s. rule (Some s)) (read_steps rx (f ! 5) ic) else Some (rule None))"

definition tagged :: "string \<Rightarrow> string \<Rightarrow> bool" where
  "tagged tag line \<longleftrightarrow> prefix (tag @ [tab]) line"

definition read_line :: "'re SnapshotEnv \<Rightarrow> string \<Rightarrow> 're Snapshot \<Rightarrow> 're Snapshot" where
  "read_line env line snap =
     (if prefix ''#digest '' line then snap\<lparr>sn_digest := trim (drop 8 line)\<rparr>
      else if prefix ''#workspace '' line then snap\<lparr>sn_workspaceId := trim (drop 11 line)\<rparr>
      else if prefix ''#generated '' line then snap\<lparr>sn_generatedAt := trim (drop 11 line)\<rparr>
      else if line = '''' \<or> prefix ''#'' line then snap
      else if tagged SSO_GROUP_RECORD_TAG line then
        snap\<lparr>sn_ssoGroups := decodeSsoGroupRecord_sdk (en_bufferText env) (en_jsonParse env) line\<rparr>
      else if tagged MCP_REGISTRY_RECORD_TAG line then snap\<lparr>sn_mcpRegistry := decodeMcpRegistryRecord (en_jsonParse env) line\<rparr>
      else if tagged MCP_ALLOWLIST_RECORD_TAG line then snap\<lparr>sn_mcpAllowlist := decodeMcpAllowlistRecord line\<rparr>
      else if tagged INTERVENTION_MODE_RECORD_TAG line then snap\<lparr>sn_opaque := isOpaqueInterventionModeRecord line\<rparr>
      else if tagged SNAPSHOT_FORMAT_RECORD_TAG line then
        snap\<lparr>sn_formatVersion := (case decodeSnapshotFormatRecord line of None \<Rightarrow> sn_formatVersion snap | Some v \<Rightarrow> v)\<rparr>
      else if tagged DECIDE_RECORD_TAG line then
        (case decodeDecideRecord (en_jsonParse env) (rule_check (en_numStr env) (en_sha256Hex env)) line of
           None \<Rightarrow> snap | Some r \<Rightarrow> snap\<lparr>sn_decideRules := sn_decideRules snap @ [as_record r]\<rparr>)
      else if tagged RULE_RECORD_TAG line then
        (case decodeGateRuleRecord (en_jsonParse env) line of
           None \<Rightarrow> snap | Some r \<Rightarrow> snap\<lparr>sn_ruleRecords := sn_ruleRecords snap @ [r]\<rparr>)
      else
        let f = split_on tab line in
        if length f < 6 \<or> f ! 5 = '''' then snap
        else (case read_rule (en_regexes env) f of
                Some r \<Rightarrow> snap\<lparr>sn_rules := sn_rules snap @ [r]\<rparr>
              | None \<Rightarrow> snap\<lparr>sn_droppedRules := sn_droppedRules snap + 1\<rparr>))"

definition read_lines :: "'re SnapshotEnv \<Rightarrow> string list \<Rightarrow> 're Snapshot \<Rightarrow> 're Snapshot" where
  "read_lines env lines snap = fold (read_line env) lines snap"

record LoadSnapshotOptions =
  lo_evaluatesDecide :: bool
  lo_evaluatesRules :: bool

text \<open>The three filters over the rules: fallback lines the caller answers from their records, and
  the phrase rules of an id that has an action rule.\<close>

definition drop_decide_fallbacks :: "'re Snapshot \<Rightarrow> 're Snapshot" where
  "drop_decide_fallbacks snap =
     (let skip = map rc_fallbackId (sn_decideRules snap) in
      snap\<lparr>sn_rules := filter (\<lambda>r. \<not> prefix DECIDE_FALLBACK_PREFIX (ru_id r) \<or> Some (ru_id r) \<notin> set skip) (sn_rules snap)\<rparr>)"

definition drop_rule_fallbacks :: "'re Snapshot \<Rightarrow> 're Snapshot" where
  "drop_rule_fallbacks snap =
     (let skip = List.map_filter gr_fallbackId (sn_ruleRecords snap) in
      snap\<lparr>sn_rules := filter (\<lambda>r. ru_id r \<notin> set skip) (sn_rules snap)\<rparr>)"

definition drop_phrase_twins :: "'re Snapshot \<Rightarrow> 're Snapshot" where
  "drop_phrase_twins snap =
     (let actionIds = map ru_id (filter (\<lambda>r. ru_subject r = ''action'') (sn_rules snap)) in
      snap\<lparr>sn_rules := filter (\<lambda>r. ru_subject r \<noteq> ''phrase'' \<or> ru_id r \<notin> set actionIds) (sn_rules snap)\<rparr>)"

definition select_rules :: "LoadSnapshotOptions \<Rightarrow> 're Snapshot \<Rightarrow> 're Snapshot" where
  "select_rules opts snap =
     (let s1 = (if lo_evaluatesDecide opts \<and> sn_decideRules snap \<noteq> [] then drop_decide_fallbacks snap else snap);
          s2 = (if lo_evaluatesRules opts \<and> sn_ruleRecords s1 \<noteq> [] then drop_rule_fallbacks s1 else s1)
      in drop_phrase_twins s2)"

definition data_lines :: "string list \<Rightarrow> string list" where
  "data_lines lines = filter (\<lambda>l. l \<noteq> '''' \<and> \<not> prefix ''#'' l) lines"

definition snapshot_digest :: "(string \<Rightarrow> string) \<Rightarrow> string list \<Rightarrow> string" where
  "snapshot_digest sha256Hex lines = take 32 (sha256Hex (join_with [CHR 0x0A] (data_lines lines)))"

definition check_integrity :: "'re SnapshotEnv \<Rightarrow> string \<Rightarrow> string list \<Rightarrow> 're Snapshot \<Rightarrow> 're Snapshot" where
  "check_integrity env workspaceId lines snap =
     (let s1 = (if snapshot_digest (en_sha256Hex env) lines \<noteq> sn_digest snap then snap\<lparr>sn_state := StInvalid\<rparr> else snap);
          s2 = (if sn_state s1 = StOk \<and> sn_workspaceId s1 \<noteq> '''' \<and> workspaceId \<noteq> '''' \<and> sn_workspaceId s1 \<noteq> workspaceId
                then s1\<lparr>sn_state := StInvalid\<rparr> else s1);
          s3 = (if sn_state s2 = StOk \<and> sn_rules s2 = [] then s2\<lparr>sn_state := StEmpty\<rparr> else s2)
      in if sn_state s3 = StInvalid
         then s3\<lparr>sn_rules := [], sn_ssoGroups := map_option (\<lambda>r. r\<lparr>sr_member := None\<rparr>) (sn_ssoGroups s3),
                 sn_mcpRegistry := None, sn_mcpAllowlist := None, sn_decideRules := [], sn_ruleRecords := []\<rparr>
         else s3)"

definition DAY_MS :: int where "DAY_MS = 86400000"

definition check_age :: "'re SnapshotEnv \<Rightarrow> 're Snapshot \<Rightarrow> 're Snapshot" where
  "check_age env snap =
     (if sn_state snap = StOk \<and> sn_generatedAt snap \<noteq> '''' then
        (case en_dateParse env (sn_generatedAt snap) of
           None \<Rightarrow> snap
         | Some t \<Rightarrow>
             let days = max 0 ((en_now env - t) div DAY_MS);
                 s = snap\<lparr>sn_ageDays := days\<rparr>
             in if SNAPSHOT_STALE_AFTER_DAYS < days then s\<lparr>sn_state := StStale\<rparr> else s)
      else snap)"

text \<open>\<open>file\<close> is what reading the path gave, \<^const>\<open>None\<close> when it cannot be read.\<close>

definition loadSnapshot :: "'re SnapshotEnv \<Rightarrow> string \<Rightarrow> string option \<Rightarrow> LoadSnapshotOptions \<Rightarrow> 're Snapshot" where
  "loadSnapshot env workspaceId file opts =
     (case file of
        None \<Rightarrow> new_snapshot
      | Some contents \<Rightarrow>
          let lines = split_on (CHR 0x0A) contents
          in check_age env
               (check_integrity env workspaceId lines
                 (select_rules opts (read_lines env lines (new_snapshot\<lparr>sn_state := StOk\<rparr>)))))"

section \<open>Evaluating a call\<close>

datatype Severity = SEV_SHADOW | SEV_WARN | SEV_BLOCK | SEV_HOLD

record Advisory =
  ad_severity :: Severity
  ad_reason :: string
  ad_ruleId :: string

record SnapshotDecision =
  de_severity :: "Severity option"
  de_reason :: string
  de_ruleId :: string
  de_advisories :: "Advisory list"
  de_next :: "nat option"

definition no_decision :: SnapshotDecision where
  "no_decision = \<lparr>de_severity = None, de_reason = '''', de_ruleId = '''', de_advisories = [], de_next = None\<rparr>"

definition normalise :: "string \<Rightarrow> string" where
  "normalise s = '' '' @ trim (squeeze isSpace s) @ '' ''"

text \<open>The subjects of a call.\<close>

record Subjects =
  su_tool :: string
  su_command :: string
  su_target :: string
  su_words :: PhraseText
  su_actions :: string

definition command_input :: "string \<Rightarrow> json" where
  "command_input command = JObj [(''command'', JStr command)]"

definition subjects_of :: "string \<Rightarrow> string \<Rightarrow> string \<Rightarrow> Subjects" where
  "subjects_of toolName target command =
     \<lparr>su_tool = normalise toolName, su_command = normalise command, su_target = normalise target,
      su_words = phraseText command,
      su_actions = '' '' @ join_with '' '' (classify toolName (command_input command)) @ '' ''\<rparr>"

definition phrase_rule_hits :: "'re Rule \<Rightarrow> PhraseText \<Rightarrow> bool" where
  "phrase_rule_hits r ws \<longleftrightarrow> list_ex (\<lambda>p. hasPhrase ws p True) (split_on (CHR ''|'') (regexp_source False (ru_source r)))"

definition pattern_hits :: "'re Regexes \<Rightarrow> 're Rule \<Rightarrow> string \<Rightarrow> bool" where
  "pattern_hits rx r subj =
     (case ru_steps r of Some steps \<Rightarrow> sequenceMatch (rx_exec rx) steps subj | None \<Rightarrow> rx_test rx (ru_pattern r) subj)"

definition rule_hits :: "'re Regexes \<Rightarrow> Subjects \<Rightarrow> 're Rule \<Rightarrow> bool" where
  "rule_hits rx su r =
     (if ru_subject r = ''phrase'' then phrase_rule_hits r (su_words su)
      else list_ex (pattern_hits rx r)
             (if ru_subject r = ''action'' then [su_actions su]
              else if ru_subject r = ''tool'' then [su_tool su]
              else if ru_subject r = ''command'' then [su_command su]
              else if ru_subject r = ''target'' then [su_target su]
              else [su_command su, su_target su]))"

definition with_id :: "'re Rule \<Rightarrow> string" where
  "with_id r = ru_reason r @ '' ['' @ ru_id r @ '']''"

definition advisory :: "Subjects \<Rightarrow> 're Rule \<Rightarrow> Advisory" where
  "advisory su r =
     (if ru_severity r = ''shadow'' then \<lparr>ad_severity = SEV_SHADOW, ad_reason = with_id r, ad_ruleId = ru_id r\<rparr>
      else \<lparr>ad_severity = SEV_WARN, ad_reason = with_id r @ '' verb='' @ hd (split_on (CHR '' '') (trim (su_command su))),
            ad_ruleId = ru_id r\<rparr>)"

definition advises :: "'re Rule \<Rightarrow> bool" where
  "advises r \<longleftrightarrow> ru_severity r = ''shadow'' \<or> ru_severity r = ''warn''"

fun evaluate_from :: "'re Regexes \<Rightarrow> Subjects \<Rightarrow> nat \<Rightarrow> 're Rule list \<Rightarrow> Advisory list \<Rightarrow> SnapshotDecision" where
  "evaluate_from rx su i [] advisories =
     (case advisories of
        [] \<Rightarrow> no_decision
      | a # _ \<Rightarrow> \<lparr>de_severity = Some (ad_severity a), de_reason = ad_reason a, de_ruleId = ad_ruleId a,
                  de_advisories = advisories, de_next = None\<rparr>)"
| "evaluate_from rx su i (r # rs) advisories =
     (if \<not> rule_hits rx su r then evaluate_from rx su (i + 1) rs advisories
      else if advises r then evaluate_from rx su (i + 1) rs (advisories @ [advisory su r])
      else if ru_severity r = ''hold'' then
        \<lparr>de_severity = Some SEV_HOLD, de_reason = ru_reason r, de_ruleId = ru_id r, de_advisories = advisories, de_next = Some (i + 1)\<rparr>
      else
        \<lparr>de_severity = Some SEV_BLOCK, de_reason = with_id r, de_ruleId = ru_id r, de_advisories = advisories, de_next = Some (i + 1)\<rparr>)"

definition enforced_rules :: "bool \<Rightarrow> 're Rule list \<Rightarrow> 're Rule list" where
  "enforced_rules guardDisabled rules =
     (if guardDisabled then filter (\<lambda>r. \<not> prefix ''destructive.'' (ru_id r)) rules else rules)"

definition evaluate :: "'re Regexes \<Rightarrow> string \<Rightarrow> string \<Rightarrow> string \<Rightarrow> 're Snapshot \<Rightarrow> bool \<Rightarrow> nat \<Rightarrow> SnapshotDecision" where
  "evaluate rx toolName target command snap guardDisabled from =
     evaluate_from rx (subjects_of toolName target command) from
       (drop from (enforced_rules guardDisabled (sn_rules snap))) []"

definition guardDisabledFromEnv :: "string option \<Rightarrow> bool" where
  "guardDisabledFromEnv INTUTIC_GUARD_DISABLE \<longleftrightarrow> INTUTIC_GUARD_DISABLE = Some ''1''"

section \<open>The first rule that decides\<close>

text \<open>What the loop computes, without the loop: the first rule that hits and neither shadows nor warns
  decides; the advisories are the hits before it.\<close>

definition decides :: "'re Regexes \<Rightarrow> Subjects \<Rightarrow> 're Rule \<Rightarrow> bool" where
  "decides rx su r \<longleftrightarrow> rule_hits rx su r \<and> \<not> advises r"

definition advisories_of :: "'re Regexes \<Rightarrow> Subjects \<Rightarrow> 're Rule list \<Rightarrow> Advisory list" where
  "advisories_of rx su rs = map (advisory su) (filter (rule_hits rx su) (takeWhile (\<lambda>r. \<not> decides rx su r) rs))"

definition deciding_rule :: "'re Regexes \<Rightarrow> Subjects \<Rightarrow> 're Rule list \<Rightarrow> 're Rule option" where
  "deciding_rule rx su rs = find (decides rx su) rs"

definition first_decision :: "'re Regexes \<Rightarrow> Subjects \<Rightarrow> nat \<Rightarrow> 're Rule list \<Rightarrow> SnapshotDecision" where
  "first_decision rx su i rs =
     (case deciding_rule rx su rs of
        Some r \<Rightarrow>
          \<lparr>de_severity = Some (if ru_severity r = ''hold'' then SEV_HOLD else SEV_BLOCK),
           de_reason = (if ru_severity r = ''hold'' then ru_reason r else with_id r), de_ruleId = ru_id r,
           de_advisories = advisories_of rx su rs,
           de_next = Some (i + length (takeWhile (\<lambda>r. \<not> decides rx su r) rs) + 1)\<rparr>
      | None \<Rightarrow> evaluate_from rx su i [] (advisories_of rx su rs))"

lemma evaluate_from_first:
  "evaluate_from rx su i rs advs =
     (let d = first_decision rx su i rs in
      case deciding_rule rx su rs of
        Some _ \<Rightarrow> d\<lparr>de_advisories := advs @ de_advisories d\<rparr>
      | None \<Rightarrow> evaluate_from rx su i [] (advs @ advisories_of rx su rs))"
proof (induction rs arbitrary: i advs)
  case Nil
  then show ?case by (simp add: deciding_rule_def advisories_of_def)
next
  case (Cons r rs)
  show ?case
  proof (cases "decides rx su r")
    case True
    then show ?thesis by (simp add: deciding_rule_def first_decision_def advisories_of_def decides_def)
  next
    case False
    have last: "evaluate_from rx su i' [] as = evaluate_from rx su i [] as" for i' i as by (simp split: list.split)
    from False show ?thesis
      by (cases "rule_hits rx su r")
        (auto simp: Cons.IH deciding_rule_def first_decision_def advisories_of_def decides_def Let_def last split: option.split)
  qed
qed

lemma evaluate_eq:
  "evaluate rx toolName target command snap guardDisabled from =
     first_decision rx (subjects_of toolName target command) from
       (drop from (enforced_rules guardDisabled (sn_rules snap)))"
  by (auto simp: evaluate_def evaluate_from_first Let_def first_decision_def split: option.split)

text \<open>C8: Evaluating a call finds the first rule that hits it and is neither shadow nor warn; that rule
  holds or blocks, an unknown severity included, and every shadow or warn hit before it, and no other, is an
  advisory.\<close>

theorem evaluate_first_decides:
  "evaluate rx toolName target command snap guardDisabled from =
     first_decision rx (subjects_of toolName target command) from
       (drop from (enforced_rules guardDisabled (sn_rules snap)))"
  by (rule evaluate_eq)

section \<open>The guard switch\<close>

text \<open>What a decision is about, apart from where to resume and its advisories.\<close>

definition verdict_of :: "SnapshotDecision \<Rightarrow> Severity option \<times> string \<times> string" where
  "verdict_of d = (de_severity d, de_reason d, de_ruleId d)"

lemma first_decision_verdict:
  "deciding_rule rx su rs = Some r \<Longrightarrow> verdict_of (first_decision rx su i rs) =
     (Some (if ru_severity r = ''hold'' then SEV_HOLD else SEV_BLOCK), (if ru_severity r = ''hold'' then ru_reason r else with_id r), ru_id r)"
  by (simp add: first_decision_def verdict_of_def)

lemma advisory_severity: "ad_severity (advisory su r) \<in> {SEV_SHADOW, SEV_WARN}"
  by (simp add: advisory_def)

lemma first_decision_refuses:
  "de_severity (first_decision rx su i rs) \<in> {Some SEV_BLOCK, Some SEV_HOLD} \<longleftrightarrow> deciding_rule rx su rs \<noteq> None"
proof (cases "deciding_rule rx su rs")
  case None
  have "\<forall>a \<in> set (advisories_of rx su rs). ad_severity a \<in> {SEV_SHADOW, SEV_WARN}"
    unfolding advisories_of_def using advisory_severity by fastforce
  then show ?thesis
    by (cases "advisories_of rx su rs") (auto simp: first_decision_def None no_decision_def)
qed (simp add: first_decision_def)

lemma find_filter: "find p xs = Some x \<Longrightarrow> q x \<Longrightarrow> find p (filter q xs) = Some x"
  by (induction xs) (auto split: if_splits)

text \<open>\<open>INTUTIC_GUARD_DISABLE=1\<close> releases nothing but the destructive family: a call that a rule of
  another family holds or blocks gets the same verdict with the switch on.\<close>

theorem guard_switch_keeps_other_rules:
  assumes "de_severity (evaluate rx toolName target command snap False 0) \<in> {Some SEV_BLOCK, Some SEV_HOLD}"
    and "\<not> prefix ''destructive.'' (de_ruleId (evaluate rx toolName target command snap False 0))"
  shows "verdict_of (evaluate rx toolName target command snap True 0) = verdict_of (evaluate rx toolName target command snap False 0)"
proof -
  let ?su = "subjects_of toolName target command"
  from assms(1) have "deciding_rule rx ?su (sn_rules snap) \<noteq> None"
    by (simp only: evaluate_eq first_decision_refuses enforced_rules_def if_False drop_0 not_False_eq_True)
  then obtain r where r: "deciding_rule rx ?su (sn_rules snap) = Some r" by blast
  with assms(2) have "\<not> prefix ''destructive.'' (ru_id r)"
    by (simp add: evaluate_eq enforced_rules_def first_decision_def)
  with r have "deciding_rule rx ?su (enforced_rules True (sn_rules snap)) = Some r"
    by (simp add: deciding_rule_def enforced_rules_def find_filter)
  with r show ?thesis
    by (simp add: evaluate_eq first_decision_verdict) (simp add: enforced_rules_def first_decision_verdict)
qed

section \<open>What a loaded snapshot can be trusted for\<close>

lemma read_line_state [simp]: "sn_state (read_line env line snap) = sn_state snap"
  by (simp add: read_line_def Let_def split: option.split)

lemma read_lines_state [simp]: "sn_state (read_lines env lines snap) = sn_state snap"
  unfolding read_lines_def by (induction lines arbitrary: snap) simp_all

lemma select_rules_frame [simp]:
  "sn_state (select_rules opts snap) = sn_state snap" "sn_digest (select_rules opts snap) = sn_digest snap"
  "sn_workspaceId (select_rules opts snap) = sn_workspaceId snap" "sn_decideRules (select_rules opts snap) = sn_decideRules snap"
  "sn_ruleRecords (select_rules opts snap) = sn_ruleRecords snap"
  by (simp_all add: select_rules_def drop_decide_fallbacks_def drop_rule_fallbacks_def drop_phrase_twins_def Let_def)

lemma check_age_frame [simp]:
  "sn_rules (check_age env snap) = sn_rules snap" "sn_digest (check_age env snap) = sn_digest snap"
  "sn_workspaceId (check_age env snap) = sn_workspaceId snap" "sn_ssoGroups (check_age env snap) = sn_ssoGroups snap"
  "sn_mcpRegistry (check_age env snap) = sn_mcpRegistry snap" "sn_mcpAllowlist (check_age env snap) = sn_mcpAllowlist snap"
  "sn_decideRules (check_age env snap) = sn_decideRules snap" "sn_ruleRecords (check_age env snap) = sn_ruleRecords snap"
  by (simp_all add: check_age_def Let_def split: option.split)

lemma check_age_state:
  "sn_state (check_age env snap) = StInvalid \<longleftrightarrow> sn_state snap = StInvalid"
  "sn_state (check_age env snap) = StAbsent \<longleftrightarrow> sn_state snap = StAbsent"
  by (auto simp: check_age_def Let_def split: option.split)

definition verified :: "(string \<Rightarrow> string) \<Rightarrow> string \<Rightarrow> string option \<Rightarrow> 're Snapshot \<Rightarrow> bool" where
  "verified sha256Hex workspaceId file snap \<longleftrightarrow>
     (\<exists>contents. file = Some contents \<and> snapshot_digest sha256Hex (split_on (CHR 0x0A) contents) = sn_digest snap)
     \<and> (sn_workspaceId snap = '''' \<or> workspaceId = '''' \<or> sn_workspaceId snap = workspaceId)"

definition emptied :: "'re Snapshot \<Rightarrow> bool" where
  "emptied snap \<longleftrightarrow>
     sn_rules snap = [] \<and> sn_decideRules snap = [] \<and> sn_ruleRecords snap = [] \<and> sn_mcpRegistry snap = None
     \<and> sn_mcpAllowlist snap = None \<and> (case sn_ssoGroups snap of None \<Rightarrow> True | Some r \<Rightarrow> sr_member r = None)"

lemma check_integrity_cases:
  assumes "sn_state snap = StOk" and "snap' = check_integrity env workspaceId lines snap"
  shows "if sn_state snap' = StInvalid then emptied snap'
         else snapshot_digest (en_sha256Hex env) lines = sn_digest snap'
           \<and> (sn_workspaceId snap' = '''' \<or> workspaceId = '''' \<or> sn_workspaceId snap' = workspaceId)
           \<and> sn_state snap' \<noteq> StAbsent"
  using assms by (auto simp: check_integrity_def Let_def emptied_def split: option.split)

text \<open>C7: A loaded snapshot is one of three things: absent, when there was no file; emptied, when it failed its
  digest or its workspace check (no rule, no record, no MCP list, and a group policy whose member is unknown);
  or one whose data lines hash to its digest, for this workspace.\<close>

theorem loadSnapshot_integrity:
  "case sn_state (loadSnapshot env workspaceId file opts) of
     StAbsent \<Rightarrow> file = None \<and> loadSnapshot env workspaceId file opts = new_snapshot
   | StInvalid \<Rightarrow> emptied (loadSnapshot env workspaceId file opts)
   | _ \<Rightarrow> verified (en_sha256Hex env) workspaceId file (loadSnapshot env workspaceId file opts)"
proof (cases "file")
  case None
  then show ?thesis by (simp add: loadSnapshot_def new_snapshot_def)
next
  case (Some contents)
  let ?lines = "split_on (CHR 0x0A) contents"
  let ?read = "select_rules opts (read_lines env ?lines (new_snapshot\<lparr>sn_state := StOk\<rparr>))"
  define snap where "snap = check_integrity env workspaceId ?lines ?read"
  have load: "loadSnapshot env workspaceId file opts = check_age env snap"
    by (simp add: loadSnapshot_def Some Let_def snap_def)
  have "if sn_state snap = StInvalid then emptied snap
        else snapshot_digest (en_sha256Hex env) ?lines = sn_digest snap
          \<and> (sn_workspaceId snap = [] \<or> workspaceId = [] \<or> sn_workspaceId snap = workspaceId) \<and> sn_state snap \<noteq> StAbsent"
    by (rule check_integrity_cases [OF _ snap_def]) simp
  moreover have "emptied (check_age env snap) = emptied snap" by (simp add: emptied_def)
  ultimately show ?thesis
    unfolding load using check_age_state [of env snap]
    by (cases "sn_state (check_age env snap)") (simp_all add: verified_def Some split: if_splits)
qed

section \<open>No rule line is lost\<close>

text \<open>Why a rule that was read may be missing from the snapshot: its caller answers it from a decoded
  record that names it, or an action rule of the same id stands in for it.\<close>

definition answered_otherwise :: "LoadSnapshotOptions \<Rightarrow> 're Snapshot \<Rightarrow> 're Rule \<Rightarrow> bool" where
  "answered_otherwise opts snap r \<longleftrightarrow>
     lo_evaluatesDecide opts \<and> (\<exists>d \<in> set (sn_decideRules snap). rc_fallbackId d = Some (ru_id r))
     \<or> lo_evaluatesRules opts \<and> (\<exists>g \<in> set (sn_ruleRecords snap). gr_fallbackId g = Some (ru_id r))
     \<or> ru_subject r = ''phrase'' \<and> (\<exists>a \<in> set (sn_rules snap). ru_subject a = ''action'' \<and> ru_id a = ru_id r)"

lemma set_map_filter_some: "x \<in> set (List.map_filter f xs) \<longleftrightarrow> (\<exists>y \<in> set xs. f y = Some x)"
  by (force simp: List.map_filter_def)

lemma filtered_rules [simp]:
  "sn_rules (drop_decide_fallbacks s) = filter (\<lambda>r. \<not> prefix DECIDE_FALLBACK_PREFIX (ru_id r) \<or> Some (ru_id r) \<notin> rc_fallbackId ` set (sn_decideRules s)) (sn_rules s)"
  "sn_rules (drop_rule_fallbacks s) = filter (\<lambda>r. ru_id r \<notin> set (List.map_filter gr_fallbackId (sn_ruleRecords s))) (sn_rules s)"
  "sn_rules (drop_phrase_twins s) = filter (\<lambda>r. ru_subject r \<noteq> ''phrase'' \<or> ru_id r \<notin> ru_id ` {a \<in> set (sn_rules s). ru_subject a = ''action''}) (sn_rules s)"
  "sn_decideRules (drop_decide_fallbacks s) = sn_decideRules s" "sn_ruleRecords (drop_decide_fallbacks s) = sn_ruleRecords s"
  by (simp_all add: drop_decide_fallbacks_def drop_rule_fallbacks_def drop_phrase_twins_def Let_def)

lemma twin_stays:
  "r \<in> set (sn_rules s) \<Longrightarrow> r \<in> set (sn_rules (drop_phrase_twins s))
     \<or> ru_subject r = ''phrase'' \<and> (\<exists>a \<in> set (sn_rules (drop_phrase_twins s)). ru_subject a = ''action'' \<and> ru_id a = ru_id r)"
  by auto

lemma check_integrity_keeps:
  assumes "sn_state (check_integrity env workspaceId lines s) \<noteq> StInvalid"
  shows "sn_rules (check_integrity env workspaceId lines s) = sn_rules s
     \<and> sn_decideRules (check_integrity env workspaceId lines s) = sn_decideRules s
     \<and> sn_ruleRecords (check_integrity env workspaceId lines s) = sn_ruleRecords s"
  using assms by (auto simp: check_integrity_def Let_def split: if_splits)

lemma select_rules_keeps:
  "r \<in> set (sn_rules snap) \<Longrightarrow> r \<in> set (sn_rules (select_rules opts snap)) \<or> answered_otherwise opts (select_rules opts snap) r"
proof -
  assume r: "r \<in> set (sn_rules snap)"
  let ?s1 = "if lo_evaluatesDecide opts \<and> sn_decideRules snap \<noteq> [] then drop_decide_fallbacks snap else snap"
  let ?s2 = "if lo_evaluatesRules opts \<and> sn_ruleRecords ?s1 \<noteq> [] then drop_rule_fallbacks ?s1 else ?s1"
  have selected: "select_rules opts snap = drop_phrase_twins ?s2" by (simp add: select_rules_def Let_def)
  have "r \<in> set (sn_rules ?s1) \<or> lo_evaluatesDecide opts \<and> (\<exists>d \<in> set (sn_decideRules snap). rc_fallbackId d = Some (ru_id r))"
    using r by auto
  moreover have "r \<in> set (sn_rules ?s2) \<or> lo_evaluatesRules opts \<and> (\<exists>g \<in> set (sn_ruleRecords snap). gr_fallbackId g = Some (ru_id r))"
    if "r \<in> set (sn_rules ?s1)"
    using that by (simp add: set_map_filter_some split: if_splits) blast+
  moreover note twin_stays [of r ?s2]
  ultimately show ?thesis unfolding answered_otherwise_def select_rules_frame unfolding selected by blast
qed

text \<open>In a snapshot that was not emptied, every rule line that was read is enforced, or answered by a
  record this caller evaluates, or held by the action rule of the same id.\<close>

theorem no_rule_lost:
  assumes "sn_state (loadSnapshot env workspaceId (Some contents) opts) \<noteq> StInvalid"
    and "r \<in> set (sn_rules (read_lines env (split_on (CHR 0x0A) contents) (new_snapshot\<lparr>sn_state := StOk\<rparr>)))"
  shows "r \<in> set (sn_rules (loadSnapshot env workspaceId (Some contents) opts))
     \<or> answered_otherwise opts (loadSnapshot env workspaceId (Some contents) opts) r"
proof -
  let ?read = "select_rules opts (read_lines env (split_on (CHR 0x0A) contents) (new_snapshot\<lparr>sn_state := StOk\<rparr>))"
  have "sn_rules (loadSnapshot env workspaceId (Some contents) opts) = sn_rules ?read"
    "sn_decideRules (loadSnapshot env workspaceId (Some contents) opts) = sn_decideRules ?read"
    "sn_ruleRecords (loadSnapshot env workspaceId (Some contents) opts) = sn_ruleRecords ?read"
    using assms(1) unfolding loadSnapshot_def option.case Let_def check_age_state(1) check_age_frame
    by (simp_all add: check_integrity_keeps)
  then show ?thesis using select_rules_keeps [OF assms(2), of opts] by (simp add: answered_otherwise_def)
qed

section \<open>The SDK's SSO evaluator\<close>

lemma find_one: "(case find P [x] of Some y \<Rightarrow> f y | None \<Rightarrow> d) = (if P x then f x else d)"
  by simp

lemma matchingEntry_one: "matchingEntry_sdk entries toolName = matchingEntry entries [toolName]"
  by (auto simp: matchingEntry_sdk_def matchingEntry_def List.map_filter_simps split: option.split)

lemma name_list_strings: "name_list v = Some xs \<Longrightarrow> stringList v = xs"
  by (auto simp: name_list_def stringList_def split: option.splits json.splits if_splits)

text \<open>The SDK carries its own SSO evaluator and policy reader; on every policy, tool and group list they
  give the answer of the shared ones the proxy runs (which take every name of a tool).\<close>

theorem sso_sdk_agrees:
  "evaluateSsoGroupClearance_sdk policy toolName groups = evaluateSsoGroupClearance policy [toolName] groups
   \<and> parseSsoGroupPolicy_sdk v = parseSsoGroupPolicy v"
proof
  show "evaluateSsoGroupClearance_sdk policy toolName groups = evaluateSsoGroupClearance policy [toolName] groups"
    by (simp add: evaluateSsoGroupClearance_sdk_def evaluateSsoGroupClearance_def matchingEntry_one Let_def split: option.split)
  show "parseSsoGroupPolicy_sdk v = parseSsoGroupPolicy v"
    by (auto simp: parseSsoGroupPolicy_sdk_def parseSsoGroupPolicy_def SsoGroupPolicySchema_def name_list_strings
        split: option.split json.split)
qed

section \<open>A slash in a phrase\<close>

text \<open>A phrase rule is read back from \<open>pattern.source\<close>, which escapes every slash: the phrases of
  \<open>action:payment\<close> that are addresses no longer occur in the commands they name, though the classifier
  sees the payment.\<close>

definition payment_command :: string where
  "payment_command = ''curl api.stripe.com/v1/charges''"

lemma payment_phrase_missed:
  "\<not> hasPhrase (phraseText payment_command) (regexp_source False ''api.stripe.com/v1/charges'') True"
  "hasPhrase (phraseText payment_command) ''api.stripe.com/v1/charges'' True"
  "''api.stripe.com/v1/charges'' \<in> set (action_phrases ''payment'')"
  by code_simp+

end
