(* ===== verification/SnapshotWriter.thy ===== *)
theory SnapshotWriter
  imports GateSnapshot McpPolicy
begin

text \<open>
  The writer of the policy snapshot, \<open>services/sync-daemon/src/lib/policySnapshot.ts\<close>, with the rule
  line of \<open>harness/gateBody.ts\<close> (\<open>toRulesLine\<close>) and the portability check of
  \<open>harness/protectedPaths.ts\<close>.  A resolved policy is compiled to guard patterns and records, written as
  the lines of a \<open>.rules\<close> file under their digest; \<open>GateSnapshot\<close> reads them back.

  A local SOP is its entry with its front matter as parsed (\<open>LocalSop\<close>), and the skill-content table,
  which the source builds from the skill scanner's, is an argument.  The two other pattern tables are
  here with the fields the writer reads.
\<close>

section \<open>Guard patterns\<close>

record GuardPattern =
  gp_id :: string
  gp_source :: string
  gp_subject :: "string option"
  gp_ignoreCase :: bool
  gp_sequence :: bool
  gp_severity :: string
  gp_reason :: string
  gp_argPattern :: "string option"

definition guard :: "string \<Rightarrow> string \<Rightarrow> string \<Rightarrow> string \<Rightarrow> string \<Rightarrow> GuardPattern" where
  "guard i source subject severity reason =
     \<lparr>gp_id = i, gp_source = source, gp_subject = Some subject, gp_ignoreCase = False, gp_sequence = False,
      gp_severity = severity, gp_reason = reason, gp_argPattern = None\<rparr>"

definition ruleFlags :: "GuardPattern \<Rightarrow> string" where
  "ruleFlags p =
     (let f = (if gp_ignoreCase p then ''i'' else '''') @ (if gp_sequence p then ''s'' else '''')
      in if f = '''' then ''-'' else f)"

definition no_breaks :: "string \<Rightarrow> string" where
  "no_breaks s = map (\<lambda>c. if is_line_space c then CHR '' '' else c) s"

definition subject_column :: "GuardPattern \<Rightarrow> string" where
  "subject_column p = (case gp_subject p of None \<Rightarrow> ''any'' | Some s \<Rightarrow> s)"

definition rule_columns :: "GuardPattern \<Rightarrow> string list" where
  "rule_columns p = [gp_id p, gp_severity p, ruleFlags p, subject_column p, no_breaks (gp_reason p), gp_source p]"

definition toRulesLine :: "GuardPattern \<Rightarrow> string" where
  "toRulesLine p =
     join_with [tab] (rule_columns p)
     @ (case gp_argPattern p of
          None \<Rightarrow> '''' | Some a \<Rightarrow> if a = '''' then '''' else tab # decideToBase64 a)"

text \<open>A probe that looks for two adjacent characters, one for a character that stands first or after
  one of a class, and the check itself.\<close>

definition pair_in :: "(char \<Rightarrow> bool) \<Rightarrow> (char \<Rightarrow> bool) \<Rightarrow> string \<Rightarrow> bool" where
  "pair_in p q s \<longleftrightarrow> list_ex (\<lambda>(a, b). p a \<and> q b) (zip s (drop 1 s))"

definition first_or_after :: "(char \<Rightarrow> bool) \<Rightarrow> (char \<Rightarrow> bool) \<Rightarrow> string \<Rightarrow> bool" where
  "first_or_after before c s \<longleftrightarrow> (s \<noteq> '''' \<and> c (hd s)) \<or> pair_in before c s"

definition is_backslash :: "char \<Rightarrow> bool" where
  "is_backslash c \<longleftrightarrow> c = CHR 0x5C"

definition portable_probes :: "string \<Rightarrow> bool list" where
  "portable_probes s =
     [pair_in is_backslash (\<lambda>c. c \<in> set ''sSdDwWbB'') s,
      pair_in is_backslash (\<lambda>c. c \<in> set ''tnrvfxu0'') s,
      sublist ''[[:'' s,
      sublist ''(?'' s,
      pair_in is_backslash (\<lambda>c. is_digit c \<and> c \<noteq> CHR ''0'') s,
      first_or_after (\<lambda>c. \<not> is_backslash c) (\<lambda>c. c = CHR ''{'') s,
      first_or_after (\<lambda>c. \<not> is_backslash c \<and> c \<noteq> CHR ''['') (\<lambda>c. c = CHR 0x24 \<or> c = CHR ''^'') s,
      tab \<in> set s,
      CHR 0x27 \<in> set s]"

text \<open>\<open>assertPortableEre\<close> returns, or throws.\<close>

definition assertPortableEre :: "'re Regexes \<Rightarrow> string \<Rightarrow> bool" where
  "assertPortableEre rx source \<longleftrightarrow> \<not> list_ex (\<lambda>hit. hit) (portable_probes source) \<and> rx_new rx source '''' \<noteq> None"

section \<open>The policy\<close>

record PolicySopRule =
  so_id :: string
  so_toolPattern :: string
  so_argPattern :: "string option"
  so_action :: string
  so_reason :: string
  so_origin :: "string option"

record ServedHoldRule =
  hr_id :: string
  hr_source :: string
  hr_subject :: string
  hr_ignoreCase :: bool
  hr_severity :: string
  hr_reason :: string
  hr_rationale :: "string option"

record ServedDecideRule =
  vd_sopId :: string
  vd_sopTitle :: string
  vd_ruleText :: string
  vd_ir :: "json option"
  vd_rollout :: "string option"
  vd_ruleHash :: "string option"
  vd_pins :: "json list"

record ResolvedPolicy =
  rp_workspaceId :: string
  rp_sopRules :: "PolicySopRule list"
  rp_interventionMode :: string
  rp_mcpAllowedServers :: "string list"
  rp_sqlDropStrictBlock :: bool
  rp_ssoGroupPolicy :: "SsoGroupPolicy option"
  rp_principal :: "SsoMember option"
  rp_mcpRegistry :: "McpRegistryRecord option"
  rp_decideRules :: "ServedDecideRule list"
  rp_gateRecords :: "json list"
  rp_holdRules :: "ServedHoldRule list"
  rp_revertHolds :: "json list"

record LocalSop =
  lp_entry :: SopEntry
  lp_front :: GateRuleFrontMatter
  lp_lanes :: LaneSop

datatype LocalHoldMode = ModeHold | ModeBlock

text \<open>What the machine supplies: the platform, the marker of \<open>intutic decide disable\<close>, the clock's text
  and the skill-content table.\<close>

record 're WriterEnv =
  we_regexes :: "'re Regexes"
  we_jsonParse :: "string \<Rightarrow> json option"
  we_numStr :: "rat \<Rightarrow> string"
  we_sha256Hex :: "string \<Rightarrow> string"
  we_decideDisabled :: bool
  we_generatedAt :: string
  we_skillContent :: "GuardPattern list"

section \<open>SOP rules\<close>

definition stripEnd :: "string \<Rightarrow> char \<Rightarrow> string" where
  "stripEnd s ch = rev (dropWhile (\<lambda>c. c = ch) (rev s))"

definition stripStart :: "string \<Rightarrow> char \<Rightarrow> string" where
  "stripStart s ch = dropWhile (\<lambda>c. c = ch) s"

definition CANARY_TOOLS :: "string list" where
  "CANARY_TOOLS =
     [''Bash'', ''Read'', ''Write'', ''Edit'', ''Glob'', ''Grep'', ''Task'', ''WebFetch'',
      ''NotebookEdit'', ''TodoWrite'', ''run_command'', ''str_replace_editor'',
      ''mcp__github__create_issue'', ''mcp__filesystem__read_file'']"

definition bare_pattern :: "string \<Rightarrow> string" where
  "bare_pattern toolPattern = stripEnd (stripStart (trim toolPattern) (CHR ''^'')) (CHR 0x24)"

definition token_source :: "string \<Rightarrow> string" where
  "token_source stripped = '' ('' @ stripped @ '') ''"

text \<open>\<open>validateRule\<close> gives a reason to reject, or null; the model keeps which.\<close>

datatype RuleFault = EmptyPattern | OnlyAnchors | NotPortable | DoesNotCompile | CatchAll nat

definition canary_limit :: nat where
  "canary_limit = nat \<lceil>of_nat (length CANARY_TOOLS) * (7 / 10) :: rat\<rceil>"

definition validateRule :: "'re Regexes \<Rightarrow> string \<Rightarrow> RuleFault option" where
  "validateRule rx toolPattern =
     (let raw = trim toolPattern; stripped = bare_pattern toolPattern; wrapped = token_source stripped in
      if raw = '''' then Some EmptyPattern
      else if stripped = '''' then Some OnlyAnchors
      else if \<not> assertPortableEre rx wrapped then Some NotPortable
      else (case rx_new rx wrapped '''' of
              None \<Rightarrow> Some DoesNotCompile
            | Some re \<Rightarrow>
                let hits = length (filter (\<lambda>t. rx_test rx re ('' '' @ t @ '' '')) CANARY_TOOLS)
                in if canary_limit \<le> hits then Some (CatchAll hits) else None))"

definition toGuardPattern :: "'re Regexes \<Rightarrow> PolicySopRule \<Rightarrow> bool \<Rightarrow> GuardPattern option" where
  "toGuardPattern rx rule shadow =
     (let guardrail = (so_origin rule = Some ''guardrail'');
          hold = (so_action rule = ''require_approval'')
      in if so_action rule \<noteq> ''block'' \<and> \<not> hold \<and> \<not> (guardrail \<and> so_action rule = ''warn'') then None
         else if validateRule rx (so_toolPattern rule) \<noteq> None then None
         else
           Some \<lparr>gp_id = ''sop.'' @ so_id rule, gp_source = token_source (bare_pattern (so_toolPattern rule)),
                 gp_subject = Some ''tool'', gp_ignoreCase = False, gp_sequence = False,
                 gp_severity = (if shadow then ''shadow'' else if hold then ''hold''
                                else if so_action rule = ''warn'' then ''warn'' else ''block''),
                 gp_reason =
                   (if hold then ''Held for human review: '' @ (if so_reason rule = '''' then ''SOP '' @ so_id rule else so_reason rule)
                    else if so_reason rule = '''' then ''Blocked by SOP '' @ so_id rule else so_reason rule),
                 gp_argPattern =
                   (case so_argPattern rule of
                      None \<Rightarrow> None
                    | Some a \<Rightarrow> if a = '''' \<or> rx_new rx a '''' = None then None else Some a)\<rparr>)"


section \<open>The pattern tables\<close>

definition skill_surface_reason :: "string \<Rightarrow> string" where
  "skill_surface_reason dir =
     ''Write or edit targets a '' @ dir @ ''/skills/** skill file '' @ em_dash @ '' advisory only, pending a ''
     @ ''false-positive measurement of scanSkillContent against real skill markdown''"

text \<open>The subject of the destructive table is stamped by its last line: a phrase, or the command.\<close>

definition DESTRUCTIVE_COMMAND_PATTERNS :: "GuardPattern list" where
  "DESTRUCTIVE_COMMAND_PATTERNS =
     [guard ''destructive.rm_rf_root''
        ('' rm( +-[a-zA-Z-]+)+ +/( |'' @ [CHR 0x5C] @ ''*)'')
        ''command'' ''block'' ''Recursive delete of the filesystem root'',
      guard ''destructive.rm_rf_home''
        ('' rm( +-[a-zA-Z-]+)+ +(~|'' @ [CHR 0x22] @ ''?'' @ [CHR 0x5C] @ ''$(HOME|'' @ [CHR 0x5C] @ ''{HOME})'' @ [CHR 0x22] @ ''?)(/'' @ [CHR 0x5C] @ ''*?)?'' @ [CHR 0x22] @ ''?[ ;&|)]'')
        ''command'' ''block'' ''Recursive delete of the home directory'',
      (guard ''destructive.mkfs_device''
        ('' mkfs[a-z0-9.]* .*/dev/'')
        ''command'' ''block'' ''Formatting a block device'')\<lparr>gp_sequence := True\<rparr>,
      (guard ''destructive.dd_raw_device''
        ('' dd .*of=/dev/'')
        ''command'' ''block'' ''Writing a raw image over a block device'')\<lparr>gp_sequence := True\<rparr>,
      (guard ''destructive.block_device_wipe''
        ('' (shred|wipefs|blkdiscard) .*/dev/'')
        ''command'' ''block'' ''Wiping a block device'')\<lparr>gp_sequence := True\<rparr>,
      guard ''destructive.chmod_recursive_root''
        ('' chmod +-[a-zA-QS-Z]*R[a-zA-Z]* +[0-7]+ +/( |'' @ [CHR 0x5C] @ ''*)'')
        ''command'' ''block'' ''Recursive permission change across the filesystem root'',
      guard ''destructive.chown_recursive_root''
        ('' chown +-[a-zA-QS-Z]*R[a-zA-Z]* +[a-zA-Z0-9_.:-]+ +/( |'' @ [CHR 0x5C] @ ''*)'')
        ''command'' ''block'' ''Recursive ownership change across the filesystem root'',
      guard ''destructive.fork_bomb''
        ('':'' @ [CHR 0x5C] @ ''('' @ [CHR 0x5C] @ '') *'' @ [CHR 0x5C] @ ''{ *:'' @ [CHR 0x5C] @ ''|:'')
        ''command'' ''block'' ''Fork bomb'',
      (guard ''destructive.curl_pipe_shell''
        ('' (curl|wget) .*'' @ [CHR 0x5C] @ ''| *(sudo )?(ba|z|k|d)?sh'')
        ''command'' ''warn'' ''Piping a downloaded script straight into a shell'')\<lparr>gp_sequence := True\<rparr>,
      (guard ''destructive.sql_drop''
        (''drop table|drop database|drop schema|truncate table'')
        ''phrase'' ''warn'' ''Destructive SQL statement'')\<lparr>gp_ignoreCase := True\<rparr>,
      (guard ''destructive.git_history_loss''
        ('' git .*reset +--hard| git .*clean +-[a-zA-Z]*f| git .*push +.*--force'')
        ''command'' ''warn'' ''Git command that discards uncommitted or remote work'')\<lparr>gp_sequence := True\<rparr>]"

definition SKILL_SURFACE_PATTERNS :: "GuardPattern list" where
  "SKILL_SURFACE_PATTERNS =
     [guard ''skill_surface.agents_skills_write'' ([CHR 0x5C] @ ''.agents/skills/'') ''target'' ''warn''
        (skill_surface_reason ''.agents''),
      guard ''skill_surface.claude_skills_write'' ([CHR 0x5C] @ ''.claude/skills/'') ''target'' ''warn''
        (skill_surface_reason ''.claude'')]"


section \<open>Decide rules\<close>

definition is_silent_log :: "ResolvedPolicy \<Rightarrow> bool" where
  "is_silent_log policy \<longleftrightarrow> map ascii_upper_char (rp_interventionMode policy) = ''SILENT_LOG''"

definition scrubReason :: "string \<Rightarrow> string" where
  "scrubReason s = trim (squeeze (\<lambda>c. c = CHR '' '') (squeeze is_line_space s))"

definition boundedText :: "string \<Rightarrow> nat \<Rightarrow> string" where
  "boundedText s n = take n (scrubReason s)"

text \<open>\<^const>\<open>None\<close>: \<open>assertPortableEre\<close> threw, and with it the whole compilation.\<close>

definition decideFallbackPattern :: "'re Regexes \<Rightarrow> string \<Rightarrow> string list \<Rightarrow> string \<Rightarrow> string \<Rightarrow> GuardPattern option" where
  "decideFallbackPattern rx i tools severity reason =
     (let names = map ruleEscape (sort (uniq tools));
          source = (if names \<noteq> [] then token_source (join_with ''|'' names) else '' [^ ]+ '')
      in if \<not> assertPortableEre rx source then None
         else Some (guard i source ''tool'' severity (boundedText reason 300)))"

definition stampDecideRule :: "bool \<Rightarrow> string option \<Rightarrow> bool \<Rightarrow> json list \<Rightarrow> bool \<Rightarrow> Rollout \<times> DecideStamp" where
  "stampDecideRule enforces served silentLog pins localDisable =
     (if \<not> enforces then (Shadow, StRule)
      else if localDisable then (Shadow, StLocalDisable)
      else if served = Some ''shadow'' then (Shadow, StServerShadow)
      else if silentLog then (Shadow, StSilentLog)
      else if pins = [] then (Shadow, StNoPins)
      else (Enforce, StRule))"

definition stamp_name :: "DecideStamp \<Rightarrow> string" where
  "stamp_name s = (case find (\<lambda>(n, t). t = s) DECIDE_STAMPS of None \<Rightarrow> '''' | Some (n, _) \<Rightarrow> n)"

text \<open>The text a line is parsed as, and its declaration: the lines of one SOP are parsed together.\<close>

definition ir_text :: "(rat \<Rightarrow> string) \<Rightarrow> ServedDecideRule \<Rightarrow> string" where
  "ir_text numStr r = (case vd_ir r of None \<Rightarrow> '''' | Some (JStr s) \<Rightarrow> s | Some v \<Rightarrow> stringify numStr v)"

definition same_sop :: "ServedDecideRule list \<Rightarrow> nat \<Rightarrow> nat list" where
  "same_sop served i = filter (\<lambda>j. vd_sopId (served ! j) = vd_sopId (served ! i)) [0..<length served]"

definition place_in_sop :: "ServedDecideRule list \<Rightarrow> nat \<Rightarrow> nat" where
  "place_in_sop served i = length (filter (\<lambda>j. j < i) (same_sop served i))"

definition decl_of :: "'re WriterEnv \<Rightarrow> ServedDecideRule list \<Rightarrow> nat \<Rightarrow> DecideDecl" where
  "decl_of env served i =
     parseDecideLines (we_jsonParse env) (map (\<lambda>j. ir_text (we_numStr env) (served ! j)) (same_sop served i)) ! place_in_sop served i"

text \<open>The rule a line holds, as JSON: the value the validator was given.\<close>

definition ir_json :: "'re WriterEnv \<Rightarrow> ServedDecideRule \<Rightarrow> json" where
  "ir_json env r = (case we_jsonParse env (trim (ir_text (we_numStr env) r)) of None \<Rightarrow> JNull | Some v \<Rightarrow> v)"

definition named_tools :: "'re WriterEnv \<Rightarrow> ServedDecideRule \<Rightarrow> string list" where
  "named_tools env r =
     filter TOOL_TOKEN
       (case vd_ir r of
          None \<Rightarrow> []
        | Some (JStr s) \<Rightarrow> (case we_jsonParse env s of None \<Rightarrow> [] | Some v \<Rightarrow> stringList (json_field v ''tools''))
        | Some v \<Rightarrow> stringList (json_field v ''tools''))"

definition sop_short :: "'re WriterEnv \<Rightarrow> ServedDecideRule \<Rightarrow> string" where
  "sop_short env r = take 12 (we_sha256Hex env (vd_sopId r))"

definition decide_title :: "ServedDecideRule \<Rightarrow> string" where
  "decide_title r = boundedText (vd_sopTitle r) DECIDE_SOP_TITLE_MAX_CHARS"

definition unreadable_fallback :: "'re WriterEnv \<Rightarrow> bool \<Rightarrow> ServedDecideRule \<Rightarrow> nat \<Rightarrow> string option \<Rightarrow> string \<Rightarrow> GuardPattern option" where
  "unreadable_fallback env silentLog r line declId error =
     decideFallbackPattern (we_regexes env)
       (DECIDE_FALLBACK_PREFIX @ ''unreadable.'' @ nat_str line @ ''@'' @ sop_short env r)
       (named_tools env r) (if silentLog then ''shadow'' else ''block'')
       (''Decide rule '' @ (case declId of None \<Rightarrow> ''on decide line '' @ nat_str line | Some i \<Rightarrow> i)
        @ '' ('' @ decide_title r @ '') does not read, so the calls it covers are refused: '' @ error)"

definition decide_record_json :: "ServedDecideRule \<Rightarrow> DecideRule \<Rightarrow> json \<Rightarrow> string \<Rightarrow> string option \<Rightarrow> Rollout \<times> DecideStamp \<Rightarrow> json list \<Rightarrow> json" where
  "decide_record_json r rule ir ruleHash fallbackId stamp pins = JObj
     [(''v'', JNum 1), (''ref'', JStr (decideRuleRef (vd_sopId r) (rl_id rule))), (''ruleHash'', JStr ruleHash),
      (''fallbackId'', case fallbackId of None \<Rightarrow> JNull | Some f \<Rightarrow> JStr f), (''rollout'', JStr (rollout_name (fst stamp))),
      (''stampedBy'', JStr (stamp_name (snd stamp))), (''ir'', ir), (''sopTitle'', JStr (decide_title r)),
      (''ruleText'', JStr (decideRuleText (vd_ruleText r))), (''pins'', JArr pins)]"

text \<open>What one line adds: records and fallback lines.\<close>

definition compile_decide_rule ::
    "'re WriterEnv \<Rightarrow> bool \<Rightarrow> bool \<Rightarrow> ServedDecideRule \<Rightarrow> nat \<Rightarrow> DecideDecl \<Rightarrow> (json list \<times> GuardPattern list) option" where
  "compile_decide_rule env silentLog localDisable r line decl =
     (case decl of
        Unreadable declId error \<Rightarrow> map_option (\<lambda>f. ([], [f])) (unreadable_fallback env silentLog r line declId error)
      | DeclRule rule _ \<Rightarrow>
          if rl_on rule \<noteq> OnToolCall then Some ([], [])
          else (case decideRuleHash (we_numStr env) (we_sha256Hex env) rule of
             None \<Rightarrow> None
           | Some ruleHash \<Rightarrow>
               let pins = (if vd_ruleHash r \<noteq> None \<and> vd_ruleHash r \<noteq> Some ruleHash then [] else vd_pins r);
                   stamp = stampDecideRule (rl_rollout rule = Some Enforce) (vd_rollout r) silentLog pins localDisable;
                   fallbackId = (if fst stamp = Enforce then Some (decideFallbackId (we_sha256Hex env) (rl_id rule) (vd_sopId r)) else None);
                   record = decide_record_json r rule (ir_json env r) ruleHash fallbackId stamp pins
               in case fallbackId of
                    None \<Rightarrow> Some ([record], [])
                  | Some f \<Rightarrow>
                      map_option (\<lambda>p. ([record], [p]))
                        (decideFallbackPattern (we_regexes env) f (case rl_tools rule of None \<Rightarrow> [] | Some ts \<Rightarrow> ts) ''block''
                          (decideFallbackReason (rl_id rule) (decide_title r)))))"

fun collect_decide :: "(nat \<Rightarrow> (json list \<times> GuardPattern list) option) \<Rightarrow> nat list \<Rightarrow> (json list \<times> GuardPattern list) option" where
  "collect_decide f [] = Some ([], [])"
| "collect_decide f (i # is) =
     (case (f i, collect_decide f is) of
        (Some (rs, fs), Some (rs', fs')) \<Rightarrow> Some (rs @ rs', fs @ fs')
      | _ \<Rightarrow> None)"

definition compileDecideRules :: "'re WriterEnv \<Rightarrow> ResolvedPolicy \<Rightarrow> (json list \<times> GuardPattern list) option" where
  "compileDecideRules env policy =
     (let served = rp_decideRules policy; localDisable = (0 < length served \<and> we_decideDisabled env) in
      collect_decide
        (\<lambda>i. compile_decide_rule env (is_silent_log policy) localDisable (served ! i) (place_in_sop served i + 1) (decl_of env served i))
        [0..<length served])"

section \<open>Rule records and holds\<close>

definition fallback_subject :: "RuleSubject \<Rightarrow> string" where
  "fallback_subject s = (case s of SubjectTool \<Rightarrow> ''tool'' | SubjectAction \<Rightarrow> ''action'' | SubjectPhrase \<Rightarrow> ''phrase'')"

definition fallbackPattern :: "'re Regexes \<Rightarrow> GateRuleFallback \<Rightarrow> GuardPattern" where
  "fallbackPattern rx f =
     (if assertPortableEre rx (if gf_subject f = SubjectPhrase then '' x '' else gf_source f)
      then (guard (gf_id f) (gf_source f) (fallback_subject (gf_subject f)) ''block'' (boundedText (gf_reason f) 300))
             \<lparr>gp_ignoreCase := gf_ignoreCase f\<rparr>
      else guard (gf_id f) '' [^ ]+ '' ''tool'' ''block'' (boundedText (gf_reason f) 300))"

definition is_fallback_name :: "string \<Rightarrow> bool" where
  "is_fallback_name f \<longleftrightarrow>
     (case split_on (CHR ''@'') f of
        [name, short] \<Rightarrow>
          hex_run 12 short
          \<and> (case split_on (CHR '':'') name of
               [kind, n] \<Rightarrow>
                 suffix ''-fallback'' kind \<and> 9 < length kind
                 \<and> list_all (\<lambda>c. is_az c \<or> c = CHR ''_'') (take (length kind - 9) kind)
                 \<and> n \<noteq> '''' \<and> length n \<le> 6 \<and> hd n \<noteq> CHR ''0'' \<and> list_all is_digit n
             | _ \<Rightarrow> False)
      | _ \<Rightarrow> False)"

text \<open>A served record, with the fields \<open>parseServedGateRecords\<close> checks.\<close>

definition served_kind :: "json \<Rightarrow> string" where "served_kind r = str_of (json_field r ''kind'')"

definition unreadableRecordFallback :: "'re WriterEnv \<Rightarrow> json \<Rightarrow> GuardPattern option" where
  "unreadableRecordFallback env r =
     (if json_field r ''rollout'' \<noteq> Some (JStr ''enforce'') then None
      else
        let sopId = str_of (json_field r ''sopId'');
            i = (case json_field r ''fallbackId'' of
                   Some (JStr f) \<Rightarrow> if is_fallback_name f then f else served_kind r @ ''-fallback:1@'' @ take 12 (we_sha256Hex env sopId)
                 | _ \<Rightarrow> served_kind r @ ''-fallback:1@'' @ take 12 (we_sha256Hex env sopId));
            title = boundedText (case field (json_field r ''payload'') ''sopTitle'' of Some (JStr t) \<Rightarrow> t | _ \<Rightarrow> sopId) 80
        in Some (guard i '' [^ ]+ '' ''tool'' ''block''
             (boundedText (''A '' @ served_kind r @ '' rule of '' @ title
                @ '' could not be read, so every call is refused until the SOP is fixed'') 300)))"

text \<open>What stands before the last \<open>c\<close> of a text.\<close>

definition before_last :: "char \<Rightarrow> string \<Rightarrow> string" where
  "before_last c s = rev (drop 1 (dropWhile (\<lambda>d. d \<noteq> c) (rev s)))"

definition parse_served_record :: "json \<Rightarrow> json option" where
  "parse_served_record r =
     (case (json_field r ''payload'', json_field r ''fallbackId'') of
        (Some (JObj payload), Some f) \<Rightarrow>
          if kind_of_name (str_of (json_field r ''kind'')) \<noteq> None
             \<and> json_field r ''rollout'' \<in> {Some (JStr ''shadow''), Some (JStr ''enforce'')}
             \<and> (f = JNull \<or> is_string (Some f))
          then
            let ref = (case map_of payload ''ref'' of Some (JStr s) \<Rightarrow> s | _ \<Rightarrow> '''');
                sopId = (case json_field r ''sopId'' of Some (JStr s) \<Rightarrow> s | _ \<Rightarrow> before_last (CHR ''#'') ref)
            in Some (JObj [(''sopId'', JStr sopId), (''kind'', JStr (str_of (json_field r ''kind''))),
                 (''rollout'', JStr (str_of (json_field r ''rollout''))), (''fallbackId'', f), (''payload'', JObj payload)])
          else None
      | _ \<Rightarrow> None)"

definition parseServedGateRecords :: "json option \<Rightarrow> json list" where
  "parseServedGateRecords v = List.map_filter parse_served_record (arr_of v)"

text \<open>\<open>{ ...served, rollout: 'shadow', fallbackId: null }\<close> under SILENT_LOG.\<close>

definition stamp_served :: "bool \<Rightarrow> json \<Rightarrow> json" where
  "stamp_served silentLog r =
     (case r of
        JObj kvs \<Rightarrow> if silentLog then JObj (AList.update ''fallbackId'' JNull (AList.update ''rollout'' (JStr ''shadow'') kvs)) else r
      | _ \<Rightarrow> r)"

fun add_fallbacks :: "string list \<Rightarrow> GuardPattern list \<Rightarrow> GuardPattern list" where
  "add_fallbacks seen [] = []"
| "add_fallbacks seen (f # fs) =
     (if gp_id f \<in> set seen then add_fallbacks seen fs else f # add_fallbacks (gp_id f # seen) fs)"

definition served_records :: "'re WriterEnv \<Rightarrow> ResolvedPolicy \<Rightarrow> json list" where
  "served_records env policy = map (stamp_served (is_silent_log policy)) (parseServedGateRecords (Some (JArr (rp_gateRecords policy))))"

definition read_served :: "'re WriterEnv \<Rightarrow> json \<Rightarrow> GateRuleRecord option" where
  "read_served env r = fromServedGateRecord (we_numStr env) (we_jsonParse env) r"

definition local_records :: "'re WriterEnv \<Rightarrow> ResolvedPolicy \<Rightarrow> LocalSop list \<Rightarrow> GateRuleRecord list" where
  "local_records env policy localSops =
     concat (map (\<lambda>s. fst (compileSopGateRecords ((lp_entry s)\<lparr>se_shadow := is_silent_log policy\<rparr>) (lp_front s) (we_sha256Hex env))) localSops)"

definition compileGateRecords :: "'re WriterEnv \<Rightarrow> ResolvedPolicy \<Rightarrow> LocalSop list \<Rightarrow> GateRuleRecord list \<times> GuardPattern list" where
  "compileGateRecords env policy localSops =
     (let served = served_records env policy;
          unread = List.map_filter (\<lambda>r. if read_served env r = None then unreadableRecordFallback env r else None) served;
          records = List.map_filter (read_served env) served @ local_records env policy localSops
      in (records,
          add_fallbacks []
            (unread @ map (fallbackPattern (we_regexes env)) (List.map_filter gateRuleFallback records))))"

definition is_hold_id :: "string \<Rightarrow> bool" where
  "is_hold_id i \<longleftrightarrow>
     list_ex (\<lambda>p. prefix p i \<and> drop (length p) i \<noteq> '''' \<and> list_all (\<lambda>c. is_az c \<or> c = CHR ''_'') (drop (length p) i))
       [''sop.lane.irreversible.action:'', ''sop.lane.reversible_wide.action:'', ''revert.action:'']"

definition hold_rule_ok :: "ServedHoldRule \<Rightarrow> bool" where
  "hold_rule_ok r \<longleftrightarrow>
     is_hold_id (hr_id r) \<and> hr_source r \<noteq> '''' \<and> list_all (\<lambda>c. \<not> is_line_space c) (hr_source r)
     \<and> hr_subject r \<in> {''phrase'', ''action''} \<and> hr_severity r \<in> {''hold'', ''shadow''}"

definition parse_hold_rule :: "json \<Rightarrow> ServedHoldRule option" where
  "parse_hold_rule v =
     (case (json_field v ''id'', json_field v ''source'', json_field v ''subject'', json_field v ''severity'', json_field v ''reason'') of
        (Some (JStr i), Some (JStr source), Some (JStr subject), Some (JStr severity), Some (JStr reason)) \<Rightarrow>
          let r = \<lparr>hr_id = i, hr_source = source, hr_subject = subject, hr_ignoreCase = truthy (json_field v ''ignoreCase''),
                   hr_severity = severity, hr_reason = reason,
                   hr_rationale = (case json_field v ''rationale'' of Some (JStr s) \<Rightarrow> Some s | _ \<Rightarrow> None)\<rparr>
          in if hold_rule_ok r then Some r else None
      | _ \<Rightarrow> None)"

definition parseServedHoldRules :: "json option \<Rightarrow> ServedHoldRule list" where
  "parseServedHoldRules v = List.map_filter parse_hold_rule (arr_of v)"

definition lane_class_name :: "string \<Rightarrow> string" where
  "lane_class_name token = (case tokenLane token of None \<Rightarrow> ''null'' | Some c \<Rightarrow> lane_name c)"

definition lane_hold_reason :: "LocalHoldMode \<Rightarrow> string \<Rightarrow> string" where
  "lane_hold_reason mode token =
     (if mode = ModeBlock
      then ''Refused: '' @ token @ '' is in the closed '' @ lane_class_name token
        @ '' lane, and holding it for approval needs a control plane '' @ em_dash @ '' run it yourself, or open the lane.''
      else ''Held for human review: '' @ token @ '' is in the closed '' @ lane_class_name token @ '' lane'')"

definition lane_hold_rule :: "LocalHoldMode \<Rightarrow> string \<Rightarrow> HoldPatternSpec \<Rightarrow> ServedHoldRule" where
  "lane_hold_rule mode token p =
     \<lparr>hr_id = laneHoldRuleId token, hr_source = hp_source p,
      hr_subject = (case hp_subject p of Phrase \<Rightarrow> ''phrase'' | Action \<Rightarrow> ''action''), hr_ignoreCase = hp_ignoreCase p,
      hr_severity = ''hold'', hr_reason = lane_hold_reason mode token,
      hr_rationale = Some ''A SOP closed this reversibility lane: a person signs off each call in it.''\<rparr>"

definition localLaneHoldRules :: "LocalSop list \<Rightarrow> LocalHoldMode \<Rightarrow> ServedHoldRule list" where
  "localLaneHoldRules localSops mode =
     (let sops = map lp_lanes (filter (\<lambda>s. fm_roles (lp_front s) = []) localSops) in
      concat (map (\<lambda>token. List.map_filter (map_option (lane_hold_rule mode token)) (laneHoldPatterns token))
                (laneHoldTokens sops None)))"

definition hold_pattern :: "bool \<Rightarrow> ServedHoldRule \<times> bool \<Rightarrow> GuardPattern" where
  "hold_pattern shadow = (\<lambda>(r, offline).
     (guard (hr_id r) (hr_source r) (hr_subject r)
        (if shadow \<or> hr_severity r = ''shadow'' then ''shadow'' else if offline then ''block'' else ''hold'')
        (boundedText (hr_reason r) 300))\<lparr>gp_ignoreCase := hr_ignoreCase r\<rparr>)"

text \<open>The daemon's own \<open>laneHoldPatterns\<close>, over the policy.\<close>

definition laneHoldPatterns_policy :: "ResolvedPolicy \<Rightarrow> LocalSop list \<Rightarrow> LocalHoldMode \<Rightarrow> GuardPattern list" where
  "laneHoldPatterns_policy policy localSops mode =
     (let served = filter hold_rule_ok (rp_holdRules policy);
          ids = map hr_id served;
          locals = filter (\<lambda>r. hr_id r \<notin> set ids) (localLaneHoldRules localSops mode)
      in map (hold_pattern (is_silent_log policy))
           (map (\<lambda>r. (r, False)) served @ map (\<lambda>r. (r, mode = ModeBlock)) locals))"

definition plain_identifier :: "string \<Rightarrow> bool" where
  "plain_identifier t \<longleftrightarrow>
     t \<noteq> '''' \<and> list_all (\<lambda>c. is_AZ c \<or> is_az c \<or> is_digit c \<or> c \<in> set ''_:.-'') t"

definition offlineHoldReason :: "string \<Rightarrow> string" where
  "offlineHoldReason token =
     ''Refused: '' @ token @ '' is declared in review_before:. Holding for approval needs a control plane, ''
     @ ''and none is connected '' @ em_dash @ '' run it yourself, or remove the token.''"

definition localHoldPattern :: "string \<Rightarrow> bool \<Rightarrow> LocalHoldMode \<Rightarrow> GuardPattern option" where
  "localHoldPattern token shadow mode =
     (if \<not> plain_identifier token then None
      else Some ((guard (''sop.local.review_before.'' @ token) (token_source (ruleEscape token))
         (if prefix ''action:'' token then ''action'' else ''tool'')
         (if shadow then ''shadow'' else if mode = ModeBlock then ''block'' else ''hold'')
         (if mode = ModeBlock then offlineHoldReason token
          else ''Held for human review: '' @ token @ '' '' @ em_dash @ '' declared in review_before:''))
        \<lparr>gp_ignoreCase := True\<rparr>))"

section \<open>SSO groups\<close>

definition harness_form_first :: "string list \<Rightarrow> string list" where
  "harness_form_first ts = filter (prefix ''mcp__'') ts @ filter (\<lambda>t. \<not> prefix ''mcp__'' t) ts"

text \<open>One turn of the loop: the rule ids compiled so far, and the patterns.\<close>

definition sso_turn ::
    "'re Regexes \<Rightarrow> SsoGroupPolicy \<Rightarrow> string list option \<Rightarrow> string \<Rightarrow> string list \<times> GuardPattern list \<Rightarrow> string list \<times> GuardPattern list" where
  "sso_turn rx groupPolicy groups tool = (\<lambda>(compiled, out).
     (let d = evaluateSsoGroupClearance (Some groupPolicy) [tool] groups in
      case sd_ruleId d of
        None \<Rightarrow> (compiled, out)
      | Some ruleId \<Rightarrow>
          if sd_clearance d = GRANTED \<or> ruleId = '''' \<or> ruleId \<in> set compiled then (compiled, out)
          else
            let compiled' = compiled @ [ruleId];
                name = trim (squeeze isSpace tool);
                literal = ruleEscape name;
                source = (if prefix ''mcp__'' name then token_source literal
                          else token_source (literal @ ''|mcp__.+__'' @ literal))
            in if name = '''' \<or> \<not> assertPortableEre rx source then (compiled', out)
               else (compiled', out @ [guard ruleId source ''tool'' ''block'' (sd_reason d)])))"

definition ssoGroupPatterns :: "'re Regexes \<Rightarrow> ResolvedPolicy \<Rightarrow> GuardPattern list" where
  "ssoGroupPatterns rx policy =
     (case rp_ssoGroupPolicy policy of
        None \<Rightarrow> []
      | Some p \<Rightarrow>
          snd (fold (sso_turn rx p (map_option sm_ssoGroups (rp_principal policy)))
                 (uniq (harness_form_first (sg_requireOboFor p) @ harness_form_first (sg_highRiskTools p))) ([], [])))"

section \<open>The rules of a snapshot\<close>

definition DESTRUCTIVE_TIER_SEVERITY :: string where "DESTRUCTIVE_TIER_SEVERITY = ''warn''"
definition SKILL_SURFACE_TIER_SEVERITY :: string where "SKILL_SURFACE_TIER_SEVERITY = ''block''"
definition SKILL_CONTENT_TIER_SEVERITY :: string where "SKILL_CONTENT_TIER_SEVERITY = ''block''"

definition destructive_rule :: "bool \<Rightarrow> bool \<Rightarrow> GuardPattern \<Rightarrow> GuardPattern" where
  "destructive_rule shadow sqlDropStrictBlock p =
     (if gp_id p = ''destructive.sql_drop'' \<and> \<not> shadow \<and> sqlDropStrictBlock then p\<lparr>gp_severity := ''block''\<rparr>
      else p\<lparr>gp_severity :=
               (if shadow then ''shadow'' else if gp_severity p = ''block'' then DESTRUCTIVE_TIER_SEVERITY else ''warn'')\<rparr>)"

definition snapshotRules ::
    "'re WriterEnv \<Rightarrow> ResolvedPolicy \<Rightarrow> string list \<Rightarrow> LocalHoldMode \<Rightarrow> GuardPattern list \<Rightarrow> GuardPattern list \<Rightarrow> GuardPattern list
      \<Rightarrow> GuardPattern list" where
  "snapshotRules env policy localHoldTokens mode decideFallbacks ruleFallbacks laneHolds =
     (let shadow = is_silent_log policy;
          sopRules = List.map_filter (\<lambda>r. toGuardPattern (we_regexes env) r shadow) (rp_sopRules policy);
          localHolds = List.map_filter (\<lambda>t. localHoldPattern t shadow mode)
                         (uniq (filter (\<lambda>t. t \<noteq> '''') (map trim localHoldTokens)));
          destructive = map (destructive_rule shadow (rp_sqlDropStrictBlock policy)) DESTRUCTIVE_COMMAND_PATTERNS;
          skillSurface = map (\<lambda>p. p\<lparr>gp_id := gp_id p @ ''.tier'',
                                     gp_severity := (if shadow then ''shadow'' else SKILL_SURFACE_TIER_SEVERITY)\<rparr>) SKILL_SURFACE_PATTERNS;
          skillContent = map (\<lambda>p. p\<lparr>gp_severity := (if shadow then ''shadow'' else SKILL_CONTENT_TIER_SEVERITY)\<rparr>) (we_skillContent env)
      in ssoGroupPatterns (we_regexes env) policy @ decideFallbacks @ ruleFallbacks @ sopRules @ localHolds @ laneHolds
         @ destructive @ skillSurface @ skillContent)"

text \<open>What a write compiles: the decide records, the rule records and the rules.\<close>

record CompiledSnapshot =
  cs_decide :: "json list"
  cs_decideFallbacks :: "GuardPattern list"
  cs_records :: "GateRuleRecord list"
  cs_rules :: "GuardPattern list"

definition compile_snapshot :: "'re WriterEnv \<Rightarrow> ResolvedPolicy \<Rightarrow> string list \<Rightarrow> LocalHoldMode \<Rightarrow> LocalSop list \<Rightarrow> CompiledSnapshot option" where
  "compile_snapshot env policy localHoldTokens mode localSops =
     map_option (\<lambda>(decide, fallbacks).
       (let gate = compileGateRecords env policy localSops in
        \<lparr>cs_decide = decide, cs_decideFallbacks = fallbacks, cs_records = fst gate,
         cs_rules = snapshotRules env policy localHoldTokens mode fallbacks (snd gate)
           (laneHoldPatterns_policy policy localSops mode)\<rparr>))
       (compileDecideRules env policy)"

definition buildSnapshotRules :: "'re WriterEnv \<Rightarrow> ResolvedPolicy \<Rightarrow> string list \<Rightarrow> LocalHoldMode \<Rightarrow> LocalSop list \<Rightarrow> GuardPattern list option" where
  "buildSnapshotRules env policy localHoldTokens mode localSops =
     map_option cs_rules (compile_snapshot env policy localHoldTokens mode localSops)"

section \<open>Writing the files\<close>

definition sanitizeMcpServerNames :: "string list \<Rightarrow> string list" where
  "sanitizeMcpServerNames names =
     filter (\<lambda>n. n \<noteq> '''' \<and> list_all (\<lambda>c. \<not> isSpace c \<and> c \<noteq> CHR '','') n) (map trim names)"

definition RULE_SNAPSHOT_FORMAT :: nat where "RULE_SNAPSHOT_FORMAT = 3"

definition written_format :: "CompiledSnapshot \<Rightarrow> nat" where
  "written_format c =
     (if cs_records c \<noteq> [] then RULE_SNAPSHOT_FORMAT
      else if cs_decide c \<noteq> [] \<or> cs_decideFallbacks c \<noteq> [] then 2 else 1)"

definition sso_record :: "'re WriterEnv \<Rightarrow> ResolvedPolicy \<Rightarrow> SsoGroupRecord option" where
  "sso_record env policy =
     map_option (\<lambda>p. \<lparr>sr_policy = p, sr_member = rp_principal policy, sr_issuedAt = we_generatedAt env\<rparr>) (rp_ssoGroupPolicy policy)"

definition written_registry :: "ResolvedPolicy \<Rightarrow> McpRegistryRecord option" where
  "written_registry policy =
     (case rp_mcpRegistry policy of
        None \<Rightarrow> None | Some r \<Rightarrow> if isUnrestrictedMcpRegistry r then None else Some r)"

definition is_opaque :: "ResolvedPolicy \<Rightarrow> bool" where
  "is_opaque policy \<longleftrightarrow> isOpaqueInterventionMode (Some (JStr (rp_interventionMode policy)))"

definition record_lines :: "'re WriterEnv \<Rightarrow> ResolvedPolicy \<Rightarrow> CompiledSnapshot \<Rightarrow> string list" where
  "record_lines env policy c =
     (let servers = sanitizeMcpServerNames (rp_mcpAllowedServers policy) in
      (if 1 < written_format c then [SNAPSHOT_FORMAT_RECORD_TAG @ [tab] @ nat_str (written_format c)] else [])
      @ (if is_opaque policy then [encodeInterventionModeRecord] else [])
      @ (case sso_record env policy of None \<Rightarrow> [] | Some r \<Rightarrow> [encodeSsoGroupRecord (we_numStr env) r])
      @ (case written_registry policy of None \<Rightarrow> [] | Some r \<Rightarrow> [encodeMcpRegistryRecord (we_numStr env) r])
      @ (if servers \<noteq> [] then
           [encodeMcpAllowlistRecord
              \<lparr>al_severity = (if is_silent_log policy then SevShadow else SevBlock), al_servers = servers\<rparr>] else [])
      @ map (encodeDecideRecord (we_numStr env)) (cs_decide c)
      @ map (encodeGateRuleRecord (we_numStr env)) (cs_records c))"

definition snapshot_lines :: "'re WriterEnv \<Rightarrow> ResolvedPolicy \<Rightarrow> CompiledSnapshot \<Rightarrow> string list" where
  "snapshot_lines env policy c = record_lines env policy c @ map toRulesLine (cs_rules c)"

definition newline :: string where "newline = [CHR 0x0A]"

definition lines_digest :: "(string \<Rightarrow> string) \<Rightarrow> string list \<Rightarrow> string" where
  "lines_digest sha256Hex lines = take 32 (sha256Hex (join_with newline lines))"

definition RULES_COLUMNS :: "string list" where
  "RULES_COLUMNS = [''id'', ''severity'', ''flags'', ''subject'', ''reason'', ''source'', ''argPatternB64'']"

text \<open>The header of the file: comments, of which the readers take three.\<close>

definition header_lines :: "string \<Rightarrow> string \<Rightarrow> string \<Rightarrow> string option \<Rightarrow> string list" where
  "header_lines digest workspaceId generatedAt source =
     [''# Intutic policy snapshot (projection of policy-snapshot.json) '' @ em_dash @ '' DO NOT EDIT.'',
      ''# Columns: '' @ join_with [tab] RULES_COLUMNS,
      ''#digest '' @ digest, ''#workspace '' @ workspaceId, ''#generated '' @ generatedAt]
     @ (case source of None \<Rightarrow> [] | Some s \<Rightarrow> [''#source '' @ s])"

definition rules_text :: "(string \<Rightarrow> string) \<Rightarrow> string list \<Rightarrow> string \<Rightarrow> string \<Rightarrow> string option \<Rightarrow> string" where
  "rules_text sha256Hex lines workspaceId generatedAt source =
     concat (map (\<lambda>l. l @ newline) (header_lines (lines_digest sha256Hex lines) workspaceId generatedAt source))
     @ join_with newline lines @ newline"

section \<open>Verifying and restoring\<close>

definition snapshotRulesVerify :: "(string \<Rightarrow> string) \<Rightarrow> string \<Rightarrow> bool" where
  "snapshotRulesVerify sha256Hex contents =
     (let lines = split_on (CHR 0x0A) contents in
      case find (prefix ''#digest '') lines of
        None \<Rightarrow> False
      | Some header \<Rightarrow> snapshot_digest sha256Hex lines = trim (drop 8 header))"

record SnapshotFiles =
  sf_liveRules :: "string option"
  sf_liveJson :: "string option"
  sf_keptRules :: "string option"
  sf_keptJson :: "string option"

text \<open>The four writes, in their order; \<open>n\<close> of them happen.\<close>

definition write_files :: "string \<Rightarrow> string \<Rightarrow> nat \<Rightarrow> SnapshotFiles \<Rightarrow> SnapshotFiles" where
  "write_files json rules n fs =
     fold (\<lambda>w. w)
       (take n [sf_keptJson_update (\<lambda>_. Some json), sf_keptRules_update (\<lambda>_. Some rules),
                sf_liveJson_update (\<lambda>_. Some json), sf_liveRules_update (\<lambda>_. Some rules)]) fs"

datatype RestoreResult = Intact | Restored | Unverifiable

definition verifies :: "(string \<Rightarrow> string) \<Rightarrow> string option \<Rightarrow> bool" where
  "verifies sha256Hex file \<longleftrightarrow> (case file of None \<Rightarrow> False | Some t \<Rightarrow> snapshotRulesVerify sha256Hex t)"

text \<open>\<open>n\<close> of the two writes back succeed; fewer than two throw.\<close>

definition restoreVerifiedFiles :: "(string \<Rightarrow> string) \<Rightarrow> nat \<Rightarrow> SnapshotFiles \<Rightarrow> RestoreResult \<times> SnapshotFiles" where
  "restoreVerifiedFiles sha256Hex n fs =
     (case (sf_keptRules fs, sf_keptJson fs) of
        (Some keptRules, Some keptJson) \<Rightarrow>
          if \<not> snapshotRulesVerify sha256Hex keptRules then
            (if sf_liveRules fs \<noteq> None \<and> \<not> verifies sha256Hex (sf_liveRules fs) then Unverifiable else Intact, fs)
          else if sf_liveRules fs = Some keptRules \<and> sf_liveJson fs = Some keptJson then (Intact, fs)
          else
            let fs' = fold (\<lambda>w. w) (take n [sf_liveJson_update (\<lambda>_. Some keptJson), sf_liveRules_update (\<lambda>_. Some keptRules)]) fs
            in if n < 2 then (if verifies sha256Hex (sf_liveRules fs) then Intact else Unverifiable, fs') else (Restored, fs')
      | _ \<Rightarrow> (if sf_liveRules fs \<noteq> None \<and> \<not> verifies sha256Hex (sf_liveRules fs) then Unverifiable else Intact, fs))"

section \<open>The JSON artifact\<close>

definition GATE_VERSION :: nat where "GATE_VERSION = 24"

definition opt_field :: "string \<Rightarrow> string option \<Rightarrow> (string \<times> json) list" where
  "opt_field k v = (case v of None \<Rightarrow> [] | Some s \<Rightarrow> [(k, JStr s)])"

definition list_field :: "string \<Rightarrow> json list \<Rightarrow> (string \<times> json) list" where
  "list_field k xs = (if xs = [] then [] else [(k, JArr xs)])"

definition sop_rule_json :: "PolicySopRule \<Rightarrow> json" where
  "sop_rule_json r = JObj
     ([(''id'', JStr (so_id r)), (''toolPattern'', JStr (so_toolPattern r))] @ opt_field ''argPattern'' (so_argPattern r)
      @ [(''action'', JStr (so_action r)), (''reason'', JStr (so_reason r))] @ opt_field ''origin'' (so_origin r))"

definition decide_rule_json :: "ServedDecideRule \<Rightarrow> json" where
  "decide_rule_json r = JObj
     ([(''sopId'', JStr (vd_sopId r)), (''sopTitle'', JStr (vd_sopTitle r)), (''ruleText'', JStr (vd_ruleText r))]
      @ (case vd_ir r of None \<Rightarrow> [] | Some v \<Rightarrow> [(''ir'', v)])
      @ opt_field ''rollout'' (vd_rollout r) @ opt_field ''ruleHash'' (vd_ruleHash r) @ [(''pins'', JArr (vd_pins r))])"

definition hold_rule_json :: "ServedHoldRule \<Rightarrow> json" where
  "hold_rule_json r = JObj
     ([(''id'', JStr (hr_id r)), (''source'', JStr (hr_source r)), (''subject'', JStr (hr_subject r))]
      @ (if hr_ignoreCase r then [(''ignoreCase'', JBool True)] else [])
      @ [(''severity'', JStr (hr_severity r)), (''reason'', JStr (hr_reason r))] @ opt_field ''rationale'' (hr_rationale r))"

definition rule_json :: "GuardPattern \<Rightarrow> json" where
  "rule_json p = JObj
     ([(''id'', JStr (gp_id p)), (''source'', JStr (gp_source p)), (''subject'', JStr (subject_column p)),
       (''severity'', JStr (gp_severity p)), (''ignoreCase'', JBool (gp_ignoreCase p)), (''reason'', JStr (gp_reason p))]
      @ (case gp_argPattern p of None \<Rightarrow> [] | Some a \<Rightarrow> if a = '''' then [] else [(''argPattern'', JStr a)]))"

definition record_sop :: "GateRuleRecord \<Rightarrow> string" where
  "record_sop r = before_last (CHR ''#'') (gr_ref r)"

definition snapshot_doc :: "'re WriterEnv \<Rightarrow> ResolvedPolicy \<Rightarrow> CompiledSnapshot \<Rightarrow> string option \<Rightarrow> json" where
  "snapshot_doc env policy c source = JObj
     ([(''_comment'', JStr (''Intutic policy snapshot '' @ em_dash @ '' auto-generated. DO NOT EDIT.'')),
       (''version'', JNum (of_nat (written_format c))), (''gateVersion'', JNum (of_nat GATE_VERSION))]
      @ opt_field ''source'' source
      @ [(''workspaceId'', JStr (rp_workspaceId policy)), (''generatedAt'', JStr (we_generatedAt env)),
         (''interventionMode'', JStr (rp_interventionMode policy)),
         (''digest'', JStr (lines_digest (we_sha256Hex env) (snapshot_lines env policy c))),
         (''mcpAllowedServers'', strings_json (sanitizeMcpServerNames (rp_mcpAllowedServers policy)))]
      @ (case sso_record env policy of None \<Rightarrow> [] | Some r \<Rightarrow> [(''ssoGroups'', sso_record_json r)])
      @ (case written_registry policy of None \<Rightarrow> [] | Some r \<Rightarrow> [(''mcpRegistry'', registry_json r)])
      @ list_field ''decideRules'' (map decide_rule_json (rp_decideRules policy))
      @ list_field ''gateRecords'' (map (\<lambda>r. toServedGateRecord r (record_sop r)) (cs_records c))
      @ list_field ''holdRules'' (map hold_rule_json (rp_holdRules policy))
      @ list_field ''revertHolds'' (rp_revertHolds policy)
      @ [(''sqlDropStrictBlock'', JBool (rp_sqlDropStrictBlock policy)),
         (''sopRules'', JArr (map sop_rule_json (rp_sopRules policy))), (''rules'', JArr (map rule_json (cs_rules c)))])"

section \<open>Fetching a policy\<close>

fun str_text :: "json \<Rightarrow> string" where
  "str_text (JStr s) = s"
| "str_text _ = ''''"

definition sop_rule_of :: "json \<Rightarrow> PolicySopRule option" where
  "sop_rule_of v =
     (case (json_field v ''id'', json_field v ''toolPattern'', json_field v ''action'') of
        (Some (JStr i), Some (JStr t), Some (JStr a)) \<Rightarrow>
          (case json_field v ''argPattern'' of
             None \<Rightarrow> Some \<lparr>so_id = i, so_toolPattern = t, so_argPattern = None, so_action = a, so_reason = str_field v ''reason'',
                           so_origin = map_option str_text (json_field v ''origin'')\<rparr>
           | Some (JStr p) \<Rightarrow> Some \<lparr>so_id = i, so_toolPattern = t, so_argPattern = Some p, so_action = a,
                           so_reason = str_field v ''reason'', so_origin = map_option str_text (json_field v ''origin'')\<rparr>
           | Some _ \<Rightarrow> None)
      | _ \<Rightarrow> None)"

definition parse_principal :: "json option \<Rightarrow> SsoMember option" where
  "parse_principal v =
     (case field v ''memberId'' of
        Some (JStr m) \<Rightarrow> if m = '''' then None else Some \<lparr>sm_memberId = m, sm_ssoGroups = stringList (field v ''ssoGroups'')\<rparr>
      | _ \<Rightarrow> None)"

definition served_decide :: "json \<Rightarrow> ServedDecideRule option" where
  "served_decide v =
     (case v of
        JObj kvs \<Rightarrow>
          Some \<lparr>vd_sopId = str_field v ''sopId'', vd_sopTitle = str_field v ''sopTitle'', vd_ruleText = str_field v ''ruleText'',
                vd_ir = json_field v ''ir'',
                vd_rollout = (case json_field v ''rollout'' of
                    Some (JStr s) \<Rightarrow> if s = ''shadow'' \<or> s = ''enforce'' then Some s else None | _ \<Rightarrow> None),
                vd_ruleHash = (case json_field v ''ruleHash'' of Some (JStr h) \<Rightarrow> Some h | _ \<Rightarrow> None),
                vd_pins = filter (\<lambda>p. parseDecidePin p \<noteq> None) (arr_of (json_field v ''pins''))\<rparr>
      | _ \<Rightarrow> None)"

definition parseServedDecideRules :: "json option \<Rightarrow> ServedDecideRule list" where
  "parseServedDecideRules v = List.map_filter served_decide (arr_of v)"

definition revert_hold :: "json \<Rightarrow> json option" where
  "revert_hold v =
     (let rate = (\<lambda>k. case json_field v k of Some (JNum r) \<Rightarrow> JNum r | _ \<Rightarrow> JNull) in
      case json_field v ''subject'' of
        Some (JStr s) \<Rightarrow> Some (JObj [(''subject'', JStr s), (''revertRate'', rate ''revertRate''), (''rejectionRate'', rate ''rejectionRate'')])
      | _ \<Rightarrow> None)"

definition parseServedRevertHolds :: "json option \<Rightarrow> json list" where
  "parseServedRevertHolds v = List.map_filter revert_hold (arr_of v)"

text \<open>The body as a policy; \<open>workspaceId\<close> is the caller's, for a body that names none.\<close>

definition policy_of_body :: "string \<Rightarrow> json \<Rightarrow> ResolvedPolicy" where
  "policy_of_body workspaceId body =
     \<lparr>rp_workspaceId = (case json_field body ''workspaceId'' of Some (JStr w) \<Rightarrow> w | _ \<Rightarrow> workspaceId),
      rp_sopRules = List.map_filter sop_rule_of (arr_of (json_field body ''sopRules'')),
      rp_interventionMode = (case json_field body ''interventionMode'' of Some (JStr m) \<Rightarrow> m | _ \<Rightarrow> ''TRANSPARENT''),
      rp_mcpAllowedServers = stringList (json_field body ''allowedServers''),
      rp_sqlDropStrictBlock = (json_field body ''sqlDropStrictBlock'' = Some (JBool True)),
      rp_ssoGroupPolicy = parseSsoGroupPolicy (json_field body ''ssoGroupPolicy''),
      rp_principal = parse_principal (json_field body ''principal''),
      rp_mcpRegistry = parseMcpRegistryRecord (json_field body ''mcpRegistry''),
      rp_decideRules = parseServedDecideRules (json_field body ''decideRules''),
      rp_gateRecords = parseServedGateRecords (json_field body ''gateRecords''),
      rp_holdRules = parseServedHoldRules (json_field body ''holdRules''),
      rp_revertHolds = parseServedRevertHolds (json_field body ''revertHolds'')\<rparr>"

datatype FetchResult = Fetched ResolvedPolicy | KeyRefused | FetchFailed

definition is_object_value :: "json \<Rightarrow> bool" where
  "is_object_value v \<longleftrightarrow> (case v of JObj _ \<Rightarrow> True | JArr _ \<Rightarrow> True | _ \<Rightarrow> False)"

definition requestResolvedPolicy :: "string \<Rightarrow> HttpAnswer \<Rightarrow> FetchResult" where
  "requestResolvedPolicy workspaceId answer =
     (case answer of
        HttpFailed \<Rightarrow> FetchFailed
      | HttpStatus n \<Rightarrow> if n = 401 \<or> n = 403 then KeyRefused else FetchFailed
      | HttpBody None \<Rightarrow> FetchFailed
      | HttpBody (Some body) \<Rightarrow> if is_object_value body then Fetched (policy_of_body workspaceId body) else FetchFailed)"

definition fetchResolvedPolicy :: "string \<Rightarrow> HttpAnswer \<Rightarrow> ResolvedPolicy option" where
  "fetchResolvedPolicy workspaceId answer = (case requestResolvedPolicy workspaceId answer of Fetched p \<Rightarrow> Some p | _ \<Rightarrow> None)"

section \<open>One refresh\<close>

text \<open>What a write puts in the files, or \<^const>\<open>None\<close> when the compilation throws; \<open>pretty\<close> is
  \<open>JSON.stringify(v, null, 2)\<close>.\<close>

record Artifacts =
  at_json :: string
  at_rules :: string
  at_digest :: string

definition writeSnapshotFiles ::
    "'re WriterEnv \<Rightarrow> (json \<Rightarrow> string) \<Rightarrow> ResolvedPolicy \<Rightarrow> string list \<Rightarrow> LocalHoldMode \<Rightarrow> string option \<Rightarrow> LocalSop list \<Rightarrow> Artifacts option" where
  "writeSnapshotFiles env pretty policy localHoldTokens mode source localSops =
     map_option
       (\<lambda>c. let lines = snapshot_lines env policy c in
          \<lparr>at_json = pretty (snapshot_doc env policy c source),
           at_rules = rules_text (we_sha256Hex env) lines (rp_workspaceId policy) (we_generatedAt env) source,
           at_digest = lines_digest (we_sha256Hex env) lines\<rparr>)
       (compile_snapshot env policy localHoldTokens mode localSops)"

definition writePolicySnapshot ::
    "'re WriterEnv \<Rightarrow> (json \<Rightarrow> string) \<Rightarrow> ResolvedPolicy \<Rightarrow> string list \<Rightarrow> LocalHoldMode \<Rightarrow> LocalSop list \<Rightarrow> SnapshotFiles \<Rightarrow> SnapshotFiles" where
  "writePolicySnapshot env pretty policy localHoldTokens mode localSops fs =
     (case writeSnapshotFiles env pretty policy localHoldTokens mode None localSops of
        None \<Rightarrow> fs | Some a \<Rightarrow> write_files (at_json a) (at_rules a) 4 fs)"

definition localResolvedPolicy :: ResolvedPolicy where
  "localResolvedPolicy =
     \<lparr>rp_workspaceId = '''', rp_sopRules = [], rp_interventionMode = ''TRANSPARENT'', rp_mcpAllowedServers = [],
      rp_sqlDropStrictBlock = False, rp_ssoGroupPolicy = None, rp_principal = None, rp_mcpRegistry = None,
      rp_decideRules = [], rp_gateRecords = [], rp_holdRules = [], rp_revertHolds = []\<rparr>"

definition writeLocalPolicySnapshot ::
    "'re WriterEnv \<Rightarrow> (json \<Rightarrow> string) \<Rightarrow> string list \<Rightarrow> ServedDecideRule list option \<Rightarrow> LocalSop list \<Rightarrow> SnapshotFiles \<Rightarrow> SnapshotFiles" where
  "writeLocalPolicySnapshot env pretty localHoldTokens decideRules localSops fs =
     (let policy = (case decideRules of None \<Rightarrow> localResolvedPolicy | Some rs \<Rightarrow> localResolvedPolicy\<lparr>rp_decideRules := rs\<rparr>) in
      case writeSnapshotFiles env pretty policy localHoldTokens ModeBlock (Some ''local'') localSops of
        None \<Rightarrow> fs | Some a \<Rightarrow> write_files (at_json a) (at_rules a) 4 fs)"

text \<open>The policy a snapshot's JSON is rebuilt from when the key is refused: the member is forgotten.  The
  writer's own JSON holds no malformed SOP rule, so reading it as a response drops none.\<close>

definition forgotten_policy :: "json \<Rightarrow> ResolvedPolicy option" where
  "forgotten_policy doc =
     (case (parseSsoGroupPolicy (field (json_field doc ''ssoGroups'') ''policy''), json_field doc ''workspaceId'') of
        (Some p, Some (JStr w)) \<Rightarrow>
          if \<not> truthy (field (json_field doc ''ssoGroups'') ''member'') then None
          else Some ((policy_of_body w doc)\<lparr>rp_mcpAllowedServers := stringList (json_field doc ''mcpAllowedServers''),
                                           rp_ssoGroupPolicy := Some p, rp_principal := None\<rparr>)
      | _ \<Rightarrow> None)"

definition forgetSnapshotMember ::
    "'re WriterEnv \<Rightarrow> (json \<Rightarrow> string) \<Rightarrow> string list \<Rightarrow> SnapshotFiles \<Rightarrow> SnapshotFiles" where
  "forgetSnapshotMember env pretty localHoldTokens fs =
     (case or_else (sf_keptJson fs) (sf_liveJson fs) of
        None \<Rightarrow> fs
      | Some doc \<Rightarrow>
          (case Option.bind (we_jsonParse env doc) forgotten_policy of
             None \<Rightarrow> fs
           | Some policy \<Rightarrow> writePolicySnapshot env pretty policy localHoldTokens ModeHold [] fs))"

definition refreshPolicySnapshot ::
    "'re WriterEnv \<Rightarrow> (json \<Rightarrow> string) \<Rightarrow> string \<Rightarrow> string list \<Rightarrow> LocalSop list \<Rightarrow> HttpAnswer \<Rightarrow> SnapshotFiles \<Rightarrow> SnapshotFiles" where
  "refreshPolicySnapshot env pretty workspaceId localHoldTokens localSops answer fs =
     (case requestResolvedPolicy workspaceId answer of
        KeyRefused \<Rightarrow> forgetSnapshotMember env pretty localHoldTokens fs
      | FetchFailed \<Rightarrow> fs
      | Fetched policy \<Rightarrow> writePolicySnapshot env pretty policy localHoldTokens ModeHold localSops fs)"

end
