(* ===== verification/SnapshotProps.thy ===== *)
theory SnapshotProps
  imports SnapshotWriter
begin

text \<open>
  What the snapshot writer promises, against the reader of \<open>GateSnapshot\<close>: the written file is read back and
  verifies, every compiled rule is in force in the gate that loads it, an interrupted write leaves no half
  rules, SILENT_LOG observes, and every record that needs one has a blocking fallback line.
\<close>

section \<open>The written file is read back\<close>

text \<open>Lines a reader takes one by one: not empty, no comment, no line break.  A rule is tidy when its columns
  cannot be taken for another column, another line, a comment or a record.\<close>

definition data_line :: "string \<Rightarrow> bool" where
  "data_line l \<longleftrightarrow> l \<noteq> '''' \<and> hd l \<noteq> CHR ''#'' \<and> CHR 0x0A \<notin> set l"

definition plain_column :: "string \<Rightarrow> bool" where
  "plain_column s \<longleftrightarrow> tab \<notin> set s \<and> CHR 0x0A \<notin> set s"

definition tidy_rule :: "GuardPattern \<Rightarrow> bool" where
  "tidy_rule p \<longleftrightarrow>
     list_all plain_column [gp_id p, gp_severity p, subject_column p, gp_source p]
     \<and> gp_id p \<noteq> '''' \<and> hd (gp_id p) \<noteq> CHR ''#'' \<and> hd (gp_id p) \<noteq> CHR ''@'' \<and> gp_source p \<noteq> ''''"

lemma digit_no_break: "is_digit c \<Longrightarrow> c \<noteq> CHR 0x0A \<and> c \<noteq> tab"
  by (auto simp: is_digit_def tab_def)

lemma base64_no_break: "CHR 0x0A \<notin> set (decideToBase64 t)" "tab \<notin> set (decideToBase64 t)"
proof -
  have "\<forall>b \<in> set (utf8_encode t). b < 256" using utf8_char_bytes by (auto simp: utf8_encode_def)
  from b64_encode_alphabet [OF this] have "set (decideToBase64 t) \<subseteq> set B64_ALPHABET \<union> {CHR ''=''}"
    by (simp add: decideToBase64_def)
  moreover have "CHR 0x0A \<notin> set B64_ALPHABET \<union> {CHR ''=''}" by (simp add: B64_ALPHABET_def)
  ultimately show "CHR 0x0A \<notin> set (decideToBase64 t)" by blast
qed (rule tab_not_in_base64)

lemma no_breaks_plain [simp]: "plain_column (no_breaks s)"
  by (auto simp: plain_column_def no_breaks_def is_line_space_def tab_def)

lemma ruleFlags_plain [simp]: "plain_column (ruleFlags p)" "ruleFlags p \<noteq> ''''"
  by (auto simp: plain_column_def ruleFlags_def Let_def tab_def)

lemma tidy_columns: "tidy_rule p \<Longrightarrow> list_all plain_column (rule_columns p)"
  by (simp add: tidy_rule_def rule_columns_def)

lemma toRulesLine_split:
  assumes "tidy_rule p"
  shows "split_on tab (toRulesLine p) = rule_columns p \<or> (\<exists>b. split_on tab (toRulesLine p) = rule_columns p @ [b])"
proof -
  have cols: "\<forall>x \<in> set (rule_columns p). tab \<notin> set x" "rule_columns p \<noteq> []"
    using tidy_columns [OF assms] by (auto simp: plain_column_def list_all_iff rule_columns_def)
  then have "split_on tab (join_with [tab] (rule_columns p)) = rule_columns p" by (simp add: split_on_join)
  then show ?thesis
    by (auto simp: toRulesLine_def split_on_append split_on_no_sep base64_no_break split: option.split)
qed

lemma toRulesLine_shape:
  assumes "tidy_rule p"
  shows "data_line (toRulesLine p)" "hd (toRulesLine p) \<noteq> CHR ''@''"
proof -
  from assms obtain c cs where i: "gp_id p = c # cs" "c \<noteq> CHR ''#''" "c \<noteq> CHR ''@''"
    by (cases "gp_id p") (auto simp: tidy_rule_def)
  have starts: "\<exists>r. toRulesLine p = c # r" by (simp add: toRulesLine_def rule_columns_def i(1))
  have "CHR 0x0A \<notin> set (join_with [tab] (rule_columns p))"
    using set_join_with [of "[tab]" "rule_columns p"] tidy_columns [OF assms]
    by (auto simp: list_all_iff plain_column_def tab_def)
  then have "CHR 0x0A \<notin> set (toRulesLine p)"
    by (auto simp: toRulesLine_def base64_no_break tab_def split: option.split)
  with starts i show "data_line (toRulesLine p)" "hd (toRulesLine p) \<noteq> CHR ''@''" by (auto simp: data_line_def)
qed

lemmas record_tags =
  SSO_GROUP_RECORD_TAG_def MCP_REGISTRY_RECORD_TAG_def MCP_ALLOWLIST_RECORD_TAG_def INTERVENTION_MODE_RECORD_TAG_def
  SNAPSHOT_FORMAT_RECORD_TAG_def DECIDE_RECORD_TAG_def RULE_RECORD_TAG_def

lemma read_rule_columns: "length cols = 6 \<Longrightarrow> read_rule rx (cols @ cs) = read_rule rx cols"
proof -
  assume "length cols = 6"
  then have n: "(cols @ cs) ! 0 = cols ! 0" "(cols @ cs) ! 1 = cols ! 1" "(cols @ cs) ! 2 = cols ! 2"
    "(cols @ cs) ! 3 = cols ! 3" "(cols @ cs) ! 4 = cols ! 4" "(cols @ cs) ! 5 = cols ! 5"
    by (simp_all add: nth_append)
  show ?thesis unfolding read_rule_def n ..
qed

text \<open>A rule line is read as its rule, or counted as dropped when a pattern of it does not compile.\<close>

lemma read_rule_line:
  assumes "tidy_rule p"
  shows "read_line env (toRulesLine p) snap =
     (case read_rule (en_regexes env) (rule_columns p) of
        Some r \<Rightarrow> snap\<lparr>sn_rules := sn_rules snap @ [r]\<rparr>
      | None \<Rightarrow> snap\<lparr>sn_droppedRules := sn_droppedRules snap + 1\<rparr>)"
proof -
  let ?f = "split_on tab (toRulesLine p)"
  have source: "gp_source p \<noteq> ''''" using assms by (simp add: tidy_rule_def)
  from toRulesLine_shape [OF assms] obtain c r where l: "toRulesLine p = c # r" "c \<noteq> CHR ''#''" "c \<noteq> CHR ''@''"
    by (cases "toRulesLine p") (auto simp: data_line_def)
  have six: "length (rule_columns p) = 6" "rule_columns p ! 5 = gp_source p" by (simp_all add: rule_columns_def)
  from toRulesLine_split [OF assms] have f: "6 \<le> length ?f" "?f ! 5 = gp_source p"
    "read_rule (en_regexes env) ?f = read_rule (en_regexes env) (rule_columns p)"
    by (auto simp: six read_rule_columns nth_append)
  have "read_line env (toRulesLine p) snap =
      (if length ?f < 6 \<or> ?f ! 5 = '''' then snap
       else (case read_rule (en_regexes env) ?f of
               Some r \<Rightarrow> snap\<lparr>sn_rules := sn_rules snap @ [r]\<rparr>
             | None \<Rightarrow> snap\<lparr>sn_droppedRules := sn_droppedRules snap + 1\<rparr>))"
    unfolding read_line_def Let_def l(1) using l(2,3) by (simp add: tagged_def record_tags)
  with f source show ?thesis by simp
qed

section \<open>Reading the written file\<close>

text \<open>What the theorems below ask of a compiled snapshot and of the text around its lines, and of
  \<open>createHash('sha256')\<dots>digest('hex')\<close>.\<close>

definition readable :: "'re WriterEnv \<Rightarrow> ResolvedPolicy \<Rightarrow> CompiledSnapshot \<Rightarrow> bool" where
  "readable env policy c \<longleftrightarrow> list_all data_line (record_lines env policy c) \<and> list_all tidy_rule (cs_rules c)"

definition single_line :: "string \<Rightarrow> bool" where
  "single_line s \<longleftrightarrow> CHR 0x0A \<notin> set s"

definition plain_header :: "'re WriterEnv \<Rightarrow> ResolvedPolicy \<Rightarrow> string option \<Rightarrow> bool" where
  "plain_header env policy source \<longleftrightarrow>
     single_line (rp_workspaceId policy) \<and> single_line (we_generatedAt env) \<and> (case source of None \<Rightarrow> True | Some s \<Rightarrow> single_line s)"

definition hex_digests :: "(string \<Rightarrow> string) \<Rightarrow> bool" where
  "hex_digests sha256Hex \<longleftrightarrow> (\<forall>t. hex_run 64 (sha256Hex t))"

lemma trim_clean:
  assumes "list_all (\<lambda>c. \<not> is_trim_space c) s"
  shows "trim s = s"
proof -
  have "dropWhile is_trim_space s = s" if "list_all (\<lambda>c. \<not> is_trim_space c) s" for s
    using that by (cases s) auto
  from this [OF assms] this [of "rev s"] assms show ?thesis by (simp add: trim_def)
qed

lemma hex_char_clean: "is_digit c \<or> CHR ''a'' \<le> c \<and> c \<le> CHR ''f'' \<Longrightarrow> \<not> is_trim_space c \<and> c \<noteq> CHR 0x0A"
  by (auto simp: is_trim_space_def is_digit_def less_eq_char_def)

lemma digest_clean:
  assumes "hex_digests sha256Hex"
  shows "trim (lines_digest sha256Hex ls) = lines_digest sha256Hex ls" "single_line (lines_digest sha256Hex ls)"
proof -
  let ?d = "lines_digest sha256Hex ls"
  have "list_all (\<lambda>c. is_digit c \<or> CHR ''a'' \<le> c \<and> c \<le> CHR ''f'') (sha256Hex (join_with newline ls))"
    using assms by (simp add: hex_digests_def hex_run_def)
  then have "\<forall>c \<in> set ?d. is_digit c \<or> CHR ''a'' \<le> c \<and> c \<le> CHR ''f''"
    by (auto simp: lines_digest_def list_all_iff dest: in_set_takeD)
  with hex_char_clean have clean: "\<forall>c \<in> set ?d. \<not> is_trim_space c \<and> c \<noteq> CHR 0x0A" by blast
  then show "trim ?d = ?d" by (intro trim_clean) (simp add: list_all_iff)
  from clean show "single_line ?d" by (auto simp: single_line_def)
qed

lemma split_terminated:
  "\<forall>l \<in> set h. c \<notin> set l \<Longrightarrow> split_on c (concat (map (\<lambda>l. l @ [c]) h) @ t) = h @ split_on c t"
  by (induction h) (simp_all add: split_on_append split_on_no_sep)

lemma written_lines:
  assumes "list_all data_line ls" "ls \<noteq> []" "plain_header env policy source" "hex_digests sha256Hex"
  shows "split_on (CHR 0x0A) (rules_text sha256Hex ls (rp_workspaceId policy) (we_generatedAt env) source)
     = header_lines (lines_digest sha256Hex ls) (rp_workspaceId policy) (we_generatedAt env) source @ ls @ ['''']"
proof -
  let ?h = "header_lines (lines_digest sha256Hex ls) (rp_workspaceId policy) (we_generatedAt env) source"
  have "CHR 0x0A \<notin> set em_dash" by (simp add: em_dash_def)
  then have "\<forall>l \<in> set ?h. CHR 0x0A \<notin> set l"
    using assms(3) digest_clean(2) [OF assms(4), of ls]
    by (auto simp: header_lines_def plain_header_def single_line_def RULES_COLUMNS_def tab_def split: option.splits)
  moreover have "split_on (CHR 0x0A) (join_with [CHR 0x0A] ls @ [CHR 0x0A]) = ls @ ['''']"
    using assms(1,2) by (simp add: split_on_append split_on_join list_all_iff data_line_def)
  ultimately show ?thesis by (simp add: rules_text_def newline_def split_terminated)
qed

lemma header_comments: "l \<in> set (header_lines d w g source) \<Longrightarrow> prefix ''#'' l"
  by (auto simp: header_lines_def split: option.splits)

lemma written_data:
  assumes "list_all data_line ls"
  shows "data_lines (header_lines d w g source @ ls @ ['''']) = ls"
proof -
  have "filter (\<lambda>l. l \<noteq> '''' \<and> \<not> prefix ''#'' l) (header_lines d w g source) = []"
    using header_comments by (auto simp: filter_empty_conv)
  moreover have "filter (\<lambda>l. l \<noteq> '''' \<and> \<not> prefix ''#'' l) ls = ls"
    using assms by (auto simp: filter_id_conv list_all_iff data_line_def prefix_def)
  ultimately show ?thesis by (simp add: data_lines_def)
qed

lemma read_header:
  "read_lines env (header_lines d w g source) snap = snap\<lparr>sn_digest := trim d, sn_workspaceId := trim w, sn_generatedAt := trim g\<rparr>"
proof -
  have "read_line env (''#source '' @ s) snap = snap" for s snap by (simp add: read_line_def)
  then show ?thesis
    by (simp add: read_lines_def header_lines_def split: option.split) (simp add: read_line_def)
qed

lemma read_data_frame:
  assumes "data_line l"
  shows "sn_digest (read_line env l snap) = sn_digest snap" "sn_workspaceId (read_line env l snap) = sn_workspaceId snap"
    "sn_generatedAt (read_line env l snap) = sn_generatedAt snap"
proof -
  from assms obtain c r where "l = c # r" "c \<noteq> CHR ''#''" by (cases l) (auto simp: data_line_def)
  then show "sn_digest (read_line env l snap) = sn_digest snap" "sn_workspaceId (read_line env l snap) = sn_workspaceId snap"
    "sn_generatedAt (read_line env l snap) = sn_generatedAt snap"
    by (simp_all add: read_line_def Let_def split: option.split)
qed

lemma read_data_lines_frame:
  assumes "list_all data_line ls"
  shows "sn_digest (read_lines env ls snap) = sn_digest snap \<and> sn_workspaceId (read_lines env ls snap) = sn_workspaceId snap"
  using assms unfolding read_lines_def by (induction ls arbitrary: snap) (simp_all add: read_data_frame)

lemma read_empty [simp]: "read_line env '''' snap = snap"
  by (simp add: read_line_def)

lemma read_lines_append: "read_lines env (as @ bs) snap = read_lines env bs (read_lines env as snap)"
  by (simp add: read_lines_def)

lemma read_written:
  assumes "list_all data_line ls" "ls \<noteq> []" "plain_header env policy source" "hex_digests sha256Hex"
  shows "read_lines renv (split_on (CHR 0x0A) (rules_text sha256Hex ls (rp_workspaceId policy) (we_generatedAt env) source)) snap
     = read_lines renv ls (snap\<lparr>sn_digest := lines_digest sha256Hex ls, sn_workspaceId := trim (rp_workspaceId policy),
         sn_generatedAt := trim (we_generatedAt env)\<rparr>)"
  unfolding written_lines [OF assms] read_lines_append read_header digest_clean(1) [OF assms(4)]
  by (simp add: read_lines_def)

text \<open>The lines of a snapshot, its records first.\<close>

lemma some_rule: "compile_snapshot env policy toks mode sops = Some c \<Longrightarrow> cs_rules c \<noteq> []"
  by (auto simp: compile_snapshot_def snapshotRules_def Let_def DESTRUCTIVE_COMMAND_PATTERNS_def)

lemma snapshot_data_lines:
  assumes "readable env policy c" and "compile_snapshot env policy toks mode sops = Some c"
  shows "list_all data_line (snapshot_lines env policy c)" "snapshot_lines env policy c \<noteq> []"
  using assms(1) some_rule [OF assms(2)]
  by (auto simp: snapshot_lines_def readable_def list_all_iff intro!: toRulesLine_shape(1))

lemma record_line_tagged:
  "l \<in> set (record_lines env policy c) \<Longrightarrow>
     \<exists>t \<in> {SSO_GROUP_RECORD_TAG, MCP_REGISTRY_RECORD_TAG, MCP_ALLOWLIST_RECORD_TAG, INTERVENTION_MODE_RECORD_TAG,
           SNAPSHOT_FORMAT_RECORD_TAG, DECIDE_RECORD_TAG, RULE_RECORD_TAG}. tagged t l"
  by (auto simp: record_lines_def Let_def tagged_def encodeInterventionModeRecord_def encodeSsoGroupRecord_def
      encodeMcpRegistryRecord_def encodeMcpAllowlistRecord_def encodeDecideRecord_def encodeGateRuleRecord_def
      split: if_splits option.splits)

lemma read_record_rules:
  assumes "tagged t l" "t \<in> {SSO_GROUP_RECORD_TAG, MCP_REGISTRY_RECORD_TAG, MCP_ALLOWLIST_RECORD_TAG, INTERVENTION_MODE_RECORD_TAG,
           SNAPSHOT_FORMAT_RECORD_TAG, DECIDE_RECORD_TAG, RULE_RECORD_TAG}"
  shows "sn_rules (read_line env l snap) = sn_rules snap \<and> sn_droppedRules (read_line env l snap) = sn_droppedRules snap"
  using assms(2,1) by (auto simp: read_line_def split: option.split)

lemma read_records_rules:
  assumes "\<forall>l \<in> set ls. l \<in> set (record_lines env policy c)"
  shows "sn_rules (read_lines renv ls snap) = sn_rules snap \<and> sn_droppedRules (read_lines renv ls snap) = sn_droppedRules snap"
  using assms unfolding read_lines_def
proof (induction ls arbitrary: snap)
  case (Cons l ls)
  then have "sn_rules (read_line renv l snap) = sn_rules snap \<and> sn_droppedRules (read_line renv l snap) = sn_droppedRules snap"
    using record_line_tagged read_record_rules by (metis list.set_intros(1))
  with Cons show ?case by simp
qed simp

abbreviation rule_of :: "'re SnapshotEnv \<Rightarrow> GuardPattern \<Rightarrow> 're Rule option" where
  "rule_of renv p \<equiv> read_rule (en_regexes renv) (rule_columns p)"

lemma read_rule_lines:
  "list_all tidy_rule ps \<Longrightarrow>
     sn_rules (read_lines renv (map toRulesLine ps) snap) = sn_rules snap @ List.map_filter (rule_of renv) ps
     \<and> sn_droppedRules (read_lines renv (map toRulesLine ps) snap) = sn_droppedRules snap + length (filter (\<lambda>p. rule_of renv p = None) ps)"
proof (induction ps arbitrary: snap)
  case (Cons p ps)
  then show ?case
    by (cases "rule_of renv p") (simp_all add: read_lines_def read_rule_line List.map_filter_simps)
qed (simp add: read_lines_def List.map_filter_simps)

lemma read_snapshot_lines:
  assumes "readable env policy c"
  shows "sn_rules (read_lines renv (snapshot_lines env policy c) snap) = sn_rules snap @ List.map_filter (rule_of renv) (cs_rules c)
    \<and> sn_droppedRules (read_lines renv (snapshot_lines env policy c) snap)
      = sn_droppedRules snap + length (filter (\<lambda>p. rule_of renv p = None) (cs_rules c))"
proof -
  have "list_all tidy_rule (cs_rules c)" using assms by (simp add: readable_def)
  then show ?thesis
    unfolding snapshot_lines_def read_lines_append using read_records_rules [of "record_lines env policy c" env policy c] by (simp add: read_rule_lines)
qed

lemma written_artifacts:
  assumes "writeSnapshotFiles env pretty policy toks mode source sops = Some a"
    and "compile_snapshot env policy toks mode sops = Some c"
  shows "at_rules a = rules_text (we_sha256Hex env) (snapshot_lines env policy c) (rp_workspaceId policy) (we_generatedAt env) source"
    "at_digest a = lines_digest (we_sha256Hex env) (snapshot_lines env policy c)"
  using assms by (auto simp: writeSnapshotFiles_def Let_def)

text \<open>Every rule line is read back as the columns it was written from, in the order of the rules; a rule
  whose pattern does not compile is counted, and no record line is taken for a rule.\<close>

theorem written_rules_read:
  assumes "writeSnapshotFiles env pretty policy toks mode source sops = Some a"
    and "compile_snapshot env policy toks mode sops = Some c"
    and "readable env policy c" and "plain_header env policy source" and "hex_digests (we_sha256Hex env)"
  shows "sn_rules (read_lines renv (split_on (CHR 0x0A) (at_rules a)) new_snapshot) = List.map_filter (rule_of renv) (cs_rules c)
    \<and> sn_droppedRules (read_lines renv (split_on (CHR 0x0A) (at_rules a)) new_snapshot)
      = length (filter (\<lambda>p. rule_of renv p = None) (cs_rules c))"
  unfolding written_artifacts(1) [OF assms(1,2)] read_written [OF snapshot_data_lines [OF assms(3,2)] assms(4,5)]
  by (simp add: read_snapshot_lines [OF assms(3)]) (simp add: new_snapshot_def)

text \<open>A written file passes the writer's own check and, in a gate of the same workspace (or one that
  compares none), the gate's: it is never invalid, and carries the digest that was written.\<close>

lemma written_digest:
  assumes "readable env policy c" "compile_snapshot env policy toks mode sops = Some c" "plain_header env policy source"
    "hex_digests (we_sha256Hex env)"
  shows "snapshot_digest (we_sha256Hex env)
       (split_on (CHR 0x0A) (rules_text (we_sha256Hex env) (snapshot_lines env policy c) (rp_workspaceId policy) (we_generatedAt env) source))
     = lines_digest (we_sha256Hex env) (snapshot_lines env policy c)"
  unfolding written_lines [OF snapshot_data_lines [OF assms(1,2)] assms(3,4)]
  by (simp add: snapshot_digest_def written_data [OF snapshot_data_lines(1) [OF assms(1,2)]] lines_digest_def newline_def)

lemma written_verifies:
  assumes "readable env policy c" "compile_snapshot env policy toks mode sops = Some c" "plain_header env policy source"
    "hex_digests (we_sha256Hex env)"
  shows "snapshotRulesVerify (we_sha256Hex env)
     (rules_text (we_sha256Hex env) (snapshot_lines env policy c) (rp_workspaceId policy) (we_generatedAt env) source)"
proof -
  let ?d = "lines_digest (we_sha256Hex env) (snapshot_lines env policy c)"
  note ls = written_lines [OF snapshot_data_lines [OF assms(1,2)] assms(3,4)]
  have "find (prefix ''#digest '') (header_lines ?d (rp_workspaceId policy) (we_generatedAt env) source @ snapshot_lines env policy c @ ['''']) = Some (''#digest '' @ ?d)"
    by (simp add: header_lines_def)
  with written_digest [OF assms] show ?thesis
    unfolding snapshotRulesVerify_def Let_def unfolding ls by (simp add: digest_clean(1) [OF assms(4)])
qed

definition same_workspace :: "string \<Rightarrow> ResolvedPolicy \<Rightarrow> bool" where
  "same_workspace workspaceId policy \<longleftrightarrow> trim (rp_workspaceId policy) = '''' \<or> workspaceId = '''' \<or> trim (rp_workspaceId policy) = workspaceId"

lemma select_rules_workspace [simp]: "sn_workspaceId (select_rules opts s) = sn_workspaceId s"
  by simp

lemma check_integrity_valid:
  assumes "sn_state s = StOk" "snapshot_digest (en_sha256Hex renv) ls = sn_digest s"
    "sn_workspaceId s = '''' \<or> workspaceId = '''' \<or> sn_workspaceId s = workspaceId"
  shows "sn_state (check_integrity renv workspaceId ls s) \<in> {StOk, StEmpty}"
    "sn_digest (check_integrity renv workspaceId ls s) = sn_digest s"
  using assms by (auto simp: check_integrity_def Let_def)

lemma load_written:
  assumes "readable env policy c" "compile_snapshot env policy toks mode sops = Some c" "plain_header env policy source"
    "hex_digests (we_sha256Hex env)" "en_sha256Hex renv = we_sha256Hex env" "same_workspace workspaceId policy"
    and "file = rules_text (we_sha256Hex env) (snapshot_lines env policy c) (rp_workspaceId policy) (we_generatedAt env) source"
  shows "sn_state (loadSnapshot renv workspaceId (Some file) opts) \<notin> {StInvalid, StAbsent}
     \<and> sn_digest (loadSnapshot renv workspaceId (Some file) opts) = lines_digest (we_sha256Hex env) (snapshot_lines env policy c)"
proof -
  let ?d = "lines_digest (we_sha256Hex env) (snapshot_lines env policy c)"
  let ?s = "select_rules opts (read_lines renv (split_on (CHR 0x0A) file) (new_snapshot\<lparr>sn_state := StOk\<rparr>))"
  have frame: "sn_digest ?s = ?d" "sn_workspaceId ?s = trim (rp_workspaceId policy)" "sn_state ?s = StOk"
    unfolding assms(7) read_written [OF snapshot_data_lines [OF assms(1,2)] assms(3,4)]
    by (simp_all add: read_data_lines_frame [OF snapshot_data_lines(1) [OF assms(1,2)]])
  have "sn_state (check_integrity renv workspaceId (split_on (CHR 0x0A) file) ?s) \<in> {StOk, StEmpty}"
    "sn_digest (check_integrity renv workspaceId (split_on (CHR 0x0A) file) ?s) = ?d"
    using check_integrity_valid [OF frame(3), of renv "split_on (CHR 0x0A) file" workspaceId]
      written_digest [OF assms(1-4)] frame assms(5,6) by (simp_all add: assms(7) same_workspace_def)
  then show ?thesis
    using check_age_state [of renv "check_integrity renv workspaceId (split_on (CHR 0x0A) file) ?s"]
    by (auto simp: loadSnapshot_def Let_def)
qed


section \<open>Interrupted writes\<close>

lemma restore_rules:
  assumes "sf_keptRules fs = Some r" "sf_keptJson fs = Some j" "snapshotRulesVerify sha256Hex r"
  shows "sf_liveRules (snd (restoreVerifiedFiles sha256Hex 2 fs)) = Some r \<and> sf_liveJson (snd (restoreVerifiedFiles sha256Hex 2 fs)) = Some j"
  using assms by (auto simp: restoreVerifiedFiles_def Let_def numeral_2_eq_2)

text \<open>C11: A write that stops after \<open>n\<close> of its four files, and the self-heal after it: both artifacts are the old
  ones, or both the new, except after the first file, when the old rules stay in force beside the new JSON.\<close>

theorem interrupted_write:
  assumes "sf_keptRules fs = Some oldRules" "sf_keptJson fs = Some oldJson"
    and "snapshotRulesVerify sha256Hex oldRules" "snapshotRulesVerify sha256Hex rules"
  shows "sf_liveRules (snd (restoreVerifiedFiles sha256Hex 2 (write_files json rules n fs))) = Some (if n < 2 then oldRules else rules)
     \<and> sf_liveJson (snd (restoreVerifiedFiles sha256Hex 2 (write_files json rules n fs))) = Some (if n < 1 then oldJson else json)"
proof -
  let ?fs = "write_files json rules n fs"
  have "sf_keptRules ?fs = Some (if n < 2 then oldRules else rules) \<and> sf_keptJson ?fs = Some (if n < 1 then oldJson else json)"
    using assms(1,2) by (auto simp: write_files_def take_Cons split: nat.split)
  moreover have "snapshotRulesVerify sha256Hex (if n < 2 then oldRules else rules)" using assms(3,4) by simp
  ultimately show ?thesis using restore_rules by blast
qed

text \<open>A failed restore of a live file that differs, yet verifies on its own, reports \<open>intact\<close>.\<close>

lemma failed_restore_intact:
  "sf_keptRules fs = Some kept \<Longrightarrow> sf_keptJson fs = Some j \<Longrightarrow> snapshotRulesVerify sha256Hex kept \<Longrightarrow>
   sf_liveRules fs = Some old \<Longrightarrow> old \<noteq> kept \<Longrightarrow> snapshotRulesVerify sha256Hex old \<Longrightarrow>
   fst (restoreVerifiedFiles sha256Hex 0 fs) = Intact"
  by (simp add: restoreVerifiedFiles_def verifies_def)

section \<open>Observe-only workspaces\<close>

lemma no_fallback_column:
  assumes "decodeGateRuleRecord jsonParse line = Some r" "split_on tab line = t # ''-'' # cols"
  shows "gr_fallbackId r = None"
proof -
  from assms obtain kind ro p where "decode_payload kind ''-'' ro p = Some r"
    by (auto simp: decodeGateRuleRecord_def split: list.splits option.splits json.splits if_splits)
  then show ?thesis by (auto simp: decode_payload_def Let_def split: option.splits json.splits if_splits)
qed

lemma stamped_null_fallback:
  assumes "fromServedGateRecord numStr jsonParse (stamp_served True (JObj kvs)) = Some g"
  shows "gr_fallbackId g = None"
proof -
  have f: "json_field (stamp_served True (JObj kvs)) ''fallbackId'' = Some JNull"
    by (simp add: stamp_served_def update_conv')
  have "split_on tab (join_with [tab] (RULE_RECORD_TAG # ''-'' # c # cs)) = RULE_RECORD_TAG # ''-'' # split_on tab (join_with [tab] (c # cs))" for c cs
    by (simp add: split_on_append split_on_no_sep RULE_RECORD_TAG_def tab_def)
  moreover from assms f obtain c cs where
    "decodeGateRuleRecord jsonParse (join_with [tab] (RULE_RECORD_TAG # ''-'' # c # cs)) = Some g"
    unfolding fromServedGateRecord_def by (auto simp del: join_with.simps stamp_served_def split: option.splits json.splits if_splits)
  ultimately show ?thesis using no_fallback_column by blast
qed

lemma served_record_object: "parse_served_record v = Some r \<Longrightarrow> \<exists>kvs. r = JObj kvs"
  by (auto simp: parse_served_record_def Let_def split: option.splits json.splits if_splits)

lemma compiled_shadow:
  "se_shadow entry \<Longrightarrow> r \<in> set (fst (compileSopGateRecords entry fm sha256Hex)) \<Longrightarrow> gr_fallbackId r = None"
proof -
  have requires: "r \<in> set (compile_requires mk n es) \<Longrightarrow> \<exists>m b. r = mk m b" for mk n and es :: "(string \<times> string \<times> bool) list" and r
    by (induction es arbitrary: n) (auto split: if_splits)
  assume "se_shadow entry" "r \<in> set (fst (compileSopGateRecords entry fm sha256Hex))"
  then have "\<exists>m b. r = compiled_record sha256Hex entry Shadow m b"
    using requires by (fastforce simp: compileSopGateRecords_def compiled_rollout_def Let_def split: if_splits option.splits)
  then show ?thesis by (auto simp: compiled_record_def)
qed

lemma set_add_fallbacks: "set (add_fallbacks seen fs) \<subseteq> set fs"
  by (induction fs arbitrary: seen) auto

text \<open>In a SILENT_LOG workspace no rule record has a fallback line.\<close>

lemma silent_gate_records:
  assumes "is_silent_log policy"
  shows "snd (compileGateRecords env policy sops) = []"
proof -
  have served: "\<exists>kvs. r = stamp_served True (JObj kvs)" if "r \<in> set (served_records env policy)" for r
    using that assms served_record_object by (fastforce simp: served_records_def parseServedGateRecords_def set_map_filter_some)
  have unread: "unreadableRecordFallback env r = None" if "r \<in> set (served_records env policy)" for r
    using served [OF that] by (auto simp: unreadableRecordFallback_def stamp_served_def update_conv')
  have "gr_fallbackId g = None" if "g \<in> set (fst (compileGateRecords env policy sops))" for g
  proof -
    from that consider r where "r \<in> set (served_records env policy)" "read_served env r = Some g"
      | "g \<in> set (local_records env policy sops)"
      by (auto simp: compileGateRecords_def Let_def set_map_filter_some)
    then show ?thesis
    proof cases
      case (1 r)
      then obtain kvs where "fromServedGateRecord (we_numStr env) (we_jsonParse env) (stamp_served True (JObj kvs)) = Some g"
        using served by (fastforce simp: read_served_def)
      then show ?thesis by (rule stamped_null_fallback)
    next
      case 2
      then obtain s :: LocalSop where "g \<in> set (fst (compileSopGateRecords ((lp_entry s)\<lparr>se_shadow := True\<rparr>) (lp_front s) (we_sha256Hex env)))"
        using assms by (auto simp: local_records_def)
      then show ?thesis by (rule compiled_shadow [rotated]) simp
    qed
  qed
  then have "List.map_filter gateRuleFallback (fst (compileGateRecords env policy sops)) = []"
    by (auto simp: List.map_filter_def filter_empty_conv gateRuleFallback_def)
  moreover have "List.map_filter (\<lambda>r. if read_served env r = None then unreadableRecordFallback env r else None) (served_records env policy) = []"
    using unread by (auto simp: List.map_filter_def filter_empty_conv)
  ultimately show ?thesis by (simp add: compileGateRecords_def Let_def)
qed

lemma collect_decide_members:
  "collect_decide f is = Some (rs, fs) \<Longrightarrow>
     (\<forall>p \<in> set fs. \<exists>i \<in> set is. \<exists>rs' fs'. f i = Some (rs', fs') \<and> p \<in> set fs')
     \<and> (\<forall>r \<in> set rs. \<exists>i \<in> set is. \<exists>rs' fs'. f i = Some (rs', fs') \<and> r \<in> set rs' \<and> set fs' \<subseteq> set fs)"
proof (induction "is" arbitrary: rs fs)
  case (Cons i "is")
  then obtain r1 f1 r2 f2 where
    "f i = Some (r1, f1)" "collect_decide f is = Some (r2, f2)" "rs = r1 @ r2" "fs = f1 @ f2"
    by (auto split: option.splits)
  with Cons.IH show ?case by (fastforce simp: subset_iff)
qed simp

lemma decideFallbackPattern_Some:
  "decideFallbackPattern rx i tools sev reason = Some p \<Longrightarrow> gp_id p = i \<and> gp_severity p = sev"
  by (auto simp: decideFallbackPattern_def Let_def guard_def split: if_splits)

lemma silent_stamp: "fst (stampDecideRule enforces served True pins localDisable) = Shadow"
  by (simp add: stampDecideRule_def)

lemma silent_decide_fallbacks:
  assumes "is_silent_log policy" "compileDecideRules env policy = Some (rs, fs)" "p \<in> set fs"
  shows "gp_severity p = ''shadow''"
proof -
  from assms(1,2) have c: "\<exists>disable. collect_decide
      (\<lambda>i. compile_decide_rule env True disable (rp_decideRules policy ! i) (place_in_sop (rp_decideRules policy) i + 1)
          (decl_of env (rp_decideRules policy) i)) [0..<length (rp_decideRules policy)] = Some (rs, fs)"
    by (auto simp: compileDecideRules_def Let_def)
  then obtain disable r line decl rs' fs' where f: "compile_decide_rule env True disable r line decl = Some (rs', fs')" "p \<in> set fs'"
    using collect_decide_members assms(3) by blast
  show ?thesis
  proof (cases decl)
    case (Unreadable i e)
    with f show ?thesis
      by (auto simp: compile_decide_rule_def unreadable_fallback_def dest!: decideFallbackPattern_Some)
  next
    case (DeclRule rule w)
    with f show ?thesis by (auto simp: compile_decide_rule_def Let_def silent_stamp split: option.splits if_splits)
  qed
qed

lemma shadow_patterns:
  "toGuardPattern rx r True = Some p \<Longrightarrow> gp_severity p = ''shadow''"
  "localHoldPattern t True mode = Some p \<Longrightarrow> gp_severity p = ''shadow''"
  "gp_severity (destructive_rule True strict p) = ''shadow''"
  "gp_severity (hold_pattern True h) = ''shadow''"
  by (auto simp: toGuardPattern_def localHoldPattern_def destructive_rule_def hold_pattern_def guard_def Let_def
      split: if_splits prod.splits)

lemma silent_rest:
  assumes "is_silent_log policy" "\<forall>p \<in> set lanes. gp_severity p = ''shadow''" "\<forall>p \<in> set dfs. gp_severity p = ''shadow''"
  shows "\<exists>rest. snapshotRules env policy toks mode dfs [] lanes = ssoGroupPatterns (we_regexes env) policy @ rest
    \<and> (\<forall>p \<in> set rest. gp_severity p = ''shadow'')"
  using assms unfolding snapshotRules_def Let_def append_assoc
  by (simp only: simp_thms if_True append_Nil same_append_eq ex_simps)
    (auto simp: set_map_filter_some shadow_patterns)

text \<open>C10: SILENT_LOG is observe only: every rule of the snapshot is a shadow rule, the SSO group refusals
  apart, and no rule record keeps a fallback line.\<close>

theorem silent_log_observes:
  assumes "is_silent_log policy" and "compile_snapshot env policy toks mode sops = Some c"
  shows "\<exists>rest. cs_rules c = ssoGroupPatterns (we_regexes env) policy @ rest \<and> (\<forall>p \<in> set rest. gp_severity p = ''shadow'')"
proof -
  from assms(2) obtain rs fs where d: "compileDecideRules env policy = Some (rs, fs)"
    and c: "cs_rules c = snapshotRules env policy toks mode fs [] (laneHoldPatterns_policy policy sops mode)"
    using silent_gate_records [OF assms(1), of env sops] by (auto simp: compile_snapshot_def Let_def)
  have lanes: "\<forall>p \<in> set (laneHoldPatterns_policy policy sops mode). gp_severity p = ''shadow''"
    using assms(1) by (auto simp: laneHoldPatterns_policy_def Let_def shadow_patterns)
  have "\<forall>p \<in> set fs. gp_severity p = ''shadow''" using silent_decide_fallbacks [OF assms(1) d] by blast
  from silent_rest [OF assms(1) lanes this] c show ?thesis by simp
qed

section \<open>Fallback lines\<close>

text \<open>The rule that refuses under an id, for the gates that cannot read the record naming it.\<close>

definition blocked_by :: "string \<Rightarrow> GuardPattern list \<Rightarrow> bool" where
  "blocked_by i ps \<longleftrightarrow> (\<exists>p \<in> set ps. gp_id p = i \<and> gp_severity p = ''block'')"

lemma add_fallbacks_ids: "gp_id ` set (add_fallbacks seen fs) = gp_id ` set fs - set seen"
  by (induction fs arbitrary: seen) auto

lemma fallbackPattern_block: "gp_id (fallbackPattern rx f) = gf_id f \<and> gp_severity (fallbackPattern rx f) = ''block''"
  by (simp add: fallbackPattern_def guard_def)

lemma gateRuleFallback_id: "gr_fallbackId r = Some i \<Longrightarrow> \<exists>f. gateRuleFallback r = Some f \<and> gf_id f = i"
  by (simp add: gateRuleFallback_def split: prod.split)

lemma unreadable_block: "unreadableRecordFallback env r = Some p \<Longrightarrow> gp_severity p = ''block''"
  by (auto simp: unreadableRecordFallback_def Let_def guard_def split: if_splits)

lemma record_fallbacks_block:
  assumes "r \<in> set (fst (compileGateRecords env policy sops))" "gr_fallbackId r = Some i"
  shows "blocked_by i (snd (compileGateRecords env policy sops))"
proof -
  let ?fs = "List.map_filter (\<lambda>r. if read_served env r = None then unreadableRecordFallback env r else None) (served_records env policy)
    @ map (fallbackPattern (we_regexes env)) (List.map_filter gateRuleFallback (fst (compileGateRecords env policy sops)))"
  have snd: "snd (compileGateRecords env policy sops) = add_fallbacks [] ?fs" by (simp add: compileGateRecords_def Let_def)
  from gateRuleFallback_id [OF assms(2)] obtain f where f: "gateRuleFallback r = Some f" "gf_id f = i" by blast
  then have "f \<in> set (List.map_filter gateRuleFallback (fst (compileGateRecords env policy sops)))"
    using assms(1) by (auto simp: set_map_filter_some)
  then have "fallbackPattern (we_regexes env) f \<in> set ?fs" by simp
  with f(2) have "i \<in> gp_id ` set ?fs" by (intro image_eqI [of _ _ "fallbackPattern (we_regexes env) f"]) (simp_all only: fallbackPattern_block)
  then have "i \<in> gp_id ` set (add_fallbacks [] ?fs)" by (simp only: add_fallbacks_ids Diff_empty list.set)
  then obtain g where g: "g \<in> set (add_fallbacks [] ?fs)" "gp_id g = i" by blast
  then have "g \<in> set ?fs" using set_add_fallbacks by blast
  moreover have "\<forall>p \<in> set ?fs. gp_severity p = ''block''"
    using fallbackPattern_block unreadable_block by (auto simp: set_map_filter_some split: if_splits)
  ultimately show ?thesis using g unfolding snd blocked_by_def by blast
qed

lemma compiled_decide_fallback:
  assumes "compile_decide_rule env silentLog disable r line decl = Some (rs, fs)" "d \<in> set rs"
    "json_field d ''fallbackId'' = Some (JStr i)"
  shows "blocked_by i fs"
proof (cases decl)
  case (Unreadable j e)
  with assms show ?thesis by (auto simp: compile_decide_rule_def)
next
  case (DeclRule rule w)
  with assms show ?thesis
    by (auto simp: compile_decide_rule_def Let_def decide_record_json_def blocked_by_def
        dest!: decideFallbackPattern_Some split: option.splits if_splits)
qed

lemma decide_fallbacks_block:
  assumes "compileDecideRules env policy = Some (rs, fs)" "d \<in> set rs" "json_field d ''fallbackId'' = Some (JStr i)"
  shows "blocked_by i fs"
proof -
  from assms(1) obtain disable silentLog where "collect_decide
      (\<lambda>i. compile_decide_rule env silentLog disable (rp_decideRules policy ! i) (place_in_sop (rp_decideRules policy) i + 1)
          (decl_of env (rp_decideRules policy) i)) [0..<length (rp_decideRules policy)] = Some (rs, fs)"
    by (auto simp: compileDecideRules_def Let_def)
  from collect_decide_members [OF this] assms(2) obtain r line decl rs' fs' where
    "compile_decide_rule env silentLog disable r line decl = Some (rs', fs')" "d \<in> set rs'" "set fs' \<subseteq> set fs"
    by blast
  with compiled_decide_fallback [OF _ _ assms(3)] show ?thesis by (fastforce simp: blocked_by_def)
qed

lemma blocked_by_mono: "blocked_by i ps \<Longrightarrow> set ps \<subseteq> set qs \<Longrightarrow> blocked_by i qs"
  by (auto simp: blocked_by_def)

lemma fallbacks_are_rules: "set dfs \<union> set rfs \<subseteq> set (snapshotRules env policy toks mode dfs rfs lanes)"
  unfolding snapshotRules_def Let_def by auto

text \<open>C9: No rule depends on a gate that reads records: each record that names a fallback line, a decide
  record or a rule record, has a blocking rule of that id in the same file.\<close>

theorem records_fall_back:
  assumes "compile_snapshot env policy toks mode sops = Some c"
  shows "(\<forall>r \<in> set (cs_records c). \<forall>i. gr_fallbackId r = Some i \<longrightarrow> blocked_by i (cs_rules c))
    \<and> (\<forall>d \<in> set (cs_decide c). \<forall>i. json_field d ''fallbackId'' = Some (JStr i) \<longrightarrow> blocked_by i (cs_rules c))"
proof -
  from assms obtain rs fs where d: "compileDecideRules env policy = Some (rs, fs)"
    and c: "cs_decide c = rs" "cs_records c = fst (compileGateRecords env policy sops)"
    "cs_rules c = snapshotRules env policy toks mode fs (snd (compileGateRecords env policy sops)) (laneHoldPatterns_policy policy sops mode)"
    by (auto simp: compile_snapshot_def Let_def)
  have "set fs \<union> set (snd (compileGateRecords env policy sops)) \<subseteq> set (cs_rules c)"
    unfolding c(3) by (rule fallbacks_are_rules)
  then have "set (snd (compileGateRecords env policy sops)) \<subseteq> set (cs_rules c)" "set fs \<subseteq> set (cs_rules c)" by simp_all
  then show ?thesis
    unfolding c(1,2) using record_fallbacks_block decide_fallbacks_block [OF d] blocked_by_mono by blast
qed

section \<open>A refused key\<close>

text \<open>The rewrite of a refused key compiles with no local SOP, so the lane holds it keeps are the served
  ones: those of the local SOPs' closed lanes are gone.\<close>

lemma forgotten_lane_holds:
  "laneHoldPatterns_policy policy [] mode
     = map (\<lambda>r. hold_pattern (is_silent_log policy) (r, False)) (filter hold_rule_ok (rp_holdRules policy))"
  by (simp add: laneHoldPatterns_policy_def localLaneHoldRules_def laneHoldTokens_def workspace_held_def Let_def comp_def)

section \<open>Concrete snapshots\<close>

definition sample_regexes :: "string Regexes" where
  "sample_regexes = \<lparr>rx_new = (\<lambda>s flags. Some s), rx_test = (\<lambda>re s. sublist re s), rx_exec = (\<lambda>re s i. None)\<rparr>"

definition sample_writer :: "string WriterEnv" where
  "sample_writer = \<lparr>we_regexes = sample_regexes, we_jsonParse = (\<lambda>s. None), we_numStr = (\<lambda>r. ''0''),
     we_sha256Hex = (\<lambda>s. replicate 64 (CHR ''a'')), we_decideDisabled = False, we_generatedAt = ''2026-01-01T00:00:00.000Z'',
     we_skillContent = []\<rparr>"

definition sample_reader :: "string SnapshotEnv" where
  "sample_reader = \<lparr>en_regexes = sample_regexes, en_jsonParse = (\<lambda>s. None), en_bufferText = (\<lambda>s. s), en_numStr = (\<lambda>r. ''0''),
     en_sha256Hex = (\<lambda>s. replicate 64 (CHR ''a'')), en_dateParse = (\<lambda>s. None), en_now = 0\<rparr>"

definition sample_resolved :: ResolvedPolicy where
  "sample_resolved = localResolvedPolicy\<lparr>rp_workspaceId := ''ws-1'', rp_sopRules :=
     [\<lparr>so_id = ''no-mail'', so_toolPattern = ''^send_mail$'', so_argPattern = None, so_action = ''block'', so_reason = '''', so_origin = None\<rparr>]\<rparr>"

definition sample_local :: LocalSop where
  "sample_local = \<lparr>lp_entry = sample_sop, lp_front = sample_front,
     lp_lanes = \<lparr>closedLanes = [''irreversible''], openActions = [], riskTier = None\<rparr>\<rparr>"

definition sample_compiled :: CompiledSnapshot where
  "sample_compiled = the (compile_snapshot sample_writer sample_resolved [] ModeHold [sample_local])"

lemma sample_compiles: "compile_snapshot sample_writer sample_resolved [] ModeHold [sample_local] = Some sample_compiled"
  by (simp add: sample_compiled_def compile_snapshot_def compileDecideRules_def sample_resolved_def localResolvedPolicy_def Let_def)

text \<open>The same policy with no local SOP.\<close>

definition plain_compiled :: CompiledSnapshot where
  "plain_compiled = the (compile_snapshot sample_writer sample_resolved [] ModeHold [])"

lemma plain_compiles: "compile_snapshot sample_writer sample_resolved [] ModeHold [] = Some plain_compiled"
  by (simp add: plain_compiled_def compile_snapshot_def compileDecideRules_def sample_resolved_def localResolvedPolicy_def Let_def)

lemma sample_readable: "readable sample_writer sample_resolved plain_compiled"
  by code_simp

theorem interrupted_write_witness:
  "\<exists>rules. snapshotRulesVerify (\<lambda>s. ''d'') rules
     \<and> sf_liveRules (snd (restoreVerifiedFiles (\<lambda>s. ''d'') 2
          (write_files ''new'' rules 1 \<lparr>sf_liveRules = None, sf_liveJson = None, sf_keptRules = Some ''#digest d'', sf_keptJson = Some ''old''\<rparr>)))
        = Some ''#digest d''
     \<and> sf_liveJson (snd (restoreVerifiedFiles (\<lambda>s. ''d'') 2
          (write_files ''new'' rules 1 \<lparr>sf_liveRules = None, sf_liveJson = None, sf_keptRules = Some ''#digest d'', sf_keptJson = Some ''old''\<rparr>)))
        = Some ''new''"
proof -
  let ?fs = "\<lparr>sf_liveRules = None, sf_liveJson = None, sf_keptRules = Some ''#digest d'', sf_keptJson = Some ''old''\<rparr>"
  have "snapshotRulesVerify (\<lambda>s. ''d'') ''#digest d''" "snapshotRulesVerify (\<lambda>s. ''d'') (''#digest d'' @ newline @ ''r'')"
    by code_simp+
  with interrupted_write [of ?fs "''#digest d''" "''old''" "\<lambda>s. ''d''" "''#digest d'' @ newline @ ''r''" "''new''" 1]
  show ?thesis by (intro exI [of _ "''#digest d'' @ newline @ ''r''"]) simp
qed

lemma sample_writes:
  "\<exists>a. writeSnapshotFiles sample_writer (\<lambda>v. ''{}'') sample_resolved [] ModeHold None [] = Some a"
  by (simp add: writeSnapshotFiles_def plain_compiles)

lemma sample_header: "plain_header sample_writer sample_resolved None" "hex_digests (we_sha256Hex sample_writer)"
proof -
  show "plain_header sample_writer sample_resolved None" by code_simp
  have "hex_run 64 (replicate 64 (CHR ''a''))" by code_simp
  then show "hex_digests (we_sha256Hex sample_writer)" by (simp add: hex_digests_def sample_writer_def)
qed


theorem written_rules_read_witness:
  "\<exists>a. writeSnapshotFiles sample_writer (\<lambda>v. ''{}'') sample_resolved [] ModeHold None [] = Some a
     \<and> sn_rules (read_lines sample_reader (split_on (CHR 0x0A) (at_rules a)) new_snapshot)
       = List.map_filter (rule_of sample_reader) (cs_rules plain_compiled)"
  using sample_writes written_rules_read [OF _ plain_compiles sample_readable sample_header, of _ _ sample_reader] by blast

definition silent_policy :: ResolvedPolicy where
  "silent_policy = sample_resolved\<lparr>rp_interventionMode := ''silent_log''\<rparr>"

theorem silent_log_observes_witness:
  "\<exists>c rest. compile_snapshot sample_writer silent_policy [] ModeHold [sample_local] = Some c
     \<and> cs_rules c = ssoGroupPatterns sample_regexes silent_policy @ rest \<and> (\<forall>p \<in> set rest. gp_severity p = ''shadow'')"
proof -
  have "is_silent_log silent_policy" by code_simp
  moreover have "\<exists>c. compile_snapshot sample_writer silent_policy [] ModeHold [sample_local] = Some c"
    by (simp add: compile_snapshot_def compileDecideRules_def silent_policy_def sample_resolved_def localResolvedPolicy_def Let_def)
  ultimately show ?thesis using silent_log_observes [of silent_policy sample_writer "[]" ModeHold "[sample_local]"]
    by (auto simp: sample_writer_def)
qed

lemma sample_records: "List.map_filter gr_fallbackId (cs_records sample_compiled) =
    [''requires_outcome-fallback:1@aaaaaaaaaaaa'', ''plan_approval-fallback:1@aaaaaaaaaaaa'']"
proof -
  have "nat_str (Suc 0) = ''1''" by (subst nat_str.simps) (simp, code_simp)
  then have "List.map_filter gr_fallbackId (fst (compileSopGateRecords (sample_sop\<lparr>se_shadow := False\<rparr>) sample_front (\<lambda>s. replicate 64 (CHR ''a''))))
      = [''requires_outcome-fallback:1@aaaaaaaaaaaa'', ''plan_approval-fallback:1@aaaaaaaaaaaa'']"
    by (simp add: compileSopGateRecords_def sample_front_def sample_sop_def qualified_entry_def gated_name_def is_az_def is_AZ_def
        compiled_rollout_def compiled_record_def gateRuleFallbackId_def map_filter_simps Let_def numeral_eq_Suc)
  moreover have "\<not> is_silent_log sample_resolved" by code_simp
  moreover have "rp_gateRecords sample_resolved = []" by (simp add: sample_resolved_def localResolvedPolicy_def)
  ultimately show ?thesis
    by (auto simp: sample_compiled_def compile_snapshot_def compileDecideRules_def sample_resolved_def localResolvedPolicy_def
        compileGateRecords_def served_records_def parseServedGateRecords_def local_records_def sample_local_def sample_writer_def
        Let_def List.map_filter_def)
qed

theorem records_fall_back_witness:
  "blocked_by ''plan_approval-fallback:1@aaaaaaaaaaaa'' (cs_rules sample_compiled)"
proof -
  have "''plan_approval-fallback:1@aaaaaaaaaaaa'' \<in> set (List.map_filter gr_fallbackId (cs_records sample_compiled))"
    unfolding sample_records by simp
  then show ?thesis using records_fall_back [OF sample_compiles] by (auto simp: set_map_filter_some)
qed


text \<open>Two \<open>#digest\<close> lines: the writer's check takes the first, the reader the last.\<close>

definition two_digests :: string where
  "two_digests = ''#digest '' @ replicate 32 (CHR ''a'') @ newline @ ''#digest x'' @ newline @ ''r''"

lemma first_digest_only:
  "snapshotRulesVerify (\<lambda>s. replicate 64 (CHR ''a'')) two_digests"
  "sn_state (loadSnapshot sample_reader '''' (Some two_digests) \<lparr>lo_evaluatesDecide = False, lo_evaluatesRules = False\<rparr>) = StInvalid"
  by code_simp+

text \<open>A line break in a pattern is portable to the check, and cuts the rule's line in two.\<close>

definition broken_pattern :: string where
  "broken_pattern = ''send'' @ newline @ ''mail''"

lemma break_is_portable:
  "validateRule sample_regexes broken_pattern = None"
  "length (split_on (CHR 0x0A) (toRulesLine (guard ''sop.x'' (token_source broken_pattern) ''tool'' ''block'' ''r''))) = 2"
  by code_simp+

end
